(* ===== verification/Prelude.thy ===== *)
theory Prelude
  imports Main "HOL-Library.AList" "HOL-Library.Multiset"
begin

text \<open>
  What the components of the model share.

  \<^item> Results: a Go function that returns \<open>(T, error)\<close> is modelled by a sum,
    \<open>Inl\<close> for the error text and \<open>Inr\<close> for the value.
  \<^item> Memory: the store keeps pointers (\<open>*Service\<close>, \<open>*Bookmark\<close>,
    \<open>*DiscoveredService\<close>) that several maps share, and it updates the objects through
    them.  An object lives in a typed heap, a list that only grows; a pointer is an index
    of it.  A Go \<open>nil\<close> is \<open>None\<close>.
  \<^item> Maps: a Go map that is only looked up is a partial function; one that is ranged over is
    an association list with distinct keys, whose order is one of those the runtime may
    choose.
  \<^item> Secondary indexes: \<open>indexes\<close> says that a lookup map agrees exactly with a key
    function on a set of live pointers; its lemmas carry every index of the store.
  \<^item> Steps: the locale \<open>kept\<close> is the contract of what runs by steps of its own.
\<close>

named_theorems index_intros \<open>how an index changes when an object is added, removed or updated\<close>

named_theorems frame_simps \<open>the parts of the state an operation leaves alone\<close>

type_synonym 'a result = "string + 'a"
type_synonym time = int

section \<open>Typed heaps\<close>

type_synonym ref = nat
type_synonym 'a heap = "'a list"

definition alloc :: "'a \<Rightarrow> 'a heap \<Rightarrow> ref \<times> 'a heap" where
  "alloc v h = (length h, h @ [v])"

lemma alloc_fresh: "alloc v h = (r, h') \<Longrightarrow> r \<notin> {..< length h} \<and> r < length h' \<and> h' ! r = v"
  by (auto simp: alloc_def)

lemma alloc_old: "alloc v h = (r, h') \<Longrightarrow> q < length h \<Longrightarrow> h' ! q = h ! q"
  by (auto simp: alloc_def nth_append)

section \<open>Indexes\<close>

text \<open>
  \<open>indexes m R key\<close>: the lookup map \<open>m\<close> holds, for every live pointer of
  \<open>R\<close> that has a key, exactly that pointer under that key, and nothing else.
\<close>

definition indexes :: "('k \<rightharpoonup> ref) \<Rightarrow> ref set \<Rightarrow> (ref \<Rightarrow> 'k option) \<Rightarrow> bool" where
  "indexes m R key \<longleftrightarrow> (\<forall>k r. m k = Some r \<longleftrightarrow> r \<in> R \<and> key r = Some k)"

lemma indexesI:
  "(\<And>k r. m k = Some r \<Longrightarrow> r \<in> R \<and> key r = Some k) \<Longrightarrow>
   (\<And>k r. r \<in> R \<Longrightarrow> key r = Some k \<Longrightarrow> m k = Some r) \<Longrightarrow> indexes m R key"
  unfolding indexes_def by blast

lemma indexes_iff: "indexes m R key \<Longrightarrow> m k = Some r \<longleftrightarrow> r \<in> R \<and> key r = Some k"
  by (simp add: indexes_def)

lemma indexes_None: "indexes m R key \<Longrightarrow> m k = None \<longleftrightarrow> (\<forall>r \<in> R. key r \<noteq> Some k)"
proof -
  assume ix: "indexes m R key"
  have "m k = None \<longleftrightarrow> (\<forall>r. m k \<noteq> Some r)" by simp
  also have "\<dots> \<longleftrightarrow> (\<forall>r \<in> R. key r \<noteq> Some k)"
    unfolding indexes_iff [OF ix] by blast
  finally show ?thesis .
qed

lemma indexes_inj:
  "indexes m R key \<Longrightarrow> r \<in> R \<Longrightarrow> q \<in> R \<Longrightarrow> key r = Some k \<Longrightarrow> key q = Some k \<Longrightarrow> r = q"
  using indexes_iff [of m R key k r] indexes_iff [of m R key k q] by simp

lemma indexes_empty [simp]: "indexes Map.empty {} key"
  by (simp add: indexes_def)

lemma indexes_cong:
  "(\<And>r. r \<in> R \<Longrightarrow> key r = key' r) \<Longrightarrow> indexes m R key = indexes m R key'"
  by (auto simp: indexes_def)

text \<open>Adding a pointer whose key, if it has one, is free.\<close>

lemma indexes_insert [index_intros]:
  assumes "indexes m R key" and "\<And>q. q \<in> R \<Longrightarrow> key' q = key q"
    and "key' r = Some k" and "m k = None" and "r \<notin> R"
  shows "indexes (m(k \<mapsto> r)) (insert r R) key'"
  using assms by (auto simp: indexes_def) (metis option.distinct(1))+

lemma indexes_insert_none [index_intros]:
  assumes "indexes m R key" and "\<And>q. q \<in> R \<Longrightarrow> key' q = key q" and "key' r = None"
  shows "indexes m (insert r R) key'"
  using assms by (auto simp: indexes_def)

text \<open>Removing a pointer, and the entry of its key.\<close>

lemma indexes_remove [index_intros]:
  assumes "indexes m R key" and "r \<in> R" and "key r = Some k"
  shows "indexes (m(k := None)) (R - {r}) key"
  using assms by (auto simp: indexes_def) (metis option.inject)+

lemma indexes_remove_none [index_intros]:
  assumes "indexes m R key" and "key r = None"
  shows "indexes m (R - {r}) key"
  using assms by (auto simp: indexes_def)

lemma indexes_clear_absent:
  "indexes m R key \<Longrightarrow> (\<And>r. r \<in> R \<Longrightarrow> key r \<noteq> Some k) \<Longrightarrow> m(k := None) = m"
  by (auto simp: indexes_def fun_eq_iff) (metis not_None_eq)

text \<open>An object loses its key and stays alive.\<close>

lemma indexes_drop_key:
  assumes "indexes m R key" and "r \<in> R" and "key r = Some k" and "key' r = None"
    and "\<And>q. q \<noteq> r \<Longrightarrow> key' q = key q"
  shows "indexes (m(k := None)) R key'"
proof -
  have "(m(k := None)) j = Some q \<longleftrightarrow> q \<in> R \<and> key' q = Some j" for j q
    using assms indexes_iff [OF assms(1), of j q] indexes_iff [OF assms(1), of k r]
    by (cases "q = r"; cases "j = k") auto
  then show ?thesis by (simp add: indexes_def)
qed

text \<open>An index is determined by what it indexes, and a loop over the objects builds it.\<close>

lemma indexes_unique: "indexes m R key \<Longrightarrow> indexes m' R key \<Longrightarrow> m = m'"
proof -
  assume a: "indexes m R key" "indexes m' R key"
  then have eq: "m k = Some r \<longleftrightarrow> m' k = Some r" for k r
    by (simp add: indexes_iff)
  have "m k = m' k" for k
    using eq [of k "the (m k)"] eq [of k "the (m' k)"] by (cases "m k"; cases "m' k") auto
  then show ?thesis by (rule ext)
qed

definition add_key :: "(ref \<Rightarrow> 'k option) \<Rightarrow> ref \<Rightarrow> ('k \<rightharpoonup> ref) \<Rightarrow> ('k \<rightharpoonup> ref)" where
  "add_key key r m = (case key r of None \<Rightarrow> m | Some k \<Rightarrow> m(k \<mapsto> r))"

lemma add_key_simps [simp]:
  "key r = None \<Longrightarrow> add_key key r m = m"
  "key r = Some k \<Longrightarrow> add_key key r m = m(k \<mapsto> r)"
  by (simp_all add: add_key_def)

definition key_inj :: "(ref \<Rightarrow> 'k option) \<Rightarrow> ref set \<Rightarrow> bool" where
  "key_inj key R \<longleftrightarrow> (\<forall>r \<in> R. \<forall>q \<in> R. key r = key q \<longrightarrow> key r \<noteq> None \<longrightarrow> r = q)"

lemma indexes_key_inj: "indexes m R key \<Longrightarrow> key_inj key R"
  unfolding key_inj_def by (metis indexes_inj not_None_eq)

lemma indexes_fold: "key_inj key (set rs) \<Longrightarrow> indexes (fold (add_key key) rs Map.empty) (set rs) key"
proof (induction rs rule: rev_induct)
  case Nil
  then show ?case by simp
next
  case (snoc r rs)
  let ?m = "fold (add_key key) rs Map.empty"
  from snoc.prems have "key_inj key (set rs)" by (simp add: key_inj_def)
  then have m: "indexes ?m (set rs) key" by (rule snoc.IH)
  show ?case
  proof (cases "key r")
    case None
    then show ?thesis
      using indexes_insert_none [OF m, of key r] by simp
  next
    case (Some k)
    show ?thesis
    proof (cases "r \<in> set rs")
      case True
      then have "?m k = Some r" using m Some by (simp add: indexes_iff)
      then have "?m(k \<mapsto> r) = ?m" by (simp add: fun_upd_idem)
      then show ?thesis using m Some True by (simp add: insert_absorb del: fun_upd_apply)
    next
      case False
      have "q \<in> set rs \<Longrightarrow> key q \<noteq> Some k" for q
        using snoc.prems Some False by (auto simp: key_inj_def)
      then have "?m k = None" using indexes_None [OF m] by blast
      then show ?thesis
        using indexes_insert [OF m, of key r k] Some False by (simp del: fun_upd_apply)
    qed
  qed
qed

section \<open>Association lists as Go maps\<close>

definition refs_of :: "('k \<times> ref) list \<Rightarrow> ref set" where
  "refs_of m = snd ` set m"

lemma refs_of_Nil [simp]: "refs_of [] = {}"
  by (simp add: refs_of_def)

lemma refs_of_Cons [simp]: "refs_of (p # m) = insert (snd p) (refs_of m)"
  by (simp add: refs_of_def)

lemma refs_ofI: "(k, r) \<in> set m \<Longrightarrow> r \<in> refs_of m"
  by (force simp: refs_of_def)

lemma refs_of_update_new:
  "k \<notin> fst ` set m \<Longrightarrow> refs_of (AList.update k r m) = insert r (refs_of m)"
  by (induction m) auto

lemma set_delete_distinct:
  "distinct (map fst m) \<Longrightarrow> (k, r) \<in> set m \<Longrightarrow> set (AList.delete k m) = set m - {(k, r)}"
proof -
  assume a: "distinct (map fst m)" "(k, r) \<in> set m"
  have "p \<in> set m \<Longrightarrow> fst p = k \<longleftrightarrow> p = (k, r)" for p
    using a eq_key_imp_eq_value [of m k r "snd p"] by (cases p) auto
  then have "filter (\<lambda>p. fst p \<noteq> k) m = filter (\<lambda>p. p \<noteq> (k, r)) m"
    by (intro filter_cong) simp_all
  moreover have "AList.delete k m = filter (\<lambda>p. fst p \<noteq> k) m"
    by (simp add: AList.delete_eq case_prod_beta' eq_commute)
  ultimately show ?thesis by auto
qed

lemma map_of_keyed:
  assumes "indexes (map_of m) (refs_of m) key" and "distinct (map fst m)"
  shows "(k, r) \<in> set m \<longleftrightarrow> r \<in> refs_of m \<and> key r = Some k"
  using assms by (simp flip: map_of_eq_Some_iff add: indexes_iff)

lemma refs_of_delete:
  assumes "indexes (map_of m) (refs_of m) key" and "distinct (map fst m)"
    and "r \<in> refs_of m" and "key r = Some k"
  shows "refs_of (AList.delete k m) = refs_of m - {r}"
proof -
  have k: "(k, r) \<in> set m"
    using assms(3,4) map_of_keyed [OF assms(1,2), of k r] by simp
  have u: "k' = k" if "(k', r) \<in> set m" for k'
    using that assms(4) map_of_keyed [OF assms(1,2), of k' r] by simp
  have "q \<in> snd ` (set m - {(k, r)}) \<longleftrightarrow> q \<in> refs_of m \<and> q \<noteq> r" for q
    using u by (force simp: image_iff refs_of_def)
  then show ?thesis
    unfolding refs_of_def [of "AList.delete k m"] set_delete_distinct [OF assms(2) k] by blast
qed

section \<open>Lists\<close>

lemma filter_all: "(\<And>x. x \<in> set xs \<Longrightarrow> P x) \<Longrightarrow> filter P xs = xs"
  by (simp add: filter_id_conv)

lemma distinct_filter_map: "distinct (map f xs) \<Longrightarrow> distinct (map f (filter P xs))"
  by (induction xs) auto

lemma remove_by_index:
  "i < length xs \<Longrightarrow> distinct xs \<Longrightarrow> take i xs @ drop (Suc i) xs = filter (\<lambda>x. x \<noteq> xs ! i) xs"
proof (induction xs arbitrary: i)
  case Nil
  then show ?case by simp
next
  case (Cons x xs)
  then show ?case
    by (cases i) (auto simp: filter_id_conv intro!: sym [OF filter_all])
qed

section \<open>Steps\<close>

text \<open>
  The contract of a component that runs by steps of its own (the writing of the file, the tunnel's
  process, the Docker watcher, the program as a whole): what every step keeps, every run keeps.
\<close>

locale kept =
  fixes moves :: "'s \<Rightarrow> 's \<Rightarrow> bool" and inv :: "'s \<Rightarrow> bool"
  assumes keep: "moves s t \<Longrightarrow> inv s \<Longrightarrow> inv t"
begin

lemma always: "moves\<^sup>*\<^sup>* s t \<Longrightarrow> inv s \<Longrightarrow> inv t"
  by (induction rule: rtranclp_induct) (auto intro: keep)

end

end
