(* ===== verification/GoStrings.thy ===== *)
theory GoStrings
  imports Prelude
begin

text \<open>
  The part of Go's \<open>strings\<close> and \<open>strconv\<close> packages that the program uses,
  with the library's names.  A Go string is a sequence of bytes; so is an Isabelle
  \<open>string\<close>, whose characters are 8 bit.  Case folding and white space are those of
  ASCII: \<open>ToLower\<close> leaves the bytes from 128 up alone, where Go also folds letters
  outside ASCII.
\<close>

abbreviation code :: "char \<Rightarrow> nat" where
  "code c \<equiv> of_char c"

section \<open>Characters\<close>

definition is_lower :: "char \<Rightarrow> bool" where
  "is_lower c \<longleftrightarrow> 97 \<le> code c \<and> code c \<le> 122"

definition is_upper :: "char \<Rightarrow> bool" where
  "is_upper c \<longleftrightarrow> 65 \<le> code c \<and> code c \<le> 90"

definition is_digit :: "char \<Rightarrow> bool" where
  "is_digit c \<longleftrightarrow> 48 \<le> code c \<and> code c \<le> 57"

definition is_space :: "char \<Rightarrow> bool" where
  "is_space c \<longleftrightarrow> 9 \<le> code c \<and> code c \<le> 13 \<or> code c = 32"

definition lower_char :: "char \<Rightarrow> char" where
  "lower_char c = (if is_upper c then char_of (code c + 32) else c)"

lemma code_char_of [simp]: "n < 256 \<Longrightarrow> code (char_of n) = n"
  by simp

lemma lower_char_code: "code (lower_char c) = (if is_upper c then code c + 32 else code c)"
  by (simp add: lower_char_def is_upper_def)

lemma lower_char_idem [simp]: "lower_char (lower_char c) = lower_char c"
  unfolding lower_char_def [of "lower_char c"] is_upper_def lower_char_code
  by (auto simp: is_upper_def)

section \<open>Prefixes, suffixes and search\<close>

definition HasPrefix :: "string \<Rightarrow> string \<Rightarrow> bool" where
  "HasPrefix s p \<longleftrightarrow> take (length p) s = p"

definition HasSuffix :: "string \<Rightarrow> string \<Rightarrow> bool" where
  "HasSuffix s p \<longleftrightarrow> length p \<le> length s \<and> drop (length s - length p) s = p"

definition TrimPrefix :: "string \<Rightarrow> string \<Rightarrow> string" where
  "TrimPrefix s p = (if HasPrefix s p then drop (length p) s else s)"

definition TrimSuffix :: "string \<Rightarrow> string \<Rightarrow> string" where
  "TrimSuffix s p = (if HasSuffix s p then take (length s - length p) s else s)"

lemma HasPrefix_iff: "HasPrefix s p \<longleftrightarrow> (\<exists>t. s = p @ t)"
  by (metis HasPrefix_def append_eq_conv_conj append_take_drop_id)

lemma HasSuffix_iff: "HasSuffix s p \<longleftrightarrow> (\<exists>t. s = t @ p)"
proof
  assume "HasSuffix s p"
  then have "s = take (length s - length p) s @ p"
    using append_take_drop_id [of "length s - length p" s] by (simp add: HasSuffix_def)
  then show "\<exists>t. s = t @ p" ..
qed (auto simp: HasSuffix_def)

lemma HasPrefix_append [simp]: "HasPrefix (p @ t) p"
  by (auto simp: HasPrefix_iff)

lemma HasSuffix_append [simp]: "HasSuffix (t @ p) p"
  by (auto simp: HasSuffix_iff)

lemma TrimPrefix_append [simp]: "TrimPrefix (p @ t) p = t"
  by (simp add: TrimPrefix_def)

lemma TrimSuffix_append [simp]: "TrimSuffix (t @ p) p = t"
  by (simp add: TrimSuffix_def)

lemma HasSuffix_TrimSuffix: "HasSuffix s p \<Longrightarrow> TrimSuffix s p @ p = s"
  by (auto simp: HasSuffix_iff)

fun Index :: "string \<Rightarrow> string \<Rightarrow> nat option" where
  "Index [] sub = (if sub = [] then Some 0 else None)"
| "Index (c # s) sub = (if HasPrefix (c # s) sub then Some 0 else map_option Suc (Index s sub))"

definition Contains :: "string \<Rightarrow> string \<Rightarrow> bool" where
  "Contains s sub \<longleftrightarrow> Index s sub \<noteq> None"

lemma Contains_iff: "Contains s sub \<longleftrightarrow> (\<exists>a b. s = a @ sub @ b)"
proof (induction s)
  case Nil
  then show ?case by (simp add: Contains_def)
next
  case (Cons c s)
  have "(\<exists>a b. c # s = a @ sub @ b) \<longleftrightarrow> HasPrefix (c # s) sub \<or> (\<exists>a b. s = a @ sub @ b)"
    by (auto simp: HasPrefix_iff Cons_eq_append_conv)
  with Cons show ?case
    by (auto simp: Contains_def)
qed

lemma Index_split: "Index s sub = Some i \<Longrightarrow> s = take i s @ sub @ drop (i + length sub) s"
proof (induction s sub arbitrary: i rule: Index.induct)
  case (1 sub)
  then show ?case by (auto split: if_splits)
next
  case (2 c s sub)
  show ?case
  proof (cases "HasPrefix (c # s) sub")
    case True
    with 2 show ?thesis by (auto simp: HasPrefix_iff)
  next
    case False
    with 2 show ?thesis by auto
  qed
qed

lemma Index_single: "c \<notin> set a \<Longrightarrow> Index (a @ c # b) [c] = Some (length a)"
  by (induction a) (auto simp: HasPrefix_def)

text \<open>\<open>strings.Cut\<close>: around the first separator; the third part tells whether there was one.\<close>

definition Cut :: "string \<Rightarrow> string \<Rightarrow> string \<times> string \<times> bool" where
  "Cut s sep = (case Index s sep of
      None \<Rightarrow> (s, [], False)
    | Some i \<Rightarrow> (take i s, drop (i + length sep) s, True))"

text \<open>\<open>strings.LastIndexByte\<close>, \<open>None\<close> for -1.\<close>

fun LastIndexByte :: "string \<Rightarrow> char \<Rightarrow> nat option" where
  "LastIndexByte [] c = None"
| "LastIndexByte (x # s) c = (case LastIndexByte s c of
      Some i \<Rightarrow> Some (Suc i)
    | None \<Rightarrow> (if x = c then Some 0 else None))"

lemma LastIndexByte_None: "LastIndexByte s c = None \<longleftrightarrow> c \<notin> set s"
  by (induction s) (auto split: option.splits)

lemma LastIndexByte_append: "c \<notin> set b \<Longrightarrow> LastIndexByte (a @ c # b) c = Some (length a)"
  by (induction a) (auto simp: LastIndexByte_None split: option.splits)

lemma LastIndexByte_Some:
  "LastIndexByte s c = Some i \<Longrightarrow>
    i < length s \<and> s ! i = c \<and> s = take i s @ c # drop (Suc i) s \<and> c \<notin> set (drop (Suc i) s)"
  by (induction s arbitrary: i) (auto simp: LastIndexByte_None split: option.splits if_splits)

section \<open>Trimming and case\<close>

definition ToLower :: "string \<Rightarrow> string" where
  "ToLower s = map lower_char s"

definition EqualFold :: "string \<Rightarrow> string \<Rightarrow> bool" where
  "EqualFold s t \<longleftrightarrow> ToLower s = ToLower t"

lemma ToLower_idem [simp]: "ToLower (ToLower s) = ToLower s"
  by (simp add: ToLower_def)

text \<open>\<open>strings.TrimLeftFunc\<close>, \<open>TrimRightFunc\<close> and what is built on them.\<close>

definition trim_right_by :: "(char \<Rightarrow> bool) \<Rightarrow> string \<Rightarrow> string" where
  "trim_right_by P s = rev (dropWhile P (rev s))"

definition trim_by :: "(char \<Rightarrow> bool) \<Rightarrow> string \<Rightarrow> string" where
  "trim_by P s = trim_right_by P (dropWhile P s)"

definition TrimSpace :: "string \<Rightarrow> string" where
  "TrimSpace s = trim_by is_space s"

definition Trim :: "string \<Rightarrow> string \<Rightarrow> string" where
  "Trim s cutset = trim_by (\<lambda>c. c \<in> set cutset) s"

definition TrimRight :: "string \<Rightarrow> string \<Rightarrow> string" where
  "TrimRight s cutset = trim_right_by (\<lambda>c. c \<in> set cutset) s"

lemma set_trim_right_by: "set (trim_right_by P s) \<subseteq> set s"
  by (auto simp: trim_right_by_def dest: set_dropWhileD)

lemma set_trim_by: "set (trim_by P s) \<subseteq> set s"
  using set_trim_right_by [of P "dropWhile P s"] set_dropWhileD [of _ P s]
  unfolding trim_by_def by blast

lemma trim_right_by_last: "trim_right_by P s \<noteq> [] \<Longrightarrow> \<not> P (last (trim_right_by P s))"
  by (simp add: trim_right_by_def last_rev hd_dropWhile)

lemma trim_right_by_Cons:
  "\<not> P c \<Longrightarrow> trim_right_by P (c # s) = c # trim_right_by P s"
  by (simp add: trim_right_by_def dropWhile_append3)

lemma trim_by_hd: "trim_by P s \<noteq> [] \<Longrightarrow> \<not> P (hd (trim_by P s))"
proof -
  assume ne: "trim_by P s \<noteq> []"
  then have "dropWhile P s \<noteq> []"
    unfolding trim_by_def trim_right_by_def by (metis dropWhile.simps(1) rev.simps(1))
  then obtain c t where ct: "dropWhile P s = c # t" "\<not> P c"
    by (metis hd_dropWhile list.collapse)
  then show ?thesis by (simp add: trim_by_def trim_right_by_Cons)
qed

lemma trim_by_last: "trim_by P s \<noteq> [] \<Longrightarrow> \<not> P (last (trim_by P s))"
  by (simp add: trim_by_def trim_right_by_last)

lemma trim_right_by_id: "s = [] \<or> \<not> P (last s) \<Longrightarrow> trim_right_by P s = s"
  by (cases s rule: rev_cases) (auto simp: trim_right_by_def)

lemma trim_by_id: "s = [] \<or> \<not> P (hd s) \<and> \<not> P (last s) \<Longrightarrow> trim_by P s = s"
  by (cases s) (auto simp: trim_by_def trim_right_by_id)

text \<open>\<open>strings.Fields\<close>: the maximal runs of characters that are not white space.\<close>

function Fields :: "string \<Rightarrow> string list" where
  "Fields s = (let t = dropWhile is_space s in
     if t = [] then [] else takeWhile (\<lambda>c. \<not> is_space c) t # Fields (dropWhile (\<lambda>c. \<not> is_space c) t))"
  by pat_completeness auto
termination
proof (relation "measure length", simp)
  fix s t :: string
  assume t: "t = dropWhile is_space s" "t \<noteq> []"
  then have "\<not> is_space (hd t)"
    using hd_dropWhile by blast
  with t(2) have "length (dropWhile (\<lambda>c. \<not> is_space c) t) < length t"
    by (cases t) (simp_all add: length_dropWhile_le le_imp_less_Suc)
  also have "length t \<le> length s"
    by (simp add: t length_dropWhile_le)
  finally show "(dropWhile (\<lambda>c. \<not> is_space c) t, s) \<in> measure length" by simp
qed

declare Fields.simps [simp del]

lemma Fields_Cons_word: "\<forall>x \<in> set w. \<not> is_space x \<Longrightarrow> w \<noteq> [] \<Longrightarrow> is_space c \<Longrightarrow>
  Fields (w @ c # s) = w # Fields (c # s)"
proof -
  assume a: "\<forall>x \<in> set w. \<not> is_space x" "w \<noteq> []" "is_space c"
  then have d: "dropWhile is_space (w @ c # s) = w @ c # s"
    by (cases w) auto
  have "takeWhile (\<lambda>c. \<not> is_space c) (w @ c # s) = w"
    "dropWhile (\<lambda>c. \<not> is_space c) (w @ c # s) = c # s"
    using a by (simp_all add: takeWhile_append dropWhile_append)
  with a d show ?thesis
    by (subst Fields.simps) (simp add: Let_def)
qed

lemma Fields_space: "is_space c \<Longrightarrow> Fields (c # s) = Fields s"
  by (subst (1 2) Fields.simps) simp

lemma Fields_word: "\<forall>x \<in> set w. \<not> is_space x \<Longrightarrow> w \<noteq> [] \<Longrightarrow> Fields w = [w]"
proof -
  assume a: "\<forall>x \<in> set w. \<not> is_space x" "w \<noteq> []"
  then have "dropWhile is_space w = w" by (cases w) auto
  with a show ?thesis
    by (subst Fields.simps, subst Fields.simps)
      (simp add: Let_def takeWhile_eq_all_conv [THEN iffD2] dropWhile_eq_Nil_conv [THEN iffD2])
qed

text \<open>\<open>strings.Split\<close> on a one byte separator.\<close>

fun SplitByte :: "string \<Rightarrow> char \<Rightarrow> string list" where
  "SplitByte [] c = [[]]"
| "SplitByte (x # s) c = (if x = c then [] # SplitByte s c
     else (case SplitByte s c of [] \<Rightarrow> [[x]] | w # ws \<Rightarrow> (x # w) # ws))"

section \<open>Numbers\<close>

definition digit_char :: "nat \<Rightarrow> char" where
  "digit_char n = char_of (48 + n)"

fun nat_digits :: "nat \<Rightarrow> string" where
  "nat_digits n = (if n < 10 then [digit_char n] else nat_digits (n div 10) @ [digit_char (n mod 10)])"

declare nat_digits.simps [simp del]

text \<open>\<open>strconv.Itoa\<close>.\<close>

definition Itoa :: "int \<Rightarrow> string" where
  "Itoa i = (if i < 0 then CHR ''-'' # nat_digits (nat (- i)) else nat_digits (nat i))"

fun digits_value :: "nat \<Rightarrow> string \<Rightarrow> nat option" where
  "digits_value acc [] = Some acc"
| "digits_value acc (c # s) = (if is_digit c then digits_value (acc * 10 + (code c - 48)) s else None)"

text \<open>
  \<open>strconv.ParseUint(s, 10, bits)\<close>: \<open>None\<close> for an error.  The callers of the
  program drop the value when there is an error.
\<close>

definition ParseUint :: "string \<Rightarrow> nat \<Rightarrow> nat option" where
  "ParseUint s bits = (if s = [] then None
     else case digits_value 0 s of None \<Rightarrow> None
          | Some n \<Rightarrow> if n < 2 ^ bits then Some n else None)"

text \<open>
  \<open>strconv.Atoi\<close> on a 64-bit platform: the value and whether the error is nil.  On a syntax
  error the value is 0; out of range, it is the nearest \<open>int\<close>, which the callers that
  ignore the error do see.
\<close>

definition Atoi :: "string \<Rightarrow> int \<times> bool" where
  "Atoi s =
    (let neg = (case s of c # _ \<Rightarrow> c = CHR ''-'' | [] \<Rightarrow> False);
         body = (case s of c # t \<Rightarrow> if c = CHR ''-'' \<or> c = CHR ''+'' then t else s | [] \<Rightarrow> [])
     in if body = [] then (0, False)
        else case digits_value 0 body of
          None \<Rightarrow> (0, False)
        | Some n \<Rightarrow>
            if neg then (if n \<le> 2 ^ 63 then (- int n, True) else (- (2 ^ 63), False))
            else (if n < 2 ^ 63 then (int n, True) else (2 ^ 63 - 1, False)))"

lemma digit_char_digit: "n < 10 \<Longrightarrow> is_digit (digit_char n) \<and> code (digit_char n) = 48 + n"
  by (simp add: digit_char_def is_digit_def)

lemma digits_value_append:
  "digits_value acc (s @ t) = (case digits_value acc s of None \<Rightarrow> None | Some n \<Rightarrow> digits_value n t)"
  by (induction s arbitrary: acc) auto

lemma nat_digits_nonempty [simp]: "nat_digits n \<noteq> []"
  by (subst nat_digits.simps) simp

lemma nat_digits_digit: "c \<in> set (nat_digits n) \<Longrightarrow> is_digit c"
proof (induction n rule: nat_digits.induct)
  case (1 n)
  show ?case
  proof (cases "n < 10")
    case True
    with "1.prems" show ?thesis
      by (subst (asm) nat_digits.simps) (auto simp: digit_char_digit)
  next
    case False
    have m: "n mod 10 < 10" by simp
    from False "1.prems" have "c \<in> set (nat_digits (n div 10)) \<or> c = digit_char (n mod 10)"
      by (subst (asm) nat_digits.simps) auto
    with False "1.IH" digit_char_digit [OF m] show ?thesis by auto
  qed
qed

lemma digits_value_nat_digits: "digits_value 0 (nat_digits n) = Some n"
proof (induction n rule: nat_digits.induct)
  case (1 n)
  show ?case
  proof (cases "n < 10")
    case True
    then show ?thesis
      by (subst nat_digits.simps) (simp add: digit_char_digit)
  next
    case False
    have m: "n mod 10 < 10" by simp
    from False "1.IH" have "digits_value 0 (nat_digits (n div 10)) = Some (n div 10)"
      by simp
    with False show ?thesis
      by (subst nat_digits.simps) (simp add: digits_value_append digit_char_digit [OF m])
  qed
qed

lemma nat_digits_hd:
  "hd (nat_digits n) \<noteq> CHR ''-''" "hd (nat_digits n) \<noteq> CHR ''+''"
proof -
  have "is_digit (hd (nat_digits n))"
    using nat_digits_digit [of "hd (nat_digits n)" n] by simp
  then show "hd (nat_digits n) \<noteq> CHR ''-''" "hd (nat_digits n) \<noteq> CHR ''+''"
    by (auto simp: is_digit_def)
qed

lemma Itoa_no_colon: "CHR '':'' \<notin> set (Itoa i)"
  by (auto simp: Itoa_def is_digit_def dest!: nat_digits_digit split: if_splits)

text \<open>Printing and reading a number back, for every 64-bit integer.\<close>

lemma Atoi_Itoa:
  assumes "- (2 ^ 63) \<le> i" and "i < 2 ^ 63"
  shows "Atoi (Itoa i) = (i, True)"
proof (cases "i < 0")
  case True
  then have "Itoa i = CHR ''-'' # nat_digits (nat (- i))" by (simp add: Itoa_def)
  moreover have "nat (- i) \<le> 2 ^ 63" using assms(1) by simp
  ultimately show ?thesis
    using True by (simp add: Atoi_def digits_value_nat_digits)
next
  case False
  then have it: "Itoa i = nat_digits (nat i)" by (simp add: Itoa_def)
  obtain c t where ct: "nat_digits (nat i) = c # t"
    by (metis nat_digits_nonempty list.exhaust)
  then have "c \<noteq> CHR ''-''" "c \<noteq> CHR ''+''"
    using nat_digits_hd [of "nat i"] by auto
  moreover have "digits_value 0 (c # t) = Some (nat i)"
    using digits_value_nat_digits [of "nat i"] by (simp only: ct)
  moreover have "nat i < 2 ^ 63" using assms(2) False by simp
  ultimately show ?thesis
    using False by (simp add: Atoi_def it ct Let_def del: digits_value.simps)
qed

lemma Itoa_inj: "Itoa i = Itoa j \<Longrightarrow> i = j"
proof -
  assume eq: "Itoa i = Itoa j"
  have neg: "i < 0 \<longleftrightarrow> hd (Itoa i) = CHR ''-''" for i
    by (simp add: Itoa_def nat_digits_hd)
  have sgn: "i < 0 \<longleftrightarrow> j < 0"
    unfolding neg eq ..
  have "nat_digits (nat \<bar>i\<bar>) = nat_digits (nat \<bar>j\<bar>)"
    using eq sgn by (cases "i < 0") (simp_all add: Itoa_def)
  then have "digits_value 0 (nat_digits (nat \<bar>i\<bar>)) = digits_value 0 (nat_digits (nat \<bar>j\<bar>))"
    by simp
  then have "\<bar>i\<bar> = \<bar>j\<bar>"
    by (simp add: digits_value_nat_digits)
  with sgn show "i = j" by linarith
qed

end
