(* ===== verification/Sorting.thy ===== *)
theory Sorting
  imports GoStrings "HOL-Library.Multiset" "HOL-Library.List_Lexorder" "HOL-Library.Char_ord"
begin

text \<open>
  The package \<open>sort\<close> as the code uses it.  \<open>sort.Slice\<close> promises a permutation that is
  sorted, and nothing about equal elements: the locale \<open>slice_sort\<close>.  \<open>sort.SliceStable\<close>
  also keeps the order of equal elements, which determines its result: \<open>SliceStable\<close>, the
  insertion sort that Go runs on short slices, and the interpretation of the locale.  Strings
  compare byte by byte (\<open>List_Lexorder\<close>).
\<close>

section \<open>The interface\<close>

definition strict_weak :: "('a \<Rightarrow> 'a \<Rightarrow> bool) \<Rightarrow> bool" where
  "strict_weak lt \<longleftrightarrow> (\<forall>x. \<not> lt x x) \<and> (\<forall>x y z. lt x y \<longrightarrow> lt y z \<longrightarrow> lt x z) \<and>
     (\<forall>x y z. lt x z \<longrightarrow> lt x y \<or> lt y z)"

definition in_order :: "('a \<Rightarrow> 'a \<Rightarrow> bool) \<Rightarrow> 'a list \<Rightarrow> bool" where
  "in_order lt xs \<longleftrightarrow> sorted_wrt (\<lambda>a b. \<not> lt b a) xs"

locale slice_sort =
  fixes Slice :: "('a \<Rightarrow> 'a \<Rightarrow> bool) \<Rightarrow> 'a list \<Rightarrow> 'a list"
  assumes mset_Slice: "mset (Slice lt xs) = mset xs"
    and sorted_Slice: "strict_weak lt \<Longrightarrow> in_order lt (Slice lt xs)"
begin

lemma set_Slice: "set (Slice lt xs) = set xs"
  using mset_eq_setD mset_Slice by blast

lemma length_Slice: "length (Slice lt xs) = length xs"
  by (rule mset_eq_length) (rule mset_Slice)

text \<open>A group cut out of the sorted items is sorted, and is the group of the items.\<close>

lemma group_Slice:
  assumes "strict_weak lt"
  shows "in_order lt (filter P (Slice lt xs))" and "mset (filter P (Slice lt xs)) = filter_mset P (mset xs)"
  using sorted_Slice [OF assms, of xs] by (simp_all add: in_order_def sorted_wrt_filter mset_Slice)

end

section \<open>Insertion sort\<close>

fun insert_by :: "('a \<Rightarrow> 'a \<Rightarrow> bool) \<Rightarrow> 'a \<Rightarrow> 'a list \<Rightarrow> 'a list" where
  "insert_by lt x [] = [x]"
| "insert_by lt x (y # ys) = (if lt x y then x # y # ys else y # insert_by lt x ys)"

definition SliceStable :: "('a \<Rightarrow> 'a \<Rightarrow> bool) \<Rightarrow> 'a list \<Rightarrow> 'a list" where
  "SliceStable lt xs = fold (insert_by lt) xs []"

lemma mset_insert_by [simp]: "mset (insert_by lt x ys) = add_mset x (mset ys)"
  by (induction ys) auto

lemma set_insert_by [simp]: "set (insert_by lt x ys) = insert x (set ys)"
  by (induction ys) auto

lemma in_order_insert:
  assumes w: "strict_weak lt"
  shows "in_order lt ys \<Longrightarrow> in_order lt (insert_by lt x ys)"
proof (induction ys)
  case (Cons y ys)
  then have o: "in_order lt ys" "\<forall>z \<in> set ys. \<not> lt z y" by (simp_all add: in_order_def)
  show ?case
  proof (cases "lt x y")
    case True
    have "\<not> lt z x" if "z \<in> insert y (set ys)" for z
      using that o(2) w True unfolding strict_weak_def by blast
    then show ?thesis using True Cons.prems by (simp add: in_order_def)
  next
    case False
    then show ?thesis using Cons.IH [OF o(1)] o(2) by (simp add: in_order_def)
  qed
qed (simp add: in_order_def)

lemma mset_fold_insert: "mset (fold (insert_by lt) xs ys) = mset xs + mset ys"
  by (induction xs arbitrary: ys) simp_all

lemma in_order_fold_insert: "strict_weak lt \<Longrightarrow> in_order lt ys \<Longrightarrow> in_order lt (fold (insert_by lt) xs ys)"
  by (induction xs arbitrary: ys) (simp_all add: in_order_insert)

interpretation stable: slice_sort SliceStable
  by unfold_locales (simp_all add: SliceStable_def mset_fold_insert in_order_fold_insert in_order_def [of _ "[]"])

text \<open>Equal elements stay in order: the elements of a class are those of the input.\<close>

lemma filter_insert_by:
  assumes w: "strict_weak lt" and c: "\<And>y z. P y \<Longrightarrow> P z \<Longrightarrow> \<not> lt y z"
  shows "in_order lt ys \<Longrightarrow> filter P (insert_by lt x ys) = filter P ys @ (if P x then [x] else [])"
proof (induction ys)
  case (Cons y ys)
  then have o: "in_order lt ys" "\<forall>z \<in> set ys. \<not> lt z y" by (simp_all add: in_order_def)
  show ?case
  proof (cases "lt x y \<and> P x")
    case True
    have "\<not> P z" if "z \<in> insert y (set ys)" for z
      using that o(2) True w c [of x z] unfolding strict_weak_def by blast
    then have "filter P (y # ys) = []" by auto
    then show ?thesis using True by simp
  next
    case False
    then show ?thesis using Cons.IH [OF o(1)] by auto
  qed
qed simp

lemma filter_SliceStable:
  assumes w: "strict_weak lt" and c: "\<And>y z. P y \<Longrightarrow> P z \<Longrightarrow> \<not> lt y z"
  shows "filter P (SliceStable lt xs) = filter P xs"
proof -
  have "in_order lt ys \<Longrightarrow> filter P (fold (insert_by lt) xs ys) = filter P ys @ filter P xs" for ys
    by (induction xs arbitrary: ys) (simp_all add: filter_insert_by [OF w c] in_order_insert [OF w])
  then show ?thesis by (simp add: SliceStable_def in_order_def)
qed

text \<open>The comparison matters on the elements of the list only.\<close>

lemma insert_by_cong: "(\<And>y. y \<in> set ys \<Longrightarrow> lt x y = lt' x y) \<Longrightarrow> insert_by lt x ys = insert_by lt' x ys"
  by (induction ys) auto

lemma SliceStable_cong:
  assumes "\<And>x y. x \<in> set xs \<Longrightarrow> y \<in> set xs \<Longrightarrow> x \<noteq> y \<Longrightarrow> lt x y = lt' x y" and "distinct xs"
  shows "SliceStable lt xs = SliceStable lt' xs"
proof -
  have "fold (insert_by lt) zs ys = fold (insert_by lt') zs ys"
    if "set zs \<union> set ys \<subseteq> set xs" "distinct zs" "set zs \<inter> set ys = {}" for zs ys
    using that
  proof (induction zs arbitrary: ys)
    case (Cons z zs)
    have "lt z y = lt' z y" if "y \<in> set ys" for y
      using that Cons.prems by (intro assms(1)) auto
    then have "insert_by lt z ys = insert_by lt' z ys" by (rule insert_by_cong)
    then show ?case using Cons by simp
  qed simp
  then show ?thesis using assms(2) by (simp add: SliceStable_def)
qed

section \<open>Comparisons\<close>

text \<open>Two keys, the second one deciding between items with the same first one.\<close>

lemma strict_weak_keys:
  fixes f :: "'a \<Rightarrow> 'b::linorder" and g :: "'a \<Rightarrow> 'c::linorder"
  shows "strict_weak (\<lambda>x y. if f x \<noteq> f y then f x < f y else g x < g y)"
  unfolding strict_weak_def
proof (intro conjI allI impI)
  fix x y z
  show "\<not> (if f x \<noteq> f x then f x < f x else g x < g x)" by simp
  show "(if f x \<noteq> f y then f x < f y else g x < g y) \<Longrightarrow> (if f y \<noteq> f z then f y < f z else g y < g z) \<Longrightarrow>
      if f x \<noteq> f z then f x < f z else g x < g z"
    by (cases "f x = f y"; cases "f y = f z") auto
  show "(if f x \<noteq> f z then f x < f z else g x < g z) \<Longrightarrow>
      (if f x \<noteq> f y then f x < f y else g x < g y) \<or> (if f y \<noteq> f z then f y < f z else g y < g z)"
    by (cases "f x = f y"; cases "f y = f z"; cases "f x = f z") auto
qed

lemma strict_weak_key: "strict_weak (\<lambda>x y. f x < (f y :: 'b::linorder))"
  using strict_weak_keys [of "\<lambda>_. 0::nat" f] by simp

end
