(* ===== verification/Util.thy ===== *)
theory Util
  imports GoStrings
begin

text \<open>
  \<open>internal/util/util.go\<close>: identifiers, the subdomain sanitiser, form booleans and the set
  of HTTPS ports.  The random bytes of \<open>NewID\<close> are an argument.
\<close>

section \<open>Identifiers\<close>

definition hex_char :: "nat \<Rightarrow> char" where
  "hex_char n = (if n < 10 then char_of (48 + n) else char_of (87 + n))"

definition hex_byte :: "nat \<Rightarrow> string" where
  "hex_byte b = [hex_char (b div 16), hex_char (b mod 16)]"

definition EncodeToString :: "nat list \<Rightarrow> string" where
  "EncodeToString bs = concat (map hex_byte bs)"

text \<open>\<open>rand8\<close> stands for the 8 bytes read from \<open>crypto/rand\<close>.\<close>

definition NewID :: "nat list \<Rightarrow> string" where
  "NewID rand8 = EncodeToString rand8"

definition is_hex :: "char \<Rightarrow> bool" where
  "is_hex c \<longleftrightarrow> 48 \<le> code c \<and> code c \<le> 57 \<or> 97 \<le> code c \<and> code c \<le> 102 \<or> 65 \<le> code c \<and> code c \<le> 70"

lemma hex_char_hex: "n < 16 \<Longrightarrow> is_hex (hex_char n)"
  by (auto simp: hex_char_def is_hex_def)

lemma hex_char_inj: "m < 16 \<Longrightarrow> n < 16 \<Longrightarrow> hex_char m = hex_char n \<Longrightarrow> m = n"
proof -
  assume mn: "m < 16" "n < 16" "hex_char m = hex_char n"
  then have "code (hex_char m) = code (hex_char n)" by simp
  with mn(1,2) show ?thesis
    by (simp add: hex_char_def split: if_splits)
qed

lemma EncodeToString_length: "length (EncodeToString bs) = 2 * length bs"
  by (induction bs) (simp_all add: EncodeToString_def hex_byte_def)

lemma EncodeToString_hex: "\<forall>b \<in> set bs. b < 256 \<Longrightarrow> c \<in> set (EncodeToString bs) \<Longrightarrow> is_hex c"
  by (auto simp: EncodeToString_def hex_byte_def intro!: hex_char_hex)

lemma EncodeToString_inj:
  "\<forall>b \<in> set bs. b < 256 \<Longrightarrow> \<forall>b \<in> set cs. b < 256 \<Longrightarrow>
   EncodeToString bs = EncodeToString cs \<Longrightarrow> bs = cs"
proof (induction bs arbitrary: cs)
  case Nil
  then show ?case by (cases cs) (simp_all add: EncodeToString_def hex_byte_def)
next
  case (Cons b bs)
  then obtain c ds where cs: "cs = c # ds"
    by (cases cs) (simp_all add: EncodeToString_def hex_byte_def)
  with Cons.prems have "hex_char (b div 16) = hex_char (c div 16)" "hex_char (b mod 16) = hex_char (c mod 16)"
    and r: "EncodeToString bs = EncodeToString ds"
    by (simp_all add: EncodeToString_def hex_byte_def)
  then have "b div 16 = c div 16" "b mod 16 = c mod 16"
    using Cons.prems cs by (auto intro!: hex_char_inj)
  then have "b = c" by (metis div_mult_mod_eq)
  moreover have "bs = ds"
    using Cons.prems cs r by (intro Cons.IH) auto
  ultimately show ?case using cs by simp
qed

section \<open>Subdomains\<close>

text \<open>One turn of the loop over the runes of the name: what is written to the builder.\<close>

definition subdomain_rune :: "char \<Rightarrow> string" where
  "subdomain_rune r =
    (if is_lower r \<or> is_digit r \<or> r = CHR ''-'' then [r]
     else if r = CHR ''_'' \<or> r = CHR ''.'' \<or> r = CHR '' '' then ''-''
     else [])"

definition SanitiseSubdomain :: "string \<Rightarrow> string" where
  "SanitiseSubdomain name =
    (let name = ToLower (TrimSpace name);
         b = concat (map subdomain_rune name);
         s = Trim b ''-''
     in if s = [] then ''service'' else s)"

text \<open>The characters and the shape of a DNS label.\<close>

definition label_char :: "char \<Rightarrow> bool" where
  "label_char c \<longleftrightarrow> is_lower c \<or> is_digit c \<or> c = CHR ''-''"

definition dns_label :: "string \<Rightarrow> bool" where
  "dns_label s \<longleftrightarrow> s \<noteq> [] \<and> (\<forall>c \<in> set s. label_char c) \<and> hd s \<noteq> CHR ''-'' \<and> last s \<noteq> CHR ''-''"

lemma subdomain_rune_label: "c \<in> set (subdomain_rune r) \<Longrightarrow> label_char c"
  by (auto simp: subdomain_rune_def label_char_def split: if_splits)

lemma dns_label_service: "dns_label ''service''"
  by (simp add: dns_label_def label_char_def is_lower_def)

lemma SanitiseSubdomain_dns_label: "dns_label (SanitiseSubdomain name)"
proof -
  define b where "b = concat (map subdomain_rune (ToLower (TrimSpace name)))"
  have "label_char c" if "c \<in> set (Trim b ''-'')" for c
  proof -
    have "c \<in> set b"
      using that set_trim_by unfolding Trim_def by blast
    then show ?thesis
      by (auto simp: b_def dest: subdomain_rune_label)
  qed
  moreover have "Trim b ''-'' \<noteq> [] \<Longrightarrow> hd (Trim b ''-'') \<noteq> CHR ''-'' \<and> last (Trim b ''-'') \<noteq> CHR ''-''"
    using trim_by_hd [of "\<lambda>c. c \<in> set ''-''" b] trim_by_last [of "\<lambda>c. c \<in> set ''-''" b]
    by (simp add: Trim_def)
  ultimately have "Trim b ''-'' \<noteq> [] \<Longrightarrow> dns_label (Trim b ''-'')"
    by (simp add: dns_label_def)
  then show ?thesis
    by (simp add: SanitiseSubdomain_def b_def Let_def dns_label_service)
qed

lemma SanitiseSubdomain_nonempty [simp]: "SanitiseSubdomain name \<noteq> []"
  using SanitiseSubdomain_dns_label [of name] by (simp add: dns_label_def)

lemma label_char_simps:
  assumes "label_char c"
  shows "\<not> is_space c" "lower_char c = c" "subdomain_rune c = [c]"
  using assms
  by (auto simp: label_char_def is_space_def lower_char_def is_upper_def is_lower_def is_digit_def
      subdomain_rune_def)

text \<open>A name that is already a label is left alone, so the sanitiser is a projection onto labels.\<close>

lemma SanitiseSubdomain_id: "dns_label s \<Longrightarrow> SanitiseSubdomain s = s"
proof -
  assume s: "dns_label s"
  then have ne: "s \<noteq> []" and all: "\<forall>c \<in> set s. label_char c"
    and e: "hd s \<noteq> CHR ''-''" "last s \<noteq> CHR ''-''"
    by (auto simp: dns_label_def)
  have "TrimSpace s = s"
    unfolding TrimSpace_def using ne all label_char_simps(1) by (intro trim_by_id) auto
  moreover have "ToLower s = s"
    unfolding ToLower_def using all label_char_simps(2) by (simp add: map_idI)
  moreover have "concat (map subdomain_rune s) = s"
    using all by (induction s) (simp_all add: label_char_simps(3))
  moreover have "Trim s ''-'' = s"
    unfolding Trim_def using e by (intro trim_by_id) auto
  ultimately show ?thesis
    using ne by (simp add: SanitiseSubdomain_def)
qed

section \<open>Form values and ports\<close>

definition ParseFormBool :: "string \<Rightarrow> bool" where
  "ParseFormBool val \<longleftrightarrow> val = ''on'' \<or> val = ''true'' \<or> val = ''1''"

definition IsHTTPSPort :: "int \<Rightarrow> bool" where
  "IsHTTPSPort port \<longleftrightarrow> port \<in> {443, 5001, 8006, 8443, 8448, 8920, 9443}"

text \<open>The scheme every caller derives from the port.\<close>

definition port_scheme :: "int \<Rightarrow> string" where
  "port_scheme port = (if IsHTTPSPort port then ''https'' else ''http'')"

end
