(* ===== verification/Compression.thy ===== *)
theory Compression
  imports GoStrings
begin

text \<open>
  The middleware and the static files of \<open>internal/web\<close>: \<open>gzipHandler\<close>,
  \<open>gzipResponseWriter\<close> and \<open>securityHeaders\<close> of \<open>server.go\<close>,
  \<open>acceptsEncoding\<close>, \<open>getStaticAssets\<close> and \<open>serveStaticFiles\<close> of \<open>static.go\<close>.

  A handler is the list of the calls that it makes on its \<open>ResponseWriter\<close>.  The
  compressor of \<open>compress/gzip\<close> is the parameter \<open>deflate\<close>, applied to all that was
  written when the writer is closed (what it hands on before is a part of the same stream).
\<close>

section \<open>The response writer of net/http\<close>

type_synonym headers = "string \<Rightarrow> string"

datatype act = SetHeader string string | WriteHeader int | Write string

text \<open>The header map, the status and headers once sent, the bytes of the body.\<close>

record writer =
  hdrs :: headers
  sent :: "(int \<times> headers) option"
  body :: string

definition fresh_writer :: writer where
  "fresh_writer = \<lparr>hdrs = (\<lambda>_. []), sent = None, body = []\<rparr>"

definition bodyAllowed :: "int \<Rightarrow> bool" where
  "bodyAllowed scode \<longleftrightarrow> \<not> (100 \<le> scode \<and> scode \<le> 199) \<and> scode \<noteq> 204 \<and> scode \<noteq> 304"

definition send_header :: "int \<Rightarrow> writer \<Rightarrow> writer" where
  "send_header scode w = (if sent w = None then w\<lparr>sent := Some (scode, hdrs w)\<rparr> else w)"

definition send_bytes :: "string \<Rightarrow> writer \<Rightarrow> writer" where
  "send_bytes b w =
    (let w = send_header 200 w
     in if bodyAllowed (fst (the (sent w))) then w\<lparr>body := body w @ b\<rparr> else w)"

fun plain_act :: "act \<Rightarrow> writer \<Rightarrow> writer" where
  "plain_act (SetHeader k v) w = w\<lparr>hdrs := (hdrs w)(k := v)\<rparr>"
| "plain_act (WriteHeader scode) w = send_header scode w"
| "plain_act (Write b) w = send_bytes b w"

section \<open>Compression\<close>

definition acceptsEncoding :: "string \<Rightarrow> string \<Rightarrow> bool" where
  "acceptsEncoding header enc \<longleftrightarrow>
    list_ex (\<lambda>part. EqualFold (TrimSpace (hd (SplitByte part (CHR '';'')))) enc) (SplitByte header (CHR '',''))"

record gzipResponseWriter =
  inner :: writer
  gz :: string
  active :: bool
  decided :: bool

definition sniff :: "gzipResponseWriter \<Rightarrow> gzipResponseWriter" where
  "sniff g =
    (if decided g then g
     else let g = g\<lparr>decided := True\<rparr>
          in if hdrs (inner g) ''Content-Encoding'' \<noteq> [] then g
             else g\<lparr>active := True, inner := (inner g)\<lparr>hdrs := (hdrs (inner g))
               (''Content-Encoding'' := ''gzip'', ''Vary'' := ''Accept-Encoding'', ''Content-Length'' := [])\<rparr>\<rparr>)"

fun gzip_act :: "act \<Rightarrow> gzipResponseWriter \<Rightarrow> gzipResponseWriter" where
  "gzip_act (SetHeader k v) g = g\<lparr>inner := plain_act (SetHeader k v) (inner g)\<rparr>"
| "gzip_act (WriteHeader scode) g = (let g = sniff g in g\<lparr>inner := send_header scode (inner g)\<rparr>)"
| "gzip_act (Write b) g =
    (let g = sniff g
     in if \<not> active g then g\<lparr>inner := send_bytes b (inner g)\<rparr> else g\<lparr>gz := gz g @ b\<rparr>)"

definition gzipHandler :: "(string \<Rightarrow> string) \<Rightarrow> string \<Rightarrow> act list \<Rightarrow> writer \<Rightarrow> writer" where
  "gzipHandler deflate ae handler w =
    (if \<not> acceptsEncoding ae ''gzip'' then fold plain_act handler w
     else let g = fold gzip_act handler \<lparr>inner = w, gz = [], active = False, decided = False\<rparr>
          in if active g then send_bytes (deflate (gz g)) (inner g) else inner g)"

definition securityHeaders :: "act list \<Rightarrow> act list" where
  "securityHeaders handler =
    [SetHeader ''X-Content-Type-Options'' ''nosniff'', SetHeader ''X-Frame-Options'' ''SAMEORIGIN'',
     SetHeader ''Referrer-Policy'' ''strict-origin-when-cross-origin''] @ handler"

text \<open>A handler that returns without a word sends 200.\<close>

definition serve_http :: "(string \<Rightarrow> string) \<Rightarrow> string \<Rightarrow> act list \<Rightarrow> writer" where
  "serve_http deflate ae handler =
    send_header 200 (gzipHandler deflate ae (securityHeaders handler) fresh_writer)"

section \<open>Static files\<close>

record staticAsset =
  aplain :: string
  agzip :: "string option"
  actype :: string

definition static_type :: "string \<Rightarrow> string" where
  "static_type path =
    (if HasSuffix path ''.css'' then ''text/css; charset=utf-8''
     else if HasSuffix path ''.js'' then ''application/javascript; charset=utf-8''
     else if HasSuffix path ''.png'' then ''image/png''
     else if HasSuffix path ''.webp'' then ''image/webp''
     else ''application/octet-stream'')"

definition static_asset :: "(string \<Rightarrow> string) \<Rightarrow> string \<Rightarrow> string \<Rightarrow> staticAsset" where
  "static_asset deflate path data =
    (let ct = static_type path
     in \<lparr>aplain = data,
         agzip = (if HasPrefix ct ''text/'' \<or> Contains ct ''javascript'' then Some (deflate data) else None),
         actype = ct\<rparr>)"

text \<open>The embedded files in the order of the walk, with \<open>None\<close> for one that cannot be read.\<close>

definition asset_url :: "string \<Rightarrow> string" where
  "asset_url path = ''/'' @ TrimPrefix path ''static/''"

fun add_asset :: "(string \<Rightarrow> string) \<Rightarrow> string \<times> string option \<Rightarrow> (string \<rightharpoonup> staticAsset) \<Rightarrow> (string \<rightharpoonup> staticAsset)" where
  "add_asset deflate (path, None) assets = assets"
| "add_asset deflate (path, Some data) assets = assets(asset_url path \<mapsto> static_asset deflate path data)"

definition getStaticAssets :: "(string \<Rightarrow> string) \<Rightarrow> (string \<times> string option) list \<Rightarrow> (string \<rightharpoonup> staticAsset)" where
  "getStaticAssets deflate files = fold (add_asset deflate) files Map.empty"

definition notFoundReply :: "act list" where
  "notFoundReply = [SetHeader ''Content-Length'' [], SetHeader ''Content-Type'' ''text/plain; charset=utf-8'',
     SetHeader ''X-Content-Type-Options'' ''nosniff'', WriteHeader 404, Write (''404 page not found'' @ [CHR 0x0A])]"

definition serveStaticFiles :: "(string \<rightharpoonup> staticAsset) \<Rightarrow> string \<Rightarrow> string \<Rightarrow> act list" where
  "serveStaticFiles assets path ae = (case assets path of
      None \<Rightarrow> notFoundReply
    | Some a \<Rightarrow>
        [SetHeader ''Cache-Control'' ''public, max-age=31536000, immutable'', SetHeader ''Content-Type'' (actype a)] @
        (case (agzip a, acceptsEncoding ae ''gzip'') of
          (Some z, True) \<Rightarrow>
            [SetHeader ''Content-Encoding'' ''gzip'', SetHeader ''Vary'' ''Accept-Encoding'',
             SetHeader ''Content-Length'' (Itoa (int (length z))), Write z]
        | _ \<Rightarrow> [SetHeader ''Content-Length'' (Itoa (int (length (aplain a)))), Write (aplain a)]))"

section \<open>What a client reads\<close>

text \<open>
  A client that undoes the encoding that the headers name; \<open>inflate\<close> is the inverse of
  \<open>deflate\<close>.  A response without a body has nothing to undo.
\<close>

definition decoded :: "(string \<Rightarrow> string) \<Rightarrow> writer \<Rightarrow> string" where
  "decoded inflate w =
    (if body w \<noteq> [] \<and> snd (the (sent w)) ''Content-Encoding'' = ''gzip'' then inflate (body w) else body w)"

definition reply_code :: "writer \<Rightarrow> int" where
  "reply_code w = fst (the (sent w))"

definition reply_header :: "writer \<Rightarrow> string \<Rightarrow> string" where
  "reply_header w = snd (the (sent w))"

text \<open>The order that the handlers keep: headers, then the status, then the body.\<close>

definition orderly :: "(string \<times> string) list \<Rightarrow> int option \<Rightarrow> string list \<Rightarrow> act list" where
  "orderly hs scode bs = map (\<lambda>(k, v). SetHeader k v) hs @ (case scode of Some c \<Rightarrow> [WriteHeader c] | None \<Rightarrow> []) @ map Write bs"

definition set_headers :: "(string \<times> string) list \<Rightarrow> headers \<Rightarrow> headers" where
  "set_headers hs h = fold (\<lambda>(k, v) h. h(k := v)) hs h"

lemma fold_SetHeader:
  "fold plain_act (map (\<lambda>(k, v). SetHeader k v) hs) w = w\<lparr>hdrs := set_headers hs (hdrs w)\<rparr>"
  "fold gzip_act (map (\<lambda>(k, v). SetHeader k v) hs) g = g\<lparr>inner := (inner g)\<lparr>hdrs := set_headers hs (hdrs (inner g))\<rparr>\<rparr>"
  by (induction hs arbitrary: w g) (auto simp: set_headers_def)

lemma send_header_again [simp]: "sent w \<noteq> None \<Longrightarrow> send_header c w = w"
  by (simp add: send_header_def)

lemma send_header_fields [simp]:
  "sent (send_header c w) \<noteq> None" "body (send_header c w) = body w" "hdrs (send_header c w) = hdrs w"
  by (simp_all add: send_header_def)

lemma send_bytes_sent:
  "sent w = Some (c, h) \<Longrightarrow> send_bytes b w = (if bodyAllowed c then w\<lparr>body := body w @ b\<rparr> else w)"
  by (simp add: send_bytes_def)

lemma fold_Write:
  "sent w = Some (c, h) \<Longrightarrow> fold plain_act (map Write bs) w = (if bodyAllowed c then w\<lparr>body := body w @ concat bs\<rparr> else w)"
  by (induction bs arbitrary: w) (auto simp: send_bytes_sent)

text \<open>The response to an orderly handler, without compression.\<close>

definition plain_reply :: "headers \<Rightarrow> int option \<Rightarrow> string list \<Rightarrow> writer" where
  "plain_reply h scode bs =
    (let c = (case scode of Some c \<Rightarrow> c | None \<Rightarrow> 200)
     in \<lparr>hdrs = h, sent = Some (c, h), body = (if bodyAllowed c then concat bs else [])\<rparr>)"

lemma plain_orderly:
  "send_header 200 (fold plain_act (orderly hs scode bs) fresh_writer) = plain_reply (set_headers hs (\<lambda>_. [])) scode bs"
proof (cases scode)
  case (Some c)
  then show ?thesis
    by (simp add: orderly_def fold_SetHeader fresh_writer_def send_header_def plain_reply_def
        fold_Write [of _ c "set_headers hs (\<lambda>_. [])"])
next
  case None
  show ?thesis
  proof (cases bs)
    case Nil
    then show ?thesis using None
      by (simp add: orderly_def fold_SetHeader fresh_writer_def send_header_def plain_reply_def)
  next
    case (Cons b bs')
    then show ?thesis using None
      by (simp add: orderly_def fold_SetHeader fresh_writer_def send_bytes_def send_header_def plain_reply_def
          fold_Write [of _ 200 "set_headers hs (\<lambda>_. [])"])
  qed
qed

text \<open>The compressed one.\<close>

definition zip_headers :: "headers \<Rightarrow> headers" where
  "zip_headers h = h(''Content-Encoding'' := ''gzip'', ''Vary'' := ''Accept-Encoding'', ''Content-Length'' := [])"

definition zip_reply :: "(string \<Rightarrow> string) \<Rightarrow> headers \<Rightarrow> int option \<Rightarrow> string list \<Rightarrow> writer" where
  "zip_reply deflate h scode bs =
    (let c = (case scode of Some c \<Rightarrow> c | None \<Rightarrow> 200)
     in \<lparr>hdrs = zip_headers h, sent = Some (c, zip_headers h), body = (if bodyAllowed c then deflate (concat bs) else [])\<rparr>)"

lemma fold_Write_gzip:
  "decided g \<Longrightarrow> active g \<Longrightarrow> fold gzip_act (map Write bs) g = g\<lparr>gz := gz g @ concat bs\<rparr>"
  "decided g \<Longrightarrow> \<not> active g \<Longrightarrow> fold gzip_act (map Write bs) g = g\<lparr>inner := fold plain_act (map Write bs) (inner g)\<rparr>"
  by (induction bs arbitrary: g) (auto simp: sniff_def)

lemma decided_sniff [simp]: "decided (sniff g)"
  by (simp add: sniff_def Let_def)

text \<open>
  The response to an orderly handler through \<open>gzipHandler\<close>: compressed, unless the client
  does not ask for it, the handler has encoded the body itself, or has said nothing.
\<close>

lemma gzip_orderly:
  fixes hs :: "(string \<times> string) list"
  defines "h \<equiv> set_headers hs (\<lambda>_. [])"
  shows "send_header 200 (gzipHandler deflate ae (orderly hs scode bs) fresh_writer) =
    (if acceptsEncoding ae ''gzip'' \<and> h ''Content-Encoding'' = [] \<and> (scode \<noteq> None \<or> bs \<noteq> [])
     then zip_reply deflate h scode bs else plain_reply h scode bs)"
proof (cases "acceptsEncoding ae ''gzip''")
  case True
  let ?g = "\<lparr>inner = fresh_writer\<lparr>hdrs := h\<rparr>, gz = [], active = False, decided = False\<rparr>"
  have g: "gzipHandler deflate ae (orderly hs scode bs) fresh_writer =
      (let g = fold gzip_act ((case scode of Some c \<Rightarrow> [WriteHeader c] | None \<Rightarrow> []) @ map Write bs) ?g
       in if active g then send_bytes (deflate (gz g)) (inner g) else inner g)"
    using True by (simp add: gzipHandler_def orderly_def fold_SetHeader h_def fresh_writer_def)
  show ?thesis
  proof (cases "h ''Content-Encoding'' = []")
    case ce: True
    then show ?thesis using True unfolding g
      by (cases scode; cases bs)
        (auto simp: fold_Write_gzip sniff_def zip_reply_def plain_reply_def zip_headers_def fresh_writer_def
          send_bytes_def send_header_def)
  next
    case ce: False
    then show ?thesis using True unfolding g
      by (cases scode; cases bs)
        (auto simp: fold_Write_gzip sniff_def plain_reply_def fresh_writer_def send_bytes_def send_header_def
          fold_Write [of _ _ h])
  qed
next
  case False
  then show ?thesis using plain_orderly [of hs scode bs] by (simp add: gzipHandler_def h_def)
qed

lemma zip_headers_other: "k \<notin> {''Content-Encoding'', ''Vary'', ''Content-Length''} \<Longrightarrow> zip_headers h k = h k"
  by (auto simp: zip_headers_def)

text \<open>
  So a client that decodes what it gets reads what the handler wrote.  What the compressor
  promises: its output can be undone, and is never empty.
\<close>

definition undoes :: "(string \<Rightarrow> string) \<Rightarrow> (string \<Rightarrow> string) \<Rightarrow> bool" where
  "undoes inflate deflate \<longleftrightarrow> (\<forall>x. inflate (deflate x) = x \<and> deflate x \<noteq> [])"

lemma zip_decoded:
  "undoes inflate deflate \<Longrightarrow> h ''Content-Encoding'' = [] \<Longrightarrow>
    decoded inflate (zip_reply deflate h scode bs) = decoded inflate (plain_reply h scode bs)"
  by (simp add: zip_reply_def plain_reply_def decoded_def zip_headers_def undoes_def Let_def)

lemma gzip_decoded:
  "undoes inflate deflate \<Longrightarrow>
    decoded inflate (send_header 200 (gzipHandler deflate ae (orderly hs scode bs) fresh_writer)) =
    decoded inflate (send_header 200 (fold plain_act (orderly hs scode bs) fresh_writer))"
  unfolding gzip_orderly plain_orderly using zip_decoded by simp

lemma gzip_status_headers:
  assumes "k \<notin> {''Content-Encoding'', ''Vary'', ''Content-Length''}"
  shows "reply_code (send_header 200 (gzipHandler deflate ae (orderly hs scode bs) fresh_writer)) =
      reply_code (send_header 200 (fold plain_act (orderly hs scode bs) fresh_writer)) \<and>
    reply_header (send_header 200 (gzipHandler deflate ae (orderly hs scode bs) fresh_writer)) k =
      reply_header (send_header 200 (fold plain_act (orderly hs scode bs) fresh_writer)) k"
  unfolding gzip_orderly plain_orderly using assms
  by (simp add: zip_reply_def plain_reply_def reply_code_def reply_header_def zip_headers_other Let_def)

section \<open>Static files, from end to end\<close>

lemma asset_url_inj:
  "HasPrefix p ''static/'' \<Longrightarrow> HasPrefix q ''static/'' \<Longrightarrow> asset_url p = asset_url q \<longleftrightarrow> p = q"
  by (auto simp: HasPrefix_iff asset_url_def TrimPrefix_def)

lemma add_asset_other:
  "u \<notin> asset_url ` set (map fst files) \<Longrightarrow> fold (add_asset deflate) files m u = m u"
proof (induction files arbitrary: m)
  case (Cons f files)
  then show ?case by (cases "(deflate, f, m)" rule: add_asset.cases) auto
qed simp

lemma getStaticAssets_file:
  assumes "distinct (map fst files)" and "(path, Some data) \<in> set files"
    and "\<forall>p \<in> set (map fst files). HasPrefix p ''static/''"
  shows "getStaticAssets deflate files (asset_url path) = Some (static_asset deflate path data)"
proof -
  obtain a b where f: "files = a @ (path, Some data) # b" using assms(2) by (auto simp: in_set_conv_decomp)
  have "asset_url path \<notin> asset_url ` set (map fst b)"
    using assms(1,3) asset_url_inj by (fastforce simp: f)
  then show ?thesis by (simp add: getStaticAssets_def f add_asset_other)
qed

lemma getStaticAssets_other:
  "u \<notin> asset_url ` set (map fst files) \<Longrightarrow> getStaticAssets deflate files u = None"
  by (simp add: getStaticAssets_def add_asset_other)

lemma serveStaticFiles_orderly:
  "securityHeaders (serveStaticFiles assets path ae) = (case assets path of
      None \<Rightarrow> orderly [(''X-Content-Type-Options'', ''nosniff''), (''X-Frame-Options'', ''SAMEORIGIN''),
        (''Referrer-Policy'', ''strict-origin-when-cross-origin''), (''Content-Length'', []),
        (''Content-Type'', ''text/plain; charset=utf-8''), (''X-Content-Type-Options'', ''nosniff'')]
        (Some 404) [''404 page not found'' @ [CHR 0x0A]]
    | Some a \<Rightarrow>
        orderly ([(''X-Content-Type-Options'', ''nosniff''), (''X-Frame-Options'', ''SAMEORIGIN''),
        (''Referrer-Policy'', ''strict-origin-when-cross-origin''),
        (''Cache-Control'', ''public, max-age=31536000, immutable''), (''Content-Type'', actype a)] @
        (case (agzip a, acceptsEncoding ae ''gzip'') of
          (Some z, True) \<Rightarrow> [(''Content-Encoding'', ''gzip''), (''Vary'', ''Accept-Encoding''),
             (''Content-Length'', Itoa (int (length z)))]
        | _ \<Rightarrow> [(''Content-Length'', Itoa (int (length (aplain a))))]))
        None [case (agzip a, acceptsEncoding ae ''gzip'') of (Some z, True) \<Rightarrow> z | _ \<Rightarrow> aplain a])"
  by (auto simp: serveStaticFiles_def securityHeaders_def notFoundReply_def orderly_def split: option.split bool.split)

text \<open>Whatever the client accepts, it gets the bytes of the file, once encoded at most.\<close>

lemma static_asset_fields [simp]:
  "aplain (static_asset deflate name data) = data" "actype (static_asset deflate name data) = static_type name"
  by (simp_all add: static_asset_def Let_def)

lemma static_file_reply:
  assumes "undoes inflate deflate" and "assets path = Some (static_asset deflate name data)"
    and w: "w = serve_http deflate ae (serveStaticFiles assets path ae)"
  shows "reply_code w = 200" and "decoded inflate w = data" and "reply_header w ''Content-Type'' = static_type name"
    and "reply_header w ''X-Content-Type-Options'' = ''nosniff''"
proof -
  let ?z = "HasPrefix (static_type name) ''text/'' \<or> Contains (static_type name) ''javascript''"
  have "reply_code w = 200 \<and> decoded inflate w = data \<and> reply_header w ''Content-Type'' = static_type name \<and>
      reply_header w ''X-Content-Type-Options'' = ''nosniff''"
  proof (cases "?z \<and> acceptsEncoding ae ''gzip''")
    case True
    then have c: "(case (agzip (static_asset deflate name data), acceptsEncoding ae ''gzip'') of
        (Some z, True) \<Rightarrow> f z | _ \<Rightarrow> g) = f (deflate data)" for f :: "string \<Rightarrow> 'a" and g
      by (auto simp: static_asset_def)
    show ?thesis using assms(1) unfolding w serve_http_def serveStaticFiles_orderly assms(2) option.case c gzip_orderly
      by (simp add: plain_reply_def reply_code_def reply_header_def decoded_def set_headers_def undoes_def
          bodyAllowed_def static_asset_def Let_def)
  next
    case False
    then have c: "(case (agzip (static_asset deflate name data), acceptsEncoding ae ''gzip'') of
        (Some z, True) \<Rightarrow> f z | _ \<Rightarrow> g) = g" for f :: "string \<Rightarrow> 'a" and g
      by (auto simp: static_asset_def split: option.split bool.split)
    show ?thesis using assms(1) unfolding w serve_http_def serveStaticFiles_orderly assms(2) option.case c gzip_orderly
      by (simp add: zip_reply_def plain_reply_def reply_code_def reply_header_def decoded_def set_headers_def
          zip_headers_def undoes_def bodyAllowed_def)
  qed
  then show "reply_code w = 200" and "decoded inflate w = data" and "reply_header w ''Content-Type'' = static_type name"
    and "reply_header w ''X-Content-Type-Options'' = ''nosniff''" by simp_all
qed

end
