(* ===== verification/Render.thy ===== *)
theory Render
  imports Sorting Util Compression
begin

text \<open>
  How the handlers write their responses (\<open>internal/web/templates.go\<close>, \<open>server.go\<close>): the
  rendering of a template into a buffer of the pool or straight to the client, the JSON of the
  \<open>Hx-Trigger\<close> header and of an error.  A response is the list of calls on the
  \<open>ResponseWriter\<close> (\<open>Compression\<close>).  The template engine is the parameter \<open>exec\<close>: what it writes for a
  template and its data, and whether it comes to the end.
\<close>

section \<open>JSON strings\<close>

text \<open>
  \<open>utf8.DecodeRune\<close>: the length of a valid encoding of more than one byte at the start, 0 when
  there is none.
\<close>

definition in_range :: "nat \<Rightarrow> nat \<Rightarrow> char \<Rightarrow> bool" where
  "in_range a b c \<longleftrightarrow> a \<le> code c \<and> code c \<le> b"

definition rune_size :: "string \<Rightarrow> nat" where
  "rune_size s = (case s of
      a # b # rest \<Rightarrow>
        if in_range 0xC2 0xDF a then (if in_range 0x80 0xBF b then 2 else 0)
        else if in_range 0xE0 0xEF a then
          (let lo = (if code a = 0xE0 then 0xA0 else 0x80); hi = (if code a = 0xED then 0x9F else 0xBF)
           in case rest of c # _ \<Rightarrow> if in_range lo hi b \<and> in_range 0x80 0xBF c then 3 else 0 | [] \<Rightarrow> 0)
        else if in_range 0xF0 0xF4 a then
          (let lo = (if code a = 0xF0 then 0x90 else 0x80); hi = (if code a = 0xF4 then 0x8F else 0xBF)
           in case rest of c # d # _ \<Rightarrow>
                if in_range lo hi b \<and> in_range 0x80 0xBF c \<and> in_range 0x80 0xBF d then 4 else 0
              | _ \<Rightarrow> 0)
        else 0
    | _ \<Rightarrow> 0)"

text \<open>One byte below 128, as \<open>json.Marshal\<close> writes it: also safe inside HTML.\<close>

definition json_char :: "char \<Rightarrow> string" where
  "json_char c =
    (if code c = 0x22 \<or> code c = 0x5C then [CHR 0x5C, c]
     else if code c = 8 then [CHR 0x5C, CHR ''b''] else if code c = 12 then [CHR 0x5C, CHR ''f'']
     else if code c = 10 then [CHR 0x5C, CHR ''n''] else if code c = 13 then [CHR 0x5C, CHR ''r'']
     else if code c = 9 then [CHR 0x5C, CHR ''t'']
     else if code c < 0x20 \<or> c \<in> {CHR ''<'', CHR ''>'', CHR ''&''}
       then [CHR 0x5C, CHR ''u'', CHR ''0'', CHR ''0'', hex_char (code c div 16), hex_char (code c mod 16)]
     else [c])"

text \<open>An invalid byte becomes U+FFFD, and the two line separators of Unicode are escaped.\<close>

definition line_separator :: "string \<Rightarrow> bool" where
  "line_separator r \<longleftrightarrow> r = [CHR 0xE2, CHR 0x80, CHR 0xA8] \<or> r = [CHR 0xE2, CHR 0x80, CHR 0xA9]"

function json_chars :: "string \<Rightarrow> string" where
  "json_chars [] = []"
| "json_chars (c # s) =
    (if code c < 0x80 then json_char c @ json_chars s
     else let n = rune_size (c # s); r = take n (c # s)
       in if n = 0 then CHR 0x5C # ''ufffd'' @ json_chars s
          else if line_separator r then (CHR 0x5C # ''u202'' @ [if r = [CHR 0xE2, CHR 0x80, CHR 0xA8] then CHR ''8'' else CHR ''9'']) @ json_chars (drop n (c # s))
          else r @ json_chars (drop n (c # s)))"
  by pat_completeness auto
termination
  by (relation "measure length") (auto simp: Let_def)

definition json_string :: "string \<Rightarrow> string" where
  "json_string s = CHR 0x22 # json_chars s @ [CHR 0x22]"

text \<open>A map, of keys and the texts of their values, is written with its keys in order.\<close>

definition json_member :: "string \<times> string \<Rightarrow> string" where
  "json_member kv = json_string (fst kv) @ '':'' @ snd kv"

fun comma_join :: "string list \<Rightarrow> string" where
  "comma_join [] = []"
| "comma_join [x] = x"
| "comma_join (x # xs) = x @ '','' @ comma_join xs"

definition json_object :: "(string \<times> string) list \<Rightarrow> string" where
  "json_object obj = ''{'' @ comma_join (map json_member (sort_key fst obj)) @ ''}''"

section \<open>The responses\<close>

definition showtoast :: "string \<Rightarrow> string \<Rightarrow> string" where
  "showtoast msg kind = json_object [(''msg'', json_string msg), (''type'', json_string kind)]"

text \<open>\<open>m[ev] = nil\<close>\<close>

definition put_null :: "string \<Rightarrow> (string \<times> string) list \<Rightarrow> (string \<times> string) list" where
  "put_null ev m = (ev, ''null'') # filter (\<lambda>kv. fst kv \<noteq> ev) m"

definition toast_acts :: "string \<Rightarrow> string list \<Rightarrow> act list" where
  "toast_acts msg extraEvents =
    [SetHeader ''Hx-Trigger'' (json_object (fold put_null extraEvents
      [(''closemodal'', ''null''), (''showtoast'', showtoast msg ''success'')]))]"

definition error_acts :: "int \<Rightarrow> string \<Rightarrow> act list" where
  "error_acts scode msg =
    [SetHeader ''Hx-Trigger'' (json_object [(''showtoast'', showtoast msg ''error'')]), WriteHeader scode]"

text \<open>\<open>Encode\<close> ends the text with a newline; \<open>None\<close> stands for a value that has no JSON.\<close>

definition writeJSON :: "int \<Rightarrow> string option \<Rightarrow> act list" where
  "writeJSON scode v =
    [SetHeader ''Content-Type'' ''application/json'', WriteHeader scode] @
    (case v of None \<Rightarrow> [] | Some t \<Rightarrow> [Write (t @ [CHR 0x0A])])"

definition api_error_acts :: "int \<Rightarrow> string \<Rightarrow> act list" where
  "api_error_acts scode msg = writeJSON scode (Some (json_object [(''error'', json_string msg)]))"

text \<open>\<open>decode\<close> reads the first value of a body; at most a megabyte of it is read.\<close>

definition readJSON :: "(string \<Rightarrow> 'v option) \<Rightarrow> string \<Rightarrow> 'v option" where
  "readJSON decode input = decode (take 0x100000 input)"

section \<open>The rendering\<close>

text \<open>\<open>http.Error\<close>\<close>

definition http_error :: "string \<Rightarrow> int \<Rightarrow> act list" where
  "http_error msg scode =
    [SetHeader ''Content-Length'' [], SetHeader ''Content-Type'' ''text/plain; charset=utf-8'',
     SetHeader ''X-Content-Type-Options'' ''nosniff'', WriteHeader scode, Write (msg @ [CHR 0x0A])]"

text \<open>\<open>init\<close>: the partials, of the entries of their directory (name, whether a directory).\<close>

definition partial_files :: "(string \<times> bool) list \<Rightarrow> string list" where
  "partial_files entries = map (\<lambda>e. ''templates/partials/'' @ fst e)
    (filter (\<lambda>e. \<not> snd e \<and> HasSuffix (fst e) ''.html'') entries)"

text \<open>
  What the engine writes, piece by piece, for a template of a set and its data, and whether it
  comes to the end of the template.  \<open>buf\<close> is what the buffer from the pool holds from
  its last use; the second result is what goes back to the pool (\<open>WriteTo\<close> empties it).
\<close>

type_synonym 'd engine = "string \<Rightarrow> 'd \<Rightarrow> string list \<times> bool"

definition renderTemplate :: "'d engine \<Rightarrow> string \<Rightarrow> 'd \<Rightarrow> string \<Rightarrow> act list \<times> string" where
  "renderTemplate exec name data buf =
    (let buf = []; (pieces, ok) = exec name data; buf = buf @ concat pieces
     in if \<not> ok then (http_error ''template error'' 500, buf)
        else ([SetHeader ''Content-Type'' ''text/html; charset=utf-8''] @
              (if buf = [] then [] else [Write buf]), []))"

definition renderPage :: "'d engine \<Rightarrow> 'd \<Rightarrow> act list" where
  "renderPage exec data =
    (let (pieces, ok) = exec ''base'' data
     in [SetHeader ''Content-Type'' ''text/html; charset=utf-8''] @ map Write pieces @
        (if ok then [] else http_error ''template error'' 500))"

definition preRender :: "'d engine \<Rightarrow> string \<Rightarrow> 'd \<Rightarrow> string \<Rightarrow> string \<times> string" where
  "preRender exec name data buf =
    (let buf = []; (pieces, ok) = exec name data; buf = buf @ concat pieces in (buf, buf))"

section \<open>A message does not leave its string\<close>

lemma in_range_high: "in_range a b c \<Longrightarrow> 0x80 \<le> a \<Longrightarrow> 0x80 \<le> code c"
  by (simp add: in_range_def)

lemma high_rune:
  assumes "0 < rune_size s" and "c \<in> set (take (rune_size s) s)"
  shows "0x80 \<le> code c"
proof -
  consider (short) "s = [] \<or> (\<exists>a. s = [a])" | (two) a b where "s = [a, b]" | (three) a b d where "s = [a, b, d]"
    | (four) a b d e rest where "s = a # b # d # e # rest"
    by (metis neq_Nil_conv)
  then show ?thesis
  proof cases
    case short
    then show ?thesis using assms(1) by (auto simp: rune_size_def)
  next
    case two
    then show ?thesis using assms by (auto simp: rune_size_def dest: in_range_high split: if_splits)
  next
    case three
    then show ?thesis using assms by (auto simp: rune_size_def Let_def dest: in_range_high split: if_splits)
  next
    case four
    then show ?thesis using assms by (auto simp: rune_size_def Let_def dest: in_range_high split: if_splits)
  qed
qed

text \<open>
  No control character: a header with the text cannot be split.  No angle bracket and no ampersand.
\<close>

definition inert :: "char \<Rightarrow> bool" where
  "inert c \<longleftrightarrow> 0x20 \<le> code c \<and> c \<notin> {CHR ''<'', CHR ''>'', CHR ''&''}"

lemma inert_high: "0x80 \<le> code c \<Longrightarrow> inert c"
  by (auto simp: inert_def)

lemma inert_hex: "n < 16 \<Longrightarrow> inert (hex_char n)"
  by (auto simp: inert_def hex_char_def take_bit_eq_mod dest: arg_cong [where f = code])

lemma inert_json_char:
  assumes "code c < 0x80" and "d \<in> set (json_char c)"
  shows "inert d"
proof -
  have h: "inert (hex_char (code c div 16))" "inert (hex_char (code c mod 16))"
    using assms(1) by (auto intro!: inert_hex)
  show ?thesis
  proof (cases "code c < 0x20 \<or> c \<in> {CHR ''<'', CHR ''>'', CHR ''&''}")
    case True
    then show ?thesis using assms(2) h by (auto simp: json_char_def inert_def split: if_splits)
  next
    case False
    then show ?thesis using assms(2) by (auto simp: json_char_def inert_def split: if_splits)
  qed
qed

lemma inert_json_chars: "d \<in> set (json_chars s) \<Longrightarrow> inert d"
proof (induction s rule: json_chars.induct)
  case 1
  then show ?case by simp
next
  case (2 c s)
  define n where "n = rune_size (c # s)"
  consider (low) "code c < 0x80" | (bad) "\<not> code c < 0x80" "n = 0" | (rune) "\<not> code c < 0x80" "0 < n"
    by linarith
  then show ?case
  proof cases
    case low
    then show ?thesis using 2 inert_json_char by auto
  next
    case bad
    then show ?thesis using 2 by (auto simp: n_def [symmetric] inert_def)
  next
    case rune
    then have r: "inert e" if "e \<in> set (take n (c # s))" for e
      using that high_rune [of "c # s" e] inert_high [of e] rune(2) unfolding n_def by blast
    show ?thesis
    proof (cases "line_separator (take n (c # s))")
      case True
      then have "d \<in> set (CHR 0x5C # ''u2028'') \<union> set (CHR 0x5C # ''u2029'') \<union> set (json_chars (drop n (c # s)))"
        using 2(5) rune by (auto simp: n_def [symmetric] Let_def split: if_splits)
      then show ?thesis using 2(3) [OF rune(1) n_def refl _ True] rune(2) by (auto simp: inert_def)
    next
      case False
      then have "d \<in> set (take n (c # s)) \<union> set (json_chars (drop n (c # s)))"
        using 2(5) rune by (simp add: n_def [symmetric] Let_def)
      then show ?thesis using 2(4) [OF rune(1) n_def refl _ False] r [of d] rune(2) by blast
    qed
  qed
qed

lemma json_string_inert: "d \<in> set (json_string s) \<Longrightarrow> inert d"
  by (auto simp: json_string_def inert_def dest: inert_json_chars)

lemma comma_join_chars: "d \<in> set (comma_join xs) \<Longrightarrow> d = CHR '','' \<or> (\<exists>x \<in> set xs. d \<in> set x)"
  by (induction xs rule: comma_join.induct) auto

lemma json_member_inert:
  assumes "d \<in> set (json_member kv)" and "\<And>e. e \<in> set (snd kv) \<Longrightarrow> inert e"
  shows "inert d"
  using assms(1) json_string_inert [of d "fst kv"] assms(2) [of d]
  by (auto simp: json_member_def inert_def)

lemma json_object_inert:
  assumes "d \<in> set (json_object obj)" and "\<And>kv e. kv \<in> set obj \<Longrightarrow> e \<in> set (snd kv) \<Longrightarrow> inert e"
  shows "inert d"
proof -
  consider "d \<in> {CHR ''{'', CHR ''}'', CHR '',''}" | kv where "kv \<in> set obj" "d \<in> set (json_member kv)"
    using assms(1) by (auto simp: json_object_def dest!: comma_join_chars)
  then show ?thesis
  proof cases
    case 1
    then show ?thesis by (auto simp: inert_def)
  next
    case 2
    show ?thesis by (rule json_member_inert [OF 2(2)]) (rule assms(2) [OF 2(1)])
  qed
qed

lemma showtoast_inert:
  assumes "d \<in> set (showtoast msg kind)"
  shows "inert d"
  by (rule json_object_inert [OF assms [unfolded showtoast_def]]) (auto dest: json_string_inert)

lemma inert_null: "d \<in> set ''null'' \<Longrightarrow> inert d"
  by (auto simp: inert_def)

text \<open>The headers of a toast and of an error, whatever the message.\<close>

lemma put_null_inert:
  assumes "\<And>kv e. kv \<in> set m \<Longrightarrow> e \<in> set (snd kv) \<Longrightarrow> inert e"
    and "kv \<in> set (fold put_null evs m)" and "e \<in> set (snd kv)"
  shows "inert e"
  using assms
proof (induction evs arbitrary: m)
  case (Cons ev evs)
  show ?case
    by (rule Cons.IH [of "put_null ev m"]) (use Cons.prems in \<open>auto simp: put_null_def inert_def\<close>)
qed simp

lemma trigger_inert:
  assumes "SetHeader ''Hx-Trigger'' v \<in> set (toast_acts msg evs) \<union> set (error_acts scode msg)" and "d \<in> set v"
  shows "inert d"
proof -
  have t: "inert e" if "kv \<in> set [(''closemodal'', ''null''), (''showtoast'', showtoast msg ''success'')]" "e \<in> set (snd kv)"
    for kv e using that showtoast_inert [of e msg] inert_null [of e] by auto
  have u: "inert e" if "kv \<in> set [(''showtoast'', showtoast msg ''error'')]" "e \<in> set (snd kv)"
    for kv e using that showtoast_inert by auto
  show ?thesis
    using assms by (auto simp: toast_acts_def error_acts_def simp del: fold_simps
        intro: json_object_inert [OF _ u] json_object_inert [OF _ put_null_inert [OF t]])
qed

text \<open>Where a reader of JSON sees the end of a string: at the first quote without a backslash.\<close>

fun literal :: "string \<Rightarrow> (string \<times> string) option" where
  "literal [] = None"
| "literal (c # s) =
    (if c = CHR 0x22 then Some ([], s)
     else if c = CHR 0x5C then
       (case s of [] \<Rightarrow> None | d # t \<Rightarrow> map_option (\<lambda>(a, b). (c # d # a, b)) (literal t))
     else map_option (\<lambda>(a, b). (c # a, b)) (literal s))"

definition whole :: "string \<Rightarrow> bool" where
  "whole x \<longleftrightarrow> (\<forall>t a b. literal t = Some (a, b) \<longrightarrow> literal (x @ t) = Some (x @ a, b))"

lemma whole_append: "whole x \<Longrightarrow> whole y \<Longrightarrow> whole (x @ y)"
  by (simp add: whole_def)

lemma whole_plain: "CHR 0x22 \<notin> set x \<Longrightarrow> CHR 0x5C \<notin> set x \<Longrightarrow> whole x"
  by (induction x) (auto simp: whole_def)

lemma whole_pair: "whole [CHR 0x5C, d]"
  by (auto simp: whole_def)

lemma hex_char_plain: "n < 16 \<Longrightarrow> hex_char n \<noteq> CHR 0x22 \<and> hex_char n \<noteq> CHR 0x5C"
  by (auto simp: hex_char_def take_bit_eq_mod dest: arg_cong [where f = code])

lemma whole_json_char:
  assumes "code c < 0x80"
  shows "whole (json_char c)"
proof -
  have h: "code c div 16 < 16" "code c mod 16 < 16" using assms by auto
  have u: "whole ([CHR 0x5C, CHR ''u''] @ [CHR ''0'', CHR ''0'', hex_char (code c div 16), hex_char (code c mod 16)])"
    by (intro whole_append whole_pair whole_plain) (use hex_char_plain [OF h(1)] hex_char_plain [OF h(2)] in auto)
  have p: "code c \<noteq> 0x22 \<Longrightarrow> code c \<noteq> 0x5C \<Longrightarrow> whole [c]"
    by (rule whole_plain) auto
  show ?thesis using u p by (auto simp: json_char_def whole_pair)
qed

lemma whole_json_chars: "whole (json_chars s)"
proof (induction s rule: json_chars.induct)
  case 1
  then show ?case by (simp add: whole_def)
next
  case (2 c s)
  define n where "n = rune_size (c # s)"
  consider (low) "code c < 0x80" | (bad) "\<not> code c < 0x80" "n = 0" | (rune) "\<not> code c < 0x80" "0 < n"
    by linarith
  then show ?case
  proof cases
    case low
    then show ?thesis using 2(1) by (simp add: whole_append whole_json_char)
  next
    case bad
    have "whole ([CHR 0x5C, CHR ''u''] @ ''fffd'')" by (intro whole_append whole_pair whole_plain) auto
    from whole_append [OF this 2(2) [OF bad(1) n_def refl bad(2)]]
    show ?thesis using bad by (simp add: n_def)
  next
    case rune
    have "0x80 \<le> code e" if "e \<in> set (take n (c # s))" for e
      using that high_rune [of "c # s" e] rune(2) unfolding n_def by blast
    then have r: "whole (take n (c # s))" by (intro whole_plain) fastforce+
    have l: "whole ([CHR 0x5C, CHR ''u''] @ ''202'' @ [d])" if "d \<in> {CHR ''8'', CHR ''9''}" for d
      using that by (intro whole_append whole_pair whole_plain) auto
    show ?thesis
    proof (cases "line_separator (take n (c # s))")
      case True
      note ih = 2(3) [OF rune(1) n_def refl _ True]
      show ?thesis using whole_append [OF l ih] rune True by (auto simp: n_def Let_def)
    next
      case False
      note ih = 2(4) [OF rune(1) n_def refl _ False]
      show ?thesis using whole_append [OF r ih] rune False by (auto simp: n_def Let_def)
    qed
  qed
qed

lemma literal_json_string: "literal (json_chars s @ CHR 0x22 # t) = Some (json_chars s, t)"
  using whole_json_chars [of s] by (auto simp: whole_def)

section \<open>Templates\<close>

definition html_headers :: "headers \<Rightarrow> headers" where
  "html_headers h = h(''Content-Type'' := ''text/html; charset=utf-8'')"

definition error_headers :: "headers \<Rightarrow> headers" where
  "error_headers h = h(''Content-Length'' := [], ''Content-Type'' := ''text/plain; charset=utf-8'',
     ''X-Content-Type-Options'' := ''nosniff'')"

text \<open>All or nothing, whatever the buffer of the pool held: the whole page, or status 500 and none of it.\<close>

lemma renderTemplate_whole:
  assumes "sent wr = None" and "body wr = []"
  shows "send_header 200 (fold plain_act (fst (renderTemplate exec name data buf)) wr) =
    (let (pieces, ok) = exec name data
     in if ok then \<lparr>hdrs = html_headers (hdrs wr), sent = Some (200, html_headers (hdrs wr)), body = concat pieces\<rparr>
        else \<lparr>hdrs = error_headers (hdrs wr), sent = Some (500, error_headers (hdrs wr)),
              body = ''template error'' @ [CHR 0x0A]\<rparr>)"
  using assms
  by (cases wr) (auto simp: renderTemplate_def http_error_def html_headers_def error_headers_def
      send_bytes_def send_header_def bodyAllowed_def split: prod.splits)

text \<open>
  A page is not: a failure after the first piece leaves status 200 and the type of a page, with the
  message behind what was written.
\<close>

lemma renderPage_cut:
  assumes "exec ''base'' data = (p # ps, False)" and "sent wr = None" and "body wr = []"
  shows "sent (fold plain_act (renderPage exec data) wr) = Some (200, html_headers (hdrs wr)) \<and>
    body (fold plain_act (renderPage exec data) wr) = concat (p # ps) @ ''template error'' @ [CHR 0x0A]"
proof -
  let ?w = "\<lparr>hdrs = html_headers (hdrs wr), sent = Some (200, html_headers (hdrs wr)), body = p\<rparr>"
  have "fold plain_act (renderPage exec data) wr = fold plain_act (http_error ''template error'' 500) (fold plain_act (map Write ps) ?w)"
    using assms by (cases wr) (simp add: renderPage_def html_headers_def send_bytes_def send_header_def bodyAllowed_def)
  also have "\<dots> = fold plain_act (http_error ''template error'' 500) (?w\<lparr>body := p @ concat ps\<rparr>)"
    by (simp add: fold_Write [of ?w 200 "html_headers (hdrs wr)"] bodyAllowed_def)
  finally show ?thesis
    by (simp add: http_error_def send_bytes_def send_header_def bodyAllowed_def)
qed

lemma renderPage_whole:
  assumes "exec ''base'' data = (ps, True)" and "sent wr = None" and "body wr = []"
  shows "send_header 200 (fold plain_act (renderPage exec data) wr) =
    \<lparr>hdrs = html_headers (hdrs wr), sent = Some (200, html_headers (hdrs wr)), body = concat ps\<rparr>"
proof (cases ps)
  case Nil
  then show ?thesis
    using assms by (cases wr) (simp add: renderPage_def html_headers_def send_header_def)
next
  case (Cons p qs)
  let ?w = "\<lparr>hdrs = html_headers (hdrs wr), sent = Some (200, html_headers (hdrs wr)), body = p\<rparr>"
  have "fold plain_act (renderPage exec data) wr = fold plain_act (map Write qs) ?w"
    using assms Cons by (cases wr) (simp add: renderPage_def html_headers_def send_bytes_def send_header_def bodyAllowed_def)
  also have "\<dots> = ?w\<lparr>body := p @ concat qs\<rparr>"
    by (simp add: fold_Write [of ?w 200 "html_headers (hdrs wr)"] bodyAllowed_def)
  finally show ?thesis using Cons by (simp add: send_header_def)
qed

text \<open>What goes into a page is what the engine wrote, whatever the buffer held before.\<close>

lemma preRender_fresh: "fst (preRender exec name data buf) = concat (fst (exec name data))"
  by (simp add: preRender_def case_prod_beta Let_def)

text \<open>
  The shared replies set their headers first, then the status, then write: compression is
  transparent for them.
\<close>

lemma replies_orderly:
  shows "error_acts scode msg = orderly [(''Hx-Trigger'', json_object [(''showtoast'', showtoast msg ''error'')])] (Some scode) []"
    and "writeJSON scode v = orderly [(''Content-Type'', ''application/json'')] (Some scode)
      (case v of None \<Rightarrow> [] | Some t \<Rightarrow> [t @ [CHR 0x0A]])"
  by (simp_all add: error_acts_def writeJSON_def orderly_def split: option.splits)

lemma rendering_orderly:
  "\<exists>hs scode bs. fst (renderTemplate exec name data buf) = orderly hs scode bs"
proof (cases "exec name data")
  case (Pair pieces ok)
  have "fst (renderTemplate exec name data buf) =
    (if ok then orderly [(''Content-Type'', ''text/html; charset=utf-8'')] None (if concat pieces = [] then [] else [concat pieces])
     else orderly [(''Content-Length'', []), (''Content-Type'', ''text/plain; charset=utf-8''),
       (''X-Content-Type-Options'', ''nosniff'')] (Some 500) [''template error'' @ [CHR 0x0A]])"
    unfolding renderTemplate_def http_error_def orderly_def by (simp add: Pair Let_def)
  then show ?thesis by (metis (full_types))
qed

end
