(* ===== verification/GoPath.thy ===== *)
theory GoPath
  imports Util
begin

text \<open>
  The lexical part of Go's \<open>path/filepath\<close> on a Unix system (\<open>Clean\<close>, \<open>Join\<close>) and
  \<open>encoding/base64\<close> (\<open>StdEncoding\<close>), as the store and the Cloudflare client use them.
\<close>

section \<open>Paths\<close>

fun JoinSlash :: "string list \<Rightarrow> string" where
  "JoinSlash [] = []"
| "JoinSlash [x] = x"
| "JoinSlash (x # xs) = x @ ''/'' @ JoinSlash xs"

text \<open>One component of the path, read onto the stack of the components kept so far.\<close>

definition path_step :: "bool \<Rightarrow> string \<Rightarrow> string list \<Rightarrow> string list" where
  "path_step rooted c out =
    (if c = [] \<or> c = ''.'' then out
     else if c = ''..'' then (case out of [] \<Rightarrow> if rooted then [] else [c]
                              | t # ts \<Rightarrow> if t = ''..'' then c # out else ts)
     else c # out)"

definition path_stack :: "string \<Rightarrow> string list" where
  "path_stack p = fold (path_step (HasPrefix p ''/'')) (SplitByte p CHR ''/'') []"

definition render_path :: "bool \<Rightarrow> string list \<Rightarrow> string" where
  "render_path rooted out = (if rooted then ''/'' @ JoinSlash (rev out)
     else if out = [] then ''.'' else JoinSlash (rev out))"

definition Clean :: "string \<Rightarrow> string" where
  "Clean p = (if p = [] then ''.'' else render_path (HasPrefix p ''/'') (path_stack p))"

definition Join :: "string list \<Rightarrow> string" where
  "Join elems = (let es = filter (\<lambda>e. e \<noteq> []) elems in if es = [] then [] else Clean (JoinSlash es))"

text \<open>The stacks that the loop builds: proper names above a run of \<open>..\<close>.\<close>

fun clean_stack :: "bool \<Rightarrow> string list \<Rightarrow> bool" where
  "clean_stack r [] \<longleftrightarrow> True"
| "clean_stack r (c # out) \<longleftrightarrow> c \<noteq> [] \<and> c \<noteq> ''.'' \<and> CHR ''/'' \<notin> set c \<and>
     (c = ''..'' \<longrightarrow> \<not> r \<and> (\<forall>x \<in> set out. x = ''..'')) \<and> clean_stack r out"

lemma SplitByte_nonempty [simp]: "SplitByte s c \<noteq> []"
  by (induction s) (auto split: list.split)

lemma SplitByte_no_sep: "w \<in> set (SplitByte s c) \<Longrightarrow> c \<notin> set w"
proof (induction s arbitrary: w)
  case Nil
  then show ?case by simp
next
  case (Cons x s)
  then show ?case
    by (cases "SplitByte s c") (fastforce split: if_splits)+
qed

lemma SplitByte_word: "c \<notin> set w \<Longrightarrow> SplitByte w c = [w]"
  by (induction w) auto

lemma SplitByte_append: "c \<notin> set w \<Longrightarrow> SplitByte (w @ c # s) c = w # SplitByte s c"
  by (induction w) auto

lemma SplitByte_snoc: "c \<notin> set w \<Longrightarrow> SplitByte (s @ c # w) c = SplitByte s c @ [w]"
proof (induction s)
  case Nil
  then show ?case by (simp add: SplitByte_word)
next
  case (Cons x s)
  then show ?case
    by (cases "SplitByte s c") (auto split: list.splits)
qed

lemma SplitByte_JoinSlash:
  "xs \<noteq> [] \<Longrightarrow> \<forall>x \<in> set xs. CHR ''/'' \<notin> set x \<Longrightarrow> SplitByte (JoinSlash xs) CHR ''/'' = xs"
  by (induction xs rule: JoinSlash.induct) (simp_all add: SplitByte_word SplitByte_append)

lemma JoinSlash_snoc: "xs \<noteq> [] \<Longrightarrow> JoinSlash (xs @ [x]) = JoinSlash xs @ ''/'' @ x"
  by (induction xs rule: JoinSlash.induct) (auto simp: neq_Nil_conv)

lemma clean_stack_step:
  "clean_stack r out \<Longrightarrow> CHR ''/'' \<notin> set c \<Longrightarrow> clean_stack r (path_step r c out)"
  by (cases out) (auto simp: path_step_def)

lemma clean_stack_fold:
  "clean_stack r out \<Longrightarrow> \<forall>c \<in> set cs. CHR ''/'' \<notin> set c \<Longrightarrow> clean_stack r (fold (path_step r) cs out)"
  by (induction cs arbitrary: out) (simp_all add: clean_stack_step)

lemma clean_path_stack: "clean_stack (HasPrefix p ''/'') (path_stack p)"
  unfolding path_stack_def using SplitByte_no_sep by (intro clean_stack_fold) auto

text \<open>Reading a clean stack back gives it again.\<close>

lemma path_step_clean: "clean_stack r (c # out) \<Longrightarrow> path_step r c out = c # out"
proof -
  assume "clean_stack r (c # out)"
  then have c: "c \<noteq> []" "c \<noteq> ''.''" and d: "c = ''..'' \<Longrightarrow> \<not> r" "c = ''..'' \<Longrightarrow> out \<noteq> [] \<Longrightarrow> hd out = ''..''"
    by simp_all
  show ?thesis
    using c d by (cases "c = ''..''"; cases out) (simp_all add: path_step_def)
qed

lemma fold_clean_stack: "clean_stack r out \<Longrightarrow> fold (path_step r) (rev out) [] = out"
proof (induction out)
  case Nil
  then show ?case by simp
next
  case (Cons c out)
  then show ?case using path_step_clean [of r c out] by simp
qed

lemma clean_stack_no_sep: "clean_stack r out \<Longrightarrow> c \<in> set out \<Longrightarrow> c \<noteq> [] \<and> CHR ''/'' \<notin> set c"
  by (induction out) auto

lemma JoinSlash_hd: "xs \<noteq> [] \<Longrightarrow> \<forall>x \<in> set xs. x \<noteq> [] \<and> CHR ''/'' \<notin> set x \<Longrightarrow>
    JoinSlash xs \<noteq> [] \<and> \<not> HasPrefix (JoinSlash xs) ''/''"
  by (induction xs rule: JoinSlash.induct) (auto simp: HasPrefix_def neq_Nil_conv)

lemma path_stack_render:
  assumes "clean_stack r out" and "out \<noteq> []"
  shows "path_stack (render_path r out) = out" and "HasPrefix (render_path r out) ''/'' = r"
    and "render_path r out \<noteq> []"
proof -
  have ns: "\<forall>x \<in> set (rev out). x \<noteq> [] \<and> CHR ''/'' \<notin> set x"
    using clean_stack_no_sep [OF assms(1)] by simp
  have ne: "rev out \<noteq> []" using assms(2) by simp
  note j = JoinSlash_hd [OF ne ns]
  have sp: "SplitByte (JoinSlash (rev out)) CHR ''/'' = rev out"
    using ns ne by (intro SplitByte_JoinSlash) auto
  show p: "HasPrefix (render_path r out) ''/'' = r"
    using assms(2) j by (simp add: render_path_def HasPrefix_def)
  show "render_path r out \<noteq> []" using assms(2) j by (simp add: render_path_def)
  have "SplitByte (render_path r out) CHR ''/'' = (if r then [[]] else []) @ rev out"
    using assms(2) sp by (simp add: render_path_def)
  then show "path_stack (render_path r out) = out"
    using fold_clean_stack [OF assms(1)] by (auto simp: path_stack_def p path_step_def)
qed

text \<open>A component that is a proper name.\<close>

definition file_name :: "string \<Rightarrow> bool" where
  "file_name c \<longleftrightarrow> c \<noteq> [] \<and> c \<noteq> ''.'' \<and> c \<noteq> ''..'' \<and> CHR ''/'' \<notin> set c"

lemma HasPrefix_root: "p \<noteq> [] \<Longrightarrow> HasPrefix (p @ q) ''/'' = HasPrefix p ''/''"
  by (cases p) (simp_all add: HasPrefix_def)

lemma path_stack_snoc:
  assumes "p \<noteq> []" and "file_name c"
  shows "path_stack (p @ ''/'' @ c) = c # path_stack p" and "HasPrefix (p @ ''/'' @ c) ''/'' = HasPrefix p ''/''"
proof -
  show h: "HasPrefix (p @ ''/'' @ c) ''/'' = HasPrefix p ''/''"
    using assms(1) by (cases p) (auto simp: HasPrefix_def)
  show "path_stack (p @ ''/'' @ c) = c # path_stack p"
    using assms(2) h by (simp add: path_stack_def SplitByte_snoc file_name_def) (simp add: path_step_def)
qed

text \<open>Joining a proper name onto a clean path appends it.\<close>

lemma Join_name:
  assumes "clean_stack r out" and "out \<noteq> []" and "file_name c"
  shows "Join [render_path r out, c] = render_path r out @ ''/'' @ c"
proof -
  let ?p = "render_path r out"
  note s = path_stack_render [OF assms(1,2)] and n = path_stack_snoc [OF _ assms(3), of ?p]
  have "c \<noteq> []" using assms(3) by (simp add: file_name_def)
  then have "Join [?p, c] = Clean (?p @ ''/'' @ c)"
    using s(3) by (simp add: Join_def)
  also have "\<dots> = render_path r (c # out)"
    using n s by (simp add: Clean_def)
  also have "\<dots> = ?p @ ''/'' @ c"
    using assms(2) by (simp add: render_path_def JoinSlash_snoc)
  finally show ?thesis .
qed

lemma Clean_file_name: "file_name c \<Longrightarrow> Clean c = c"
  by (cases c) (auto simp: Clean_def file_name_def path_stack_def SplitByte_word HasPrefix_def
      path_step_def render_path_def)

section \<open>Base64\<close>

definition b64_char :: "nat \<Rightarrow> char" where
  "b64_char n = (if n = 62 then CHR ''+'' else if n = 63 then CHR ''/''
     else char_of (if n < 26 then n + 65 else if n < 52 then n + 71 else n - 4))"

definition b64_value :: "char \<Rightarrow> nat option" where
  "b64_value c =
    (if is_upper c then Some (code c - 65) else if is_lower c then Some (code c - 71)
     else if is_digit c then Some (code c + 4) else if c = CHR ''+'' then Some 62
     else if c = CHR ''/'' then Some 63 else None)"

fun b64_encode :: "string \<Rightarrow> string" where
  "b64_encode [] = []"
| "b64_encode [x] = (let a = code x in [b64_char (a div 4), b64_char (a mod 4 * 16), CHR ''='', CHR ''=''])"
| "b64_encode [x, y] = (let a = code x; b = code y in
     [b64_char (a div 4), b64_char (a mod 4 * 16 + b div 16), b64_char (b mod 16 * 4), CHR ''=''])"
| "b64_encode (x # y # z # s) = (let a = code x; b = code y; c = code z in
     b64_char (a div 4) # b64_char (a mod 4 * 16 + b div 16) # b64_char (b mod 16 * 4 + c div 64)
       # b64_char (c mod 64) # b64_encode s)"

text \<open>The three bytes of a group.\<close>

definition b64_byte1 :: "nat \<Rightarrow> nat \<Rightarrow> char" where "b64_byte1 a b = char_of (a * 4 + b div 16)"

definition b64_byte2 :: "nat \<Rightarrow> nat \<Rightarrow> char" where "b64_byte2 b c = char_of (b mod 16 * 16 + c div 4)"

definition b64_byte3 :: "nat \<Rightarrow> nat \<Rightarrow> char" where "b64_byte3 c d = char_of (c mod 4 * 64 + d)"

text \<open>
  Decoding four characters at a time; padding only at the end; the unused low bits of the
  last character are not checked.
\<close>

fun b64_quads :: "string \<Rightarrow> string option" where
  "b64_quads [] = Some []"
| "b64_quads (p # q # r # t # s) =
    (if t = CHR ''='' then
       (if s \<noteq> [] then None
        else case (b64_value p, b64_value q) of
          (Some a, Some b) \<Rightarrow>
            if r = CHR ''='' then Some [b64_byte1 a b]
            else (case b64_value r of
                Some c \<Rightarrow> Some [b64_byte1 a b, b64_byte2 b c]
              | None \<Rightarrow> None)
        | _ \<Rightarrow> None)
     else case (b64_value p, b64_value q, b64_value r, b64_value t) of
       (Some a, Some b, Some c, Some d) \<Rightarrow>
         map_option (\<lambda>rest. b64_byte1 a b # b64_byte2 b c # b64_byte3 c d # rest) (b64_quads s)
     | _ \<Rightarrow> None)"
| "b64_quads _ = None"

definition b64_decode :: "string \<Rightarrow> string option" where
  "b64_decode s = b64_quads (filter (\<lambda>c. code c \<noteq> 10 \<and> code c \<noteq> 13) s)"

text \<open>The four indexes of a group and the bytes they give back.\<close>

lemma mixed_radix: "m < n \<Longrightarrow> (k * n + m) div n = k" "m < n \<Longrightarrow> (k * n + m) mod n = m" for m n k :: nat
  by simp_all

lemma mixed_radix_less: "k < l \<Longrightarrow> m < n \<Longrightarrow> k * n + m < l * n" for m n k l :: nat
proof -
  assume k: "k < l" and m: "m < n"
  have "k * n + m < (k + 1) * n" using m by simp
  also have "\<dots> \<le> l * n" using k by (intro mult_le_mono1) simp
  finally show ?thesis .
qed

lemma code_parts: "code x div 4 < 64" "code x div 16 < 16" "code x div 64 < 4"
  using nat_of_char_less_256 [of x] by (simp_all only: div_less_iff_less_mult [of _ "_"] zero_less_numeral)

lemma b64_bounds:
  "code x div 4 < 64" "code x mod 4 * 16 < 64" "code x mod 4 * 16 + code y div 16 < 64"
  "code y mod 16 * 4 < 64" "code y mod 16 * 4 + code z div 64 < 64" "code z mod 64 < 64"
proof -
  show "code x div 4 < 64" by (rule code_parts)
  show "code x mod 4 * 16 < 64" using mixed_radix_less [of "code x mod 4" 4 0 16] by simp
  show "code x mod 4 * 16 + code y div 16 < 64"
    using mixed_radix_less [of "code x mod 4" 4 "code y div 16" 16, OF _ code_parts(2)] by simp
  show "code y mod 16 * 4 < 64" using mixed_radix_less [of "code y mod 16" 16 0 4] by simp
  show "code y mod 16 * 4 + code z div 64 < 64"
    using mixed_radix_less [of "code y mod 16" 16 "code z div 64" 4, OF _ code_parts(3)] by simp
qed simp

lemma b64_byte1: "m < 16 \<Longrightarrow> b64_byte1 (code x div 4) (code x mod 4 * 16 + m) = x"
  by (simp only: b64_byte1_def mixed_radix(1) div_mult_mod_eq char_of_char)

lemma b64_byte2: "m < 4 \<Longrightarrow> b64_byte2 (k * 16 + code y div 16) (code y mod 16 * 4 + m) = y"
  by (simp only: b64_byte2_def mixed_radix code_parts div_mult_mod_eq char_of_char)

lemma b64_byte3: "b64_byte3 (k * 4 + code z div 64) (code z mod 64) = z"
  by (simp only: b64_byte3_def mixed_radix code_parts div_mult_mod_eq char_of_char)

lemmas b64_bytes = b64_byte1 b64_byte1 [of 0, simplified] b64_byte2 b64_byte2 [of 0, simplified] b64_byte3 code_parts

lemma b64_char_code: "n < 64 \<Longrightarrow> code (b64_char n) = (if n < 26 then n + 65 else if n < 52 then n + 71
     else if n < 62 then n - 4 else if n = 62 then 43 else 47)"
  by (simp add: b64_char_def)

lemma b64_value_char: "n < 64 \<Longrightarrow> b64_value (b64_char n) = Some n"
proof -
  assume n: "n < 64"
  consider "n < 26" | "26 \<le> n" "n < 52" | "52 \<le> n" "n < 62" | "n = 62" | "n = 63"
    using n by linarith
  then show ?thesis
    using b64_char_code [OF n]
    by cases (auto simp: b64_value_def is_upper_def is_lower_def is_digit_def b64_char_def)
qed

lemma b64_char_plain: "n < 64 \<Longrightarrow> b64_char n \<noteq> CHR ''='' \<and> code (b64_char n) \<noteq> 10 \<and> code (b64_char n) \<noteq> 13"
proof -
  assume n: "n < 64"
  have "code (b64_char n) \<notin> {10, 13, 61}"
    unfolding b64_char_code [OF n] by auto
  then show ?thesis by auto
qed

lemma b64_encode_plain: "c \<in> set (b64_encode s) \<Longrightarrow> code c \<noteq> 10 \<and> code c \<noteq> 13"
  by (induction s rule: b64_encode.induct)
    (auto simp: Let_def b64_char_plain b64_bounds)

lemma b64_quads_encode: "b64_quads (b64_encode s) = Some s"
proof (induction s rule: b64_encode.induct)
  case (4 x y z s)
  then show ?case
    by (simp add: Let_def b64_value_char b64_char_plain b64_bounds b64_bytes)
qed (simp_all add: Let_def b64_value_char b64_char_plain b64_bounds b64_bytes)

lemma b64_decode_encode: "b64_decode (b64_encode s) = Some s"
  using b64_encode_plain [of _ s] by (simp add: b64_decode_def b64_quads_encode filter_all)

end
