(* ===== verification/CfApi.thy ===== *)
theory CfApi
  imports GoPath
begin

text \<open>
  \<open>internal/cf\<close>: the client of the Cloudflare API (\<open>api.go\<close>), DNS records and tunnels
  (\<open>cf.go\<close>), tunnel routes (\<open>tunnel.go\<close>).

  The remote service is not part of the program: it is the parameter \<open>http\<close>, a function
  from a request and the state of the world \<open>'w\<close> to a reply and the next state.  A body
  that is JSON is a value of \<open>json\<close>; the decoders follow \<open>json.Unmarshal\<close> on the
  program's structs (names compared without case, \<open>null\<close> leaves a field alone, a wrong
  type is an error).  A request that cannot be built counts as \<open>Unreachable\<close>.  Errors
  carry the text of the code; the parts that come from the Go library are shortened.
\<close>

section \<open>JSON\<close>

datatype json = JNull | JBool bool | JNum int | JStr string | JArr "json list" | JObj "(string \<times> json) list"

fun str_field :: "string \<Rightarrow> string \<Rightarrow> (string \<times> json) list \<Rightarrow> string option" where
  "str_field k acc [] = Some acc"
| "str_field k acc ((n, v) # kvs) =
    (if EqualFold n k then
       (case v of JStr s \<Rightarrow> str_field k s kvs | JNull \<Rightarrow> str_field k acc kvs | _ \<Rightarrow> None)
     else str_field k acc kvs)"

fun bool_field :: "string \<Rightarrow> bool \<Rightarrow> (string \<times> json) list \<Rightarrow> bool option" where
  "bool_field k acc [] = Some acc"
| "bool_field k acc ((n, v) # kvs) =
    (if EqualFold n k then
       (case v of JBool b \<Rightarrow> bool_field k b kvs | JNull \<Rightarrow> bool_field k acc kvs | _ \<Rightarrow> None)
     else bool_field k acc kvs)"

text \<open>A \<open>json.RawMessage\<close> keeps any value; \<open>None\<close> when the field is missing.\<close>

fun raw_field :: "string \<Rightarrow> json option \<Rightarrow> (string \<times> json) list \<Rightarrow> json option" where
  "raw_field k acc [] = acc"
| "raw_field k acc ((n, v) # kvs) = raw_field k (if EqualFold n k then Some v else acc) kvs"

definition obj_fields :: "json \<Rightarrow> (string \<times> json) list option" where
  "obj_fields j = (case j of JObj kvs \<Rightarrow> Some kvs | JNull \<Rightarrow> Some [] | _ \<Rightarrow> None)"

fun dec_all :: "('a \<Rightarrow> 'b option) \<Rightarrow> 'a list \<Rightarrow> 'b list option" where
  "dec_all f [] = Some []"
| "dec_all f (x # xs) = (case (f x, dec_all f xs) of (Some y, Some ys) \<Rightarrow> Some (y # ys) | _ \<Rightarrow> None)"

definition dec_list :: "(json \<Rightarrow> 'b option) \<Rightarrow> json option \<Rightarrow> 'b list option" where
  "dec_list f j = (case j of None \<Rightarrow> Some [] | Some JNull \<Rightarrow> Some [] | Some (JArr js) \<Rightarrow> dec_all f js | _ \<Rightarrow> None)"

section \<open>\<open>api.go\<close>\<close>

record request =
  rqMethod :: string
  rqURL :: string
  rqToken :: string
  rqBody :: "json option"

datatype reply = Unreachable | Reply int "json option"

type_synonym 'w http = "request \<Rightarrow> 'w \<Rightarrow> reply \<times> 'w"

type_synonym ('w, 'a) op = "'w \<Rightarrow> 'a result \<times> 'w"

definition bind_op :: "('w, 'a) op \<Rightarrow> ('a \<Rightarrow> ('w, 'b) op) \<Rightarrow> ('w, 'b) op" where
  "bind_op m f w = (case m w of (Inl e, w') \<Rightarrow> (Inl e, w') | (Inr x, w') \<Rightarrow> f x w')"

definition return_op :: "'a \<Rightarrow> ('w, 'a) op" where
  "return_op x w = (Inr x, w)"

definition error_op :: "string \<Rightarrow> ('w, 'a) op" where
  "error_op e w = (Inl e, w)"

text \<open>\<open>fmt.Errorf("...: %w", err)\<close>.\<close>

definition wrap_op :: "string \<Rightarrow> ('w, 'a) op \<Rightarrow> ('w, 'a) op" where
  "wrap_op msg m w = (case m w of (Inl e, w') \<Rightarrow> (Inl (msg @ '': '' @ e), w') | (Inr x, w') \<Rightarrow> (Inr x, w'))"

definition cfBaseURL :: string where
  "cfBaseURL = ''https://api.cloudflare.com/client/v4''"

record cfEnvelope =
  envResult :: "json option"
  envSuccess :: bool
  envErrors :: "string list"

definition dec_message :: "json \<Rightarrow> string option" where
  "dec_message j = Option.bind (obj_fields j) (str_field ''message'' [])"

definition dec_envelope :: "json \<Rightarrow> cfEnvelope option" where
  "dec_envelope j = (case obj_fields j of None \<Rightarrow> None | Some kvs \<Rightarrow>
     (case (bool_field ''success'' False kvs, dec_list dec_message (raw_field ''errors'' None kvs)) of
        (Some ok, Some errs) \<Rightarrow>
          Some \<lparr>envResult = raw_field ''result'' None kvs, envSuccess = ok, envErrors = errs\<rparr>
      | _ \<Rightarrow> None))"

definition api_do :: "'w http \<Rightarrow> string \<Rightarrow> string \<Rightarrow> string \<Rightarrow> json option \<Rightarrow> ('w, json option) op" where
  "api_do http token m path body w =
    (let req = \<lparr>rqMethod = m, rqURL = cfBaseURL @ ''/'' @ TrimPrefix path ''/'', rqToken = token, rqBody = body\<rparr>;
         (rep, w') = http req w
     in case rep of
          Unreachable \<Rightarrow> (Inl (''cloudflare API '' @ m @ '' '' @ path), w')
        | Reply status raw \<Rightarrow> (case Option.bind raw dec_envelope of
            None \<Rightarrow> (Inl (''cloudflare API '' @ m @ '' '' @ path @ '' (status '' @ Itoa status @ ''): decode response''), w')
          | Some env \<Rightarrow>
              if \<not> envSuccess env then
                (case envErrors env of
                   msg # _ \<Rightarrow> (Inl (''cloudflare: '' @ msg), w')
                 | [] \<Rightarrow> (Inl (''cloudflare: unknown error (status '' @ Itoa status @ '')''), w'))
              else (Inr (envResult env), w')))"

record dnsRecord =
  recID :: string
  recContent :: string

record ingressRule =
  Hostname :: string
  IService :: string

definition dec_dnsRecord :: "json \<Rightarrow> dnsRecord option" where
  "dec_dnsRecord j = (case obj_fields j of None \<Rightarrow> None | Some kvs \<Rightarrow>
     (case (str_field ''id'' [] kvs, str_field ''content'' [] kvs) of
        (Some i, Some c) \<Rightarrow> Some \<lparr>recID = i, recContent = c\<rparr> | _ \<Rightarrow> None))"

definition dec_ingressRule :: "json \<Rightarrow> ingressRule option" where
  "dec_ingressRule j = (case obj_fields j of None \<Rightarrow> None | Some kvs \<Rightarrow>
     (case (str_field ''hostname'' [] kvs, str_field ''service'' [] kvs) of
        (Some h, Some s) \<Rightarrow> Some \<lparr>Hostname = h, IService = s\<rparr> | _ \<Rightarrow> None))"

definition dec_tunnelConfig :: "json \<Rightarrow> ingressRule list option" where
  "dec_tunnelConfig j = (case obj_fields j of None \<Rightarrow> None | Some kvs \<Rightarrow>
     (case raw_field ''config'' None kvs of None \<Rightarrow> Some [] | Some c \<Rightarrow>
        (case obj_fields c of None \<Rightarrow> None | Some cfg \<Rightarrow>
           dec_list dec_ingressRule (raw_field ''ingress'' None cfg))))"

text \<open>\<open>json.Marshal\<close> on an ingress rule: the hostname is left out when empty.\<close>

definition enc_ingressRule :: "ingressRule \<Rightarrow> json" where
  "enc_ingressRule r = JObj ((if Hostname r = [] then [] else [(''hostname'', JStr (Hostname r))])
     @ [(''service'', JStr (IService r))])"

text \<open>\<open>json.Unmarshal(result, &v)\<close>: a missing result is an error.\<close>

definition unmarshal_op :: "string \<Rightarrow> (json \<Rightarrow> 'a option) \<Rightarrow> json option \<Rightarrow> ('w, 'a) op" where
  "unmarshal_op msg dec j = (case Option.bind j dec of None \<Rightarrow> error_op msg | Some x \<Rightarrow> return_op x)"

section \<open>\<open>cf.go\<close>\<close>

record Client =
  cToken :: string
  zoneID :: string
  accountID :: string
  tunnelID :: string
  noop :: bool

definition new_client :: "string \<Rightarrow> string \<Rightarrow> string \<Rightarrow> string \<Rightarrow> Client" where
  "new_client token zone tunnel account =
    (if token = [] \<or> zone = []
     then \<lparr>cToken = [], zoneID = [], accountID = [], tunnelID = [], noop = True\<rparr>
     else \<lparr>cToken = token, zoneID = zone, accountID = account, tunnelID = tunnel, noop = False\<rparr>)"

definition createDNSRecord :: "'w http \<Rightarrow> Client \<Rightarrow> json \<Rightarrow> ('w, string) op" where
  "createDNSRecord http c params =
    bind_op (api_do http (cToken c) ''POST'' (''zones/'' @ zoneID c @ ''/dns_records'') (Some params)) (\<lambda>result.
    bind_op (unmarshal_op ''decode DNS record'' dec_dnsRecord result) (\<lambda>rec.
    return_op (recID rec)))"

definition CreateRecord :: "'w http \<Rightarrow> Client \<Rightarrow> string \<Rightarrow> string \<Rightarrow> ('w, string) op" where
  "CreateRecord http c name ip =
    (if noop c then return_op []
     else wrap_op (''create DNS record '' @ name)
       (createDNSRecord http c (JObj [(''type'', JStr ''A''), (''name'', JStr name), (''content'', JStr ip),
          (''ttl'', JNum 60), (''proxied'', JBool False)])))"

definition UpdateRecord :: "'w http \<Rightarrow> Client \<Rightarrow> string \<Rightarrow> string \<Rightarrow> ('w, unit) op" where
  "UpdateRecord http c recordID ip =
    (if noop c then return_op ()
     else wrap_op (''update DNS record '' @ recordID)
       (bind_op (api_do http (cToken c) ''PATCH'' (''zones/'' @ zoneID c @ ''/dns_records/'' @ recordID)
                  (Some (JObj [(''content'', JStr ip)]))) (\<lambda>_. return_op ())))"

definition DeleteRecord :: "'w http \<Rightarrow> Client \<Rightarrow> string \<Rightarrow> ('w, unit) op" where
  "DeleteRecord http c recordID =
    (if noop c then return_op ()
     else wrap_op (''delete DNS record '' @ recordID)
       (bind_op (api_do http (cToken c) ''DELETE'' (''zones/'' @ zoneID c @ ''/dns_records/'' @ recordID) None)
          (\<lambda>_. return_op ())))"

definition upper_hex :: "nat \<Rightarrow> char" where
  "upper_hex n = (if n < 10 then char_of (48 + n) else char_of (55 + n))"

definition QueryEscape :: "string \<Rightarrow> string" where
  "QueryEscape s = concat (map (\<lambda>c.
     if is_lower c \<or> is_upper c \<or> is_digit c \<or> c \<in> set ''-_.~'' then [c]
     else if c = CHR '' '' then ''+''
     else [CHR ''%'', upper_hex (code c div 16), upper_hex (code c mod 16)]) s)"

definition FindRecord :: "'w http \<Rightarrow> Client \<Rightarrow> string \<Rightarrow> ('w, string \<times> string) op" where
  "FindRecord http c name =
    (if noop c then return_op ([], [])
     else
       bind_op (wrap_op (''find DNS record '' @ name)
         (api_do http (cToken c) ''GET'' (''zones/'' @ zoneID c @ ''/dns_records?name='' @ QueryEscape name) None)) (\<lambda>result.
       bind_op (unmarshal_op ''decode DNS records'' (\<lambda>j. dec_list dec_dnsRecord (Some j)) result) (\<lambda>recs.
       case recs of [] \<Rightarrow> return_op ([], []) | r # _ \<Rightarrow> return_op (recID r, recContent r))))"

definition EnsureARecord :: "'w http \<Rightarrow> Client \<Rightarrow> string \<Rightarrow> string \<Rightarrow> ('w, unit) op" where
  "EnsureARecord http c name ip =
    (if noop c then return_op ()
     else bind_op (FindRecord http c name) (\<lambda>(recordID, current).
       if recordID = [] then bind_op (CreateRecord http c name ip) (\<lambda>_. return_op ())
       else if current = ip then return_op ()
       else UpdateRecord http c recordID ip))"

definition SetTunnelID :: "string \<Rightarrow> Client \<Rightarrow> Client" where
  "SetTunnelID i c = c\<lparr>tunnelID := i\<rparr>"

text \<open>
  \<open>CreateTunnel\<close>: the random secret is an argument (\<open>rand.Read\<close> does not fail); the
  client is changed when everything succeeded.
\<close>

definition dec_id :: "json \<Rightarrow> string option" where
  "dec_id j = Option.bind (obj_fields j) (str_field ''id'' [])"

definition dec_string :: "json \<Rightarrow> string option" where
  "dec_string j = (case j of JStr s \<Rightarrow> Some s | JNull \<Rightarrow> Some [] | _ \<Rightarrow> None)"

definition CreateTunnel :: "'w http \<Rightarrow> string \<Rightarrow> Client \<Rightarrow> string \<Rightarrow> ('w, (string \<times> string) \<times> Client) op" where
  "CreateTunnel http secret c name =
    (if noop c \<or> accountID c = [] then error_op ''cloudflare account not configured''
     else
       bind_op (wrap_op ''create tunnel''
         (api_do http (cToken c) ''POST'' (''accounts/'' @ accountID c @ ''/cfd_tunnel'')
           (Some (JObj [(''name'', JStr name), (''tunnel_secret'', JStr (b64_encode secret)),
                        (''config_src'', JStr ''cloudflare'')])))) (\<lambda>result.
       bind_op (unmarshal_op ''decode tunnel'' dec_id result) (\<lambda>tid.
       bind_op (wrap_op ''get tunnel token''
         (api_do http (cToken c) ''GET'' (''accounts/'' @ accountID c @ ''/cfd_tunnel/'' @ tid @ ''/token'') None)) (\<lambda>tokenResult.
       bind_op (unmarshal_op ''decode tunnel token'' dec_string tokenResult) (\<lambda>token.
       return_op ((tid, token), SetTunnelID tid c))))))"

definition DeleteTunnel :: "'w http \<Rightarrow> Client \<Rightarrow> string \<Rightarrow> ('w, unit) op" where
  "DeleteTunnel http c tid =
    (if noop c \<or> accountID c = [] then return_op ()
     else wrap_op (''delete tunnel '' @ tid)
       (bind_op (api_do http (cToken c) ''DELETE'' (''accounts/'' @ accountID c @ ''/cfd_tunnel/'' @ tid) None)
          (\<lambda>_. return_op ())))"

section \<open>\<open>tunnel.go\<close>\<close>

definition TunnelEnabled :: "Client \<Rightarrow> bool" where
  "TunnelEnabled c \<longleftrightarrow> \<not> noop c \<and> tunnelID c \<noteq> [] \<and> accountID c \<noteq> []"

definition TunnelAvailable :: "Client \<Rightarrow> bool" where
  "TunnelAvailable c \<longleftrightarrow> \<not> noop c \<and> accountID c \<noteq> []"

definition removeHostname :: "ingressRule list \<Rightarrow> string \<Rightarrow> ingressRule list" where
  "removeHostname rules hostname = filter (\<lambda>r. Hostname r \<noteq> hostname) rules"

text \<open>The loop that separates the named rules from the catch-all.\<close>

fun split_ingress :: "ingressRule list \<Rightarrow> ingressRule list \<Rightarrow> ingressRule option \<Rightarrow> ingressRule list \<times> ingressRule option" where
  "split_ingress [] named catchAll = (named, catchAll)"
| "split_ingress (r # rs) named catchAll =
    (if Hostname r = [] then split_ingress rs named (Some r) else split_ingress rs (named @ [r]) catchAll)"

definition next_ingress :: "(ingressRule list \<Rightarrow> ingressRule list) \<Rightarrow> ingressRule list \<Rightarrow> ingressRule list" where
  "next_ingress f rules = (case split_ingress rules [] None of
      (named, Some r) \<Rightarrow> f named @ [r]
    | (named, None) \<Rightarrow> f named @ [\<lparr>Hostname = [], IService = ''http_status:404''\<rparr>])"

definition config_path :: "Client \<Rightarrow> string" where
  "config_path c = ''accounts/'' @ accountID c @ ''/cfd_tunnel/'' @ tunnelID c @ ''/configurations''"

definition modifyIngress :: "'w http \<Rightarrow> Client \<Rightarrow> (ingressRule list \<Rightarrow> ingressRule list) \<Rightarrow> ('w, unit) op" where
  "modifyIngress http c f =
    bind_op (wrap_op ''get tunnel config'' (api_do http (cToken c) ''GET'' (config_path c) None)) (\<lambda>result.
    bind_op (unmarshal_op ''decode tunnel config'' dec_tunnelConfig result) (\<lambda>rules.
    bind_op (wrap_op ''update tunnel configuration''
      (api_do http (cToken c) ''PUT'' (config_path c)
        (Some (JObj [(''config'', JObj [(''ingress'', JArr (map enc_ingressRule (next_ingress f rules)))])])))) (\<lambda>_.
    return_op ())))"

definition createCNAME :: "'w http \<Rightarrow> Client \<Rightarrow> string \<Rightarrow> ('w, string) op" where
  "createCNAME http c hostname =
    (if noop c \<or> zoneID c = [] then return_op []
     else wrap_op (''create CNAME '' @ hostname)
       (createDNSRecord http c (JObj [(''type'', JStr ''CNAME''), (''name'', JStr hostname),
          (''content'', JStr (tunnelID c @ ''.cfargotunnel.com'')), (''ttl'', JNum 1), (''proxied'', JBool True)])))"

text \<open>An operation whose error is only logged.\<close>

definition ignore_err :: "'a \<Rightarrow> ('w, 'a) op \<Rightarrow> ('w, 'a) op" where
  "ignore_err dflt m w = (case m w of (Inl _, w') \<Rightarrow> (Inr dflt, w') | (Inr x, w') \<Rightarrow> (Inr x, w'))"

definition AddTunnelRoute :: "'w http \<Rightarrow> Client \<Rightarrow> string \<Rightarrow> string \<Rightarrow> ('w, string) op" where
  "AddTunnelRoute http c hostname backend =
    (if \<not> TunnelEnabled c then return_op []
     else
       bind_op (wrap_op (''add tunnel route '' @ hostname)
         (modifyIngress http c (\<lambda>rules. removeHostname rules hostname @ [\<lparr>Hostname = hostname, IService = backend\<rparr>]))) (\<lambda>_.
       bind_op (ignore_err ([], []) (FindRecord http c hostname)) (\<lambda>(existingID, _).
       bind_op (if existingID \<noteq> [] then ignore_err () (DeleteRecord http c existingID) else return_op ()) (\<lambda>_.
       wrap_op (''create CNAME for '' @ hostname) (createCNAME http c hostname)))))"

definition RemoveTunnelRoute :: "'w http \<Rightarrow> Client \<Rightarrow> string \<Rightarrow> string \<Rightarrow> ('w, unit) op" where
  "RemoveTunnelRoute http c hostname cnameID =
    (if \<not> TunnelEnabled c then return_op ()
     else
       bind_op (wrap_op (''remove tunnel route '' @ hostname)
         (modifyIngress http c (\<lambda>rules. removeHostname rules hostname))) (\<lambda>_.
       if cnameID \<noteq> [] then wrap_op (''delete CNAME for '' @ hostname) (DeleteRecord http c cnameID)
       else return_op ()))"

definition ReplaceTunnelRoute :: "'w http \<Rightarrow> Client \<Rightarrow> string \<Rightarrow> string \<Rightarrow> string \<Rightarrow> string \<Rightarrow> ('w, string) op" where
  "ReplaceTunnelRoute http c oldHostname newHostname backend oldCNAMEID =
    (if \<not> TunnelEnabled c then return_op []
     else
       bind_op (wrap_op (''replace tunnel route '' @ oldHostname @ '' to '' @ newHostname)
         (modifyIngress http c (\<lambda>rules. removeHostname rules oldHostname
            @ [\<lparr>Hostname = newHostname, IService = backend\<rparr>]))) (\<lambda>_.
       bind_op (if oldCNAMEID \<noteq> [] then ignore_err () (DeleteRecord http c oldCNAMEID) else return_op ()) (\<lambda>_.
       wrap_op (''create CNAME for '' @ newHostname) (createCNAME http c newHostname))))"

end
