(* ===== verification/CfLaws.thy ===== *)
theory CfLaws
  imports CfApi
begin

text \<open>
  What the Cloudflare client guarantees (\<open>internal/cf\<close>): the ingress rules it writes, the
  calls it does not make, and, over a service that behaves as its documentation says
  (\<open>serves_dns\<close>, \<open>serves_tunnel\<close>), what is in the zone and in the tunnel
  configuration after each operation.  \<open>zone_server\<close> is a small service that shows the
  documented behaviour to be possible.
\<close>

section \<open>The operations without the service\<close>

text \<open>A client without a token or a zone sends nothing and reports no error.\<close>

lemma noop_ops:
  assumes "noop c"
  shows "CreateRecord http c name ip w = (Inr [], w)" "UpdateRecord http c rid ip w = (Inr (), w)"
    "DeleteRecord http c rid w = (Inr (), w)" "FindRecord http c name w = (Inr ([], []), w)"
    "EnsureARecord http c name ip w = (Inr (), w)" "DeleteTunnel http c tid w = (Inr (), w)"
    "AddTunnelRoute http c h b w = (Inr [], w)" "RemoveTunnelRoute http c h rid w = (Inr (), w)"
    "ReplaceTunnelRoute http c h h' b rid w = (Inr [], w)"
    "CreateTunnel http secret c name w = (Inl ''cloudflare account not configured'', w)"
  using assms by (simp_all add: CreateRecord_def UpdateRecord_def DeleteRecord_def FindRecord_def EnsureARecord_def
      DeleteTunnel_def AddTunnelRoute_def RemoveTunnelRoute_def ReplaceTunnelRoute_def CreateTunnel_def
      TunnelEnabled_def return_op_def error_op_def)

lemma noop_new_client: "noop (new_client token zone tunnel account) \<longleftrightarrow> token = [] \<or> zone = []"
  by (simp add: new_client_def)

lemma removeHostname_gone [simp]: "h \<notin> Hostname ` set (removeHostname rules h)"
  by (auto simp: removeHostname_def)

lemma removeHostname_other:
  "filter (\<lambda>r. Hostname r \<noteq> h) (removeHostname rules h) = filter (\<lambda>r. Hostname r \<noteq> h) rules"
  by (simp add: removeHostname_def)

definition named :: "ingressRule list \<Rightarrow> ingressRule list" where
  "named rules = filter (\<lambda>r. Hostname r \<noteq> []) rules"

definition catch_all :: "ingressRule list \<Rightarrow> ingressRule" where
  "catch_all rules = (case rev (filter (\<lambda>r. Hostname r = []) rules) of
      r # _ \<Rightarrow> r | [] \<Rightarrow> \<lparr>Hostname = [], IService = ''http_status:404''\<rparr>)"

lemma split_ingress_spec:
  "split_ingress rules acc ca =
    (acc @ named rules, case rev (filter (\<lambda>r. Hostname r = []) rules) of r # _ \<Rightarrow> Some r | [] \<Rightarrow> ca)"
proof (induction rules acc ca rule: split_ingress.induct)
  case (1 acc ca)
  then show ?case by (simp add: named_def)
next
  case (2 r rs acc ca)
  then show ?case
    by (cases "rev (filter (\<lambda>r. Hostname r = []) rs)") (simp_all add: named_def)
qed

text \<open>
  The rules written are what the change makes of the named rules, followed by one catch-all:
  the configured one, or a 404.
\<close>

lemma next_ingress_eq: "next_ingress f rules = f (named rules) @ [catch_all rules]"
  by (simp add: next_ingress_def split_ingress_spec catch_all_def split: list.split)

lemma catch_all_unnamed [simp]: "Hostname (catch_all rules) = []"
proof (cases "rev (filter (\<lambda>r. Hostname r = []) rules)")
  case Nil
  then show ?thesis by (simp add: catch_all_def)
next
  case (Cons r rs)
  have "r \<in> set (rev (filter (\<lambda>r. Hostname r = []) rules))" by (simp only: Cons list.set_intros)
  then have "Hostname r = []" by simp
  with Cons show ?thesis by (simp add: catch_all_def)
qed

text \<open>The JSON of a rule reads back as the rule.\<close>

lemma EqualFold_consts [simp]:
  "EqualFold ''hostname'' ''hostname''" "EqualFold ''service'' ''service''"
  "\<not> EqualFold ''hostname'' ''service''" "\<not> EqualFold ''service'' ''hostname''"
  "EqualFold ''config'' ''config''" "EqualFold ''ingress'' ''ingress''"
  by (simp_all add: EqualFold_def ToLower_def lower_char_def is_upper_def)

lemma dec_enc_ingressRule: "dec_ingressRule (enc_ingressRule r) = Some r"
  by (cases r) (simp add: dec_ingressRule_def enc_ingressRule_def obj_fields_def)

lemma dec_all_map: "(\<And>x. f (g x) = Some x) \<Longrightarrow> dec_all f (map g xs) = Some xs"
  by (induction xs) simp_all

lemma dec_enc_config:
  "dec_tunnelConfig (JObj [(''config'', JObj [(''ingress'', JArr (map enc_ingressRule rules))])]) = Some rules"
  by (simp add: dec_tunnelConfig_def obj_fields_def dec_list_def dec_all_map dec_enc_ingressRule)

text \<open>Escaping a name for a query loses nothing.\<close>

lemma upper_hex_inj: "m < 16 \<Longrightarrow> n < 16 \<Longrightarrow> upper_hex m = upper_hex n \<Longrightarrow> m = n"
proof -
  assume mn: "m < 16" "n < 16" "upper_hex m = upper_hex n"
  then have "code (upper_hex m) = code (upper_hex n)" by simp
  with mn(1,2) show ?thesis by (simp add: upper_hex_def split: if_splits)
qed

definition plain_char :: "char \<Rightarrow> bool" where
  "plain_char c \<longleftrightarrow> is_lower c \<or> is_upper c \<or> is_digit c \<or> c \<in> set ''-_.~''"

definition esc_char :: "char \<Rightarrow> string" where
  "esc_char c = (if plain_char c then [c] else if c = CHR '' '' then ''+''
     else [CHR ''%'', upper_hex (code c div 16), upper_hex (code c mod 16)])"

lemma QueryEscape_Nil [simp]: "QueryEscape [] = []"
  by (simp add: QueryEscape_def)

lemma QueryEscape_Cons: "QueryEscape (c # s) = esc_char c @ QueryEscape s"
  by (simp add: QueryEscape_def esc_char_def plain_char_def)

lemma plain_char_special [simp]: "\<not> plain_char CHR ''%''" "\<not> plain_char CHR ''+''" "\<not> plain_char CHR '' ''"
  by (simp_all add: plain_char_def is_lower_def is_upper_def is_digit_def)

lemma hex_digits_inj: "upper_hex (code c div 16) = upper_hex (code d div 16) \<Longrightarrow>
    upper_hex (code c mod 16) = upper_hex (code d mod 16) \<Longrightarrow> c = d"
proof -
  assume h: "upper_hex (code c div 16) = upper_hex (code d div 16)" "upper_hex (code c mod 16) = upper_hex (code d mod 16)"
  have "code c div 16 = code d div 16" by (rule upper_hex_inj [OF code_parts(2) code_parts(2) h(1)])
  moreover have "code c mod 16 = code d mod 16" by (rule upper_hex_inj [OF _ _ h(2)]) simp_all
  ultimately have "code c = code d" by (metis div_mult_mod_eq)
  then show ?thesis by simp
qed

lemma esc_char_prefix: "esc_char c @ s = esc_char d @ t \<Longrightarrow> c = d \<and> s = t"
  by (cases "plain_char c"; cases "plain_char d"; cases "c = CHR '' ''"; cases "d = CHR '' ''")
    (auto simp: esc_char_def dest: hex_digits_inj)

lemma QueryEscape_inj: "QueryEscape s = QueryEscape t \<longleftrightarrow> s = t"
proof
  show "QueryEscape s = QueryEscape t \<Longrightarrow> s = t"
  proof (induction s arbitrary: t)
    case Nil
    then show ?case by (cases t) (simp_all add: QueryEscape_Cons esc_char_def split: if_splits)
  next
    case (Cons c s)
    then obtain d u where t: "t = d # u"
      by (cases t) (simp_all add: QueryEscape_Cons esc_char_def split: if_splits)
    with Cons.prems have "esc_char c @ QueryEscape s = esc_char d @ QueryEscape u"
      by (simp add: QueryEscape_Cons)
    then have "c = d" "QueryEscape s = QueryEscape u" by (auto dest: esc_char_prefix)
    with Cons.IH t show ?case by simp
  qed
qed simp

section \<open>The documented behaviour of the service\<close>

record zrec =
  zID :: string
  zType :: string
  zName :: string
  zContent :: string

text \<open>A successful reply and its result, as the client decodes it.\<close>

definition ok_result :: "reply \<Rightarrow> json option \<Rightarrow> bool" where
  "ok_result rep j \<longleftrightarrow> (\<exists>status body env. rep = Reply status (Some body) \<and> dec_envelope body = Some env \<and>
     envSuccess env \<and> envResult env = j)"

definition dns_request :: "Client \<Rightarrow> string \<Rightarrow> string \<Rightarrow> json option \<Rightarrow> request" where
  "dns_request c m rest body = \<lparr>rqMethod = m, rqURL = cfBaseURL @ ''/zones/'' @ zoneID c @ ''/dns_records'' @ rest,
     rqToken = cToken c, rqBody = body\<rparr>"

definition record_params :: "string \<Rightarrow> string \<Rightarrow> string \<Rightarrow> int \<Rightarrow> bool \<Rightarrow> json" where
  "record_params ty name content ttl proxied = JObj [(''type'', JStr ty), (''name'', JStr name), (''content'', JStr content),
     (''ttl'', JNum ttl), (''proxied'', JBool proxied)]"

text \<open>
  The zone of the client, \<open>recs w\<close>, and the four calls on it: listing by name, creating
  (under a fresh ID), changing the content, deleting.
\<close>

definition serves_dns :: "'w http \<Rightarrow> Client \<Rightarrow> ('w \<Rightarrow> zrec list) \<Rightarrow> bool" where
  "serves_dns http c recs \<longleftrightarrow> (\<forall>w.
     (\<forall>name. case http (dns_request c ''GET'' (''?name='' @ QueryEscape name) None) w of (rep, w') \<Rightarrow>
        recs w' = recs w \<and>
        (\<exists>j. ok_result rep (Some j) \<and> dec_list dec_dnsRecord (Some j) =
           Some (map (\<lambda>z. \<lparr>recID = zID z, recContent = zContent z\<rparr>) (filter (\<lambda>z. zName z = name) (recs w))))) \<and>
     (\<forall>ty name content ttl proxied.
        case http (dns_request c ''POST'' [] (Some (record_params ty name content ttl proxied))) w of (rep, w') \<Rightarrow>
          (\<exists>j i. ok_result rep (Some j) \<and> dec_dnsRecord j = Some \<lparr>recID = i, recContent = content\<rparr> \<and>
            i \<noteq> [] \<and> i \<notin> zID ` set (recs w) \<and>
            recs w' = recs w @ [\<lparr>zID = i, zType = ty, zName = name, zContent = content\<rparr>])) \<and>
     (\<forall>i content. case http (dns_request c ''PATCH'' (''/'' @ i) (Some (JObj [(''content'', JStr content)]))) w of (rep, w') \<Rightarrow>
        (\<exists>j. ok_result rep j) \<and>
        recs w' = map (\<lambda>z. if zID z = i then z\<lparr>zContent := content\<rparr> else z) (recs w)) \<and>
     (\<forall>i. case http (dns_request c ''DELETE'' (''/'' @ i) None) w of (rep, w') \<Rightarrow>
        (\<exists>j. ok_result rep j) \<and> recs w' = filter (\<lambda>z. zID z \<noteq> i) (recs w)))"

text \<open>The tunnel's configuration: reading it, and replacing it as a whole.\<close>

definition config_request :: "Client \<Rightarrow> string \<Rightarrow> json option \<Rightarrow> request" where
  "config_request c m body = \<lparr>rqMethod = m, rqURL = cfBaseURL @ ''/'' @ config_path c, rqToken = cToken c, rqBody = body\<rparr>"

definition serves_tunnel :: "'w http \<Rightarrow> Client \<Rightarrow> ('w \<Rightarrow> zrec list) \<Rightarrow> ('w \<Rightarrow> ingressRule list) \<Rightarrow> bool" where
  "serves_tunnel http c recs rules \<longleftrightarrow> (\<forall>w.
     (case http (config_request c ''GET'' None) w of (rep, w') \<Rightarrow> recs w' = recs w \<and> rules w' = rules w \<and>
        (\<exists>j. ok_result rep (Some j) \<and> dec_tunnelConfig j = Some (rules w))) \<and>
     (\<forall>body rs. dec_tunnelConfig body = Some rs \<longrightarrow>
        (case http (config_request c ''PUT'' (Some body)) w of (rep, w') \<Rightarrow>
           recs w' = recs w \<and> rules w' = rs \<and> (\<exists>j. ok_result rep j))) \<and>
     (\<forall>m rest body. case http (dns_request c m rest body) w of (rep, w') \<Rightarrow> rules w' = rules w))"

lemma api_do_ok:
  assumes "http \<lparr>rqMethod = m, rqURL = cfBaseURL @ ''/'' @ TrimPrefix p ''/'', rqToken = t, rqBody = b\<rparr> w = (rep, w')"
    and "ok_result rep j"
  shows "api_do http t m p b w = (Inr j, w')"
  using assms by (auto simp: api_do_def ok_result_def)

lemma TrimPrefix_none: "x \<noteq> CHR ''/'' \<Longrightarrow> TrimPrefix (x # s) ''/'' = x # s"
  by (simp add: TrimPrefix_def HasPrefix_def)

lemma api_do_dns:
  "http (dns_request c m rest b) w = (rep, w') \<Longrightarrow> ok_result rep j \<Longrightarrow>
    api_do http (cToken c) m (''zones/'' @ zoneID c @ ''/dns_records'' @ rest) b w = (Inr j, w')"
  by (rule api_do_ok) (simp_all add: dns_request_def TrimPrefix_none)

lemma api_do_config:
  "http (config_request c m b) w = (rep, w') \<Longrightarrow> ok_result rep j \<Longrightarrow>
    api_do http (cToken c) m (config_path c) b w = (Inr j, w')"
  by (rule api_do_ok) (simp_all add: config_request_def config_path_def TrimPrefix_none)

section \<open>The client over that service\<close>

text \<open>One call each, from the documented behaviour.\<close>

lemma serves_dnsD:
  assumes "serves_dns http c recs"
  shows "http (dns_request c ''GET'' (''?name='' @ QueryEscape name) None) w = (rep, w') \<Longrightarrow>
      recs w' = recs w \<and> (\<exists>j. ok_result rep (Some j) \<and> dec_list dec_dnsRecord (Some j) =
        Some (map (\<lambda>z. \<lparr>recID = zID z, recContent = zContent z\<rparr>) (filter (\<lambda>z. zName z = name) (recs w))))"
    and "http (dns_request c ''POST'' [] (Some (record_params ty name content ttl proxied))) w = (rep, w') \<Longrightarrow>
      (\<exists>j i. ok_result rep (Some j) \<and> dec_dnsRecord j = Some \<lparr>recID = i, recContent = content\<rparr> \<and>
        i \<noteq> [] \<and> i \<notin> zID ` set (recs w) \<and>
        recs w' = recs w @ [\<lparr>zID = i, zType = ty, zName = name, zContent = content\<rparr>])"
    and "http (dns_request c ''PATCH'' (''/'' @ i) (Some (JObj [(''content'', JStr content)]))) w = (rep, w') \<Longrightarrow>
      (\<exists>j. ok_result rep j) \<and> recs w' = map (\<lambda>z. if zID z = i then z\<lparr>zContent := content\<rparr> else z) (recs w)"
    and "http (dns_request c ''DELETE'' (''/'' @ i) None) w = (rep, w') \<Longrightarrow>
      (\<exists>j. ok_result rep j) \<and> recs w' = filter (\<lambda>z. zID z \<noteq> i) (recs w)"
proof -
  note d = assms [unfolded serves_dns_def, THEN spec, of w]
  show "http (dns_request c ''GET'' (''?name='' @ QueryEscape name) None) w = (rep, w') \<Longrightarrow>
      recs w' = recs w \<and> (\<exists>j. ok_result rep (Some j) \<and> dec_list dec_dnsRecord (Some j) =
        Some (map (\<lambda>z. \<lparr>recID = zID z, recContent = zContent z\<rparr>) (filter (\<lambda>z. zName z = name) (recs w))))"
    using d [THEN conjunct1, THEN spec, of name] by (simp only: prod.case)
  show "http (dns_request c ''POST'' [] (Some (record_params ty name content ttl proxied))) w = (rep, w') \<Longrightarrow>
      (\<exists>j i. ok_result rep (Some j) \<and> dec_dnsRecord j = Some \<lparr>recID = i, recContent = content\<rparr> \<and>
        i \<noteq> [] \<and> i \<notin> zID ` set (recs w) \<and>
        recs w' = recs w @ [\<lparr>zID = i, zType = ty, zName = name, zContent = content\<rparr>])"
    using d [THEN conjunct2, THEN conjunct1, THEN spec, THEN spec, THEN spec, THEN spec, THEN spec,
        of content ty name ttl proxied] by (simp only: prod.case)
  show "http (dns_request c ''PATCH'' (''/'' @ i) (Some (JObj [(''content'', JStr content)]))) w = (rep, w') \<Longrightarrow>
      (\<exists>j. ok_result rep j) \<and> recs w' = map (\<lambda>z. if zID z = i then z\<lparr>zContent := content\<rparr> else z) (recs w)"
    using d [THEN conjunct2, THEN conjunct2, THEN conjunct1, THEN spec, THEN spec, of i content] by (simp only: prod.case)
  show "http (dns_request c ''DELETE'' (''/'' @ i) None) w = (rep, w') \<Longrightarrow>
      (\<exists>j. ok_result rep j) \<and> recs w' = filter (\<lambda>z. zID z \<noteq> i) (recs w)"
    using d [THEN conjunct2, THEN conjunct2, THEN conjunct2, THEN spec, of i] by (simp only: prod.case)
qed

lemma served_find:
  assumes "serves_dns http c recs" and "\<not> noop c"
  obtains w' where "recs w' = recs w"
    "FindRecord http c name w = (Inr (case filter (\<lambda>z. zName z = name) (recs w) of
       [] \<Rightarrow> ([], []) | z # _ \<Rightarrow> (zID z, zContent z)), w')"
    "w' = snd (http (dns_request c ''GET'' (''?name='' @ QueryEscape name) None) w)"
proof -
  obtain rep w' where h: "http (dns_request c ''GET'' (''?name='' @ QueryEscape name) None) w = (rep, w')" by fastforce
  from serves_dnsD(1) [OF assms(1) h] obtain j where j: "ok_result rep (Some j)" "recs w' = recs w"
    "dec_list dec_dnsRecord (Some j) =
      Some (map (\<lambda>z. \<lparr>recID = zID z, recContent = zContent z\<rparr>) (filter (\<lambda>z. zName z = name) (recs w)))"
    by auto
  have "api_do http (cToken c) ''GET'' (''zones/'' @ zoneID c @ ''/dns_records?name='' @ QueryEscape name) None w
      = (Inr (Some j), w')"
    using api_do_dns [of http, OF h j(1)] by simp
  then have "FindRecord http c name w = (Inr (case filter (\<lambda>z. zName z = name) (recs w) of
       [] \<Rightarrow> ([], []) | z # _ \<Rightarrow> (zID z, zContent z)), w')"
    using j(3) assms(2) by (simp add: FindRecord_def bind_op_def wrap_op_def unmarshal_op_def return_op_def
        split: list.split)
  then show thesis by (rule that [OF j(2)]) (simp only: h snd_conv)
qed

lemma served_post:
  assumes "serves_dns http c recs"
  obtains i w' where "i \<noteq> []" "i \<notin> zID ` set (recs w)"
    "recs w' = recs w @ [\<lparr>zID = i, zType = ty, zName = name, zContent = content\<rparr>]"
    "createDNSRecord http c (record_params ty name content ttl proxied) w = (Inr i, w')"
    "w' = snd (http (dns_request c ''POST'' [] (Some (record_params ty name content ttl proxied))) w)"
proof -
  let ?q = "dns_request c ''POST'' [] (Some (record_params ty name content ttl proxied))"
  obtain rep w' where h: "http ?q w = (rep, w')" by fastforce
  from serves_dnsD(2) [OF assms h] obtain j i where j: "ok_result rep (Some j)"
    "dec_dnsRecord j = Some \<lparr>recID = i, recContent = content\<rparr>" "i \<noteq> []" "i \<notin> zID ` set (recs w)"
    "recs w' = recs w @ [\<lparr>zID = i, zType = ty, zName = name, zContent = content\<rparr>]" by auto
  have "createDNSRecord http c (record_params ty name content ttl proxied) w = (Inr i, w')"
    using api_do_dns [of http, OF h j(1)] j(2) by (simp add: createDNSRecord_def bind_op_def unmarshal_op_def return_op_def)
  from that [OF j(3-5) this] h show thesis by (simp only: snd_conv)
qed

lemma served_delete:
  assumes "serves_dns http c recs" and "\<not> noop c"
  obtains w' where "recs w' = filter (\<lambda>z. zID z \<noteq> i) (recs w)" "DeleteRecord http c i w = (Inr (), w')"
    "w' = snd (http (dns_request c ''DELETE'' (''/'' @ i) None) w)"
proof -
  obtain rep w' where h: "http (dns_request c ''DELETE'' (''/'' @ i) None) w = (rep, w')" by fastforce
  from serves_dnsD(4) [OF assms(1) h] obtain j where j: "ok_result rep j" "recs w' = filter (\<lambda>z. zID z \<noteq> i) (recs w)"
    by auto
  have "DeleteRecord http c i w = (Inr (), w')"
    using api_do_dns [of http, OF h j(1)] assms(2) by (simp add: DeleteRecord_def bind_op_def wrap_op_def return_op_def)
  from that [OF j(2) this] h show thesis by (simp only: snd_conv)
qed

lemma served_update:
  assumes "serves_dns http c recs" and "\<not> noop c"
  obtains w' where "recs w' = map (\<lambda>z. if zID z = i then z\<lparr>zContent := ip\<rparr> else z) (recs w)"
    "UpdateRecord http c i ip w = (Inr (), w')"
proof -
  let ?q = "dns_request c ''PATCH'' (''/'' @ i) (Some (JObj [(''content'', JStr ip)]))"
  obtain rep w' where h: "http ?q w = (rep, w')" by fastforce
  from serves_dnsD(3) [OF assms(1) h] obtain j where j: "ok_result rep j"
    "recs w' = map (\<lambda>z. if zID z = i then z\<lparr>zContent := ip\<rparr> else z) (recs w)" by auto
  have "UpdateRecord http c i ip w = (Inr (), w')"
    using api_do_dns [of http, OF h j(1)] assms(2) by (simp add: UpdateRecord_def bind_op_def wrap_op_def return_op_def)
  then show thesis by (rule that [OF j(2)])
qed

text \<open>The records of a zone have distinct IDs, none empty.\<close>

definition zone_ok :: "zrec list \<Rightarrow> bool" where
  "zone_ok zs \<longleftrightarrow> distinct (map zID zs) \<and> (\<forall>z \<in> set zs. zID z \<noteq> [])"

definition of_name :: "string \<Rightarrow> zrec list \<Rightarrow> zrec list" where
  "of_name n zs = filter (\<lambda>z. zName z = n) zs"

definition not_of_name :: "string \<Rightarrow> zrec list \<Rightarrow> zrec list" where
  "not_of_name n zs = filter (\<lambda>z. zName z \<noteq> n) zs"

lemma CreateRecord_post: "\<not> noop c \<Longrightarrow> CreateRecord http c name ip =
    wrap_op (''create DNS record '' @ name) (createDNSRecord http c (record_params ''A'' name ip 60 False))"
  by (simp add: CreateRecord_def record_params_def)

lemma of_name_single: "of_name n zs = [z] \<Longrightarrow> z \<in> set zs \<and> zName z = n"
proof -
  assume "of_name n zs = [z]"
  then have "z \<in> set (of_name n zs)" by simp
  then show ?thesis by (simp add: of_name_def)
qed

lemma zone_update:
  assumes "zone_ok zs" and "of_name n zs = [z]"
  shows "of_name n (map (\<lambda>y. if zID y = zID z then y\<lparr>zContent := ip\<rparr> else y) zs) = [z\<lparr>zContent := ip\<rparr>]"
    and "not_of_name n (map (\<lambda>y. if zID y = zID z then y\<lparr>zContent := ip\<rparr> else y) zs) = not_of_name n zs"
proof -
  have z: "z \<in> set zs" "zName z = n" using of_name_single [OF assms(2)] by simp_all
  have u: "y = z" if "y \<in> set zs" "zID y = zID z" for y
    using that z(1) assms(1) by (auto simp: zone_ok_def distinct_map dest: inj_onD)
  let ?f = "\<lambda>y. if zID y = zID z then y\<lparr>zContent := ip\<rparr> else y"
  have f: "filter (\<lambda>y. zName y = n) (map ?f zs) = map ?f (filter (\<lambda>y. zName y = n) zs)"
    by (simp add: filter_map comp_def if_distrib cong: if_cong)
  show "of_name n (map ?f zs) = [z\<lparr>zContent := ip\<rparr>]"
    unfolding of_name_def f using assms(2) by (simp add: of_name_def)
  have "filter (\<lambda>y. zName y \<noteq> n) (map ?f zs) = map ?f (filter (\<lambda>y. zName y \<noteq> n) zs)"
    by (simp add: filter_map comp_def if_distrib cong: if_cong)
  also have "\<dots> = filter (\<lambda>y. zName y \<noteq> n) zs"
    using u z(2) by (intro map_idI) auto
  finally show "not_of_name n (map ?f zs) = not_of_name n zs" by (simp add: not_of_name_def)
qed

text \<open>After \<open>EnsureARecord\<close> the name has the address, and no other name has changed.\<close>

lemma EnsureARecord_served:
  assumes s: "serves_dns http c recs" and n: "\<not> noop c" and z: "zone_ok (recs w)"
    and one: "length (of_name name (recs w)) \<le> 1"
  shows "\<exists>w'. EnsureARecord http c name ip w = (Inr (), w') \<and>
    map zContent (of_name name (recs w')) = [ip] \<and> not_of_name name (recs w') = not_of_name name (recs w)"
proof -
  obtain w1 where w1: "recs w1 = recs w" "FindRecord http c name w = (Inr (case filter (\<lambda>z. zName z = name) (recs w) of
       [] \<Rightarrow> ([], []) | z # _ \<Rightarrow> (zID z, zContent z)), w1)"
    by (rule served_find [OF s n])
  show ?thesis
  proof (cases "of_name name (recs w)")
    case Nil
    then have f: "FindRecord http c name w = (Inr ([], []), w1)" using w1(2) by (simp add: of_name_def)
    obtain i w2 where w2: "recs w2 = recs w1 @ [\<lparr>zID = i, zType = ''A'', zName = name, zContent = ip\<rparr>]"
      "createDNSRecord http c (record_params ''A'' name ip 60 False) w1 = (Inr i, w2)"
      by (rule served_post [OF s])
    have "EnsureARecord http c name ip w = (Inr (), w2)"
      using n f w2(2) by (simp add: EnsureARecord_def bind_op_def CreateRecord_post wrap_op_def return_op_def)
    then show ?thesis
      using Nil w1(1) w2(1) by (simp add: of_name_def not_of_name_def)
  next
    case (Cons z1 zs)
    with one have e: "of_name name (recs w) = [z1]" by simp
    then have "z1 \<in> set (recs w)" using of_name_single by blast
    then have i: "zID z1 \<noteq> []" using z by (auto simp: zone_ok_def)
    have f: "FindRecord http c name w = (Inr (zID z1, zContent z1), w1)" using w1(2) e by (simp add: of_name_def)
    show ?thesis
    proof (cases "zContent z1 = ip")
      case True
      then have "EnsureARecord http c name ip w = (Inr (), w1)"
        using n f i by (simp add: EnsureARecord_def bind_op_def return_op_def)
      then show ?thesis using e w1(1) True by simp
    next
      case False
      obtain w2 where w2: "recs w2 = map (\<lambda>y. if zID y = zID z1 then y\<lparr>zContent := ip\<rparr> else y) (recs w1)"
        "UpdateRecord http c (zID z1) ip w1 = (Inr (), w2)"
        by (rule served_update [OF s n])
      have "EnsureARecord http c name ip w = (Inr (), w2)"
        using n f i False w2(2) by (simp add: EnsureARecord_def bind_op_def)
      then show ?thesis
        using zone_update [OF z e, of ip] w1(1) w2(1) by simp
    qed
  qed
qed

section \<open>Tunnel routes over that service\<close>

lemma serves_tunnelD:
  assumes "serves_tunnel http c recs rules"
  shows "http (config_request c ''GET'' None) w = (rep, w') \<Longrightarrow> recs w' = recs w \<and> rules w' = rules w \<and>
      (\<exists>j. ok_result rep (Some j) \<and> dec_tunnelConfig j = Some (rules w))"
    and "http (config_request c ''PUT'' (Some body)) w = (rep, w') \<Longrightarrow> dec_tunnelConfig body = Some rs \<Longrightarrow>
      recs w' = recs w \<and> rules w' = rs \<and> (\<exists>j. ok_result rep j)"
    and "http (dns_request c m rest bd) w = (rep, w') \<Longrightarrow> rules w' = rules w"
proof -
  note d = assms [unfolded serves_tunnel_def, THEN spec, of w]
  show "http (config_request c ''GET'' None) w = (rep, w') \<Longrightarrow> recs w' = recs w \<and> rules w' = rules w \<and>
      (\<exists>j. ok_result rep (Some j) \<and> dec_tunnelConfig j = Some (rules w))"
    using d [THEN conjunct1] by (simp only: prod.case)
  show "http (config_request c ''PUT'' (Some body)) w = (rep, w') \<Longrightarrow> dec_tunnelConfig body = Some rs \<Longrightarrow>
      recs w' = recs w \<and> rules w' = rs \<and> (\<exists>j. ok_result rep j)"
    using d [THEN conjunct2, THEN conjunct1, THEN spec, THEN spec, of body rs] by (simp only: prod.case simp_thms)
  show "http (dns_request c m rest bd) w = (rep, w') \<Longrightarrow> rules w' = rules w"
    using d [THEN conjunct2, THEN conjunct2, rule_format, of m rest bd] by (simp only: prod.case)
qed

lemma modifyIngress_served:
  assumes "serves_tunnel http c recs rules"
  shows "\<exists>w'. modifyIngress http c f w = (Inr (), w') \<and> recs w' = recs w \<and>
    rules w' = f (named (rules w)) @ [catch_all (rules w)]"
proof -
  obtain rep1 w1 where h1: "http (config_request c ''GET'' None) w = (rep1, w1)" by fastforce
  from serves_tunnelD(1) [OF assms h1] obtain j where j: "recs w1 = recs w" "rules w1 = rules w"
    "ok_result rep1 (Some j)" "dec_tunnelConfig j = Some (rules w)" by auto
  let ?rs = "f (named (rules w)) @ [catch_all (rules w)]"
  let ?body = "JObj [(''config'', JObj [(''ingress'', JArr (map enc_ingressRule ?rs))])]"
  obtain rep2 w2 where h2: "http (config_request c ''PUT'' (Some ?body)) w1 = (rep2, w2)" by fastforce
  from serves_tunnelD(2) [OF assms h2 dec_enc_config] obtain k where k: "recs w2 = recs w1" "rules w2 = ?rs"
    "ok_result rep2 k" by auto
  have "modifyIngress http c f w = (Inr (), w2)"
    using api_do_config [of http, OF h1 j(3)] api_do_config [of http, OF h2 k(3)] j(4)
    by (simp add: modifyIngress_def bind_op_def wrap_op_def unmarshal_op_def return_op_def next_ingress_eq)
  then show ?thesis using j k by simp
qed

lemma rules_keep:
  assumes "serves_tunnel http c recs rules"
  shows "rules (snd (http (dns_request c m rest body) w)) = rules w"
  using serves_tunnelD(3) [OF assms] by (metis prod.collapse)

lemma createCNAME_post: "\<not> noop c \<Longrightarrow> zoneID c \<noteq> [] \<Longrightarrow> createCNAME http c h =
    wrap_op (''create CNAME '' @ h)
      (createDNSRecord http c (record_params ''CNAME'' h (tunnelID c @ ''.cfargotunnel.com'') 1 True))"
  by (simp add: createCNAME_def record_params_def)

lemma zone_delete:
  assumes "zone_ok zs" and "of_name n zs = [z]"
  shows "of_name n (filter (\<lambda>y. zID y \<noteq> zID z) zs) = []"
    and "not_of_name n (filter (\<lambda>y. zID y \<noteq> zID z) zs) = not_of_name n zs"
proof -
  have z: "z \<in> set zs" "zName z = n" using of_name_single [OF assms(2)] by simp_all
  have u: "y = z" if "y \<in> set zs" "zID y = zID z" for y
    using that z(1) assms(1) by (auto simp: zone_ok_def distinct_map dest: inj_onD)
  have "y = z" if "y \<in> set zs" "zName y = n" for y
  proof -
    have "y \<in> set (of_name n zs)" using that by (simp add: of_name_def)
    then show ?thesis using assms(2) by simp
  qed
  then show "of_name n (filter (\<lambda>y. zID y \<noteq> zID z) zs) = []"
    by (auto simp: of_name_def filter_empty_conv)
  show "not_of_name n (filter (\<lambda>y. zID y \<noteq> zID z) zs) = not_of_name n zs"
    using u z(2) by (auto simp: not_of_name_def filter_filter intro!: filter_cong)
qed

text \<open>The record that the route needs is the only one of its name.\<close>

definition cname_of :: "Client \<Rightarrow> string \<Rightarrow> string \<Rightarrow> zrec" where
  "cname_of c h i = \<lparr>zID = i, zType = ''CNAME'', zName = h, zContent = tunnelID c @ ''.cfargotunnel.com''\<rparr>"

lemma served_clear_name:
  assumes s: "serves_dns http c recs" "serves_tunnel http c recs rules" and n: "\<not> noop c"
    and z: "zone_ok (recs w)" and one: "length (of_name h (recs w)) \<le> 1"
  shows "\<exists>w'. bind_op (ignore_err ([], []) (FindRecord http c h)) (\<lambda>(existingID, _).
      if existingID \<noteq> [] then ignore_err () (DeleteRecord http c existingID) else return_op ()) w = (Inr (), w') \<and>
    of_name h (recs w') = [] \<and> not_of_name h (recs w') = not_of_name h (recs w) \<and> rules w' = rules w"
proof -
  obtain w1 where w1: "recs w1 = recs w" "FindRecord http c h w = (Inr (case filter (\<lambda>z. zName z = h) (recs w) of
       [] \<Rightarrow> ([], []) | z # _ \<Rightarrow> (zID z, zContent z)), w1)"
    "w1 = snd (http (dns_request c ''GET'' (''?name='' @ QueryEscape h) None) w)"
    by (rule served_find [OF s(1) n])
  have r1: "rules w1 = rules w" unfolding w1(3) by (rule rules_keep [OF s(2)])
  show ?thesis
  proof (cases "of_name h (recs w)")
    case Nil
    then show ?thesis using w1 r1
      by (intro exI [of _ w1]) (simp add: of_name_def bind_op_def ignore_err_def return_op_def)
  next
    case (Cons z1 zs)
    with one have e: "of_name h (recs w) = [z1]" by simp
    then have i: "zID z1 \<noteq> []" using z of_name_single [OF e] by (auto simp: zone_ok_def)
    obtain w2 where w2: "recs w2 = filter (\<lambda>z. zID z \<noteq> zID z1) (recs w1)"
      "DeleteRecord http c (zID z1) w1 = (Inr (), w2)"
      "w2 = snd (http (dns_request c ''DELETE'' (''/'' @ zID z1) None) w1)"
      by (rule served_delete [OF s(1) n])
    have r2: "rules w2 = rules w1" unfolding w2(3) by (rule rules_keep [OF s(2)])
    have "FindRecord http c h w = (Inr (zID z1, zContent z1), w1)" using w1(2) e by (simp add: of_name_def)
    then have "bind_op (ignore_err ([], []) (FindRecord http c h)) (\<lambda>(existingID, _).
        if existingID \<noteq> [] then ignore_err () (DeleteRecord http c existingID) else return_op ()) w = (Inr (), w2)"
      using i w2(2) by (simp add: bind_op_def ignore_err_def)
    then show ?thesis
      using zone_delete [OF z e] w1(1) w2(1) r1 r2 by (intro exI [of _ w2]) simp
  qed
qed

lemma served_cname:
  assumes s: "serves_dns http c recs" "serves_tunnel http c recs rules" and n: "\<not> noop c" "zoneID c \<noteq> []"
  shows "\<exists>i w'. createCNAME http c h w = (Inr i, w') \<and> i \<noteq> [] \<and> recs w' = recs w @ [cname_of c h i] \<and> rules w' = rules w"
proof -
  obtain i w' where w': "i \<noteq> []" "recs w' = recs w @ [\<lparr>zID = i, zType = ''CNAME'', zName = h,
      zContent = tunnelID c @ ''.cfargotunnel.com''\<rparr>]"
    "createDNSRecord http c (record_params ''CNAME'' h (tunnelID c @ ''.cfargotunnel.com'') 1 True) w = (Inr i, w')"
    "w' = snd (http (dns_request c ''POST'' [] (Some (record_params ''CNAME'' h (tunnelID c @ ''.cfargotunnel.com'') 1 True))) w)"
    by (rule served_post [OF s(1)])
  have "rules w' = rules w" unfolding w'(4) by (rule rules_keep [OF s(2)])
  then show ?thesis
    using w' n by (intro exI [of _ i] exI [of _ w']) (simp add: createCNAME_post wrap_op_def cname_of_def)
qed

text \<open>
  A route that was added: its rule is the last of the named rules and the only one for the
  host, the catch-all follows, and the zone has exactly the record of the tunnel for it.
\<close>

lemma AddTunnelRoute_served:
  assumes s: "serves_dns http c recs" "serves_tunnel http c recs rules" and n: "TunnelEnabled c" "zoneID c \<noteq> []"
    and z: "zone_ok (recs w)" and one: "length (of_name h (recs w)) \<le> 1"
  shows "\<exists>i w'. AddTunnelRoute http c h b w = (Inr i, w') \<and> i \<noteq> [] \<and>
    rules w' = removeHostname (named (rules w)) h @ [\<lparr>Hostname = h, IService = b\<rparr>, catch_all (rules w)] \<and>
    of_name h (recs w') = [cname_of c h i] \<and> not_of_name h (recs w') = not_of_name h (recs w)"
proof -
  have nn: "\<not> noop c" using n by (simp add: TunnelEnabled_def)
  let ?f = "\<lambda>rules. removeHostname rules h @ [\<lparr>Hostname = h, IService = b\<rparr>]"
  obtain w1 where w1: "modifyIngress http c ?f w = (Inr (), w1)" "recs w1 = recs w"
    "rules w1 = ?f (named (rules w)) @ [catch_all (rules w)]"
    using modifyIngress_served [OF s(2), of ?f w] by blast
  obtain w2 where w2: "bind_op (ignore_err ([], []) (FindRecord http c h)) (\<lambda>(existingID, _).
      if existingID \<noteq> [] then ignore_err () (DeleteRecord http c existingID) else return_op ()) w1 = (Inr (), w2)"
    "of_name h (recs w2) = []" "not_of_name h (recs w2) = not_of_name h (recs w1)" "rules w2 = rules w1"
    using served_clear_name [OF s nn, of w1 h] z one w1(2) by auto
  obtain i w3 where w3: "createCNAME http c h w2 = (Inr i, w3)" "i \<noteq> []" "recs w3 = recs w2 @ [cname_of c h i]"
    "rules w3 = rules w2"
    using served_cname [OF s nn n(2)] by blast
  have "AddTunnelRoute http c h b w = (Inr i, w3)"
    using n(1) w1(1) w2(1) w3(1)
    by (auto simp: AddTunnelRoute_def bind_op_def wrap_op_def split: prod.splits sum.splits if_splits)
  then show ?thesis
    using w1 w2 w3 by (intro exI [of _ i] exI [of _ w3]) (simp add: of_name_def not_of_name_def cname_of_def)
qed

text \<open>Removing it again takes away the rule and the record.\<close>

lemma RemoveTunnelRoute_served:
  assumes s: "serves_dns http c recs" "serves_tunnel http c recs rules" and n: "TunnelEnabled c"
  shows "\<exists>w'. RemoveTunnelRoute http c h i w = (Inr (), w') \<and>
    rules w' = removeHostname (named (rules w)) h @ [catch_all (rules w)] \<and>
    recs w' = (if i = [] then recs w else filter (\<lambda>z. zID z \<noteq> i) (recs w))"
proof -
  have nn: "\<not> noop c" using n by (simp add: TunnelEnabled_def)
  obtain w1 where w1: "modifyIngress http c (\<lambda>rules. removeHostname rules h) w = (Inr (), w1)" "recs w1 = recs w"
    "rules w1 = removeHostname (named (rules w)) h @ [catch_all (rules w)]"
    using modifyIngress_served [OF s(2)] by blast
  obtain w2 where w2: "recs w2 = filter (\<lambda>z. zID z \<noteq> i) (recs w1)" "DeleteRecord http c i w1 = (Inr (), w2)"
    "w2 = snd (http (dns_request c ''DELETE'' (''/'' @ i) None) w1)"
    by (rule served_delete [OF s(1) nn])
  have r2: "rules w2 = rules w1" unfolding w2(3) by (rule rules_keep [OF s(2)])
  show ?thesis
    using n w1 w2 r2 by (cases "i = []") (simp_all add: RemoveTunnelRoute_def bind_op_def wrap_op_def return_op_def)
qed

section \<open>A service with the documented behaviour\<close>

text \<open>
  A zone and a tunnel configuration in memory, with IDs longer than all before: it serves the
  program's client as \<open>serves_dns\<close> and \<open>serves_tunnel\<close> say.
\<close>

definition ok_reply :: "json \<Rightarrow> reply" where
  "ok_reply j = Reply 200 (Some (JObj [(''result'', j), (''success'', JBool True), (''errors'', JArr [])]))"

definition enc_rec :: "zrec \<Rightarrow> json" where
  "enc_rec z = JObj [(''id'', JStr (zID z)), (''type'', JStr (zType z)), (''name'', JStr (zName z)),
     (''content'', JStr (zContent z))]"

definition fresh_id :: "zrec list \<Rightarrow> string" where
  "fresh_id zs = replicate (Suc (sum_list (map (\<lambda>z. length (zID z)) zs))) CHR ''x''"

definition body_str :: "string \<Rightarrow> json option \<Rightarrow> string" where
  "body_str k body = (case Option.bind (Option.bind body obj_fields) (str_field k []) of Some s \<Rightarrow> s | None \<Rightarrow> [])"

definition zone_server :: "Client \<Rightarrow> (zrec list \<times> ingressRule list) http" where
  "zone_server c req st = (case st of (zs, rs) \<Rightarrow>
     if rqURL req = cfBaseURL @ ''/'' @ config_path c then
       (if rqMethod req = ''GET''
        then (ok_reply (JObj [(''config'', JObj [(''ingress'', JArr (map enc_ingressRule rs))])]), (zs, rs))
        else case Option.bind (rqBody req) dec_tunnelConfig of
               Some rs' \<Rightarrow> (ok_reply JNull, (zs, rs')) | None \<Rightarrow> (Unreachable, (zs, rs)))
     else
       let rest = drop (length (cfBaseURL @ ''/zones/'' @ zoneID c @ ''/dns_records'')) (rqURL req) in
       if rqMethod req = ''GET''
       then (ok_reply (JArr (map enc_rec (filter (\<lambda>z. ''?name='' @ QueryEscape (zName z) = rest) zs))), (zs, rs))
       else if rqMethod req = ''POST''
       then let z = \<lparr>zID = fresh_id zs, zType = body_str ''type'' (rqBody req), zName = body_str ''name'' (rqBody req),
                     zContent = body_str ''content'' (rqBody req)\<rparr>
            in (ok_reply (enc_rec z), (zs @ [z], rs))
       else if rqMethod req = ''PATCH''
       then (ok_reply JNull, (map (\<lambda>z. if ''/'' @ zID z = rest then z\<lparr>zContent := body_str ''content'' (rqBody req)\<rparr> else z) zs, rs))
       else (ok_reply JNull, (filter (\<lambda>z. ''/'' @ zID z \<noteq> rest) zs, rs)))"

lemmas fold_simps = EqualFold_def ToLower_def lower_char_def is_upper_def

lemma ok_result_reply: "ok_result (ok_reply j) (Some j)"
  by (simp add: ok_result_def ok_reply_def dec_envelope_def obj_fields_def fold_simps dec_list_def)

lemma dec_enc_rec: "dec_dnsRecord (enc_rec z) = Some \<lparr>recID = zID z, recContent = zContent z\<rparr>"
  by (simp add: dec_dnsRecord_def enc_rec_def obj_fields_def fold_simps)

lemma dec_enc_recs: "dec_list dec_dnsRecord (Some (JArr (map enc_rec zs))) =
    Some (map (\<lambda>z. \<lparr>recID = zID z, recContent = zContent z\<rparr>) zs)"
  by (induction zs) (simp_all add: dec_list_def dec_enc_rec)

lemma fresh_id_fresh: "fresh_id zs \<noteq> [] \<and> fresh_id zs \<notin> zID ` set zs"
proof -
  have "length (zID z) < length (fresh_id zs)" if "z \<in> set zs" for z
    using member_le_sum_list [of "length (zID z)" "map (\<lambda>z. length (zID z)) zs"] that by (simp add: fresh_id_def)
  then have "fresh_id zs \<noteq> zID z" if "z \<in> set zs" for z using that by fastforce
  then show ?thesis by (auto simp: fresh_id_def)
qed

lemma body_str_params:
  "body_str ''type'' (Some (record_params ty n ct ttl pr)) = ty"
  "body_str ''name'' (Some (record_params ty n ct ttl pr)) = n"
  "body_str ''content'' (Some (record_params ty n ct ttl pr)) = ct"
  "body_str ''content'' (Some (JObj [(''content'', JStr ct)])) = ct"
  by (simp_all add: body_str_def record_params_def obj_fields_def fold_simps)

lemma drop_length_append: "drop (length xs) (xs @ ys) = ys"
  by simp

lemma dns_url_append: "rqURL (dns_request c m rest b) = (cfBaseURL @ ''/zones/'' @ zoneID c @ ''/dns_records'') @ rest"
  by (simp add: dns_request_def)

lemma dns_url: "rqURL (dns_request c m rest b) \<noteq> cfBaseURL @ ''/'' @ config_path c"
  "drop (length (cfBaseURL @ ''/zones/'' @ zoneID c @ ''/dns_records'')) (rqURL (dns_request c m rest b)) = rest"
  "rqMethod (dns_request c m rest b) = m" "rqBody (dns_request c m rest b) = b"
proof -
  show "rqURL (dns_request c m rest b) \<noteq> cfBaseURL @ ''/'' @ config_path c"
    by (simp add: dns_request_def config_path_def)
  show "drop (length (cfBaseURL @ ''/zones/'' @ zoneID c @ ''/dns_records'')) (rqURL (dns_request c m rest b)) = rest"
    unfolding dns_url_append by (rule drop_length_append)
qed (simp_all add: dns_request_def)

lemma config_url: "rqURL (config_request c m b) = cfBaseURL @ ''/'' @ config_path c"
  "rqMethod (config_request c m b) = m" "rqBody (config_request c m b) = b"
  by (simp_all add: config_request_def)

lemma zone_server_dns: "zone_server c (dns_request c m rest b) (zs, rs) =
    (if m = ''GET'' then (ok_reply (JArr (map enc_rec (filter (\<lambda>z. ''?name='' @ QueryEscape (zName z) = rest) zs))), (zs, rs))
     else if m = ''POST'' then
       let z = \<lparr>zID = fresh_id zs, zType = body_str ''type'' b, zName = body_str ''name'' b, zContent = body_str ''content'' b\<rparr>
       in (ok_reply (enc_rec z), (zs @ [z], rs))
     else if m = ''PATCH'' then
       (ok_reply JNull, (map (\<lambda>z. if ''/'' @ zID z = rest then z\<lparr>zContent := body_str ''content'' b\<rparr> else z) zs, rs))
     else (ok_reply JNull, (filter (\<lambda>z. ''/'' @ zID z \<noteq> rest) zs, rs)))"
  unfolding zone_server_def dns_url prod.case Let_def using dns_url(1) by simp

lemma zone_server_dns_ok: "serves_dns (zone_server c) c fst"
  unfolding serves_dns_def
proof (intro allI conjI)
  fix w :: "zrec list \<times> ingressRule list" and name ty content i :: string and ttl :: int and proxied :: bool
  obtain zs rs where w: "w = (zs, rs)" by fastforce
  show "case zone_server c (dns_request c ''GET'' (''?name='' @ QueryEscape name) None) w of (rep, w') \<Rightarrow>
      fst w' = fst w \<and> (\<exists>j. ok_result rep (Some j) \<and> dec_list dec_dnsRecord (Some j) =
        Some (map (\<lambda>z. \<lparr>recID = zID z, recContent = zContent z\<rparr>) (filter (\<lambda>z. zName z = name) (fst w))))"
    using ok_result_reply dec_enc_recs by (auto simp: w zone_server_dns QueryEscape_inj simp del: dec_all.simps)
  show "case zone_server c (dns_request c ''POST'' [] (Some (record_params ty name content ttl proxied))) w of (rep, w') \<Rightarrow>
      (\<exists>j i. ok_result rep (Some j) \<and> dec_dnsRecord j = Some \<lparr>recID = i, recContent = content\<rparr> \<and>
        i \<noteq> [] \<and> i \<notin> zID ` set (fst w) \<and>
        fst w' = fst w @ [\<lparr>zID = i, zType = ty, zName = name, zContent = content\<rparr>])"
    using ok_result_reply dec_enc_rec fresh_id_fresh
    by (simp add: w zone_server_dns Let_def body_str_params) (metis (no_types, lifting) zrec.select_convs(1,4))
  show "case zone_server c (dns_request c ''PATCH'' (''/'' @ i) (Some (JObj [(''content'', JStr content)]))) w of (rep, w') \<Rightarrow>
      (\<exists>j. ok_result rep j) \<and>
      fst w' = map (\<lambda>z. if zID z = i then z\<lparr>zContent := content\<rparr> else z) (fst w)"
    using ok_result_reply by (auto simp: w zone_server_dns body_str_params)
  show "case zone_server c (dns_request c ''DELETE'' (''/'' @ i) None) w of (rep, w') \<Rightarrow>
      (\<exists>j. ok_result rep j) \<and> fst w' = filter (\<lambda>z. zID z \<noteq> i) (fst w)"
    using ok_result_reply by (auto simp: w zone_server_dns)
qed

lemma zone_server_tunnel_ok: "serves_tunnel (zone_server c) c fst snd"
  unfolding serves_tunnel_def
proof (intro allI conjI impI)
  fix w :: "zrec list \<times> ingressRule list" and body :: json and bd :: "json option" and rs' and m rest :: string
  obtain zs rs where w: "w = (zs, rs)" by fastforce
  show "case zone_server c (config_request c ''GET'' None) w of (rep, w') \<Rightarrow> fst w' = fst w \<and> snd w' = snd w \<and>
      (\<exists>j. ok_result rep (Some j) \<and> dec_tunnelConfig j = Some (snd w))"
    using ok_result_reply dec_enc_config by (auto simp: w zone_server_def config_url)
  show "dec_tunnelConfig body = Some rs' \<Longrightarrow>
      case zone_server c (config_request c ''PUT'' (Some body)) w of (rep, w') \<Rightarrow>
        fst w' = fst w \<and> snd w' = rs' \<and> (\<exists>j. ok_result rep j)"
    using ok_result_reply by (auto simp: w zone_server_def config_url)
  show "case zone_server c (dns_request c m rest bd) w of (rep, w') \<Rightarrow> snd w' = snd w"
    by (simp add: w zone_server_dns Let_def)
qed

end
