(* ===== verification/DnsPlan.thy ===== *)
theory DnsPlan
  imports CfLaws
begin

text \<open>
  \<open>internal/web/handle_services.go\<close>, the DNS side of a service: \<open>dnsState\<close>, the plan of
  \<open>planDNS\<close> and its execution by \<open>reconcileDNS\<close> against the Cloudflare client.  The
  configuration is that of \<open>internal/config\<close>.  Log lines are left out.
\<close>

section \<open>Configuration\<close>

record Config =
  Domain :: string
  CFAPIToken :: string
  CFZoneID :: string
  CFTunnelID :: string
  CFAccountID :: string
  ServerIP :: string
  DataDir :: string
  ScanInterval :: int
  ScanTimeout :: int

definition hostname :: "Config \<Rightarrow> string \<Rightarrow> string" where
  "hostname cfg sub = sub @ ''.'' @ Domain cfg"

lemma hostname_inj: "hostname cfg a = hostname cfg b \<longleftrightarrow> a = b"
  by (simp add: hostname_def)

lemma hostname_nonempty [simp]: "hostname cfg a \<noteq> []"
  by (simp add: hostname_def)

section \<open>The plan\<close>

record dnsState =
  nSubdomain :: string
  nTarget :: string
  nDirectOnly :: bool
  nTunnel :: bool
  nDNSRecordID :: string
  nTunnelRouteID :: string

datatype dnsMode = modeDirect | modeARecord | modeTunnel

definition mode :: "dnsState \<Rightarrow> dnsMode" where
  "mode d = (if nDirectOnly d then modeDirect else if nTunnel d then modeTunnel else modeARecord)"

datatype dnsAction = dnsNoop | dnsCreateA | dnsDeleteAll | dnsSwapA | dnsCreateTunnel
  | dnsAToTunnel | dnsTunnelToA | dnsReplaceTunnel

definition planDNS :: "dnsState \<Rightarrow> dnsState \<Rightarrow> dnsAction" where
  "planDNS old want = (case mode old of
      modeDirect \<Rightarrow> (case mode want of
          modeDirect \<Rightarrow> dnsNoop | modeARecord \<Rightarrow> dnsCreateA | modeTunnel \<Rightarrow> dnsCreateTunnel)
    | modeARecord \<Rightarrow> (case mode want of
          modeDirect \<Rightarrow> dnsDeleteAll
        | modeARecord \<Rightarrow> if nSubdomain want \<noteq> nSubdomain old then dnsSwapA else dnsNoop
        | modeTunnel \<Rightarrow> dnsAToTunnel)
    | modeTunnel \<Rightarrow> (case mode want of
          modeDirect \<Rightarrow> dnsDeleteAll
        | modeARecord \<Rightarrow> dnsTunnelToA
        | modeTunnel \<Rightarrow> if nSubdomain want \<noteq> nSubdomain old \<or> nTarget want \<noteq> nTarget old
                        then dnsReplaceTunnel else dnsNoop))"

section \<open>Carrying it out\<close>

text \<open>A call whose error is logged: the world after it.\<close>

definition logged :: "('w, 'a) op \<Rightarrow> 'w \<Rightarrow> 'w" where
  "logged m w = snd (m w)"

text \<open>The A record of the new name, when there is an address: the last step of three plans.\<close>

definition create_A :: "'w http \<Rightarrow> Config \<Rightarrow> Client \<Rightarrow> string \<Rightarrow> 'w \<Rightarrow> (string \<times> string) \<times> 'w" where
  "create_A http cfg c newHostname w =
    (if ServerIP cfg \<noteq> [] then
       (case CreateRecord http c newHostname (ServerIP cfg) w of
          (Inr i, w') \<Rightarrow> ((i, []), w')
        | (Inl e, w') \<Rightarrow> (([], []), w'))
     else (([], []), w))"

definition add_route :: "'w http \<Rightarrow> Client \<Rightarrow> string \<Rightarrow> string \<Rightarrow> 'w \<Rightarrow> (string \<times> string) \<times> 'w" where
  "add_route http c newHostname target w =
    (case AddTunnelRoute http c newHostname target w of
       (Inr i, w') \<Rightarrow> ((i, newHostname), w')
     | (Inl e, w') \<Rightarrow> (([], []), w'))"

definition reconcileDNS ::
  "'w http \<Rightarrow> Config \<Rightarrow> Client \<Rightarrow> dnsState \<Rightarrow> dnsState \<Rightarrow> 'w \<Rightarrow> (string \<times> string) \<times> 'w" where
  "reconcileDNS http cfg c old want w =
    (let oldHostname = hostname cfg (nSubdomain old);
         newHostname = hostname cfg (nSubdomain want)
     in case planDNS old want of
       dnsNoop \<Rightarrow> ((nDNSRecordID old, nTunnelRouteID old), w)
     | dnsCreateA \<Rightarrow> create_A http cfg c newHostname w
     | dnsDeleteAll \<Rightarrow>
         (if nTunnelRouteID old \<noteq> [] then
            (([], []), logged (RemoveTunnelRoute http c (nTunnelRouteID old) (nDNSRecordID old)) w)
          else if nDNSRecordID old \<noteq> [] then (([], []), logged (DeleteRecord http c (nDNSRecordID old)) w)
          else (([], []), w))
     | dnsSwapA \<Rightarrow>
         create_A http cfg c newHostname
           (if nDNSRecordID old \<noteq> [] then logged (DeleteRecord http c (nDNSRecordID old)) w else w)
     | dnsCreateTunnel \<Rightarrow>
         (if TunnelEnabled c then add_route http c newHostname (nTarget want) w else (([], []), w))
     | dnsAToTunnel \<Rightarrow>
         (if TunnelEnabled c then
            add_route http c newHostname (nTarget want)
              (if nDNSRecordID old \<noteq> [] then logged (DeleteRecord http c (nDNSRecordID old)) w else w)
          else (([], []), w))
     | dnsTunnelToA \<Rightarrow>
         create_A http cfg c newHostname
           (logged (RemoveTunnelRoute http c (nTunnelRouteID old) (nDNSRecordID old)) w)
     | dnsReplaceTunnel \<Rightarrow>
         (if TunnelEnabled c then
            (case ReplaceTunnelRoute http c oldHostname newHostname (nTarget want) (nDNSRecordID old) w of
               (Inr i, w') \<Rightarrow> ((i, newHostname), w')
             | (Inl e, w') \<Rightarrow> ((nDNSRecordID old, nTunnelRouteID old), w'))
          else (([], []), w)))"

section \<open>What the plan decides\<close>

lemma planDNS_noop: "planDNS old want = dnsNoop \<longleftrightarrow>
    mode old = mode want \<and>
    (mode want \<noteq> modeDirect \<longrightarrow> nSubdomain want = nSubdomain old) \<and>
    (mode want = modeTunnel \<longrightarrow> nTarget want = nTarget old)"
  by (auto simp: planDNS_def split: dnsMode.splits)

lemma create_A_route: "snd (fst (create_A http cfg c h w)) = []"
  by (auto simp: create_A_def split: prod.split sum.split)

lemma add_route_route: "snd (fst (add_route http c h t w)) \<in> {[], h}"
  by (auto simp: add_route_def split: prod.split sum.split)

text \<open>
  A route is stored only for a service that is to be tunnelled: the new host name, or the
  old route when nothing was done or the replacement failed.
\<close>

lemma reconcileDNS_route:
  assumes "nTunnelRouteID old \<noteq> [] \<longrightarrow> mode old = modeTunnel"
  shows "snd (fst (reconcileDNS http cfg c old want w)) \<noteq> [] \<longrightarrow>
    mode want = modeTunnel \<and>
    snd (fst (reconcileDNS http cfg c old want w)) \<in> {hostname cfg (nSubdomain want), nTunnelRouteID old}"
proof (cases "planDNS old want")
  case dnsNoop
  then have "mode old = mode want" by (simp add: planDNS_noop)
  with dnsNoop assms show ?thesis by (auto simp: reconcileDNS_def)
next
  case dnsReplaceTunnel
  then have "mode want = modeTunnel" by (auto simp: planDNS_def split: dnsMode.splits if_splits)
  then show ?thesis using dnsReplaceTunnel
    by (auto simp: reconcileDNS_def Let_def split: prod.splits sum.splits)
next
  case dnsCreateTunnel
  then have "mode want = modeTunnel" by (auto simp: planDNS_def split: dnsMode.splits if_splits)
  then show ?thesis
    using dnsCreateTunnel add_route_route [of http c "hostname cfg (nSubdomain want)" "nTarget want" w]
    by (auto simp: reconcileDNS_def Let_def)
next
  case dnsAToTunnel
  then have "mode want = modeTunnel" by (auto simp: planDNS_def split: dnsMode.splits if_splits)
  then show ?thesis
    using dnsAToTunnel add_route_route [of http c "hostname cfg (nSubdomain want)" "nTarget want"]
    by (auto simp: reconcileDNS_def Let_def)
qed (simp_all add: reconcileDNS_def Let_def create_A_route)

text \<open>Without Cloudflare nothing is sent, and no IDs come out but those that went in.\<close>

lemma reconcileDNS_noop_client:
  assumes "noop c"
  shows "snd (reconcileDNS http cfg c old want w) = w"
    and "fst (reconcileDNS http cfg c old want w) \<in> {([], []), (nDNSRecordID old, nTunnelRouteID old)}"
  using assms by (auto simp: reconcileDNS_def Let_def create_A_def add_route_def noop_ops logged_def TunnelEnabled_def
      split: dnsAction.split)

text \<open>
  A service with an A record that is to be tunnelled while no tunnel is set up: nothing is
  sent, and the ID of the record, which still exists, is dropped.  Likewise for a tunnelled
  service whose name or target changes.
\<close>

lemma reconcileDNS_tunnel_disabled:
  assumes "\<not> TunnelEnabled c" and "planDNS old want \<in> {dnsAToTunnel, dnsReplaceTunnel}"
  shows "reconcileDNS http cfg c old want w = (([], []), w)"
  using assms by (auto simp: reconcileDNS_def Let_def)

section \<open>Over the documented service\<close>

text \<open>The record that a stored state stands for.\<close>

definition dns_matches :: "Config \<Rightarrow> Client \<Rightarrow> dnsState \<Rightarrow> zrec list \<Rightarrow> bool" where
  "dns_matches cfg c d zs \<longleftrightarrow> (case mode d of
      modeDirect \<Rightarrow> nDNSRecordID d = [] \<and> nTunnelRouteID d = []
    | modeARecord \<Rightarrow> nTunnelRouteID d = [] \<and> nDNSRecordID d \<noteq> [] \<and>
        of_name (hostname cfg (nSubdomain d)) zs =
          [\<lparr>zID = nDNSRecordID d, zType = ''A'', zName = hostname cfg (nSubdomain d), zContent = ServerIP cfg\<rparr>]
    | modeTunnel \<Rightarrow> nTunnelRouteID d = hostname cfg (nSubdomain d) \<and>
        of_name (hostname cfg (nSubdomain d)) zs = [cname_of c (hostname cfg (nSubdomain d)) (nDNSRecordID d)])"

definition with_ids :: "dnsState \<Rightarrow> string \<times> string \<Rightarrow> dnsState" where
  "with_ids d ids = d\<lparr>nDNSRecordID := fst ids, nTunnelRouteID := snd ids\<rparr>"

lemma with_ids_simps [simp]:
  "mode (with_ids d ids) = mode d" "nSubdomain (with_ids d ids) = nSubdomain d"
  "nDNSRecordID (with_ids d ids) = fst ids" "nTunnelRouteID (with_ids d ids) = snd ids"
  by (simp_all add: with_ids_def mode_def)

lemma create_A_served:
  assumes s: "serves_dns http c recs" and n: "\<not> noop c" "ServerIP cfg \<noteq> []"
    and z: "zone_ok (recs w)" "of_name h (recs w) = []"
  shows "\<exists>i w'. create_A http cfg c h w = ((i, []), w') \<and> i \<noteq> [] \<and> zone_ok (recs w') \<and>
    of_name h (recs w') = [\<lparr>zID = i, zType = ''A'', zName = h, zContent = ServerIP cfg\<rparr>] \<and>
    not_of_name h (recs w') = not_of_name h (recs w)"
proof -
  obtain i w' where w': "i \<noteq> []" "i \<notin> zID ` set (recs w)"
    "recs w' = recs w @ [\<lparr>zID = i, zType = ''A'', zName = h, zContent = ServerIP cfg\<rparr>]"
    "createDNSRecord http c (record_params ''A'' h (ServerIP cfg) 60 False) w = (Inr i, w')"
    by (rule served_post [OF s])
  then have "create_A http cfg c h w = ((i, []), w')"
    using n by (simp add: create_A_def CreateRecord_post wrap_op_def)
  moreover have "zone_ok (recs w')" using z(1) w'(1-3) by (auto simp: zone_ok_def)
  ultimately show ?thesis
    using z(2) w' by (intro exI [of _ i] exI [of _ w']) (simp add: of_name_def not_of_name_def)
qed

lemma zone_ok_filter: "zone_ok zs \<Longrightarrow> zone_ok (filter P zs)"
  by (auto simp: zone_ok_def distinct_filter_map)

lemma of_name_other: "h \<noteq> k \<Longrightarrow> of_name h (not_of_name k zs) = of_name h zs"
  unfolding of_name_def not_of_name_def by (simp add: filter_filter) (metis (mono_tags, lifting))

text \<open>
  Renaming a service with an A record: the old name has no record left, the new name has
  exactly one, at the server's address, under the ID returned; no other name is touched.
\<close>

lemma reconcileDNS_swap_served:
  assumes s: "serves_dns http c recs" and n: "\<not> noop c" "ServerIP cfg \<noteq> []"
    and z: "zone_ok (recs w)" and old: "dns_matches cfg c old (recs w)" "mode old = modeARecord"
    and want: "mode want = modeARecord" "nSubdomain want \<noteq> nSubdomain old"
    and free: "of_name (hostname cfg (nSubdomain want)) (recs w) = []"
  shows "\<exists>ids w'. reconcileDNS http cfg c old want w = (ids, w') \<and>
    dns_matches cfg c (with_ids want ids) (recs w') \<and> of_name (hostname cfg (nSubdomain old)) (recs w') = [] \<and>
    (\<forall>h. h \<noteq> hostname cfg (nSubdomain old) \<longrightarrow> h \<noteq> hostname cfg (nSubdomain want) \<longrightarrow>
      of_name h (recs w') = of_name h (recs w))"
proof -
  let ?o = "hostname cfg (nSubdomain old)" and ?n = "hostname cfg (nSubdomain want)"
  have on: "?n \<noteq> ?o" using want(2) by (simp add: hostname_inj)
  have old1: "nDNSRecordID old \<noteq> []"
    "of_name ?o (recs w) = [\<lparr>zID = nDNSRecordID old, zType = ''A'', zName = ?o, zContent = ServerIP cfg\<rparr>]"
    using old unfolding dns_matches_def by (simp_all split: dnsMode.splits)
  obtain w1 where w1: "recs w1 = filter (\<lambda>z. zID z \<noteq> nDNSRecordID old) (recs w)"
    "DeleteRecord http c (nDNSRecordID old) w = (Inr (), w1)"
    by (rule served_delete [OF s n(1)])
  have d: "of_name ?o (recs w1) = []" "not_of_name ?o (recs w1) = not_of_name ?o (recs w)"
    using zone_delete [OF z old1(2)] by (simp_all add: w1(1))
  have f1: "of_name ?n (recs w1) = []"
    using of_name_other [OF on, of "recs w1"] of_name_other [OF on, of "recs w"] d(2) free by simp
  obtain i w2 where w2: "create_A http cfg c ?n w1 = ((i, []), w2)" "i \<noteq> []"
    "of_name ?n (recs w2) = [\<lparr>zID = i, zType = ''A'', zName = ?n, zContent = ServerIP cfg\<rparr>]"
    "not_of_name ?n (recs w2) = not_of_name ?n (recs w1)"
    using create_A_served [OF s n, of w1 ?n] zone_ok_filter [OF z] f1 by (auto simp: w1(1))
  have "planDNS old want = dnsSwapA" using old(2) want by (simp add: planDNS_def)
  then have r: "reconcileDNS http cfg c old want w = ((i, []), w2)"
    using old1(1) w1(2) w2(1) by (simp add: reconcileDNS_def logged_def)
  have o: "of_name h (recs w2) = of_name h (recs w1)" if "h \<noteq> ?n" for h
    using of_name_other [OF that] w2(4) by metis
  have "of_name h (recs w1) = of_name h (recs w)" if "h \<noteq> ?o" for h
    using of_name_other [OF that] d(2) by metis
  moreover have "dns_matches cfg c (with_ids want (i, [])) (recs w2)"
    using want(1) w2(2,3) unfolding dns_matches_def by (simp split: dnsMode.split)
  moreover have "of_name ?o (recs w2) = []" using o [of ?o] on d(1) by simp
  ultimately show ?thesis using r o by (intro exI [of _ "(i, [])"] exI [of _ w2]) simp
qed

text \<open>Putting a service behind the tunnel for the first time.\<close>

lemma reconcileDNS_tunnel_served:
  assumes s: "serves_dns http c recs" "serves_tunnel http c recs rules" and n: "TunnelEnabled c" "zoneID c \<noteq> []"
    and z: "zone_ok (recs w)" "length (of_name (hostname cfg (nSubdomain want)) (recs w)) \<le> 1"
    and p: "planDNS old want = dnsCreateTunnel"
  shows "\<exists>ids w'. reconcileDNS http cfg c old want w = (ids, w') \<and>
    dns_matches cfg c (with_ids want ids) (recs w') \<and>
    filter (\<lambda>r. Hostname r = hostname cfg (nSubdomain want)) (rules w') =
      [\<lparr>Hostname = hostname cfg (nSubdomain want), IService = nTarget want\<rparr>] \<and>
    Hostname (last (rules w')) = []"
proof -
  let ?n = "hostname cfg (nSubdomain want)"
  obtain i w' where w': "AddTunnelRoute http c ?n (nTarget want) w = (Inr i, w')"
    "rules w' = removeHostname (named (rules w)) ?n @ [\<lparr>Hostname = ?n, IService = nTarget want\<rparr>, catch_all (rules w)]"
    "of_name ?n (recs w') = [cname_of c ?n i]"
    using AddTunnelRoute_served [OF s n z] by blast
  have m: "mode want = modeTunnel" using p by (auto simp: planDNS_def split: dnsMode.splits if_splits)
  have "filter (\<lambda>r. Hostname r = ?n) (removeHostname (named (rules w)) ?n) = []"
    by (simp add: removeHostname_def filter_empty_conv)
  moreover have "?n \<noteq> []" by simp
  ultimately have "filter (\<lambda>r. Hostname r = ?n) (rules w') = [\<lparr>Hostname = ?n, IService = nTarget want\<rparr>]"
    unfolding w'(2) using catch_all_unnamed [of "rules w"] by (simp del: hostname_nonempty)
  moreover have "reconcileDNS http cfg c old want w = ((i, ?n), w')"
    using p n(1) w'(1) by (simp add: reconcileDNS_def add_route_def)
  moreover have "dns_matches cfg c (with_ids want (i, ?n)) (recs w')"
    using m w'(3) unfolding dns_matches_def by (simp split: dnsMode.split)
  ultimately show ?thesis by (intro exI [of _ "(i, ?n)"] exI [of _ w']) (simp add: w'(2))
qed

end
