(* ===== verification/StoreModel.thy ===== *)
theory StoreModel
  imports GoPath
begin

text \<open>
  \<open>internal/store/store.go\<close>, the data model: the entities, the state of \<open>Store\<close>, the
  secondary indexes and how they are rebuilt, the snapshot that \<open>Save\<close> writes and
  \<open>load\<close> reads.

  The record \<open>store\<close> holds the fields of \<open>data\<close> (\<open>s.d\<close> in the code) and the
  index maps side by side.  The objects behind the pointers live in three heaps.  Every
  method of the code runs under the store's mutex, so each is one atomic function on the
  record.  The file system is part of the record: \<open>files\<close> holds the icon files by path,
  \<open>saved\<close> what \<open>config.json\<close> holds, and \<open>writable\<close> says which paths
  \<open>os.WriteFile\<close> can write.
\<close>

section \<open>Entities\<close>

definition SourceDocker :: string where "SourceDocker = ''docker''"

definition SourceNetwork :: string where "SourceNetwork = ''network''"

definition SourceManual :: string where "SourceManual = ''manual''"

definition IconFile :: string where "IconFile = ''file''"

record Service =
  sID :: string
  sName :: string
  sSubdomain :: string
  sTarget :: string
  sIcon :: string
  sCategory :: string
  sOrder :: int
  sSource :: string
  sContainerID :: string
  sContainerName :: string
  sDNSRecordID :: string
  sTunnelRouteID :: string
  sSkipHealth :: bool
  sDirectOnly :: bool
  sCreatedAt :: time

record Bookmark =
  bID :: string
  bName :: string
  bURL :: string
  bIcon :: string
  bCategory :: string
  bOrder :: int

record IgnoredService =
  iID :: string
  iIP :: string
  iPort :: int
  iTitle :: string
  iIgnoredAt :: time

text \<open>The confidence, a \<open>float32\<close> that is only copied, is kept in hundredths.\<close>

record DiscoveredService =
  dID :: string
  dIP :: string
  dPort :: int
  dTitle :: string
  dIcon :: string
  dServiceName :: string
  dConfidence :: nat
  dSource :: string
  dContainerName :: string
  dContainerID :: string
  dSuggestedSubdomain :: string
  dDiscoveredAt :: time

record TunnelInfo =
  tiTunnelID :: string
  tiToken :: string
  tiCreatedAt :: time

text \<open>What \<open>json.Marshal(s.d)\<close> writes: the values, with no pointers and no indexes.\<close>

record data =
  jServices :: "(string \<times> Service) list"
  jDiscovered :: "DiscoveredService list"
  jIgnored :: "IgnoredService list"
  jBookmarks :: "Bookmark list"
  jDDNSDomains :: "string list"
  jScanSubnets :: "string list"
  jLastScan :: time
  jPublicIP :: string
  jTunnel :: "TunnelInfo option"

record store =
  svcHeap :: "Service heap"
  discHeap :: "DiscoveredService heap"
  bmHeap :: "Bookmark heap"
  Services :: "(string \<times> ref) list"
  Discovered :: "ref list"
  Ignored :: "IgnoredService list"
  Bookmarks :: "ref list"
  DDNSDomains :: "string list"
  ScanSubnets :: "string list"
  LastScan :: time
  PublicIP :: string
  Tunnel :: "TunnelInfo option"
  idIdx :: "string \<rightharpoonup> ref"
  containerIDIdx :: "string \<rightharpoonup> ref"
  containerNameIdx :: "string \<rightharpoonup> ref"
  bookmarkIdx :: "string \<rightharpoonup> ref"
  discoveredIdx :: "string \<rightharpoonup> ref"
  discoveredContainerIdx :: "string \<rightharpoonup> ref"
  ignoredIdx :: "string \<rightharpoonup> IgnoredService"
  ignoredIPPortIdx :: "string \<rightharpoonup> unit"
  iconDir :: string
  path :: string
  files :: "string \<rightharpoonup> string"
  saved :: "data option"
  writable :: "string \<Rightarrow> bool"

section \<open>Indexes\<close>

definition indexService :: "ref \<Rightarrow> store \<Rightarrow> store" where
  "indexService r s = (let svc = svcHeap s ! r in
     s\<lparr>idIdx := (idIdx s)(sID svc \<mapsto> r),
       containerIDIdx := (if sContainerID svc \<noteq> [] then (containerIDIdx s)(sContainerID svc \<mapsto> r)
                          else containerIDIdx s),
       containerNameIdx := (if sSource svc = SourceDocker \<and> sContainerName svc \<noteq> []
                            then (containerNameIdx s)(sContainerName svc \<mapsto> r)
                            else containerNameIdx s)\<rparr>)"

definition unindexService :: "ref \<Rightarrow> store \<Rightarrow> store" where
  "unindexService r s = (let svc = svcHeap s ! r in
     s\<lparr>idIdx := (idIdx s)(sID svc := None),
       containerIDIdx := (containerIDIdx s)(sContainerID svc := None),
       containerNameIdx := (containerNameIdx s)(sContainerName svc := None)\<rparr>)"

definition indexBookmark :: "ref \<Rightarrow> store \<Rightarrow> store" where
  "indexBookmark r s = s\<lparr>bookmarkIdx := (bookmarkIdx s)(bID (bmHeap s ! r) \<mapsto> r)\<rparr>"

definition unindexBookmark :: "ref \<Rightarrow> store \<Rightarrow> store" where
  "unindexBookmark r s = s\<lparr>bookmarkIdx := (bookmarkIdx s)(bID (bmHeap s ! r) := None)\<rparr>"

definition indexDiscovered :: "ref \<Rightarrow> store \<Rightarrow> store" where
  "indexDiscovered r s = (let d = discHeap s ! r in
     s\<lparr>discoveredIdx := (discoveredIdx s)(dID d \<mapsto> r),
       discoveredContainerIdx := (if dContainerID d \<noteq> []
         then (discoveredContainerIdx s)(dContainerID d \<mapsto> r) else discoveredContainerIdx s)\<rparr>)"

definition unindexDiscovered :: "ref \<Rightarrow> store \<Rightarrow> store" where
  "unindexDiscovered r s = (let d = discHeap s ! r in
     s\<lparr>discoveredIdx := (discoveredIdx s)(dID d := None),
       discoveredContainerIdx := (if dContainerID d \<noteq> []
         then (discoveredContainerIdx s)(dContainerID d := None) else discoveredContainerIdx s)\<rparr>)"

definition ignoredKey :: "string \<Rightarrow> int \<Rightarrow> string" where
  "ignoredKey ip port = ip @ '':'' @ Itoa port"

definition indexIgnored :: "IgnoredService \<Rightarrow> store \<Rightarrow> store" where
  "indexIgnored ig s =
     s\<lparr>ignoredIdx := (ignoredIdx s)(iID ig \<mapsto> ig),
       ignoredIPPortIdx := (ignoredIPPortIdx s)(ignoredKey (iIP ig) (iPort ig) \<mapsto> ())\<rparr>"

definition unindexIgnored :: "IgnoredService \<Rightarrow> store \<Rightarrow> store" where
  "unindexIgnored ig s =
     s\<lparr>ignoredIdx := (ignoredIdx s)(iID ig := None),
       ignoredIPPortIdx := (ignoredIPPortIdx s)(ignoredKey (iIP ig) (iPort ig) := None)\<rparr>"

text \<open>The loops of \<open>rebuildIndexes\<close>, each over fresh maps.\<close>

definition rebuildIndexes :: "store \<Rightarrow> store" where
  "rebuildIndexes s =
    (let s = s\<lparr>idIdx := Map.empty, containerIDIdx := Map.empty, containerNameIdx := Map.empty\<rparr>;
         s = fold indexService (map snd (Services s)) s;
         s = fold indexBookmark (Bookmarks s) (s\<lparr>bookmarkIdx := Map.empty\<rparr>);
         s = fold indexDiscovered (Discovered s)
               (s\<lparr>discoveredIdx := Map.empty, discoveredContainerIdx := Map.empty\<rparr>)
     in fold indexIgnored (Ignored s) (s\<lparr>ignoredIdx := Map.empty, ignoredIPPortIdx := Map.empty\<rparr>))"

text \<open>The key of an ignored pair determines the pair, whatever the form of the address.\<close>

lemma ignoredKey_inj: "ignoredKey ip port = ignoredKey ip' port' \<longleftrightarrow> ip = ip' \<and> port = port'"
proof
  assume eq: "ignoredKey ip port = ignoredKey ip' port'"
  have l: "LastIndexByte (ignoredKey a p) CHR '':'' = Some (length a)" for a p
    using LastIndexByte_append [OF Itoa_no_colon, of a p] by (simp add: ignoredKey_def)
  from eq l [of ip port] l [of ip' port'] have "length ip = length ip'" by simp
  with eq have "ip = ip'" "Itoa port = Itoa port'" by (auto simp: ignoredKey_def)
  then show "ip = ip' \<and> port = port'" by (simp add: Itoa_inj)
qed simp

section \<open>Startup, saving and loading\<close>

text \<open>
  \<open>New\<close> on an empty data directory.  \<open>os.MkdirAll\<close> is taken to succeed: where it
  fails there is no store.
\<close>

definition empty_store :: "string \<Rightarrow> (string \<Rightarrow> bool) \<Rightarrow> store" where
  "empty_store dataDir wr = \<lparr>svcHeap = [], discHeap = [], bmHeap = [],
     Services = [], Discovered = [], Ignored = [], Bookmarks = [], DDNSDomains = [],
     ScanSubnets = [], LastScan = 0, PublicIP = [], Tunnel = None,
     idIdx = Map.empty, containerIDIdx = Map.empty, containerNameIdx = Map.empty,
     bookmarkIdx = Map.empty, discoveredIdx = Map.empty, discoveredContainerIdx = Map.empty,
     ignoredIdx = Map.empty, ignoredIPPortIdx = Map.empty,
     iconDir = Join [dataDir, ''icons''], path = Join [dataDir, ''config.json''],
     files = Map.empty, saved = None, writable = wr\<rparr>"

definition snapshot :: "store \<Rightarrow> data" where
  "snapshot s = \<lparr>jServices = map (\<lambda>(k, r). (k, svcHeap s ! r)) (Services s),
     jDiscovered = map (\<lambda>r. discHeap s ! r) (Discovered s),
     jIgnored = Ignored s,
     jBookmarks = map (\<lambda>r. bmHeap s ! r) (Bookmarks s),
     jDDNSDomains = DDNSDomains s, jScanSubnets = ScanSubnets s,
     jLastScan = LastScan s, jPublicIP = PublicIP s, jTunnel = Tunnel s\<rparr>"

text \<open>
  \<open>Save\<close>: marshal, write \<open>config.json.tmp\<close>, rename.  The rename is the only step
  that changes what the next start reads.
\<close>

definition Save :: "store \<Rightarrow> unit result \<times> store" where
  "Save s = (if writable s (path s @ ''.tmp'') then (Inr (), s\<lparr>saved := Some (snapshot s)\<rparr>)
             else (Inl ''write config.json.tmp'', s))"

text \<open>\<open>SaveLog\<close> logs the error and goes on.\<close>

definition SaveLog :: "store \<Rightarrow> store" where
  "SaveLog s = snd (Save s)"

text \<open>
  \<open>load\<close>: \<open>json.Unmarshal\<close> allocates one object for every entry, in the order of the
  file, and the indexes are rebuilt.  A missing file leaves the store as it is.
\<close>

definition load :: "store \<Rightarrow> store" where
  "load s = (case saved s of
      None \<Rightarrow> s
    | Some j \<Rightarrow> rebuildIndexes
        (s\<lparr>svcHeap := map snd (jServices j),
           Services := zip (map fst (jServices j)) [0..<length (jServices j)],
           discHeap := jDiscovered j, Discovered := [0..<length (jDiscovered j)],
           Ignored := jIgnored j,
           bmHeap := jBookmarks j, Bookmarks := [0..<length (jBookmarks j)],
           DDNSDomains := jDDNSDomains j, ScanSubnets := jScanSubnets j,
           LastScan := jLastScan j, PublicIP := jPublicIP j, Tunnel := jTunnel j\<rparr>))"

end
