(* ===== verification/Tables.thy ===== *)
theory Tables
  imports Prelude
begin

text \<open>
  The two contracts that the store's entity tables share and that their callers rely on.

  \<^item> \<open>id_table\<close>: a table of entities looked up by ID.  \<open>free\<close> is what a caller
    has to establish before it inserts (a fresh ID and free secondary keys).  The services,
    the bookmarks and the discovered services of the store are interpretations.
  \<^item> \<open>reorderable\<close>: the table's entities carry a position, set by a loop over the IDs
    of a drag-and-drop request.  The services and the bookmarks are interpretations.
\<close>

locale id_table =
  fixes get :: "'s \<Rightarrow> string \<Rightarrow> 'e option"
    and put :: "'e \<Rightarrow> 's \<Rightarrow> 's"
    and del :: "string \<Rightarrow> 's \<Rightarrow> 's"
    and id_of :: "'e \<Rightarrow> string"
    and inv :: "'s \<Rightarrow> bool"
    and free :: "'e \<Rightarrow> 's \<Rightarrow> bool"
  assumes get_put: "inv s \<Longrightarrow> free e s \<Longrightarrow> get (put e s) i = (if i = id_of e then Some e else get s i)"
    and get_del: "inv s \<Longrightarrow> get (del i s) j = (if j = i then None else get s j)"
    and get_id: "inv s \<Longrightarrow> get s i = Some e \<Longrightarrow> id_of e = i"
    and inv_put: "inv s \<Longrightarrow> free e s \<Longrightarrow> inv (put e s)"
    and inv_del: "inv s \<Longrightarrow> inv (del i s)"
    and free_id: "inv s \<Longrightarrow> free e s \<Longrightarrow> get s (id_of e) = None"
begin

lemma get_put_same: "inv s \<Longrightarrow> free e s \<Longrightarrow> get (put e s) (id_of e) = Some e"
  by (simp add: get_put)

lemma get_del_same: "inv s \<Longrightarrow> get (del i s) i = None"
  by (simp add: get_del)

text \<open>Deleting what was just inserted gives back the lookups of the table before.\<close>

lemma del_put: "inv s \<Longrightarrow> free e s \<Longrightarrow> get (del (id_of e) (put e s)) j = get s j"
  by (simp add: get_del inv_put get_put free_id)

lemma del_idem: "inv s \<Longrightarrow> get (del i (del i s)) j = get (del i s) j"
  by (simp add: get_del inv_del)

lemma del_commute: "inv s \<Longrightarrow> get (del i (del j s)) k = get (del j (del i s)) k"
  by (simp add: get_del inv_del)

lemma inv_del_all: "inv s \<Longrightarrow> inv (fold del is s)"
  by (induction "is" arbitrary: s) (simp_all add: inv_del)

lemma get_del_all: "inv s \<Longrightarrow> get (fold del is s) j = (if j \<in> set is then None else get s j)"
  by (induction "is" arbitrary: s) (auto simp: inv_del get_del)

text \<open>A move: one entity replaced by another under a new ID.\<close>

lemma get_replace:
  "inv s \<Longrightarrow> free e (del i s) \<Longrightarrow>
    get (put e (del i s)) j = (if j = id_of e then Some e else if j = i then None else get s j)"
  by (simp add: get_put get_del inv_del)

end

text \<open>The loop \<open>for i, id := range ids\<close> of a reorder request, from position \<open>n\<close> on.\<close>

primrec reorder_with :: "(int \<Rightarrow> string \<Rightarrow> 's \<Rightarrow> 's) \<Rightarrow> int \<Rightarrow> string list \<Rightarrow> 's \<Rightarrow> 's" where
  "reorder_with set_order n [] s = s"
| "reorder_with set_order n (i # is) s = reorder_with set_order (n + 1) is (set_order n i s)"

locale reorderable =
  fixes set_order :: "int \<Rightarrow> string \<Rightarrow> 's \<Rightarrow> 's"
    and order_of :: "'s \<Rightarrow> string \<Rightarrow> int option"
    and inv :: "'s \<Rightarrow> bool"
  assumes order_set: "inv s \<Longrightarrow>
      order_of (set_order n i s) j = (if j = i then map_option (\<lambda>_. n) (order_of s i) else order_of s j)"
    and inv_set: "inv s \<Longrightarrow> inv (set_order n i s)"
begin

lemma inv_reorder: "inv s \<Longrightarrow> inv (reorder_with set_order n is s)"
  by (induction "is" arbitrary: n s) (simp_all add: inv_set)

lemma reorder_other: "inv s \<Longrightarrow> j \<notin> set is \<Longrightarrow> order_of (reorder_with set_order n is s) j = order_of s j"
  by (induction "is" arbitrary: n s) (simp_all add: inv_set order_set)

lemma reorder_known: "inv s \<Longrightarrow> order_of (reorder_with set_order n is s) j = None \<longleftrightarrow> order_of s j = None"
  by (induction "is" arbitrary: n s) (auto simp: inv_set order_set)

text \<open>Every listed entity ends at its position in the request.\<close>

lemma reorder_nth:
  "inv s \<Longrightarrow> distinct is \<Longrightarrow> k < length is \<Longrightarrow> order_of s (is ! k) \<noteq> None \<Longrightarrow>
    order_of (reorder_with set_order n is s) (is ! k) = Some (n + int k)"
proof (induction "is" arbitrary: n s k)
  case Nil
  then show ?case by simp
next
  case (Cons i "is")
  show ?case
  proof (cases k)
    case 0
    with Cons.prems show ?thesis
      by (auto simp: reorder_other inv_set order_set)
  next
    case (Suc m)
    with Cons.prems have "i \<noteq> is ! m" by auto
    with Cons.prems Suc have "order_of (reorder_with set_order (n + 1) is (set_order n i s)) (is ! m) = Some (n + 1 + int m)"
      by (intro Cons.IH) (auto simp: inv_set order_set)
    with Suc show ?thesis by simp
  qed
qed

end

end
