(* ===== verification/StoreServices.thy ===== *)
theory StoreServices
  imports StoreModel Tables
begin

text \<open>
  The services of the store: the operations of \<open>internal/store/store.go\<close> on
  \<open>s.d.Services\<close> and its three indexes, the invariant \<open>svc_inv\<close> that ties them
  together, and the interpretations of \<open>id_table\<close> and \<open>reorderable\<close>.

  A caller allocates the object it passes (\<open>&store.Service{...}\<close>): \<open>newService\<close>.
\<close>

section \<open>Operations\<close>

definition newService :: "Service \<Rightarrow> store \<Rightarrow> ref \<times> store" where
  "newService v s = (let (r, h) = alloc v (svcHeap s) in (r, s\<lparr>svcHeap := h\<rparr>))"

text \<open>
  \<open>GetAllServices\<close>: the values of the map, in an order the runtime chooses; the model's
  is that of the association list.
\<close>

definition GetAllServices :: "store \<Rightarrow> ref list" where
  "GetAllServices s = map snd (Services s)"

definition GetServiceBySubdomain :: "string \<Rightarrow> store \<Rightarrow> ref option" where
  "GetServiceBySubdomain sub s = map_of (Services s) sub"

definition GetServiceByID :: "string \<Rightarrow> store \<Rightarrow> ref option" where
  "GetServiceByID i s = idIdx s i"

definition GetServiceByContainerID :: "string \<Rightarrow> store \<Rightarrow> ref option" where
  "GetServiceByContainerID cid s = containerIDIdx s cid"

definition GetServiceByContainerName :: "string \<Rightarrow> store \<Rightarrow> ref option" where
  "GetServiceByContainerName name s = containerNameIdx s name"

definition ClearContainerID :: "string \<Rightarrow> store \<Rightarrow> store" where
  "ClearContainerID cid s = (case containerIDIdx s cid of
      None \<Rightarrow> s
    | Some r \<Rightarrow> s\<lparr>containerIDIdx := (containerIDIdx s)(cid := None),
                  svcHeap := (svcHeap s)[r := (svcHeap s ! r)\<lparr>sContainerID := []\<rparr>]\<rparr>)"

definition AddService :: "ref \<Rightarrow> store \<Rightarrow> store" where
  "AddService r s =
    indexService r (s\<lparr>Services := AList.update (sSubdomain (svcHeap s ! r)) r (Services s)\<rparr>)"

definition UpdateService :: "string \<Rightarrow> ref \<Rightarrow> store \<Rightarrow> (string \<times> string) \<times> store" where
  "UpdateService i updated s = (case idIdx s i of
      None \<Rightarrow> (([], []), s)
    | Some r \<Rightarrow>
        let svc = svcHeap s ! r;
            s1 = unindexService r s;
            s2 = s1\<lparr>Services := AList.delete (sSubdomain svc) (Services s1)\<rparr>;
            s3 = s2\<lparr>Services := AList.update (sSubdomain (svcHeap s ! updated)) updated (Services s2)\<rparr>
        in ((sSubdomain svc, sDNSRecordID svc), indexService updated s3))"

definition DeleteService :: "string \<Rightarrow> store \<Rightarrow> (string \<times> string \<times> string) \<times> store" where
  "DeleteService i s = (case idIdx s i of
      None \<Rightarrow> (([], [], []), s)
    | Some r \<Rightarrow>
        let svc = svcHeap s ! r;
            s1 = unindexService r s
        in ((sSubdomain svc, sDNSRecordID svc, sTunnelRouteID svc),
            s1\<lparr>Services := AList.delete (sSubdomain svc) (Services s1)\<rparr>))"

definition setServiceOrder :: "int \<Rightarrow> string \<Rightarrow> store \<Rightarrow> store" where
  "setServiceOrder n i s = (case idIdx s i of
      None \<Rightarrow> s
    | Some r \<Rightarrow> s\<lparr>svcHeap := (svcHeap s)[r := (svcHeap s ! r)\<lparr>sOrder := n\<rparr>]\<rparr>)"

definition ReorderServices :: "string list \<Rightarrow> store \<Rightarrow> store" where
  "ReorderServices ids s = reorder_with setServiceOrder 0 ids s"

section \<open>The invariant\<close>

definition sub_key :: "Service heap \<Rightarrow> ref \<Rightarrow> string option" where
  "sub_key h r = Some (sSubdomain (h ! r))"

definition id_key :: "Service heap \<Rightarrow> ref \<Rightarrow> string option" where
  "id_key h r = Some (sID (h ! r))"

definition cid_key :: "Service heap \<Rightarrow> ref \<Rightarrow> string option" where
  "cid_key h r = (if sContainerID (h ! r) = [] then None else Some (sContainerID (h ! r)))"

definition cname_key :: "Service heap \<Rightarrow> ref \<Rightarrow> string option" where
  "cname_key h r = (if sSource (h ! r) = SourceDocker \<and> sContainerName (h ! r) \<noteq> []
     then Some (sContainerName (h ! r)) else None)"

text \<open>Only a service that Docker discovery made carries a container name.\<close>

definition wf_service :: "Service \<Rightarrow> bool" where
  "wf_service v \<longleftrightarrow> (sContainerName v \<noteq> [] \<longrightarrow> sSource v = SourceDocker)"

definition svc_inv :: "store \<Rightarrow> bool" where
  "svc_inv s \<longleftrightarrow>
     distinct (map fst (Services s)) \<and>
     refs_of (Services s) \<subseteq> {..< length (svcHeap s)} \<and>
     (\<forall>r \<in> refs_of (Services s). wf_service (svcHeap s ! r)) \<and>
     indexes (map_of (Services s)) (refs_of (Services s)) (sub_key (svcHeap s)) \<and>
     indexes (idIdx s) (refs_of (Services s)) (id_key (svcHeap s)) \<and>
     indexes (containerIDIdx s) (refs_of (Services s)) (cid_key (svcHeap s)) \<and>
     indexes (containerNameIdx s) (refs_of (Services s)) (cname_key (svcHeap s))"

text \<open>What a new or updated object must not clash with.\<close>

definition svc_free :: "Service \<Rightarrow> store \<Rightarrow> bool" where
  "svc_free v s \<longleftrightarrow> wf_service v \<and>
     map_of (Services s) (sSubdomain v) = None \<and> idIdx s (sID v) = None \<and>
     (sContainerID v \<noteq> [] \<longrightarrow> containerIDIdx s (sContainerID v) = None) \<and>
     (sContainerName v \<noteq> [] \<longrightarrow> containerNameIdx s (sContainerName v) = None)"

lemmas svc_keys = sub_key_def id_key_def cid_key_def cname_key_def

lemma svc_invD:
  assumes "svc_inv s"
  shows "distinct (map fst (Services s))"
    and "r \<in> refs_of (Services s) \<Longrightarrow> r < length (svcHeap s)"
    and "r \<in> refs_of (Services s) \<Longrightarrow> wf_service (svcHeap s ! r)"
    and "indexes (map_of (Services s)) (refs_of (Services s)) (sub_key (svcHeap s))"
    and "indexes (idIdx s) (refs_of (Services s)) (id_key (svcHeap s))"
    and "indexes (containerIDIdx s) (refs_of (Services s)) (cid_key (svcHeap s))"
    and "indexes (containerNameIdx s) (refs_of (Services s)) (cname_key (svcHeap s))"
  using assms by (auto simp: svc_inv_def)

lemma svc_invI:
  assumes "distinct (map fst (Services s))" and "refs_of (Services s) = R"
    and "\<And>r. r \<in> R \<Longrightarrow> r < length (svcHeap s) \<and> wf_service (svcHeap s ! r)"
    and "indexes (map_of (Services s)) R (sub_key (svcHeap s))"
    and "indexes (idIdx s) R (id_key (svcHeap s))"
    and "indexes (containerIDIdx s) R (cid_key (svcHeap s))"
    and "indexes (containerNameIdx s) R (cname_key (svcHeap s))"
  shows "svc_inv s"
  using assms by (auto simp: svc_inv_def)

lemma svc_inv_empty [simp]: "svc_inv (empty_store dir wr)"
  by (simp add: svc_inv_def empty_store_def)

lemma idIdx_iff: "svc_inv s \<Longrightarrow> idIdx s i = Some r \<longleftrightarrow> r \<in> refs_of (Services s) \<and> sID (svcHeap s ! r) = i"
  by (simp add: indexes_iff [OF svc_invD(5)] id_key_def)

lemma sub_iff: "svc_inv s \<Longrightarrow>
    map_of (Services s) k = Some r \<longleftrightarrow> r \<in> refs_of (Services s) \<and> sSubdomain (svcHeap s ! r) = k"
  by (simp add: indexes_iff [OF svc_invD(4)] sub_key_def)

lemma cid_iff: "svc_inv s \<Longrightarrow> containerIDIdx s c = Some r \<longleftrightarrow>
    r \<in> refs_of (Services s) \<and> c \<noteq> [] \<and> sContainerID (svcHeap s ! r) = c"
  by (auto simp: indexes_iff [OF svc_invD(6)] cid_key_def)

lemma cname_iff: "svc_inv s \<Longrightarrow> containerNameIdx s n = Some r \<longleftrightarrow>
    r \<in> refs_of (Services s) \<and> n \<noteq> [] \<and> sContainerName (svcHeap s ! r) = n"
  using svc_invD(3) by (auto simp: indexes_iff [OF svc_invD(7)] cname_key_def wf_service_def)

lemma cid_empty: "svc_inv s \<Longrightarrow> containerIDIdx s [] = None"
  using cid_iff by (metis not_None_eq)

lemma cname_empty: "svc_inv s \<Longrightarrow> containerNameIdx s [] = None"
  using cname_iff by (metis not_None_eq)

section \<open>What each operation writes\<close>

lemma AddService_simps [simp]:
  "svcHeap (AddService r s) = svcHeap s"
  "Services (AddService r s) = AList.update (sSubdomain (svcHeap s ! r)) r (Services s)"
  "idIdx (AddService r s) = (idIdx s)(sID (svcHeap s ! r) \<mapsto> r)"
  "containerIDIdx (AddService r s) = (if sContainerID (svcHeap s ! r) = [] then containerIDIdx s
     else (containerIDIdx s)(sContainerID (svcHeap s ! r) \<mapsto> r))"
  "containerNameIdx (AddService r s) =
     (if sSource (svcHeap s ! r) = SourceDocker \<and> sContainerName (svcHeap s ! r) \<noteq> []
      then (containerNameIdx s)(sContainerName (svcHeap s ! r) \<mapsto> r) else containerNameIdx s)"
  by (simp_all add: AddService_def indexService_def Let_def)

section \<open>Every operation keeps the invariant\<close>

text \<open>A fresh object changes no live object.\<close>

lemma newService_simps [simp]:
  "fst (newService v s) = length (svcHeap s)"
  "snd (newService v s) = s\<lparr>svcHeap := svcHeap s @ [v]\<rparr>"
  by (simp_all add: newService_def alloc_def)

lemma keys_append:
  assumes "r < length h"
  shows "sub_key (h @ [v]) r = sub_key h r" "id_key (h @ [v]) r = id_key h r"
    "cid_key (h @ [v]) r = cid_key h r" "cname_key (h @ [v]) r = cname_key h r"
  using assms by (simp_all add: svc_keys nth_append)

lemma svc_inv_new: "svc_inv s \<Longrightarrow> svc_inv (s\<lparr>svcHeap := svcHeap s @ [v]\<rparr>)"
proof -
  assume s: "svc_inv s"
  let ?R = "refs_of (Services s)"
  note d = svc_invD [OF s]
  have "indexes m ?R (key (svcHeap s @ [v])) = indexes m ?R (key (svcHeap s))"
    if "key \<in> {sub_key, id_key, cid_key, cname_key}" for m and key :: "Service heap \<Rightarrow> ref \<Rightarrow> string option"
    using that d(2) by (intro indexes_cong) (auto simp: keys_append)
  moreover have "?R \<subseteq> {..< length (svcHeap s @ [v])}"
    using d(2) by (auto simp: less_Suc_eq)
  moreover have "\<forall>r \<in> ?R. wf_service ((svcHeap s @ [v]) ! r)"
    using d(2,3) by (auto simp: nth_append)
  ultimately show ?thesis
    using d(1,4-7) by (simp add: svc_inv_def)
qed

lemma svc_inv_AddService:
  assumes s: "svc_inv s" and r: "r < length (svcHeap s)" "r \<notin> refs_of (Services s)"
    and f: "svc_free (svcHeap s ! r) s"
  shows "svc_inv (AddService r s)"
proof -
  let ?h = "svcHeap s" and ?R = "refs_of (Services s)"
  let ?v = "?h ! r"
  let ?S = "AList.update (sSubdomain ?v) r (Services s)"
  note d = svc_invD [OF s]
  have R: "refs_of ?S = insert r ?R"
    using f by (intro refs_of_update_new) (auto simp: svc_free_def map_of_eq_None_iff)
  show ?thesis
  proof (rule svc_invI [where R = "insert r ?R"])
    show "distinct (map fst (Services (AddService r s)))"
      by (simp add: distinct_update [OF d(1)])
    show "refs_of (Services (AddService r s)) = insert r ?R"
      by (simp add: R)
    show "q < length (svcHeap (AddService r s)) \<and> wf_service (svcHeap (AddService r s) ! q)"
      if "q \<in> insert r ?R" for q
      using that d(2,3) r f by (auto simp: svc_free_def)
    show "indexes (map_of (Services (AddService r s))) (insert r ?R) (sub_key (svcHeap (AddService r s)))"
      using f r by (auto simp: update_conv' svc_free_def sub_key_def intro!: indexes_insert [OF d(4)])
    show "indexes (idIdx (AddService r s)) (insert r ?R) (id_key (svcHeap (AddService r s)))"
      using f r by (auto simp: svc_free_def id_key_def intro!: indexes_insert [OF d(5)])
    show "indexes (containerIDIdx (AddService r s)) (insert r ?R) (cid_key (svcHeap (AddService r s)))"
      using f r by (auto simp: svc_free_def cid_key_def
          intro!: indexes_insert [OF d(6)] indexes_insert_none [OF d(6)])
    show "indexes (containerNameIdx (AddService r s)) (insert r ?R) (cname_key (svcHeap (AddService r s)))"
      using f r by (auto simp: svc_free_def cname_key_def
          intro!: indexes_insert [OF d(7)] indexes_insert_none [OF d(7)])
  qed
qed

text \<open>
  Removing a live service: the shape that \<open>DeleteService\<close> and the first half of
  \<open>UpdateService\<close> share.
\<close>

definition detach :: "ref \<Rightarrow> store \<Rightarrow> store" where
  "detach r s = (let s1 = unindexService r s in
     s1\<lparr>Services := AList.delete (sSubdomain (svcHeap s ! r)) (Services s1)\<rparr>)"

lemma detach_simps [simp]:
  "svcHeap (detach r s) = svcHeap s"
  "Services (detach r s) = AList.delete (sSubdomain (svcHeap s ! r)) (Services s)"
  "idIdx (detach r s) = (idIdx s)(sID (svcHeap s ! r) := None)"
  "containerIDIdx (detach r s) = (containerIDIdx s)(sContainerID (svcHeap s ! r) := None)"
  "containerNameIdx (detach r s) = (containerNameIdx s)(sContainerName (svcHeap s ! r) := None)"
  by (simp_all add: detach_def unindexService_def Let_def)

lemma svc_inv_detach:
  assumes s: "svc_inv s" and r: "r \<in> refs_of (Services s)"
  shows "svc_inv (detach r s)" and "refs_of (Services (detach r s)) = refs_of (Services s) - {r}"
proof -
  let ?h = "svcHeap s" and ?R = "refs_of (Services s)"
  let ?v = "?h ! r"
  note d = svc_invD [OF s]
  show R: "refs_of (Services (detach r s)) = ?R - {r}"
    unfolding detach_simps using r by (intro refs_of_delete [OF d(4) d(1)]) (auto simp: sub_key_def)
  have "indexes (map_of (Services (detach r s))) (?R - {r}) (sub_key ?h)"
    unfolding detach_simps delete_conv' using r by (intro indexes_remove [OF d(4)]) (auto simp: sub_key_def)
  moreover have "indexes ((idIdx s)(sID ?v := None)) (?R - {r}) (id_key ?h)"
    using r by (intro indexes_remove [OF d(5)]) (auto simp: id_key_def)
  moreover have "indexes ((containerIDIdx s)(sContainerID ?v := None)) (?R - {r}) (cid_key ?h)"
  proof (cases "sContainerID ?v = []")
    case True
    then have "(containerIDIdx s)(sContainerID ?v := None) = containerIDIdx s"
      using cid_empty [OF s] by (auto simp: fun_eq_iff)
    then show ?thesis using True by (simp add: indexes_remove_none [OF d(6)] cid_key_def)
  next
    case False
    then show ?thesis using r by (intro indexes_remove [OF d(6)]) (auto simp: cid_key_def)
  qed
  moreover have "indexes ((containerNameIdx s)(sContainerName ?v := None)) (?R - {r}) (cname_key ?h)"
  proof (cases "sContainerName ?v = []")
    case True
    then have "(containerNameIdx s)(sContainerName ?v := None) = containerNameIdx s"
      using cname_empty [OF s] by (auto simp: fun_eq_iff)
    then show ?thesis using True by (simp add: indexes_remove_none [OF d(7)] cname_key_def)
  next
    case False
    then have "sSource ?v = SourceDocker" using d(3) [OF r] by (simp add: wf_service_def)
    with False show ?thesis using r by (intro indexes_remove [OF d(7)]) (auto simp: cname_key_def)
  qed
  ultimately show "svc_inv (detach r s)"
    using d(2,3) R distinct_delete [OF d(1)] by (intro svc_invI [where R = "?R - {r}"]) auto
qed

lemma DeleteService_detach:
  "idIdx s i = Some r \<Longrightarrow> snd (DeleteService i s) = detach r s"
  by (simp add: DeleteService_def detach_def Let_def)

lemma UpdateService_detach:
  "idIdx s i = Some r \<Longrightarrow> snd (UpdateService i u s) = AddService u (detach r s)"
  by (simp add: UpdateService_def AddService_def detach_def unindexService_def Let_def)

lemma svc_inv_DeleteService: "svc_inv s \<Longrightarrow> svc_inv (snd (DeleteService i s))"
proof (cases "idIdx s i")
  case None
  then show "svc_inv s \<Longrightarrow> ?thesis" by (simp add: DeleteService_def)
next
  case (Some r)
  then show "svc_inv s \<Longrightarrow> ?thesis"
    by (auto simp: DeleteService_detach idIdx_iff intro!: svc_inv_detach(1))
qed

text \<open>
  An update keeps the invariant when the new object is free in the table without the old
  one: in particular its subdomain belongs to no other service.
\<close>

lemma svc_inv_UpdateService:
  assumes s: "svc_inv s" and u: "u < length (svcHeap s)" "u \<notin> refs_of (Services s)"
    and f: "\<And>r. idIdx s i = Some r \<Longrightarrow> svc_free (svcHeap s ! u) (detach r s)"
  shows "svc_inv (snd (UpdateService i u s))"
proof (cases "idIdx s i")
  case None
  with s show ?thesis by (simp add: UpdateService_def)
next
  case (Some r)
  then have r: "r \<in> refs_of (Services s)" using s by (simp add: idIdx_iff)
  show ?thesis
    unfolding UpdateService_detach [OF Some]
    using svc_inv_detach [OF s r] u f [OF Some] by (intro svc_inv_AddService) auto
qed

text \<open>Writing fields that are no key.\<close>

lemma svc_inv_write:
  assumes s: "svc_inv s" and k: "sID v = sID (svcHeap s ! r)" "sSubdomain v = sSubdomain (svcHeap s ! r)"
    "sContainerID v = sContainerID (svcHeap s ! r)" "sContainerName v = sContainerName (svcHeap s ! r)"
    "sSource v = sSource (svcHeap s ! r)"
  shows "svc_inv (s\<lparr>svcHeap := (svcHeap s)[r := v]\<rparr>)"
proof -
  let ?h = "(svcHeap s)[r := v]"
  have f: "sID (?h ! q) = sID (svcHeap s ! q)" "sSubdomain (?h ! q) = sSubdomain (svcHeap s ! q)"
    "sContainerID (?h ! q) = sContainerID (svcHeap s ! q)"
    "sContainerName (?h ! q) = sContainerName (svcHeap s ! q)"
    "sSource (?h ! q) = sSource (svcHeap s ! q)" for q
    using k by (cases "r < length (svcHeap s)"; cases "q = r"; simp add: list_update_beyond)+
  have "sub_key ?h = sub_key (svcHeap s)" "id_key ?h = id_key (svcHeap s)"
    "cid_key ?h = cid_key (svcHeap s)" "cname_key ?h = cname_key (svcHeap s)"
    by (simp_all add: fun_eq_iff svc_keys f)
  then show ?thesis
    using s by (simp add: svc_inv_def wf_service_def f)
qed

lemma svc_inv_setServiceOrder: "svc_inv s \<Longrightarrow> svc_inv (setServiceOrder n i s)"
  by (auto simp: setServiceOrder_def intro: svc_inv_write split: option.split)

lemma svc_inv_ClearContainerID:
  assumes s: "svc_inv s"
  shows "svc_inv (ClearContainerID cid s)"
proof (cases "containerIDIdx s cid")
  case None
  with s show ?thesis by (simp add: ClearContainerID_def)
next
  case (Some r)
  let ?h = "svcHeap s" and ?R = "refs_of (Services s)"
  let ?g = "?h[r := (?h ! r)\<lparr>sContainerID := []\<rparr>]"
  note d = svc_invD [OF s]
  from Some have r: "r \<in> ?R" "cid \<noteq> []" "sContainerID (?h ! r) = cid" "r < length ?h"
    using s d(2) by (auto simp: cid_iff)
  have f: "sID (?g ! q) = sID (?h ! q)" "sSubdomain (?g ! q) = sSubdomain (?h ! q)"
    "sContainerName (?g ! q) = sContainerName (?h ! q)" "sSource (?g ! q) = sSource (?h ! q)" for q
    using r(4) by (cases "q = r"; simp)+
  have "indexes ((containerIDIdx s)(cid := None)) ?R (cid_key ?g)"
    using r by (intro indexes_drop_key [OF d(6), of r]) (auto simp: cid_key_def)
  moreover have "sub_key ?g = sub_key ?h" "id_key ?g = id_key ?h" "cname_key ?g = cname_key ?h"
    by (simp_all add: fun_eq_iff svc_keys f)
  ultimately show ?thesis
    using s Some by (simp add: svc_inv_def ClearContainerID_def wf_service_def f)
qed

section \<open>Lookups after each operation\<close>

text \<open>The object behind an ID, as the handlers read it.\<close>

definition serviceByID :: "store \<Rightarrow> string \<Rightarrow> Service option" where
  "serviceByID s i = map_option (\<lambda>r. svcHeap s ! r) (GetServiceByID i s)"

definition insertService :: "Service \<Rightarrow> store \<Rightarrow> store" where
  "insertService v s = (let (r, s1) = newService v s in AddService r s1)"

definition serviceOrder :: "store \<Rightarrow> string \<Rightarrow> int option" where
  "serviceOrder s i = map_option sOrder (serviceByID s i)"

lemma svc_free_new [simp]: "svc_free v (s\<lparr>svcHeap := h\<rparr>) = svc_free v s"
  by (simp add: svc_free_def)

lemma insertService_eq:
  "insertService v s = AddService (length (svcHeap s)) (s\<lparr>svcHeap := svcHeap s @ [v]\<rparr>)"
  by (simp add: insertService_def newService_def alloc_def)

lemma fresh_not_live: "svc_inv s \<Longrightarrow> length (svcHeap s) \<notin> refs_of (Services s)"
  using svc_invD(2) by blast

lemma svc_inv_insertService: "svc_inv s \<Longrightarrow> svc_free v s \<Longrightarrow> svc_inv (insertService v s)"
  unfolding insertService_eq
  using fresh_not_live by (intro svc_inv_AddService svc_inv_new) (auto simp: svc_free_def)

lemma live_lt: "svc_inv s \<Longrightarrow> idIdx s i = Some r \<Longrightarrow> r < length (svcHeap s)"
  using svc_invD(2) by (auto simp: idIdx_iff)

lemma serviceByID_insert:
  "svc_inv s \<Longrightarrow> svc_free v s \<Longrightarrow>
    serviceByID (insertService v s) i = (if i = sID v then Some v else serviceByID s i)"
  by (auto simp: serviceByID_def GetServiceByID_def insertService_eq nth_append live_lt intro!: option.map_cong)

lemma serviceByID_delete:
  "svc_inv s \<Longrightarrow> serviceByID (snd (DeleteService i s)) j = (if j = i then None else serviceByID s j)"
proof (cases "idIdx s i")
  case None
  then show ?thesis
    by (simp add: DeleteService_def serviceByID_def GetServiceByID_def)
next
  case (Some r)
  assume "svc_inv s"
  with Some have "sID (svcHeap s ! r) = i" by (simp add: idIdx_iff)
  with Some show ?thesis
    by (simp add: DeleteService_detach serviceByID_def GetServiceByID_def)
qed

interpretation svc_table: id_table serviceByID insertService "\<lambda>i s. snd (DeleteService i s)" sID svc_inv svc_free
proof unfold_locales
  show "svc_inv s \<Longrightarrow> serviceByID s i = Some e \<Longrightarrow> sID e = i" for s i e
    by (auto simp: serviceByID_def GetServiceByID_def idIdx_iff)
  show "svc_inv s \<Longrightarrow> svc_free e s \<Longrightarrow> serviceByID s (sID e) = None" for s e
    by (simp add: serviceByID_def GetServiceByID_def svc_free_def)
qed (simp_all add: serviceByID_insert serviceByID_delete svc_inv_insertService svc_inv_DeleteService)

lemma serviceOrder_set:
  "svc_inv s \<Longrightarrow> serviceOrder (setServiceOrder n i s) j =
    (if j = i then map_option (\<lambda>_. n) (serviceOrder s i) else serviceOrder s j)"
proof (cases "idIdx s i")
  case None
  then show "svc_inv s \<Longrightarrow> ?thesis"
    by (simp add: serviceOrder_def serviceByID_def GetServiceByID_def setServiceOrder_def)
next
  case (Some r)
  assume s: "svc_inv s"
  have "q \<noteq> r" if "idIdx s j = Some q" "j \<noteq> i" for q
    using that Some s by (auto simp: idIdx_iff)
  then show ?thesis
    using Some live_lt [OF s Some]
    by (cases "idIdx s j") (auto simp: serviceOrder_def serviceByID_def GetServiceByID_def setServiceOrder_def)
qed

interpretation svc_order: reorderable setServiceOrder serviceOrder svc_inv
  by unfold_locales (simp_all add: serviceOrder_set svc_inv_setServiceOrder)

text \<open>
  A subdomain that another service holds: the update removes that service from the map but
  leaves it in the ID index.
\<close>

lemma UpdateService_collision:
  assumes s: "svc_inv s" and i: "idIdx s i = Some r" and j: "idIdx s j = Some q" and "i \<noteq> j"
    and u: "u \<notin> refs_of (Services s)" "sID (svcHeap s ! u) = i"
    and clash: "sSubdomain (svcHeap s ! u) = sSubdomain (svcHeap s ! q)"
  shows "GetServiceByID j (snd (UpdateService i u s)) = Some q"
    and "q \<notin> set (GetAllServices (snd (UpdateService i u s)))"
    and "GetServiceBySubdomain (sSubdomain (svcHeap s ! q)) (snd (UpdateService i u s)) = Some u"
proof -
  let ?k = "sSubdomain (svcHeap s ! q)"
  let ?D = "AList.delete (sSubdomain (svcHeap s ! r)) (Services s)"
  from i j s have r: "r \<in> refs_of (Services s)" "sID (svcHeap s ! r) = i"
    and q: "q \<in> refs_of (Services s)" "sID (svcHeap s ! q) = j" by (simp_all add: idIdx_iff)
  note d = svc_inv_detach [OF s r(1)]
  show "GetServiceByID j (snd (UpdateService i u s)) = Some q"
    using i j \<open>i \<noteq> j\<close> u r by (simp add: UpdateService_detach GetServiceByID_def)
  show "GetServiceBySubdomain ?k (snd (UpdateService i u s)) = Some u"
    using i clash by (simp add: UpdateService_detach GetServiceBySubdomain_def update_conv')
  have uq: "u \<noteq> q" using u q by auto
  have dD: "distinct (map fst (AList.update ?k u ?D))"
    using svc_invD(1) [OF d(1)] by (simp add: distinct_update)
  show "q \<notin> set (GetAllServices (snd (UpdateService i u s)))"
  proof
    assume "q \<in> set (GetAllServices (snd (UpdateService i u s)))"
    then obtain k where "(k, q) \<in> set (AList.update ?k u ?D)"
      using i clash by (auto simp: UpdateService_detach GetAllServices_def)
    then have m: "map_of (AList.update ?k u ?D) k = Some q"
      using dD by simp
    then have "k \<noteq> ?k" using uq by (auto simp: update_conv')
    with m have "map_of ?D k = Some q" by (simp add: update_conv')
    then have "k = ?k" using sub_iff [OF d(1), of k q] by simp
    with \<open>k \<noteq> ?k\<close> show False ..
  qed
qed

text \<open>Detaching a container forgets its ID and nothing else.\<close>

lemma ClearContainerID_lookups:
  assumes s: "svc_inv s"
  shows "GetServiceByContainerID cid (ClearContainerID cid s) = None"
    and "cid' \<noteq> cid \<Longrightarrow> GetServiceByContainerID cid' (ClearContainerID cid s) = GetServiceByContainerID cid' s"
    and "GetServiceByContainerName n (ClearContainerID cid s) = GetServiceByContainerName n s"
    and "GetServiceByID i (ClearContainerID cid s) = GetServiceByID i s"
    and "GetServiceBySubdomain k (ClearContainerID cid s) = GetServiceBySubdomain k s"
    and "GetAllServices (ClearContainerID cid s) = GetAllServices s"
  by (simp_all add: ClearContainerID_def GetServiceByContainerID_def GetServiceByContainerName_def
      GetServiceByID_def GetServiceBySubdomain_def GetAllServices_def split: option.split)

section \<open>Rebuilding the indexes\<close>

lemma fold_indexService_simps [simp]:
  "svcHeap (fold indexService rs s) = svcHeap s"
  "Services (fold indexService rs s) = Services s"
  "idIdx (fold indexService rs s) = fold (add_key (id_key (svcHeap s))) rs (idIdx s)"
  "containerIDIdx (fold indexService rs s) = fold (add_key (cid_key (svcHeap s))) rs (containerIDIdx s)"
  "containerNameIdx (fold indexService rs s) = fold (add_key (cname_key (svcHeap s))) rs (containerNameIdx s)"
  by (induction rs arbitrary: s) (simp_all add: indexService_def Let_def add_key_def svc_keys)

lemma fold_other_simps [simp]:
  "svcHeap (fold indexBookmark rs s) = svcHeap s" "Services (fold indexBookmark rs s) = Services s"
  "idIdx (fold indexBookmark rs s) = idIdx s"
  "containerIDIdx (fold indexBookmark rs s) = containerIDIdx s"
  "containerNameIdx (fold indexBookmark rs s) = containerNameIdx s"
  "svcHeap (fold indexDiscovered rs s) = svcHeap s" "Services (fold indexDiscovered rs s) = Services s"
  "idIdx (fold indexDiscovered rs s) = idIdx s"
  "containerIDIdx (fold indexDiscovered rs s) = containerIDIdx s"
  "containerNameIdx (fold indexDiscovered rs s) = containerNameIdx s"
  "svcHeap (fold indexIgnored igs s) = svcHeap s" "Services (fold indexIgnored igs s) = Services s"
  "idIdx (fold indexIgnored igs s) = idIdx s"
  "containerIDIdx (fold indexIgnored igs s) = containerIDIdx s"
  "containerNameIdx (fold indexIgnored igs s) = containerNameIdx s"
  by (induction rs arbitrary: s)
    (simp_all add: indexBookmark_def indexDiscovered_def Let_def,
     (induction igs arbitrary: s, simp_all add: indexIgnored_def)+)

end
