(* ===== verification/StoreDiscovered.thy ===== *)
theory StoreDiscovered
  imports StoreModel Tables
begin

text \<open>
  The discovered and the ignored services: the operations of \<open>internal/store/store.go\<close> on
  \<open>s.d.Discovered\<close> and \<open>s.d.Ignored\<close> and their indexes, the invariants
  \<open>disc_inv\<close> and \<open>ign_inv\<close>, and the interpretation of \<open>id_table\<close>.
\<close>

section \<open>Operations\<close>

definition newDiscovered :: "DiscoveredService \<Rightarrow> store \<Rightarrow> ref \<times> store" where
  "newDiscovered v s = (let (r, h) = alloc v (discHeap s) in (r, s\<lparr>discHeap := h\<rparr>))"

definition GetAllDiscovered :: "store \<Rightarrow> ref list" where
  "GetAllDiscovered s = Discovered s"

definition GetDiscoveredByID :: "string \<Rightarrow> store \<Rightarrow> ref option" where
  "GetDiscoveredByID i s = discoveredIdx s i"

definition GetDiscoveredByContainerID :: "string \<Rightarrow> store \<Rightarrow> ref option" where
  "GetDiscoveredByContainerID cid s = discoveredContainerIdx s cid"

definition AddDiscovered :: "ref \<Rightarrow> store \<Rightarrow> store" where
  "AddDiscovered r s = (let d = discHeap s ! r in
     if dContainerID d \<noteq> [] \<and> discoveredContainerIdx s (dContainerID d) \<noteq> None then s
     else if \<exists>e \<in> set (Discovered s). dIP (discHeap s ! e) = dIP d \<and> dPort (discHeap s ! e) = dPort d then s
     else indexDiscovered r (s\<lparr>Discovered := Discovered s @ [r]\<rparr>))"

definition RemoveDiscovered :: "string \<Rightarrow> store \<Rightarrow> store" where
  "RemoveDiscovered i s =
    (let s1 = (case discoveredIdx s i of None \<Rightarrow> s | Some d \<Rightarrow> unindexDiscovered d s)
     in s1\<lparr>Discovered := filter (\<lambda>d. dID (discHeap s1 ! d) \<noteq> i) (Discovered s1)\<rparr>)"

definition RemoveDiscoveredByContainerID :: "string \<Rightarrow> store \<Rightarrow> store" where
  "RemoveDiscoveredByContainerID cid s =
    (let s1 = (case discoveredContainerIdx s cid of None \<Rightarrow> s | Some d \<Rightarrow> unindexDiscovered d s)
     in s1\<lparr>Discovered := filter (\<lambda>d. dContainerID (discHeap s1 ! d) \<noteq> cid) (Discovered s1)\<rparr>)"

text \<open>The loop of \<open>ClearNetworkDiscovered\<close>: the network entries leave the indexes.\<close>

fun clear_network :: "ref list \<Rightarrow> store \<Rightarrow> ref list \<times> store" where
  "clear_network [] s = ([], s)"
| "clear_network (d # ds) s =
    (if dSource (discHeap s ! d) = SourceNetwork then clear_network ds (unindexDiscovered d s)
     else let (keep, s') = clear_network ds s in (d # keep, s'))"

definition ClearNetworkDiscovered :: "store \<Rightarrow> store" where
  "ClearNetworkDiscovered s = (let (keep, s') = clear_network (Discovered s) s in s'\<lparr>Discovered := keep\<rparr>)"

text \<open>\<open>UpsertNetworkDiscovered\<close>: the first network entry of the same IP and port is refreshed in place.\<close>

definition same_network :: "DiscoveredService \<Rightarrow> DiscoveredService \<Rightarrow> bool" where
  "same_network svc e \<longleftrightarrow> dSource e = SourceNetwork \<and> dIP e = dIP svc \<and> dPort e = dPort svc"

definition refresh :: "DiscoveredService \<Rightarrow> DiscoveredService \<Rightarrow> DiscoveredService" where
  "refresh svc e = e\<lparr>dTitle := dTitle svc, dIcon := dIcon svc, dServiceName := dServiceName svc,
     dSuggestedSubdomain := dSuggestedSubdomain svc, dConfidence := dConfidence svc,
     dDiscoveredAt := dDiscoveredAt svc\<rparr>"

definition UpsertNetworkDiscovered :: "ref \<Rightarrow> store \<Rightarrow> string \<times> store" where
  "UpsertNetworkDiscovered r s = (let svc = discHeap s ! r in
     case find (\<lambda>e. same_network svc (discHeap s ! e)) (Discovered s) of
       Some e \<Rightarrow> (dID (discHeap s ! e), s\<lparr>discHeap := (discHeap s)[e := refresh svc (discHeap s ! e)]\<rparr>)
     | None \<Rightarrow> (dID svc, indexDiscovered r (s\<lparr>Discovered := Discovered s @ [r]\<rparr>)))"

definition UpdateDiscoveredIcon :: "string \<Rightarrow> string \<Rightarrow> store \<Rightarrow> store" where
  "UpdateDiscoveredIcon i icon s = (case discoveredIdx s i of
      None \<Rightarrow> s
    | Some d \<Rightarrow> s\<lparr>discHeap := (discHeap s)[d := (discHeap s ! d)\<lparr>dIcon := icon\<rparr>]\<rparr>)"

definition IgnoreDiscovered :: "string \<Rightarrow> time \<Rightarrow> store \<Rightarrow> unit result \<times> store" where
  "IgnoreDiscovered i now s = (case discoveredIdx s i of
      None \<Rightarrow> (Inl (''discovered service '' @ i @ '' not found''), s)
    | Some r \<Rightarrow>
        let found = discHeap s ! r;
            s1 = unindexDiscovered r s;
            s2 = s1\<lparr>Discovered := filter (\<lambda>d. dID (discHeap s1 ! d) \<noteq> i) (Discovered s1)\<rparr>;
            ig = \<lparr>iID = dID found, iIP = dIP found, iPort = dPort found, iTitle = dTitle found,
                  iIgnoredAt = now\<rparr>
        in (Inr (), indexIgnored ig (s2\<lparr>Ignored := Ignored s2 @ [ig]\<rparr>)))"

definition GetIgnored :: "store \<Rightarrow> IgnoredService list" where
  "GetIgnored s = Ignored s"

definition UnignoreService :: "string \<Rightarrow> store \<Rightarrow> IgnoredService result \<times> store" where
  "UnignoreService i s = (case ignoredIdx s i of
      None \<Rightarrow> (Inl (''ignored service '' @ i @ '' not found''), s)
    | Some removed \<Rightarrow>
        let s1 = unindexIgnored removed s
        in (Inr removed, s1\<lparr>Ignored := filter (\<lambda>ig. iID ig \<noteq> i) (Ignored s1)\<rparr>))"

definition IsIgnored :: "string \<Rightarrow> int \<Rightarrow> store \<Rightarrow> bool" where
  "IsIgnored ip port s \<longleftrightarrow> ignoredIPPortIdx s (ignoredKey ip port) \<noteq> None"

section \<open>Invariants\<close>

definition did_key :: "DiscoveredService heap \<Rightarrow> ref \<Rightarrow> string option" where
  "did_key h r = Some (dID (h ! r))"

definition dcid_key :: "DiscoveredService heap \<Rightarrow> ref \<Rightarrow> string option" where
  "dcid_key h r = (if dContainerID (h ! r) = [] then None else Some (dContainerID (h ! r)))"

definition disc_inv :: "store \<Rightarrow> bool" where
  "disc_inv s \<longleftrightarrow> distinct (Discovered s) \<and> set (Discovered s) \<subseteq> {..< length (discHeap s)} \<and>
     indexes (discoveredIdx s) (set (Discovered s)) (did_key (discHeap s)) \<and>
     indexes (discoveredContainerIdx s) (set (Discovered s)) (dcid_key (discHeap s))"

definition disc_free :: "DiscoveredService \<Rightarrow> store \<Rightarrow> bool" where
  "disc_free v s \<longleftrightarrow> discoveredIdx s (dID v) = None \<and>
     (dContainerID v \<noteq> [] \<longrightarrow> discoveredContainerIdx s (dContainerID v) = None)"

definition no_same_address :: "DiscoveredService \<Rightarrow> store \<Rightarrow> bool" where
  "no_same_address v s \<longleftrightarrow>
     (\<forall>e \<in> set (Discovered s). dIP (discHeap s ! e) = dIP v \<longrightarrow> dPort (discHeap s ! e) \<noteq> dPort v)"

text \<open>
  The ID index of the ignored list is exact; the address index holds only addresses of the
  list, and all of them while no two entries share an address (\<open>IsIgnored_iff\<close>).
\<close>

definition ign_inv :: "store \<Rightarrow> bool" where
  "ign_inv s \<longleftrightarrow> distinct (map iID (Ignored s)) \<and>
     (\<forall>i ig. ignoredIdx s i = Some ig \<longleftrightarrow> ig \<in> set (Ignored s) \<and> iID ig = i) \<and>
     (\<forall>k. ignoredIPPortIdx s k \<noteq> None \<longrightarrow> (\<exists>ig \<in> set (Ignored s). ignoredKey (iIP ig) (iPort ig) = k))"

definition ign_addr_inv :: "store \<Rightarrow> bool" where
  "ign_addr_inv s \<longleftrightarrow> distinct (map (\<lambda>ig. (iIP ig, iPort ig)) (Ignored s)) \<and>
     (\<forall>ig \<in> set (Ignored s). ignoredIPPortIdx s (ignoredKey (iIP ig) (iPort ig)) \<noteq> None)"

lemma disc_invD:
  assumes "disc_inv s"
  shows "distinct (Discovered s)" and "r \<in> set (Discovered s) \<Longrightarrow> r < length (discHeap s)"
    and "indexes (discoveredIdx s) (set (Discovered s)) (did_key (discHeap s))"
    and "indexes (discoveredContainerIdx s) (set (Discovered s)) (dcid_key (discHeap s))"
  using assms by (auto simp: disc_inv_def)

lemma disc_inv_empty [simp]: "disc_inv (empty_store dir wr)"
  by (simp add: disc_inv_def empty_store_def)

lemma ign_inv_empty [simp]: "ign_inv (empty_store dir wr)"
  by (simp add: ign_inv_def empty_store_def)

lemma discoveredIdx_iff: "disc_inv s \<Longrightarrow>
    discoveredIdx s i = Some r \<longleftrightarrow> r \<in> set (Discovered s) \<and> dID (discHeap s ! r) = i"
  by (simp add: indexes_iff [OF disc_invD(3)] did_key_def)

lemma dcid_iff: "disc_inv s \<Longrightarrow> discoveredContainerIdx s c = Some r \<longleftrightarrow>
    r \<in> set (Discovered s) \<and> c \<noteq> [] \<and> dContainerID (discHeap s ! r) = c"
  by (auto simp: indexes_iff [OF disc_invD(4)] dcid_key_def)

lemma newDiscovered_simps [simp]:
  "fst (newDiscovered v s) = length (discHeap s)"
  "snd (newDiscovered v s) = s\<lparr>discHeap := discHeap s @ [v]\<rparr>"
  by (simp_all add: newDiscovered_def alloc_def)

lemma unindexDiscovered_simps [simp]:
  "discHeap (unindexDiscovered r s) = discHeap s"
  "Discovered (unindexDiscovered r s) = Discovered s"
  "discoveredIdx (unindexDiscovered r s) = (discoveredIdx s)(dID (discHeap s ! r) := None)"
  "discoveredContainerIdx (unindexDiscovered r s) = (if dContainerID (discHeap s ! r) = [] then discoveredContainerIdx s
     else (discoveredContainerIdx s)(dContainerID (discHeap s ! r) := None))"
  "Ignored (unindexDiscovered r s) = Ignored s" "ignoredIdx (unindexDiscovered r s) = ignoredIdx s"
  "ignoredIPPortIdx (unindexDiscovered r s) = ignoredIPPortIdx s"
  by (simp_all add: unindexDiscovered_def Let_def)

lemma indexDiscovered_simps [simp]:
  "discHeap (indexDiscovered r s) = discHeap s"
  "Discovered (indexDiscovered r s) = Discovered s"
  "discoveredIdx (indexDiscovered r s) = (discoveredIdx s)(dID (discHeap s ! r) \<mapsto> r)"
  "discoveredContainerIdx (indexDiscovered r s) = (if dContainerID (discHeap s ! r) = [] then discoveredContainerIdx s
     else (discoveredContainerIdx s)(dContainerID (discHeap s ! r) \<mapsto> r))"
  "Ignored (indexDiscovered r s) = Ignored s" "ignoredIdx (indexDiscovered r s) = ignoredIdx s"
  "ignoredIPPortIdx (indexDiscovered r s) = ignoredIPPortIdx s"
  by (simp_all add: indexDiscovered_def Let_def)

section \<open>Every operation keeps the invariants\<close>

lemma disc_inv_new: "disc_inv s \<Longrightarrow> disc_inv (s\<lparr>discHeap := discHeap s @ [v]\<rparr>)"
proof -
  assume s: "disc_inv s"
  have "did_key (discHeap s @ [v]) r = did_key (discHeap s) r \<and> dcid_key (discHeap s @ [v]) r = dcid_key (discHeap s) r"
    if "r \<in> set (Discovered s)" for r
    using disc_invD(2) [OF s that] by (simp add: did_key_def dcid_key_def nth_append)
  then have "indexes m (set (Discovered s)) (did_key (discHeap s @ [v])) = indexes m (set (Discovered s)) (did_key (discHeap s))"
    "indexes m (set (Discovered s)) (dcid_key (discHeap s @ [v])) = indexes m (set (Discovered s)) (dcid_key (discHeap s))" for m
    by (auto intro!: indexes_cong)
  with s show ?thesis by (auto simp: disc_inv_def)
qed

text \<open>Appending a fresh object, as \<open>AddDiscovered\<close> and \<open>UpsertNetworkDiscovered\<close> do.\<close>

lemma disc_inv_append:
  assumes s: "disc_inv s" and r: "r < length (discHeap s)" "r \<notin> set (Discovered s)"
    and f: "disc_free (discHeap s ! r) s"
  shows "disc_inv (indexDiscovered r (s\<lparr>Discovered := Discovered s @ [r]\<rparr>))"
  using disc_invD(1,2) [OF s] r f
    indexes_insert [OF disc_invD(3) [OF s], of "did_key (discHeap s)" r "dID (discHeap s ! r)"]
    indexes_insert [OF disc_invD(4) [OF s], of "dcid_key (discHeap s)" r "dContainerID (discHeap s ! r)"]
    indexes_insert_none [OF disc_invD(4) [OF s], of "dcid_key (discHeap s)" r]
  by (auto simp: disc_inv_def disc_free_def did_key_def dcid_key_def simp del: fun_upd_apply)

lemma disc_inv_AddDiscovered:
  assumes "disc_inv s" and "r < length (discHeap s)" and "r \<notin> set (Discovered s)"
    and "discoveredIdx s (dID (discHeap s ! r)) = None"
  shows "disc_inv (AddDiscovered r s)"
  using assms by (auto simp: AddDiscovered_def Let_def disc_free_def intro!: disc_inv_append)

text \<open>Dropping one entry: the list without it, the indexes without its keys.\<close>

definition drop_disc :: "ref \<Rightarrow> store \<Rightarrow> store" where
  "drop_disc r s = (unindexDiscovered r s)\<lparr>Discovered := filter (\<lambda>d. d \<noteq> r) (Discovered s)\<rparr>"

lemma disc_inv_drop:
  assumes s: "disc_inv s" and r: "r \<in> set (Discovered s)"
  shows "disc_inv (drop_disc r s)"
proof -
  have "set (filter (\<lambda>d. d \<noteq> r) (Discovered s)) = set (Discovered s) - {r}" by auto
  moreover have "(discoveredContainerIdx s)(dContainerID (discHeap s ! r) := None) = discoveredContainerIdx s"
    if "dContainerID (discHeap s ! r) = []"
    using that indexes_clear_absent [OF disc_invD(4) [OF s]] by (auto simp: dcid_key_def)
  ultimately show ?thesis
    using disc_invD(1,2) [OF s] r
      indexes_remove [OF disc_invD(3) [OF s], of r "dID (discHeap s ! r)"]
      indexes_remove [OF disc_invD(4) [OF s], of r "dContainerID (discHeap s ! r)"]
      indexes_remove_none [OF disc_invD(4) [OF s], of r]
    by (auto simp: disc_inv_def drop_disc_def did_key_def dcid_key_def simp del: fun_upd_apply)
qed

lemma filter_one:
  assumes s: "disc_inv s" and r: "r \<in> set (Discovered s)" "dID (discHeap s ! r) = i"
  shows "filter (\<lambda>d. dID (discHeap s ! d) \<noteq> i) (Discovered s) = filter (\<lambda>d. d \<noteq> r) (Discovered s)"
  using assms discoveredIdx_iff [OF s] by (intro filter_cong) (auto, metis option.inject)

lemma filter_one_cid:
  assumes s: "disc_inv s" and r: "r \<in> set (Discovered s)" "dContainerID (discHeap s ! r) = c" "c \<noteq> []"
  shows "filter (\<lambda>d. dContainerID (discHeap s ! d) \<noteq> c) (Discovered s) = filter (\<lambda>d. d \<noteq> r) (Discovered s)"
  using assms dcid_iff [OF s] by (intro filter_cong) (auto, metis option.inject)

lemma RemoveDiscovered_eq:
  "disc_inv s \<Longrightarrow> RemoveDiscovered i s = (case discoveredIdx s i of None \<Rightarrow> s | Some r \<Rightarrow> drop_disc r s)"
proof (cases "discoveredIdx s i")
  case None
  assume "disc_inv s"
  with None have "d \<in> set (Discovered s) \<Longrightarrow> dID (discHeap s ! d) \<noteq> i" for d
    using discoveredIdx_iff [of s i d] by auto
  with None show ?thesis by (simp add: RemoveDiscovered_def filter_all)
next
  case (Some r)
  assume s: "disc_inv s"
  with Some have "r \<in> set (Discovered s)" "dID (discHeap s ! r) = i" by (simp_all add: discoveredIdx_iff)
  with Some show ?thesis by (simp add: RemoveDiscovered_def drop_disc_def filter_one [OF s])
qed

lemma RemoveDiscoveredByContainerID_eq:
  "disc_inv s \<Longrightarrow> cid \<noteq> [] \<Longrightarrow> RemoveDiscoveredByContainerID cid s =
    (case discoveredContainerIdx s cid of None \<Rightarrow> s | Some r \<Rightarrow> drop_disc r s)"
proof (cases "discoveredContainerIdx s cid")
  case None
  assume "disc_inv s" "cid \<noteq> []"
  with None have "d \<in> set (Discovered s) \<Longrightarrow> dContainerID (discHeap s ! d) \<noteq> cid" for d
    using dcid_iff [of s cid d] by auto
  with None show ?thesis by (simp add: RemoveDiscoveredByContainerID_def filter_all)
next
  case (Some r)
  assume s: "disc_inv s" "cid \<noteq> []"
  with Some have "r \<in> set (Discovered s)" "dContainerID (discHeap s ! r) = cid" by (simp_all add: dcid_iff)
  with Some s show ?thesis by (simp add: RemoveDiscoveredByContainerID_def drop_disc_def filter_one_cid)
qed

lemma disc_inv_RemoveDiscovered: "disc_inv s \<Longrightarrow> disc_inv (RemoveDiscovered i s)"
  by (auto simp: RemoveDiscovered_eq discoveredIdx_iff intro: disc_inv_drop split: option.split)

lemma disc_inv_RemoveDiscoveredByContainerID:
  "disc_inv s \<Longrightarrow> cid \<noteq> [] \<Longrightarrow> disc_inv (RemoveDiscoveredByContainerID cid s)"
  by (auto simp: RemoveDiscoveredByContainerID_eq dcid_iff intro: disc_inv_drop split: option.split)

text \<open>Writing fields that are no key.\<close>

lemma disc_inv_write:
  assumes s: "disc_inv s" and k: "dID v = dID (discHeap s ! r)" "dContainerID v = dContainerID (discHeap s ! r)"
  shows "disc_inv (s\<lparr>discHeap := (discHeap s)[r := v]\<rparr>)"
proof -
  let ?h = "(discHeap s)[r := v]"
  have "dID (?h ! q) = dID (discHeap s ! q) \<and> dContainerID (?h ! q) = dContainerID (discHeap s ! q)" for q
    using k by (cases "r < length (discHeap s)"; cases "q = r"; simp add: list_update_beyond)
  then have "did_key ?h = did_key (discHeap s)" "dcid_key ?h = dcid_key (discHeap s)"
    by (simp_all add: fun_eq_iff did_key_def dcid_key_def)
  then show ?thesis using s by (simp add: disc_inv_def)
qed

lemma refresh_simps [simp]:
  "dID (refresh svc e) = dID e" "dIP (refresh svc e) = dIP e" "dPort (refresh svc e) = dPort e"
  "dSource (refresh svc e) = dSource e" "dContainerID (refresh svc e) = dContainerID e"
  "dContainerName (refresh svc e) = dContainerName e" "dTitle (refresh svc e) = dTitle svc"
  "dIcon (refresh svc e) = dIcon svc"
  by (simp_all add: refresh_def)

lemma disc_inv_Upsert:
  assumes "disc_inv s" and "r < length (discHeap s)" and "r \<notin> set (Discovered s)"
    and "disc_free (discHeap s ! r) s"
  shows "disc_inv (snd (UpsertNetworkDiscovered r s))"
  using assms by (auto simp: UpsertNetworkDiscovered_def Let_def intro: disc_inv_append disc_inv_write split: option.split)

lemma disc_inv_UpdateIcon: "disc_inv s \<Longrightarrow> disc_inv (UpdateDiscoveredIcon i icon s)"
  by (auto simp: UpdateDiscoveredIcon_def intro: disc_inv_write split: option.split)

text \<open>\<open>ClearNetworkDiscovered\<close> drops the network entries one after the other.\<close>

lemma clear_network_spec:
  "fst (clear_network ds s) = filter (\<lambda>d. dSource (discHeap s ! d) \<noteq> SourceNetwork) ds"
  "snd (clear_network ds s) = fold unindexDiscovered (filter (\<lambda>d. dSource (discHeap s ! d) = SourceNetwork) ds) s"
  by (induction ds s rule: clear_network.induct) (auto simp: Let_def case_prod_beta)

lemma drop_disc_commute: "unindexDiscovered r (s\<lparr>Discovered := ds\<rparr>) = (unindexDiscovered r s)\<lparr>Discovered := ds\<rparr>"
  by (simp add: unindexDiscovered_def Let_def)

lemma fold_drop_disc:
  "fold drop_disc rs s =
    (fold unindexDiscovered rs s)\<lparr>Discovered := filter (\<lambda>d. d \<notin> set rs) (Discovered s)\<rparr>"
proof (induction rs arbitrary: s)
  case Nil
  then show ?case by simp
next
  case (Cons r rs)
  have c: "fold unindexDiscovered rs (s\<lparr>Discovered := ds\<rparr>) = (fold unindexDiscovered rs s)\<lparr>Discovered := ds\<rparr>" for s ds
    by (induction rs arbitrary: s) (simp_all add: drop_disc_commute)
  show ?case
    by (simp add: Cons.IH) (simp add: drop_disc_def c conj_commute)
qed

lemma disc_inv_fold_drop:
  "disc_inv s \<Longrightarrow> distinct rs \<Longrightarrow> set rs \<subseteq> set (Discovered s) \<Longrightarrow> disc_inv (fold drop_disc rs s)"
proof (induction rs arbitrary: s)
  case Nil
  then show ?case by simp
next
  case (Cons r rs)
  then have "disc_inv (drop_disc r s)" by (auto intro: disc_inv_drop)
  moreover have "set rs \<subseteq> set (Discovered (drop_disc r s))"
    using Cons.prems by (auto simp: drop_disc_def)
  ultimately show ?case using Cons by simp
qed

lemma ClearNetworkDiscovered_eq:
  "ClearNetworkDiscovered s =
    fold drop_disc (filter (\<lambda>d. dSource (discHeap s ! d) = SourceNetwork) (Discovered s)) s"
proof -
  have "filter (\<lambda>d. d \<notin> set (filter (\<lambda>d. dSource (discHeap s ! d) = SourceNetwork) (Discovered s))) (Discovered s)
    = filter (\<lambda>d. dSource (discHeap s ! d) \<noteq> SourceNetwork) (Discovered s)"
    by (intro filter_cong) auto
  then show ?thesis
    by (simp add: ClearNetworkDiscovered_def case_prod_beta clear_network_spec fold_drop_disc)
qed

lemma disc_inv_ClearNetwork: "disc_inv s \<Longrightarrow> disc_inv (ClearNetworkDiscovered s)"
  unfolding ClearNetworkDiscovered_eq
  by (intro disc_inv_fold_drop) (auto simp: disc_inv_def)

lemma ClearNetwork_list:
  "Discovered (ClearNetworkDiscovered s) = filter (\<lambda>d. dSource (discHeap s ! d) \<noteq> SourceNetwork) (Discovered s)"
  by (simp add: ClearNetworkDiscovered_def case_prod_beta clear_network_spec)

section \<open>Lookups after each operation\<close>

definition discoveredByID :: "store \<Rightarrow> string \<Rightarrow> DiscoveredService option" where
  "discoveredByID s i = map_option (\<lambda>r. discHeap s ! r) (GetDiscoveredByID i s)"

definition insertDiscovered :: "DiscoveredService \<Rightarrow> store \<Rightarrow> store" where
  "insertDiscovered v s = (let (r, s1) = newDiscovered v s in AddDiscovered r s1)"

lemma insertDiscovered_eq:
  "insertDiscovered v s = AddDiscovered (length (discHeap s)) (s\<lparr>discHeap := discHeap s @ [v]\<rparr>)"
  by (simp add: insertDiscovered_def newDiscovered_def alloc_def)

text \<open>What a caller of \<open>AddDiscovered\<close> needs for the entry to be stored.\<close>

definition disc_addable :: "DiscoveredService \<Rightarrow> store \<Rightarrow> bool" where
  "disc_addable v s \<longleftrightarrow> disc_free v s \<and> no_same_address v s"

lemma disc_live_lt: "disc_inv s \<Longrightarrow> discoveredIdx s i = Some r \<Longrightarrow> r < length (discHeap s)"
  using disc_invD(2) by (auto simp: discoveredIdx_iff)

lemma AddDiscovered_addable:
  assumes "disc_inv s" and "disc_addable v s"
  shows "insertDiscovered v s = indexDiscovered (length (discHeap s))
    (s\<lparr>discHeap := discHeap s @ [v], Discovered := Discovered s @ [length (discHeap s)]\<rparr>)"
proof -
  have "dIP ((discHeap s @ [v]) ! e) = dIP v \<longrightarrow> dPort ((discHeap s @ [v]) ! e) \<noteq> dPort v" if "e \<in> set (Discovered s)" for e
    using that assms disc_invD(2) [OF assms(1) that]
    by (simp add: disc_addable_def no_same_address_def nth_append)
  then show ?thesis
    using assms by (auto simp: insertDiscovered_eq AddDiscovered_def Let_def disc_addable_def disc_free_def)
qed

text \<open>Not addable: the duplicate container or address leaves the store as it was, but for the garbage object.\<close>

lemma AddDiscovered_duplicate:
  assumes "disc_inv s" and "\<not> no_same_address v s"
  shows "Discovered (insertDiscovered v s) = Discovered s"
    and "discoveredIdx (insertDiscovered v s) = discoveredIdx s"
    and "discoveredContainerIdx (insertDiscovered v s) = discoveredContainerIdx s"
proof -
  from assms(2) obtain e where e: "e \<in> set (Discovered s)" "dIP (discHeap s ! e) = dIP v" "dPort (discHeap s ! e) = dPort v"
    by (auto simp: no_same_address_def)
  with disc_invD(2) [OF assms(1) e(1)]
  have "\<exists>e \<in> set (Discovered s). dIP ((discHeap s @ [v]) ! e) = dIP v \<and> dPort ((discHeap s @ [v]) ! e) = dPort v"
    by (intro bexI [of _ e]) (auto simp: nth_append)
  then show "Discovered (insertDiscovered v s) = Discovered s"
    and "discoveredIdx (insertDiscovered v s) = discoveredIdx s"
    and "discoveredContainerIdx (insertDiscovered v s) = discoveredContainerIdx s"
    by (simp_all add: insertDiscovered_eq AddDiscovered_def Let_def)
qed

lemma disc_inv_insert: "disc_inv s \<Longrightarrow> discoveredIdx s (dID v) = None \<Longrightarrow> disc_inv (insertDiscovered v s)"
  unfolding insertDiscovered_eq using disc_invD(2)
  by (intro disc_inv_AddDiscovered disc_inv_new) auto

lemma discoveredByID_insert:
  "disc_inv s \<Longrightarrow> disc_addable v s \<Longrightarrow>
    discoveredByID (insertDiscovered v s) i = (if i = dID v then Some v else discoveredByID s i)"
  by (auto simp: AddDiscovered_addable discoveredByID_def GetDiscoveredByID_def nth_append disc_live_lt
      intro!: option.map_cong)

lemma discoveredByID_remove:
  "disc_inv s \<Longrightarrow> discoveredByID (RemoveDiscovered i s) j = (if j = i then None else discoveredByID s j)"
proof (cases "discoveredIdx s i")
  case None
  assume "disc_inv s"
  with None show ?thesis
    by (simp add: RemoveDiscovered_eq discoveredByID_def GetDiscoveredByID_def)
next
  case (Some r)
  assume s: "disc_inv s"
  with Some have "dID (discHeap s ! r) = i" by (simp add: discoveredIdx_iff)
  with Some s show ?thesis
    by (simp add: RemoveDiscovered_eq discoveredByID_def GetDiscoveredByID_def drop_disc_def)
qed

interpretation disc_table: id_table discoveredByID insertDiscovered RemoveDiscovered dID disc_inv disc_addable
proof unfold_locales
  show "disc_inv s \<Longrightarrow> discoveredByID s i = Some e \<Longrightarrow> dID e = i" for s i e
    by (auto simp: discoveredByID_def GetDiscoveredByID_def discoveredIdx_iff)
  show "disc_inv s \<Longrightarrow> disc_addable e s \<Longrightarrow> discoveredByID s (dID e) = None" for s e
    by (simp add: discoveredByID_def GetDiscoveredByID_def disc_addable_def disc_free_def)
  show "disc_inv s \<Longrightarrow> disc_addable e s \<Longrightarrow> disc_inv (insertDiscovered e s)" for s e
    by (simp add: disc_inv_insert disc_addable_def disc_free_def)
qed (simp_all add: discoveredByID_insert discoveredByID_remove disc_inv_RemoveDiscovered)

section \<open>The network entries\<close>

definition net_addr :: "store \<Rightarrow> (string \<times> int) list" where
  "net_addr s = map (\<lambda>r. (dIP (discHeap s ! r), dPort (discHeap s ! r)))
     (filter (\<lambda>r. dSource (discHeap s ! r) = SourceNetwork) (Discovered s))"

text \<open>A scan result never produces a second network entry for an address.\<close>

definition upsertDiscovered :: "DiscoveredService \<Rightarrow> store \<Rightarrow> string \<times> store" where
  "upsertDiscovered v s = (let (r, s1) = newDiscovered v s in UpsertNetworkDiscovered r s1)"

lemma upsertDiscovered_eq:
  "upsertDiscovered v s = UpsertNetworkDiscovered (length (discHeap s)) (s\<lparr>discHeap := discHeap s @ [v]\<rparr>)"
  by (simp add: upsertDiscovered_def newDiscovered_def alloc_def)

lemma nth_append_old: "disc_inv s \<Longrightarrow> e \<in> set (Discovered s) \<Longrightarrow> (discHeap s @ [v]) ! e = discHeap s ! e"
  using disc_invD(2) by (auto simp: nth_append)

lemma find_network_new:
  "disc_inv s \<Longrightarrow> find (\<lambda>e. same_network v ((discHeap s @ [v]) ! e)) (Discovered s)
    = find (\<lambda>e. same_network v (discHeap s ! e)) (Discovered s)"
  by (intro find_cong) (auto simp: nth_append_old)

lemma find_SomeD': "find P xs = Some x \<Longrightarrow> P x \<and> x \<in> set xs"
  by (auto simp: find_Some_iff)

lemma find_NoneD': "find P xs = None \<Longrightarrow> x \<in> set xs \<Longrightarrow> \<not> P x"
  by (auto simp: find_None_iff)

lemma upsertDiscovered_cases:
  assumes "disc_inv s"
  shows "upsertDiscovered v s = (case find (\<lambda>e. same_network v (discHeap s ! e)) (Discovered s) of
      Some e \<Rightarrow> (dID (discHeap s ! e),
        s\<lparr>discHeap := (discHeap s)[e := refresh v (discHeap s ! e)] @ [v]\<rparr>)
    | None \<Rightarrow> (dID v, indexDiscovered (length (discHeap s))
        (s\<lparr>discHeap := discHeap s @ [v], Discovered := Discovered s @ [length (discHeap s)]\<rparr>)))"
proof (cases "find (\<lambda>e. same_network v (discHeap s ! e)) (Discovered s)")
  case None
  then show ?thesis
    by (simp add: upsertDiscovered_eq UpsertNetworkDiscovered_def find_network_new [OF assms])
next
  case (Some e)
  then have e: "e \<in> set (Discovered s)" by (auto dest: find_SomeD')
  then show ?thesis
    using Some disc_invD(2) [OF assms e]
    by (simp add: upsertDiscovered_eq UpsertNetworkDiscovered_def find_network_new [OF assms]
        nth_append_old [OF assms e] list_update_append)
qed

lemma disc_inv_upsertDiscovered:
  "disc_inv s \<Longrightarrow> disc_free v s \<Longrightarrow> disc_inv (snd (upsertDiscovered v s))"
  unfolding upsertDiscovered_eq using disc_invD(2)
  by (intro disc_inv_Upsert disc_inv_new) (auto simp: disc_free_def)

text \<open>What a lookup by ID finds after a scan result has been stored.\<close>

lemma upsertDiscovered_lookup:
  assumes s: "disc_inv s" and f: "disc_free v s" and n: "dSource v = SourceNetwork"
  shows "\<exists>e. discoveredByID (snd (upsertDiscovered v s)) (fst (upsertDiscovered v s)) = Some e \<and>
    dIP e = dIP v \<and> dPort e = dPort v \<and> dTitle e = dTitle v \<and> dIcon e = dIcon v \<and> dSource e = SourceNetwork"
proof (cases "find (\<lambda>e. same_network v (discHeap s ! e)) (Discovered s)")
  case None
  then show ?thesis
    using n by (simp add: upsertDiscovered_cases [OF s] discoveredByID_def GetDiscoveredByID_def nth_append)
next
  case (Some e)
  then have e: "same_network v (discHeap s ! e)" "e \<in> set (Discovered s)" by (auto dest: find_SomeD')
  then have "discoveredIdx s (dID (discHeap s ! e)) = Some e" "e < length (discHeap s)"
    using s disc_invD(2) by (auto simp: discoveredIdx_iff)
  with Some e show ?thesis
    by (simp add: upsertDiscovered_cases [OF s] discoveredByID_def GetDiscoveredByID_def nth_append same_network_def)
qed

lemma net_addr_upsert:
  assumes s: "disc_inv s" and n: "dSource v = SourceNetwork"
  shows "net_addr (snd (upsertDiscovered v s)) =
    (if (dIP v, dPort v) \<in> set (net_addr s) then net_addr s else net_addr s @ [(dIP v, dPort v)])"
proof (cases "find (\<lambda>e. same_network v (discHeap s ! e)) (Discovered s)")
  case None
  then have "(dIP v, dPort v) \<notin> set (net_addr s)"
    by (auto simp: net_addr_def same_network_def dest: find_NoneD')
  moreover have "filter (\<lambda>r. dSource ((discHeap s @ [v]) ! r) = SourceNetwork) (Discovered s) =
      filter (\<lambda>r. dSource (discHeap s ! r) = SourceNetwork) (Discovered s)"
    by (intro filter_cong) (simp_all add: nth_append_old [OF s])
  ultimately show ?thesis
    using None n by (simp add: upsertDiscovered_cases [OF s] net_addr_def nth_append_old [OF s])
next
  case (Some e)
  then have e: "same_network v (discHeap s ! e)" "e \<in> set (Discovered s)" by (auto dest: find_SomeD')
  let ?h = "(discHeap s)[e := refresh v (discHeap s ! e)] @ [v]"
  have f: "dSource (?h ! r) = dSource (discHeap s ! r) \<and> dIP (?h ! r) = dIP (discHeap s ! r) \<and>
      dPort (?h ! r) = dPort (discHeap s ! r)" if "r \<in> set (Discovered s)" for r
    using disc_invD(2) [OF s that] by (cases "r = e") (simp_all add: nth_append)
  have "filter (\<lambda>r. dSource (?h ! r) = SourceNetwork) (Discovered s) =
      filter (\<lambda>r. dSource (discHeap s ! r) = SourceNetwork) (Discovered s)"
    by (intro filter_cong) (simp_all add: f)
  then have "net_addr (snd (upsertDiscovered v s)) = net_addr s"
    using Some f by (auto simp: upsertDiscovered_cases [OF s] net_addr_def)
  moreover have "(dIP v, dPort v) \<in> set (net_addr s)"
    using e by (force simp: net_addr_def same_network_def)
  ultimately show ?thesis by simp
qed

end
