(* ===== verification/StoreIgnored.thy ===== *)
theory StoreIgnored
  imports StoreDiscovered
begin

text \<open>
  Ignoring and un-ignoring: how \<open>IgnoreDiscovered\<close> and \<open>UnignoreService\<close> move an
  entry between the two lists, and when \<open>IsIgnored\<close> answers for the list.
\<close>

lemma ign_invD:
  assumes "ign_inv s"
  shows "distinct (map iID (Ignored s))"
    and "ignoredIdx s i = Some ig \<longleftrightarrow> ig \<in> set (Ignored s) \<and> iID ig = i"
    and "ignoredIPPortIdx s k \<noteq> None \<Longrightarrow> \<exists>ig \<in> set (Ignored s). ignoredKey (iIP ig) (iPort ig) = k"
  using assms by (simp_all add: ign_inv_def)

lemma indexIgnored_simps [simp]:
  "Ignored (indexIgnored ig s) = Ignored s" "Discovered (indexIgnored ig s) = Discovered s"
  "discHeap (indexIgnored ig s) = discHeap s" "discoveredIdx (indexIgnored ig s) = discoveredIdx s"
  "discoveredContainerIdx (indexIgnored ig s) = discoveredContainerIdx s"
  "ignoredIdx (indexIgnored ig s) = (ignoredIdx s)(iID ig \<mapsto> ig)"
  "ignoredIPPortIdx (indexIgnored ig s) = (ignoredIPPortIdx s)(ignoredKey (iIP ig) (iPort ig) \<mapsto> ())"
  by (simp_all add: indexIgnored_def)

lemma unindexIgnored_simps [simp]:
  "Ignored (unindexIgnored ig s) = Ignored s" "Discovered (unindexIgnored ig s) = Discovered s"
  "discHeap (unindexIgnored ig s) = discHeap s" "discoveredIdx (unindexIgnored ig s) = discoveredIdx s"
  "discoveredContainerIdx (unindexIgnored ig s) = discoveredContainerIdx s"
  "ignoredIdx (unindexIgnored ig s) = (ignoredIdx s)(iID ig := None)"
  "ignoredIPPortIdx (unindexIgnored ig s) = (ignoredIPPortIdx s)(ignoredKey (iIP ig) (iPort ig) := None)"
  by (simp_all add: unindexIgnored_def)

text \<open>The entry that \<open>IgnoreDiscovered\<close> makes.\<close>

definition ignored_of :: "time \<Rightarrow> DiscoveredService \<Rightarrow> IgnoredService" where
  "ignored_of now d = \<lparr>iID = dID d, iIP = dIP d, iPort = dPort d, iTitle = dTitle d, iIgnoredAt = now\<rparr>"

lemma ignored_of_simps [simp]:
  "iID (ignored_of now d) = dID d" "iIP (ignored_of now d) = dIP d"
  "iPort (ignored_of now d) = dPort d" "iTitle (ignored_of now d) = dTitle d"
  by (simp_all add: ignored_of_def)

definition add_ignored :: "IgnoredService \<Rightarrow> store \<Rightarrow> store" where
  "add_ignored ig s = indexIgnored ig (s\<lparr>Ignored := Ignored s @ [ig]\<rparr>)"

lemma IgnoreDiscovered_eq:
  "disc_inv s \<Longrightarrow> discoveredIdx s i = Some r \<Longrightarrow>
    IgnoreDiscovered i now s = (Inr (), add_ignored (ignored_of now (discHeap s ! r)) (drop_disc r s))"
proof -
  assume s: "disc_inv s" and r: "discoveredIdx s i = Some r"
  then have "r \<in> set (Discovered s)" "dID (discHeap s ! r) = i" by (simp_all add: discoveredIdx_iff)
  then have "filter (\<lambda>d. dID (discHeap s ! d) \<noteq> i) (Discovered s) = filter (\<lambda>d. d \<noteq> r) (Discovered s)"
    by (rule filter_one [OF s])
  with r show ?thesis
    by (simp add: IgnoreDiscovered_def Let_def add_ignored_def drop_disc_def ignored_of_def)
qed

lemma ign_inv_add:
  "ign_inv s \<Longrightarrow> ignoredIdx s (iID ig) = None \<Longrightarrow> ign_inv (add_ignored ig s)"
proof -
  assume s: "ign_inv s" and f: "ignoredIdx s (iID ig) = None"
  have new: "g \<in> set (Ignored s) \<Longrightarrow> iID g \<noteq> iID ig" for g
    using f ign_invD(2) [OF s, of "iID ig" g] by auto
  have new': "iID ig \<notin> iID ` set (Ignored s)"
    using new by (metis imageE)
  have "distinct (map iID (Ignored (add_ignored ig s)))"
    using ign_invD(1) [OF s] new' by (simp add: add_ignored_def)
  moreover have "ignoredIdx (add_ignored ig s) i = Some g \<longleftrightarrow> g \<in> set (Ignored (add_ignored ig s)) \<and> iID g = i" for i g
    using new ign_invD(2) [OF s, of i g] by (auto simp: add_ignored_def)
  moreover have "\<exists>g \<in> set (Ignored (add_ignored ig s)). ignoredKey (iIP g) (iPort g) = k"
    if "ignoredIPPortIdx (add_ignored ig s) k \<noteq> None" for k
    using that ign_invD(3) [OF s, of k] by (auto simp: add_ignored_def split: if_splits)
  ultimately show ?thesis by (simp add: ign_inv_def)
qed

lemma ign_inv_drop_disc [simp]: "ign_inv (drop_disc r s) = ign_inv s"
  by (simp add: ign_inv_def drop_disc_def)

lemma disc_inv_add_ignored [simp]: "disc_inv (add_ignored ig s) = disc_inv s"
  by (simp add: disc_inv_def add_ignored_def)

lemma ignored_inv_IgnoreDiscovered:
  assumes "disc_inv s" and "ign_inv s" and "ignoredIdx s i = None"
  shows "disc_inv (snd (IgnoreDiscovered i now s)) \<and> ign_inv (snd (IgnoreDiscovered i now s))"
proof (cases "discoveredIdx s i")
  case None
  with assms show ?thesis by (simp add: IgnoreDiscovered_def)
next
  case (Some r)
  then have "r \<in> set (Discovered s)" "dID (discHeap s ! r) = i"
    using assms(1) by (simp_all add: discoveredIdx_iff)
  with assms Some show ?thesis
    by (auto simp: IgnoreDiscovered_eq disc_inv_drop intro!: ign_inv_add) (simp add: drop_disc_def)
qed

lemma UnignoreService_Some:
  assumes s: "ign_inv s" and i: "ignoredIdx s i = Some ig"
  shows "fst (UnignoreService i s) = Inr ig"
    and "set (Ignored (snd (UnignoreService i s))) = set (Ignored s) - {ig}"
    and "ign_inv (snd (UnignoreService i s))"
proof -
  let ?t = "snd (UnignoreService i s)"
  from i have ig: "ig \<in> set (Ignored s)" "iID ig = i" by (simp_all add: ign_invD(2) [OF s])
  have u: "g \<in> set (Ignored s) \<Longrightarrow> iID g = i \<longleftrightarrow> g = ig" for g
    using i ign_invD(2) [OF s, of i g] ig by auto
  have t: "Ignored ?t = filter (\<lambda>ig. iID ig \<noteq> i) (Ignored s)" "ignoredIdx ?t = (ignoredIdx s)(i := None)"
    "ignoredIPPortIdx ?t = (ignoredIPPortIdx s)(ignoredKey (iIP ig) (iPort ig) := None)"
    using i ig by (simp_all add: UnignoreService_def)
  show "fst (UnignoreService i s) = Inr ig" using i by (simp add: UnignoreService_def)
  show st: "set (Ignored ?t) = set (Ignored s) - {ig}" using u by (auto simp: t)
  have "distinct (map iID (Ignored ?t))"
    unfolding t by (rule distinct_filter_map [OF ign_invD(1) [OF s]])
  moreover have "ignoredIdx ?t j = Some g \<longleftrightarrow> g \<in> set (Ignored ?t) \<and> iID g = j" for j g
    using ign_invD(2) [OF s, of j g] by (auto simp: t)
  moreover have "\<exists>g \<in> set (Ignored ?t). ignoredKey (iIP g) (iPort g) = k"
    if k: "ignoredIPPortIdx ?t k \<noteq> None" for k
  proof -
    have "k \<noteq> ignoredKey (iIP ig) (iPort ig)" using k by (auto simp: t)
    moreover obtain g where "g \<in> set (Ignored s)" "ignoredKey (iIP g) (iPort g) = k"
      using k ign_invD(3) [OF s, of k] by (auto simp: t split: if_splits)
    ultimately show ?thesis unfolding st by blast
  qed
  ultimately show "ign_inv ?t" by (simp add: ign_inv_def)
qed

lemma UnignoreService_disc [simp]:
  "Discovered (snd (UnignoreService i s)) = Discovered s" "discHeap (snd (UnignoreService i s)) = discHeap s"
  "discoveredIdx (snd (UnignoreService i s)) = discoveredIdx s"
  "discoveredContainerIdx (snd (UnignoreService i s)) = discoveredContainerIdx s"
  by (simp_all add: UnignoreService_def Let_def split: option.split)

lemma ign_inv_UnignoreService: "ign_inv s \<Longrightarrow> ign_inv (snd (UnignoreService i s))"
proof (cases "ignoredIdx s i")
  case None
  then show "ign_inv s \<Longrightarrow> ?thesis" by (simp add: UnignoreService_def)
next
  case (Some ig)
  then show "ign_inv s \<Longrightarrow> ?thesis" by (rule UnignoreService_Some(3) [rotated])
qed

lemma disc_inv_UnignoreService: "disc_inv s \<Longrightarrow> disc_inv (snd (UnignoreService i s))"
  by (simp add: disc_inv_def)

text \<open>
  While the addresses of the ignored list are distinct, \<open>IsIgnored\<close> is membership in the
  list.  Without that, one removal un-ignores the address for every entry that has it.
\<close>

lemma IsIgnored_iff:
  "ign_inv s \<Longrightarrow> ign_addr_inv s \<Longrightarrow>
    IsIgnored ip port s \<longleftrightarrow> (\<exists>ig \<in> set (GetIgnored s). iIP ig = ip \<and> iPort ig = port)"
  using ign_invD(3) [of s "ignoredKey ip port"]
  by (auto simp: IsIgnored_def GetIgnored_def ign_addr_inv_def ignoredKey_inj)

lemma UnignoreService_duplicate:
  assumes s: "ign_inv s" and i: "ignoredIdx s (iID ig) = Some ig"
    and g: "g \<in> set (Ignored s)" "g \<noteq> ig" "iIP g = iIP ig" "iPort g = iPort ig"
  shows "g \<in> set (GetIgnored (snd (UnignoreService (iID ig) s)))"
    and "\<not> IsIgnored (iIP g) (iPort g) (snd (UnignoreService (iID ig) s))"
  using UnignoreService_Some(2) [OF s i] g i
  by (simp_all add: GetIgnored_def IsIgnored_def UnignoreService_def)

lemma ign_addr_inv_add:
  "ign_addr_inv s \<Longrightarrow> (\<And>g. g \<in> set (Ignored s) \<Longrightarrow> iIP g = iIP ig \<Longrightarrow> iPort g \<noteq> iPort ig) \<Longrightarrow>
    ign_addr_inv (add_ignored ig s)"
proof -
  assume s: "ign_addr_inv s" and n: "\<And>g. g \<in> set (Ignored s) \<Longrightarrow> iIP g = iIP ig \<Longrightarrow> iPort g \<noteq> iPort ig"
  have "(iIP ig, iPort ig) \<notin> (\<lambda>g. (iIP g, iPort g)) ` set (Ignored s)"
    using n by (metis (mono_tags, lifting) imageE prod.inject)
  with s show ?thesis by (simp add: ign_addr_inv_def add_ignored_def)
qed

lemma ign_addr_inv_Unignore:
  assumes "ign_inv s" and "ign_addr_inv s"
  shows "ign_addr_inv (snd (UnignoreService i s))"
proof (cases "ignoredIdx s i")
  case None
  with assms show ?thesis by (simp add: UnignoreService_def)
next
  case (Some ig)
  then have ig: "ig \<in> set (Ignored s)" "iID ig = i" by (simp_all add: ign_invD(2) [OF assms(1)])
  have "ignoredKey (iIP g) (iPort g) \<noteq> ignoredKey (iIP ig) (iPort ig)" if "g \<in> set (Ignored s)" "iID g \<noteq> i" for g
    using that ig assms(2) by (auto simp: ignoredKey_inj ign_addr_inv_def distinct_map dest!: inj_onD)
  with assms Some ig show ?thesis
    by (auto simp: ign_addr_inv_def UnignoreService_def distinct_filter_map)
qed

end
