(* ===== verification/StoreBookmarks.thy ===== *)
theory StoreBookmarks
  imports StoreModel Tables
begin

text \<open>
  The rest of \<open>internal/store/store.go\<close>: the bookmarks with their index and invariant
  \<open>bm_inv\<close> and the interpretations of \<open>id_table\<close> and \<open>reorderable\<close>; the
  string lists of DDNS domains and scan subnets; the tunnel, the public IP and the time of
  the last scan.
\<close>

section \<open>Slice helpers\<close>

definition removeString :: "string list \<Rightarrow> string \<Rightarrow> string list" where
  "removeString s val = filter (\<lambda>v. v \<noteq> val) s"

definition addUnique :: "string list \<Rightarrow> string \<Rightarrow> string list" where
  "addUnique s val = (if val \<in> set s then s else s @ [val])"

lemma distinct_addUnique: "distinct s \<Longrightarrow> distinct (addUnique s v)"
  by (simp add: addUnique_def)

lemma distinct_removeString: "distinct s \<Longrightarrow> distinct (removeString s v)"
  by (simp add: removeString_def)

lemma set_addUnique [simp]: "set (addUnique s v) = insert v (set s)"
  by (auto simp: addUnique_def)

lemma set_removeString [simp]: "set (removeString s v) = set s - {v}"
  by (auto simp: removeString_def)

text \<open>On a list without duplicates, removing every occurrence is removing the first.\<close>

lemma removeString_first: "distinct s \<Longrightarrow> removeString s v = remove1 v s"
  by (simp add: removeString_def distinct_remove1_removeAll removeAll_filter_not_eq eq_commute)

section \<open>DDNS domains and scan subnets\<close>

definition GetDDNSDomains :: "store \<Rightarrow> string list" where
  "GetDDNSDomains s = DDNSDomains s"

definition AddDDNSDomain :: "string \<Rightarrow> store \<Rightarrow> store" where
  "AddDDNSDomain domain s = s\<lparr>DDNSDomains := addUnique (DDNSDomains s) domain\<rparr>"

definition RemoveDDNSDomain :: "string \<Rightarrow> store \<Rightarrow> store" where
  "RemoveDDNSDomain domain s = s\<lparr>DDNSDomains := removeString (DDNSDomains s) domain\<rparr>"

definition GetScanSubnets :: "store \<Rightarrow> string list" where
  "GetScanSubnets s = ScanSubnets s"

definition AddScanSubnet :: "string \<Rightarrow> store \<Rightarrow> store" where
  "AddScanSubnet cidr s = s\<lparr>ScanSubnets := addUnique (ScanSubnets s) cidr\<rparr>"

definition RemoveScanSubnet :: "string \<Rightarrow> store \<Rightarrow> store" where
  "RemoveScanSubnet cidr s = s\<lparr>ScanSubnets := removeString (ScanSubnets s) cidr\<rparr>"

section \<open>Scan status, public IP, tunnel\<close>

definition SetLastScan :: "time \<Rightarrow> store \<Rightarrow> store" where
  "SetLastScan t s = s\<lparr>LastScan := t\<rparr>"

definition SetPublicIP :: "string \<Rightarrow> store \<Rightarrow> store" where
  "SetPublicIP ip s = s\<lparr>PublicIP := ip\<rparr>"

definition GetPublicIP :: "store \<Rightarrow> string" where
  "GetPublicIP s = PublicIP s"

definition GetTunnel :: "store \<Rightarrow> TunnelInfo option" where
  "GetTunnel s = Tunnel s"

definition SetTunnel :: "TunnelInfo \<Rightarrow> store \<Rightarrow> store" where
  "SetTunnel info s = s\<lparr>Tunnel := Some info\<rparr>"

definition ClearTunnel :: "store \<Rightarrow> store" where
  "ClearTunnel s = s\<lparr>Tunnel := None\<rparr>"

section \<open>Bookmarks\<close>

definition newBookmark :: "Bookmark \<Rightarrow> store \<Rightarrow> ref \<times> store" where
  "newBookmark v s = (let (r, h) = alloc v (bmHeap s) in (r, s\<lparr>bmHeap := h\<rparr>))"

definition GetBookmarkByID :: "string \<Rightarrow> store \<Rightarrow> ref option" where
  "GetBookmarkByID i s = bookmarkIdx s i"

definition GetAllBookmarks :: "store \<Rightarrow> ref list" where
  "GetAllBookmarks s = Bookmarks s"

definition GetTarget :: "string \<Rightarrow> store \<Rightarrow> string" where
  "GetTarget i s = (case idIdx s i of
      Some svc \<Rightarrow> sTarget (svcHeap s ! svc)
    | None \<Rightarrow> (case bookmarkIdx s i of Some bm \<Rightarrow> bURL (bmHeap s ! bm) | None \<Rightarrow> []))"

definition AddBookmark :: "ref \<Rightarrow> store \<Rightarrow> store" where
  "AddBookmark b s = indexBookmark b (s\<lparr>Bookmarks := Bookmarks s @ [b]\<rparr>)"

text \<open>The loops of \<open>UpdateBookmark\<close> and \<open>DeleteBookmark\<close> stop at the first match.\<close>

fun first_bookmark :: "Bookmark heap \<Rightarrow> string \<Rightarrow> ref list \<Rightarrow> nat option" where
  "first_bookmark h i [] = None"
| "first_bookmark h i (b # bs) = (if bID (h ! b) = i then Some 0 else map_option Suc (first_bookmark h i bs))"

definition UpdateBookmark :: "string \<Rightarrow> ref \<Rightarrow> store \<Rightarrow> bool \<times> store" where
  "UpdateBookmark i updated s = (case first_bookmark (bmHeap s) i (Bookmarks s) of
      None \<Rightarrow> (False, s)
    | Some n \<Rightarrow>
        let s1 = unindexBookmark (Bookmarks s ! n) s;
            s2 = s1\<lparr>Bookmarks := (Bookmarks s1)[n := updated]\<rparr>
        in (True, indexBookmark updated s2))"

definition setBookmarkOrder :: "int \<Rightarrow> string \<Rightarrow> store \<Rightarrow> store" where
  "setBookmarkOrder n i s = (case bookmarkIdx s i of
      None \<Rightarrow> s
    | Some r \<Rightarrow> s\<lparr>bmHeap := (bmHeap s)[r := (bmHeap s ! r)\<lparr>bOrder := n\<rparr>]\<rparr>)"

definition ReorderBookmarks :: "string list \<Rightarrow> store \<Rightarrow> store" where
  "ReorderBookmarks ids s = reorder_with setBookmarkOrder 0 ids s"

definition DeleteBookmark :: "string \<Rightarrow> store \<Rightarrow> bool \<times> store" where
  "DeleteBookmark i s = (case first_bookmark (bmHeap s) i (Bookmarks s) of
      None \<Rightarrow> (False, s)
    | Some n \<Rightarrow>
        let s1 = unindexBookmark (Bookmarks s ! n) s
        in (True, s1\<lparr>Bookmarks := take n (Bookmarks s1) @ drop (Suc n) (Bookmarks s1)\<rparr>))"

section \<open>The invariant\<close>

definition bid_key :: "Bookmark heap \<Rightarrow> ref \<Rightarrow> string option" where
  "bid_key h r = Some (bID (h ! r))"

definition bm_inv :: "store \<Rightarrow> bool" where
  "bm_inv s \<longleftrightarrow> distinct (Bookmarks s) \<and> set (Bookmarks s) \<subseteq> {..< length (bmHeap s)} \<and>
     indexes (bookmarkIdx s) (set (Bookmarks s)) (bid_key (bmHeap s))"

definition bm_free :: "Bookmark \<Rightarrow> store \<Rightarrow> bool" where
  "bm_free v s \<longleftrightarrow> bookmarkIdx s (bID v) = None"

lemma bm_invD:
  assumes "bm_inv s"
  shows "distinct (Bookmarks s)" and "r \<in> set (Bookmarks s) \<Longrightarrow> r < length (bmHeap s)"
    and "indexes (bookmarkIdx s) (set (Bookmarks s)) (bid_key (bmHeap s))"
  using assms by (auto simp: bm_inv_def)

lemma bm_inv_empty [simp]: "bm_inv (empty_store dir wr)"
  by (simp add: bm_inv_def empty_store_def)

lemma bookmarkIdx_iff: "bm_inv s \<Longrightarrow>
    bookmarkIdx s i = Some r \<longleftrightarrow> r \<in> set (Bookmarks s) \<and> bID (bmHeap s ! r) = i"
  by (simp add: indexes_iff [OF bm_invD(3)] bid_key_def)

lemma bm_index_simps [simp]:
  "bmHeap (indexBookmark r s) = bmHeap s" "Bookmarks (indexBookmark r s) = Bookmarks s"
  "bookmarkIdx (indexBookmark r s) = (bookmarkIdx s)(bID (bmHeap s ! r) \<mapsto> r)"
  "bmHeap (unindexBookmark r s) = bmHeap s" "Bookmarks (unindexBookmark r s) = Bookmarks s"
  "bookmarkIdx (unindexBookmark r s) = (bookmarkIdx s)(bID (bmHeap s ! r) := None)"
  by (simp_all add: indexBookmark_def unindexBookmark_def)

lemma first_bookmark_None: "first_bookmark h i bs = None \<longleftrightarrow> (\<forall>b \<in> set bs. bID (h ! b) \<noteq> i)"
  by (induction bs) auto

lemma first_bookmark_Some: "first_bookmark h i bs = Some n \<Longrightarrow> n < length bs \<and> bID (h ! (bs ! n)) = i"
  by (induction bs arbitrary: n) (auto split: if_splits)

text \<open>The first match of the list is the entry of the index.\<close>

lemma first_bookmark_index:
  assumes s: "bm_inv s"
  shows "first_bookmark (bmHeap s) i (Bookmarks s) = None \<Longrightarrow> bookmarkIdx s i = None"
    and "first_bookmark (bmHeap s) i (Bookmarks s) = Some n \<Longrightarrow> bookmarkIdx s i = Some (Bookmarks s ! n)"
proof -
  show "first_bookmark (bmHeap s) i (Bookmarks s) = None \<Longrightarrow> bookmarkIdx s i = None"
    using indexes_None [OF bm_invD(3) [OF s], of i] by (simp add: first_bookmark_None bid_key_def)
  assume "first_bookmark (bmHeap s) i (Bookmarks s) = Some n"
  then show "bookmarkIdx s i = Some (Bookmarks s ! n)"
    using bookmarkIdx_iff [OF s, of i "Bookmarks s ! n"] by (auto dest: first_bookmark_Some)
qed

lemma bm_inv_new: "bm_inv s \<Longrightarrow> bm_inv (s\<lparr>bmHeap := bmHeap s @ [v]\<rparr>)"
proof -
  assume s: "bm_inv s"
  have "bid_key (bmHeap s @ [v]) r = bid_key (bmHeap s) r" if "r \<in> set (Bookmarks s)" for r
    using bm_invD(2) [OF s that] by (simp add: bid_key_def nth_append)
  then have "indexes m (set (Bookmarks s)) (bid_key (bmHeap s @ [v])) = indexes m (set (Bookmarks s)) (bid_key (bmHeap s))" for m
    by (intro indexes_cong)
  with s show ?thesis by (auto simp: bm_inv_def)
qed

lemma bm_inv_AddBookmark:
  assumes s: "bm_inv s" and r: "r < length (bmHeap s)" "r \<notin> set (Bookmarks s)"
    and f: "bm_free (bmHeap s ! r) s"
  shows "bm_inv (AddBookmark r s)"
  using bm_invD(1,2) [OF s] r f
    indexes_insert [OF bm_invD(3) [OF s], of "bid_key (bmHeap s)" r "bID (bmHeap s ! r)"]
  by (auto simp: bm_inv_def AddBookmark_def bm_free_def bid_key_def simp del: fun_upd_apply)

text \<open>\<open>DeleteBookmark\<close> through the index.\<close>

lemma DeleteBookmark_eq:
  assumes s: "bm_inv s"
  shows "DeleteBookmark i s = (case bookmarkIdx s i of
      None \<Rightarrow> (False, s)
    | Some r \<Rightarrow> (True, (unindexBookmark r s)\<lparr>Bookmarks := filter (\<lambda>b. b \<noteq> r) (Bookmarks s)\<rparr>))"
proof (cases "first_bookmark (bmHeap s) i (Bookmarks s)")
  case None
  with first_bookmark_index [OF s] show ?thesis by (simp add: DeleteBookmark_def)
next
  case (Some n)
  with first_bookmark_index(2) [OF s] first_bookmark_Some [OF Some] bm_invD(1) [OF s] show ?thesis
    by (simp add: DeleteBookmark_def Let_def remove_by_index)
qed

lemma bm_inv_DeleteBookmark: "bm_inv s \<Longrightarrow> bm_inv (snd (DeleteBookmark i s))"
proof (cases "bookmarkIdx s i")
  case None
  then show "bm_inv s \<Longrightarrow> ?thesis" by (simp add: DeleteBookmark_eq)
next
  case (Some r)
  assume s: "bm_inv s"
  with Some have r: "r \<in> set (Bookmarks s)" "bID (bmHeap s ! r) = i" by (simp_all add: bookmarkIdx_iff)
  have "set (filter (\<lambda>b. b \<noteq> r) (Bookmarks s)) = set (Bookmarks s) - {r}" by auto
  then show ?thesis
    using Some r bm_invD(1,2) [OF s] indexes_remove [OF bm_invD(3) [OF s] r(1), of i]
    by (auto simp: DeleteBookmark_eq [OF s] bm_inv_def bid_key_def simp del: fun_upd_apply)
qed

lemma set_list_update_distinct:
  "distinct xs \<Longrightarrow> n < length xs \<Longrightarrow> set (xs[n := x]) = insert x (set xs - {xs ! n})"
  by (simp add: set_update_distinct)

lemma bm_inv_UpdateBookmark:
  assumes s: "bm_inv s" and u: "u < length (bmHeap s)" "u \<notin> set (Bookmarks s)" "bID (bmHeap s ! u) = i"
  shows "bm_inv (snd (UpdateBookmark i u s))"
proof (cases "first_bookmark (bmHeap s) i (Bookmarks s)")
  case None
  with s show ?thesis by (simp add: UpdateBookmark_def)
next
  case (Some n)
  let ?r = "Bookmarks s ! n"
  from Some have n: "n < length (Bookmarks s)" "bID (bmHeap s ! ?r) = i" by (auto dest: first_bookmark_Some)
  have R: "set ((Bookmarks s)[n := u]) = insert u (set (Bookmarks s) - {?r})"
    by (rule set_list_update_distinct [OF bm_invD(1) [OF s] n(1)])
  have "indexes ((bookmarkIdx s)(i := None)) (set (Bookmarks s) - {?r}) (bid_key (bmHeap s))"
    using n by (intro indexes_remove [OF bm_invD(3) [OF s]]) (auto simp: bid_key_def)
  then have "indexes ((bookmarkIdx s)(i := None, i \<mapsto> u)) (insert u (set (Bookmarks s) - {?r})) (bid_key (bmHeap s))"
    by (rule indexes_insert) (use u in \<open>simp_all add: bid_key_def\<close>)
  moreover have "distinct ((Bookmarks s)[n := u])"
    using bm_invD(1) [OF s] u(2) by (intro distinct_list_update) auto
  ultimately show ?thesis
    using Some n u bm_invD(2) [OF s] by (auto simp: UpdateBookmark_def Let_def bm_inv_def R simp del: fun_upd_upd)
qed

section \<open>Lookups after each operation\<close>

definition bookmarkByID :: "store \<Rightarrow> string \<Rightarrow> Bookmark option" where
  "bookmarkByID s i = map_option (\<lambda>r. bmHeap s ! r) (GetBookmarkByID i s)"

definition insertBookmark :: "Bookmark \<Rightarrow> store \<Rightarrow> store" where
  "insertBookmark v s = (let (r, s1) = newBookmark v s in AddBookmark r s1)"

definition bookmarkOrder :: "store \<Rightarrow> string \<Rightarrow> int option" where
  "bookmarkOrder s i = map_option bOrder (bookmarkByID s i)"

lemma newBookmark_simps [simp]:
  "fst (newBookmark v s) = length (bmHeap s)"
  "snd (newBookmark v s) = s\<lparr>bmHeap := bmHeap s @ [v]\<rparr>"
  by (simp_all add: newBookmark_def alloc_def)

lemma insertBookmark_eq:
  "insertBookmark v s = AddBookmark (length (bmHeap s)) (s\<lparr>bmHeap := bmHeap s @ [v]\<rparr>)"
  by (simp add: insertBookmark_def newBookmark_def alloc_def)

lemma bm_live_lt: "bm_inv s \<Longrightarrow> bookmarkIdx s i = Some r \<Longrightarrow> r < length (bmHeap s)"
  using bm_invD(2) by (auto simp: bookmarkIdx_iff)

lemma bookmarkByID_insert:
  "bm_inv s \<Longrightarrow> bookmarkByID (insertBookmark v s) i = (if i = bID v then Some v else bookmarkByID s i)"
  by (auto simp: bookmarkByID_def GetBookmarkByID_def insertBookmark_eq AddBookmark_def nth_append bm_live_lt
      intro!: option.map_cong)

lemma bookmarkByID_delete:
  "bm_inv s \<Longrightarrow> bookmarkByID (snd (DeleteBookmark i s)) j = (if j = i then None else bookmarkByID s j)"
proof (cases "bookmarkIdx s i")
  case None
  then show "bm_inv s \<Longrightarrow> ?thesis" by (simp add: DeleteBookmark_eq bookmarkByID_def GetBookmarkByID_def)
next
  case (Some r)
  assume s: "bm_inv s"
  with Some have "bID (bmHeap s ! r) = i" by (simp add: bookmarkIdx_iff)
  with Some s show ?thesis by (simp add: DeleteBookmark_eq bookmarkByID_def GetBookmarkByID_def)
qed

lemma bm_inv_insert: "bm_inv s \<Longrightarrow> bm_free v s \<Longrightarrow> bm_inv (insertBookmark v s)"
  unfolding insertBookmark_eq using bm_invD(2)
  by (intro bm_inv_AddBookmark bm_inv_new) (auto simp: bm_free_def)

interpretation bm_table: id_table bookmarkByID insertBookmark "\<lambda>i s. snd (DeleteBookmark i s)" bID bm_inv bm_free
proof unfold_locales
  show "bm_inv s \<Longrightarrow> bookmarkByID s i = Some e \<Longrightarrow> bID e = i" for s i e
    by (auto simp: bookmarkByID_def GetBookmarkByID_def bookmarkIdx_iff)
  show "bm_inv s \<Longrightarrow> bm_free e s \<Longrightarrow> bookmarkByID s (bID e) = None" for s e
    by (simp add: bookmarkByID_def GetBookmarkByID_def bm_free_def)
qed (simp_all add: bookmarkByID_insert bookmarkByID_delete bm_inv_insert bm_inv_DeleteBookmark)

lemma bm_inv_setOrder: "bm_inv s \<Longrightarrow> bm_inv (setBookmarkOrder n i s)"
proof (cases "bookmarkIdx s i")
  case None
  then show "bm_inv s \<Longrightarrow> ?thesis" by (simp add: setBookmarkOrder_def)
next
  case (Some r)
  assume s: "bm_inv s"
  let ?h = "(bmHeap s)[r := (bmHeap s ! r)\<lparr>bOrder := n\<rparr>]"
  have "bID (?h ! q) = bID (bmHeap s ! q)" for q
    using bm_live_lt [OF s Some] by (cases "q = r") simp_all
  then have "bid_key ?h = bid_key (bmHeap s)" by (simp add: bid_key_def fun_eq_iff)
  with s Some show ?thesis by (simp add: setBookmarkOrder_def bm_inv_def)
qed

lemma bookmarkOrder_set:
  "bm_inv s \<Longrightarrow> bookmarkOrder (setBookmarkOrder n i s) j =
    (if j = i then map_option (\<lambda>_. n) (bookmarkOrder s i) else bookmarkOrder s j)"
proof (cases "bookmarkIdx s i")
  case None
  then show "bm_inv s \<Longrightarrow> ?thesis"
    by (simp add: bookmarkOrder_def bookmarkByID_def GetBookmarkByID_def setBookmarkOrder_def)
next
  case (Some r)
  assume s: "bm_inv s"
  have "q \<noteq> r" if "bookmarkIdx s j = Some q" "j \<noteq> i" for q
    using that Some s by (auto simp: bookmarkIdx_iff)
  then show ?thesis
    using Some bm_live_lt [OF s Some]
    by (cases "bookmarkIdx s j")
      (auto simp: bookmarkOrder_def bookmarkByID_def GetBookmarkByID_def setBookmarkOrder_def)
qed

interpretation bm_order: reorderable setBookmarkOrder bookmarkOrder bm_inv
  by unfold_locales (simp_all add: bookmarkOrder_set bm_inv_setOrder)

end
