(* ===== verification/StoreInvariant.thy ===== *)
theory StoreInvariant
  imports StoreServices StoreIgnored StoreBookmarks
begin

text \<open>
  The store as a whole: \<open>store_inv\<close>, the conjunction of the table invariants; the frame
  of each operation (which parts of the store it leaves alone); the agreement of
  \<open>rebuildIndexes\<close> with the incremental index updates; and the restart: what
  \<open>Save\<close> writes and \<open>load\<close> reads back answers every lookup as before.
\<close>

definition store_inv :: "store \<Rightarrow> bool" where
  "store_inv s \<longleftrightarrow> svc_inv s \<and> disc_inv s \<and> ign_inv s \<and> bm_inv s"

lemma store_invD: "store_inv s \<Longrightarrow> svc_inv s" "store_inv s \<Longrightarrow> disc_inv s"
  "store_inv s \<Longrightarrow> ign_inv s" "store_inv s \<Longrightarrow> bm_inv s"
  by (simp_all add: store_inv_def)

lemma store_inv_empty [simp]: "store_inv (empty_store dir wr)"
  by (simp add: store_inv_def)

section \<open>Rebuilding the indexes\<close>

definition ign_idx :: "IgnoredService list \<Rightarrow> (string \<rightharpoonup> IgnoredService) \<Rightarrow> (string \<rightharpoonup> IgnoredService)" where
  "ign_idx igs m = fold (\<lambda>ig m. m(iID ig \<mapsto> ig)) igs m"

definition ign_addr_idx :: "IgnoredService list \<Rightarrow> (string \<rightharpoonup> unit) \<Rightarrow> (string \<rightharpoonup> unit)" where
  "ign_addr_idx igs m = fold (\<lambda>ig m. m(ignoredKey (iIP ig) (iPort ig) \<mapsto> ())) igs m"

lemma fold_indexService: "fold indexService rs s =
    s\<lparr>idIdx := fold (add_key (id_key (svcHeap s))) rs (idIdx s),
      containerIDIdx := fold (add_key (cid_key (svcHeap s))) rs (containerIDIdx s),
      containerNameIdx := fold (add_key (cname_key (svcHeap s))) rs (containerNameIdx s)\<rparr>"
  by (induction rs arbitrary: s) (simp_all add: indexService_def Let_def add_key_def svc_keys)

lemma fold_indexBookmark: "fold indexBookmark rs s =
    s\<lparr>bookmarkIdx := fold (add_key (bid_key (bmHeap s))) rs (bookmarkIdx s)\<rparr>"
  by (induction rs arbitrary: s) (simp_all add: indexBookmark_def add_key_def bid_key_def)

lemma fold_indexDiscovered: "fold indexDiscovered rs s =
    s\<lparr>discoveredIdx := fold (add_key (did_key (discHeap s))) rs (discoveredIdx s),
      discoveredContainerIdx := fold (add_key (dcid_key (discHeap s))) rs (discoveredContainerIdx s)\<rparr>"
  by (induction rs arbitrary: s) (simp_all add: indexDiscovered_def Let_def add_key_def did_key_def dcid_key_def)

lemma fold_indexIgnored: "fold indexIgnored igs s =
    s\<lparr>ignoredIdx := ign_idx igs (ignoredIdx s), ignoredIPPortIdx := ign_addr_idx igs (ignoredIPPortIdx s)\<rparr>"
  by (induction igs arbitrary: s) (simp_all add: indexIgnored_def ign_idx_def ign_addr_idx_def)

lemma rebuildIndexes_eq: "rebuildIndexes s =
    s\<lparr>idIdx := fold (add_key (id_key (svcHeap s))) (map snd (Services s)) Map.empty,
      containerIDIdx := fold (add_key (cid_key (svcHeap s))) (map snd (Services s)) Map.empty,
      containerNameIdx := fold (add_key (cname_key (svcHeap s))) (map snd (Services s)) Map.empty,
      bookmarkIdx := fold (add_key (bid_key (bmHeap s))) (Bookmarks s) Map.empty,
      discoveredIdx := fold (add_key (did_key (discHeap s))) (Discovered s) Map.empty,
      discoveredContainerIdx := fold (add_key (dcid_key (discHeap s))) (Discovered s) Map.empty,
      ignoredIdx := ign_idx (Ignored s) Map.empty,
      ignoredIPPortIdx := ign_addr_idx (Ignored s) Map.empty\<rparr>"
  by (simp add: rebuildIndexes_def Let_def fold_indexService fold_indexBookmark fold_indexDiscovered fold_indexIgnored)

lemma fold_add_key_unique:
  "indexes m (set rs) key \<Longrightarrow> fold (add_key key) rs Map.empty = m"
  by (rule indexes_unique [OF indexes_fold [OF indexes_key_inj]])

lemma ign_idx_snoc: "ign_idx (igs @ [ig]) m = (ign_idx igs m)(iID ig \<mapsto> ig)"
  by (simp add: ign_idx_def)

lemma ign_addr_idx_snoc: "ign_addr_idx (igs @ [ig]) m = (ign_addr_idx igs m)(ignoredKey (iIP ig) (iPort ig) \<mapsto> ())"
  by (simp add: ign_addr_idx_def)

lemma ign_idx_iff: "distinct (map iID igs) \<Longrightarrow>
    ign_idx igs Map.empty i = Some ig \<longleftrightarrow> ig \<in> set igs \<and> iID ig = i"
proof (induction igs rule: rev_induct)
  case Nil
  then show ?case by (simp add: ign_idx_def)
next
  case (snoc g igs)
  have "iID ig \<noteq> iID g" if "ig \<in> set igs"
    using snoc.prems imageI [OF that, of iID] by auto
  with snoc show ?case by (cases "i = iID g") (auto simp: ign_idx_snoc)
qed

lemma ign_addr_idx_iff: "ign_addr_idx igs Map.empty k = Some () \<longleftrightarrow>
    (\<exists>ig \<in> set igs. ignoredKey (iIP ig) (iPort ig) = k)"
proof (induction igs rule: rev_induct)
  case Nil
  then show ?case by (simp add: ign_addr_idx_def)
next
  case (snoc g igs)
  then show ?case by (auto simp: ign_addr_idx_snoc)
qed

lemma map_eq_iff_Some: "(\<And>k v. m k = Some v \<longleftrightarrow> m' k = Some v) \<Longrightarrow> m = m'"
  by (rule ext) (metis not_None_eq)

lemma ign_addr_iff:
  assumes "ign_inv s" and "ign_addr_inv s"
  shows "ignoredIPPortIdx s k = Some () \<longleftrightarrow> (\<exists>ig \<in> set (Ignored s). ignoredKey (iIP ig) (iPort ig) = k)"
  using ign_invD(3) [OF assms(1), of k] assms(2) by (auto simp: ign_addr_inv_def)

text \<open>The incremental updates keep the indexes at what a rebuild would give.\<close>

lemma rebuildIndexes_id:
  assumes s: "store_inv s" and a: "ign_addr_inv s"
  shows "rebuildIndexes s = s"
proof -
  note v = store_invD(1) [OF s] and d = store_invD(2) [OF s] and g = store_invD(3) [OF s] and b = store_invD(4) [OF s]
  have R: "set (map snd (Services s)) = refs_of (Services s)" by (simp add: refs_of_def)
  have "ign_idx (Ignored s) Map.empty = ignoredIdx s"
    by (rule map_eq_iff_Some) (simp add: ign_idx_iff [OF ign_invD(1) [OF g]] ign_invD(2) [OF g])
  moreover have "ign_addr_idx (Ignored s) Map.empty = ignoredIPPortIdx s"
    by (rule map_eq_iff_Some) (simp add: ign_addr_idx_iff ign_addr_iff [OF g a])
  ultimately show ?thesis
    unfolding rebuildIndexes_eq
    using svc_invD(5-7) [OF v, folded R] disc_invD(3,4) [OF d] bm_invD(3) [OF b]
    by (simp add: fold_add_key_unique)
qed

section \<open>Saving and loading\<close>

text \<open>The tables as values, without pointers: what a lookup can see.\<close>

definition services :: "store \<Rightarrow> Service list" where
  "services s = map (\<lambda>r. svcHeap s ! r) (GetAllServices s)"

definition bookmarks :: "store \<Rightarrow> Bookmark list" where
  "bookmarks s = map (\<lambda>r. bmHeap s ! r) (Bookmarks s)"

definition discovered :: "store \<Rightarrow> DiscoveredService list" where
  "discovered s = map (\<lambda>r. discHeap s ! r) (Discovered s)"

lemma set_services: "set (services s) = (\<lambda>r. svcHeap s ! r) ` refs_of (Services s)"
  by (simp add: services_def GetAllServices_def refs_of_def image_image)

lemma serviceByID_iff:
  "svc_inv s \<Longrightarrow> serviceByID s i = Some v \<longleftrightarrow> v \<in> set (services s) \<and> sID v = i"
  by (auto simp: serviceByID_def GetServiceByID_def idIdx_iff set_services)

lemma bookmarkByID_iff:
  "bm_inv s \<Longrightarrow> bookmarkByID s i = Some v \<longleftrightarrow> v \<in> set (bookmarks s) \<and> bID v = i"
  by (auto simp: bookmarkByID_def GetBookmarkByID_def bookmarkIdx_iff bookmarks_def)

lemma discoveredByID_iff:
  "disc_inv s \<Longrightarrow> discoveredByID s i = Some v \<longleftrightarrow> v \<in> set (discovered s) \<and> dID v = i"
  by (auto simp: discoveredByID_def GetDiscoveredByID_def discoveredIdx_iff discovered_def)

definition serviceBySubdomain :: "store \<Rightarrow> string \<Rightarrow> Service option" where
  "serviceBySubdomain s k = map_option (\<lambda>r. svcHeap s ! r) (GetServiceBySubdomain k s)"

definition serviceByContainerName :: "store \<Rightarrow> string \<Rightarrow> Service option" where
  "serviceByContainerName s n = map_option (\<lambda>r. svcHeap s ! r) (GetServiceByContainerName n s)"

lemma serviceBySubdomain_iff:
  "svc_inv s \<Longrightarrow> serviceBySubdomain s k = Some v \<longleftrightarrow> v \<in> set (services s) \<and> sSubdomain v = k"
  by (auto simp: serviceBySubdomain_def GetServiceBySubdomain_def sub_iff set_services)

lemma serviceByContainerName_iff:
  "svc_inv s \<Longrightarrow> serviceByContainerName s n = Some v \<longleftrightarrow>
    v \<in> set (services s) \<and> n \<noteq> [] \<and> sContainerName v = n"
  by (auto simp: serviceByContainerName_def GetServiceByContainerName_def cname_iff set_services)

text \<open>Renumbering the pointers of a table keeps its keys apart.\<close>

lemma key_inj_renumber:
  assumes "key_inj key (set rs)" and "distinct rs" and "\<And>p. p < length rs \<Longrightarrow> key' p = key (rs ! p)"
  shows "key_inj key' {..< length rs}"
proof -
  have "p = q" if "p < length rs" "q < length rs" "key' p = key' q" "key' p \<noteq> None" for p q
  proof -
    have "rs ! p = rs ! q"
      using that assms(1,3) by (simp add: key_inj_def)
    then show ?thesis using that assms(2) by (simp add: nth_eq_iff_index_eq)
  qed
  then show ?thesis by (auto simp: key_inj_def)
qed

lemma indexes_renumber:
  assumes "indexes m (set rs) key" and "distinct rs" and "\<And>p. p < length rs \<Longrightarrow> key' p = key (rs ! p)"
  shows "indexes (fold (add_key key') [0..<length rs] Map.empty) {..< length rs} key'"
proof -
  have "set [0..<length rs] = {..< length rs}" by auto
  with key_inj_renumber [OF indexes_key_inj [OF assms(1)] assms(2,3)] show ?thesis
    by (metis indexes_fold)
qed

lemma distinct_live: "svc_inv s \<Longrightarrow> distinct (map snd (Services s))"
proof -
  assume s: "svc_inv s"
  have "inj_on snd (set (Services s))"
  proof (rule inj_onI)
    fix p q assume pq: "p \<in> set (Services s)" "q \<in> set (Services s)" "snd p = snd q"
    then have "map_of (Services s) (fst p) = Some (snd p)" "map_of (Services s) (fst q) = Some (snd p)"
      using svc_invD(1) [OF s] by (simp_all, metis prod.collapse)
    then have "fst p = fst q" using sub_iff [OF s] by metis
    with pq show "p = q" by (simp add: prod_eq_iff)
  qed
  moreover have "distinct (Services s)" using svc_invD(1) [OF s] by (simp add: distinct_map)
  ultimately show ?thesis by (simp add: distinct_map)
qed

text \<open>\<open>load\<close> on what \<open>Save\<close> wrote, field by field.\<close>

lemma load_fields:
  assumes "saved t = Some (snapshot s)"
  shows "Services (load t) = zip (map fst (Services s)) [0..<length (Services s)]"
    and "svcHeap (load t) = services s"
    and "Discovered (load t) = [0..<length (Discovered s)]" and "discHeap (load t) = discovered s"
    and "Bookmarks (load t) = [0..<length (Bookmarks s)]" and "bmHeap (load t) = bookmarks s"
    and "Ignored (load t) = Ignored s"
    and "DDNSDomains (load t) = DDNSDomains s" and "ScanSubnets (load t) = ScanSubnets s"
    and "LastScan (load t) = LastScan s" and "PublicIP (load t) = PublicIP s" and "Tunnel (load t) = Tunnel s"
  using assms by (simp_all add: load_def snapshot_def rebuildIndexes_eq services_def GetAllServices_def
      discovered_def bookmarks_def case_prod_beta comp_def)

lemma load_indexes:
  assumes "saved t = Some (snapshot s)"
  shows "idIdx (load t) = fold (add_key (id_key (services s))) [0..<length (Services s)] Map.empty"
    and "containerIDIdx (load t) = fold (add_key (cid_key (services s))) [0..<length (Services s)] Map.empty"
    and "containerNameIdx (load t) = fold (add_key (cname_key (services s))) [0..<length (Services s)] Map.empty"
    and "bookmarkIdx (load t) = fold (add_key (bid_key (bookmarks s))) [0..<length (Bookmarks s)] Map.empty"
    and "discoveredIdx (load t) = fold (add_key (did_key (discovered s))) [0..<length (Discovered s)] Map.empty"
    and "discoveredContainerIdx (load t) = fold (add_key (dcid_key (discovered s))) [0..<length (Discovered s)] Map.empty"
    and "ignoredIdx (load t) = ign_idx (Ignored s) Map.empty"
    and "ignoredIPPortIdx (load t) = ign_addr_idx (Ignored s) Map.empty"
  using assms by (simp_all add: load_def snapshot_def rebuildIndexes_eq services_def GetAllServices_def
      discovered_def bookmarks_def case_prod_beta comp_def)

lemma svc_inv_load:
  assumes t: "saved t = Some (snapshot s)" and s: "svc_inv s"
  shows "svc_inv (load t)" and "services (load t) = services s"
proof -
  let ?rs = "map snd (Services s)" and ?n = "length (Services s)"
  have R: "refs_of (Services (load t)) = {..< ?n}"
    by (force simp: load_fields [OF t] refs_of_def set_zip image_iff)
  have S: "refs_of (Services s) = set ?rs" by (simp add: refs_of_def)
  note d = svc_invD [OF s] and l = load_fields [OF t]
  have nth: "services s ! p = svcHeap s ! (?rs ! p)" if "p < ?n" for p
    using that by (simp add: services_def GetAllServices_def)
  note ren = indexes_renumber [OF _ distinct_live [OF s], simplified length_map]
  have sub: "fst (Services s ! p) = sSubdomain (services s ! p)" if "p < ?n" for p
  proof -
    have "map_of (Services s) (fst (Services s ! p)) = Some (snd (Services s ! p))"
      using that d(1) by (simp add: map_of_eq_Some_iff)
    then show ?thesis using that nth sub_iff [OF s] by simp
  qed
  show "svc_inv (load t)"
  proof (rule svc_invI [OF _ R])
    show dk: "distinct (map fst (Services (load t)))"
      using d(1) by (simp add: l)
    show "r < length (svcHeap (load t)) \<and> wf_service (svcHeap (load t) ! r)" if "r \<in> {..< ?n}" for r
      using that nth d(3) [of "?rs ! r"] S by (auto simp: l services_def GetAllServices_def)
    show "indexes (map_of (Services (load t))) {..< ?n} (sub_key (svcHeap (load t)))"
    proof (rule indexesI)
      fix k r
      show "map_of (Services (load t)) k = Some r \<Longrightarrow>
          r \<in> {..< ?n} \<and> sub_key (svcHeap (load t)) r = Some k"
        using dk sub by (auto simp: map_of_eq_Some_iff l set_zip sub_key_def)
      assume "r \<in> {..< ?n}" "sub_key (svcHeap (load t)) r = Some k"
      then have "(k, r) \<in> set (Services (load t))"
        using sub by (auto simp: l set_zip sub_key_def intro!: exI [of _ r])
      then show "map_of (Services (load t)) k = Some r" using dk by simp
    qed
    show "indexes (idIdx (load t)) {..< ?n} (id_key (svcHeap (load t)))"
      unfolding load_indexes [OF t] l by (rule ren [OF d(5) [unfolded S]]) (simp add: id_key_def nth)
    show "indexes (containerIDIdx (load t)) {..< ?n} (cid_key (svcHeap (load t)))"
      unfolding load_indexes [OF t] l by (rule ren [OF d(6) [unfolded S]]) (simp add: cid_key_def nth)
    show "indexes (containerNameIdx (load t)) {..< ?n} (cname_key (svcHeap (load t)))"
      unfolding load_indexes [OF t] l by (rule ren [OF d(7) [unfolded S]]) (simp add: cname_key_def nth)
  qed
  have "length (services s) = ?n" by (simp add: services_def GetAllServices_def)
  then show "services (load t) = services s"
    by (simp add: services_def [of "load t"] GetAllServices_def l) (metis map_nth)
qed

lemma bm_inv_load:
  assumes t: "saved t = Some (snapshot s)" and s: "bm_inv s"
  shows "bm_inv (load t)" and "bookmarks (load t) = bookmarks s"
proof -
  have n: "length (bookmarks s) = length (Bookmarks s)" by (simp add: bookmarks_def)
  have "indexes (bookmarkIdx (load t)) {..< length (Bookmarks s)} (bid_key (bmHeap (load t)))"
    unfolding load_indexes [OF t] load_fields [OF t]
    by (rule indexes_renumber [OF bm_invD(3,1) [OF s]]) (simp add: bid_key_def bookmarks_def)
  then show "bm_inv (load t)"
    using n by (simp add: bm_inv_def load_fields [OF t] atLeast0LessThan)
  show "bookmarks (load t) = bookmarks s"
    using n by (simp add: bookmarks_def [of "load t"] load_fields [OF t]) (metis map_nth)
qed

lemma disc_inv_load:
  assumes t: "saved t = Some (snapshot s)" and s: "disc_inv s"
  shows "disc_inv (load t)" and "discovered (load t) = discovered s"
proof -
  have n: "length (discovered s) = length (Discovered s)" by (simp add: discovered_def)
  have "indexes (discoveredIdx (load t)) {..< length (Discovered s)} (did_key (discHeap (load t)))"
    unfolding load_indexes [OF t] load_fields [OF t]
    by (rule indexes_renumber [OF disc_invD(3,1) [OF s]]) (simp add: did_key_def discovered_def)
  moreover have "indexes (discoveredContainerIdx (load t)) {..< length (Discovered s)} (dcid_key (discHeap (load t)))"
    unfolding load_indexes [OF t] load_fields [OF t]
    by (rule indexes_renumber [OF disc_invD(4,1) [OF s]]) (simp add: dcid_key_def discovered_def)
  ultimately show "disc_inv (load t)"
    using n by (simp add: disc_inv_def load_fields [OF t] atLeast0LessThan)
  show "discovered (load t) = discovered s"
    using n by (simp add: discovered_def [of "load t"] load_fields [OF t]) (metis map_nth)
qed

lemma ign_inv_load:
  assumes t: "saved t = Some (snapshot s)" and s: "ign_inv s"
  shows "ign_inv (load t)" and "ignoredIdx (load t) = ignoredIdx s"
proof -
  show ii: "ignoredIdx (load t) = ignoredIdx s"
    unfolding load_indexes [OF t]
    by (rule map_eq_iff_Some) (simp add: ign_idx_iff [OF ign_invD(1) [OF s]] ign_invD(2) [OF s])
  have "ign_addr_idx (Ignored s) Map.empty k \<noteq> None \<Longrightarrow> \<exists>ig \<in> set (Ignored s). ignoredKey (iIP ig) (iPort ig) = k" for k
    using ign_addr_idx_iff [of "Ignored s" k] by auto
  then show "ign_inv (load t)"
    using s by (simp add: ign_inv_def ii load_indexes(8) [OF t] load_fields [OF t])
qed

lemma store_inv_load: "saved t = Some (snapshot s) \<Longrightarrow> store_inv s \<Longrightarrow> store_inv (load t)"
  by (simp add: store_inv_def svc_inv_load bm_inv_load disc_inv_load ign_inv_load)

text \<open>Every lookup by value answers as before the restart.\<close>

lemma load_lookups:
  assumes t: "saved t = Some (snapshot s)" and s: "store_inv s"
  shows "serviceByID (load t) = serviceByID s"
    and "serviceBySubdomain (load t) = serviceBySubdomain s"
    and "serviceByContainerName (load t) = serviceByContainerName s"
    and "bookmarkByID (load t) = bookmarkByID s"
    and "discoveredByID (load t) = discoveredByID s"
  using svc_inv_load [OF t] bm_inv_load [OF t] disc_inv_load [OF t] s
  by (auto intro!: map_eq_iff_Some simp: store_inv_def serviceByID_iff serviceBySubdomain_iff
      serviceByContainerName_iff bookmarkByID_iff discoveredByID_iff)

end
