(* ===== verification/IconStore.thy ===== *)
theory IconStore
  imports StoreInvariant
begin

text \<open>
  The icon files of \<open>internal/store/store.go\<close>: the path check of \<open>safeIconPath\<close>, the
  operations on the files, the decoding of data URIs, the migration at startup and
  \<open>New\<close>.  \<open>os.WriteFile\<close> succeeds exactly on the paths of \<open>writable\<close>;
  \<open>os.Remove\<close> is modelled on regular files.
\<close>

section \<open>Operations\<close>

definition iconPath :: "store \<Rightarrow> string \<Rightarrow> string" where
  "iconPath s i = Join [iconDir s, i]"

definition safeIconPath :: "store \<Rightarrow> string \<Rightarrow> string result" where
  "safeIconPath s i =
    (if CHR ''/'' \<in> set i \<or> CHR 0x5C \<in> set i \<or> Contains i ''..'' \<or> i = []
     then Inl (''invalid icon id: '' @ i)
     else let p = Join [iconDir s, Clean i]
          in if \<not> HasPrefix p (iconDir s) then Inl (''icon path escapes icon directory: '' @ i) else Inr p)"

definition os_WriteFile :: "string \<Rightarrow> string \<Rightarrow> store \<Rightarrow> bool \<times> store" where
  "os_WriteFile p data s = (if writable s p then (True, s\<lparr>files := (files s)(p \<mapsto> data)\<rparr>) else (False, s))"

definition WriteIcon :: "string \<Rightarrow> string \<Rightarrow> store \<Rightarrow> unit result \<times> store" where
  "WriteIcon i data s = (case safeIconPath s i of
      Inl e \<Rightarrow> (Inl e, s)
    | Inr p \<Rightarrow> (case os_WriteFile p data s of
        (True, s') \<Rightarrow> (Inr (), s')
      | (False, s') \<Rightarrow> (Inl (''open '' @ p), s')))"

definition ReadIcon :: "string \<Rightarrow> store \<Rightarrow> string result" where
  "ReadIcon i s = (case safeIconPath s i of
      Inl e \<Rightarrow> Inl e
    | Inr p \<Rightarrow> (case files s p of Some data \<Rightarrow> Inr data | None \<Rightarrow> Inl (''open '' @ p)))"

definition DeleteIcon :: "string \<Rightarrow> store \<Rightarrow> store" where
  "DeleteIcon i s = (case safeIconPath s i of
      Inl e \<Rightarrow> s
    | Inr p \<Rightarrow> s\<lparr>files := (files s)(p := None)\<rparr>)"

definition writeDataURI :: "string \<Rightarrow> string \<Rightarrow> store \<Rightarrow> bool \<times> store" where
  "writeDataURI p dataURI s =
    (let (before, after, ok) = Cut dataURI '',''
     in if \<not> ok then (False, s)
        else case b64_decode after of
          None \<Rightarrow> (False, s)
        | Some data \<Rightarrow> if data = [] then (False, s) else os_WriteFile p data s)"

text \<open>The three loops of \<open>migrateIcons\<close>; the counter is how many icons were migrated.\<close>

definition migrate_service :: "ref \<Rightarrow> nat \<times> store \<Rightarrow> nat \<times> store" where
  "migrate_service r = (\<lambda>(n, s). let svc = svcHeap s ! r in
     if HasPrefix (sIcon svc) ''data:'' then
       (case writeDataURI (iconPath s (sID svc)) (sIcon svc) s of
          (True, s1) \<Rightarrow> (n + 1, s1\<lparr>svcHeap := (svcHeap s1)[r := svc\<lparr>sIcon := IconFile\<rparr>]\<rparr>)
        | (False, s1) \<Rightarrow> (n, s1))
     else (n, s))"

definition migrate_bookmark :: "ref \<Rightarrow> nat \<times> store \<Rightarrow> nat \<times> store" where
  "migrate_bookmark r = (\<lambda>(n, s). let bm = bmHeap s ! r in
     if HasPrefix (bIcon bm) ''data:'' then
       (case writeDataURI (iconPath s (bID bm)) (bIcon bm) s of
          (True, s1) \<Rightarrow> (n + 1, s1\<lparr>bmHeap := (bmHeap s1)[r := bm\<lparr>bIcon := IconFile\<rparr>]\<rparr>)
        | (False, s1) \<Rightarrow> (n, s1))
     else (n, s))"

definition migrate_discovered :: "ref \<Rightarrow> nat \<times> store \<Rightarrow> nat \<times> store" where
  "migrate_discovered r = (\<lambda>(n, s). let d = discHeap s ! r in
     if HasPrefix (dIcon d) ''data:'' then
       (case writeDataURI (iconPath s (dID d)) (dIcon d) s of
          (True, s1) \<Rightarrow> (n + 1, s1\<lparr>discHeap := (discHeap s1)[r := d\<lparr>dIcon := IconFile\<rparr>]\<rparr>)
        | (False, s1) \<Rightarrow> (n, s1))
     else (n, s))"

definition migrateIcons :: "store \<Rightarrow> store" where
  "migrateIcons s =
    (let (n, s) = fold migrate_service (map snd (Services s)) (0, s);
         (n, s) = fold migrate_bookmark (Bookmarks s) (n, s);
         (n, s) = fold migrate_discovered (Discovered s) (n, s)
     in if n > 0 then snd (Save s) else s)"

text \<open>
  \<open>New\<close> over what is on disk: the icon files and the content of \<open>config.json\<close>.
\<close>

definition New :: "string \<Rightarrow> (string \<Rightarrow> bool) \<Rightarrow> (string \<rightharpoonup> string) \<Rightarrow> data option \<Rightarrow> store" where
  "New dataDir wr disk cfg = migrateIcons (load ((empty_store dataDir wr)\<lparr>files := disk, saved := cfg\<rparr>))"

section \<open>The path check\<close>

text \<open>An icon directory as \<open>New\<close> builds it: a clean path that is not a root.\<close>

definition clean_dir :: "string \<Rightarrow> bool" where
  "clean_dir d \<longleftrightarrow> (\<exists>r out. clean_stack r out \<and> out \<noteq> [] \<and> d = render_path r out)"

definition icon_id :: "string \<Rightarrow> bool" where
  "icon_id i \<longleftrightarrow> i \<noteq> [] \<and> CHR ''/'' \<notin> set i \<and> CHR 0x5C \<notin> set i \<and> \<not> Contains i ''..''"

lemma clean_dir_Join: "dataDir \<noteq> [] \<Longrightarrow> clean_dir (Join [dataDir, ''icons''])"
proof -
  assume d: "dataDir \<noteq> []"
  have f: "file_name ''icons''" by (simp add: file_name_def)
  let ?q = "dataDir @ ''/'' @ ''icons''"
  have "Join [dataDir, ''icons''] = render_path (HasPrefix dataDir ''/'') (''icons'' # path_stack dataDir)"
    using d path_stack_snoc [OF d f] by (simp add: Join_def Clean_def)
  moreover have "clean_stack (HasPrefix dataDir ''/'') (''icons'' # path_stack dataDir)"
    using clean_path_stack [of dataDir] by simp
  ultimately show ?thesis unfolding clean_dir_def by blast
qed

lemma icon_id_dots: "icon_id i \<Longrightarrow> i \<noteq> ''..''"
proof
  assume "icon_id i" "i = ''..''"
  moreover have "Contains ''..'' ''..''" by (simp add: Contains_def HasPrefix_def)
  ultimately show False by (simp add: icon_id_def)
qed

lemma icon_id_file_name: "icon_id i \<Longrightarrow> i \<noteq> ''.'' \<Longrightarrow> file_name i"
  using icon_id_dots by (simp add: file_name_def icon_id_def)

text \<open>
  What the check accepts is one component below the icon directory.  The name \<open>.\<close> also
  passes and denotes the directory itself.
\<close>

lemma safeIconPath_file:
  assumes "clean_dir (iconDir s)" and "icon_id i" and "i \<noteq> ''.''"
  shows "safeIconPath s i = Inr (iconDir s @ ''/'' @ i)"
proof -
  from assms(1) obtain r out where d: "clean_stack r out" "out \<noteq> []" "iconDir s = render_path r out"
    by (auto simp: clean_dir_def)
  have f: "file_name i" using assms by (intro icon_id_file_name)
  show ?thesis
    using assms(2) Join_name [OF d(1,2) f] Clean_file_name [OF f]
    by (simp add: safeIconPath_def icon_id_def d(3))
qed

lemma safeIconPath_reject: "\<not> icon_id i \<Longrightarrow> \<exists>e. safeIconPath s i = Inl e"
  by (auto simp: safeIconPath_def icon_id_def)

lemma safeIconPath_iconPath:
  "clean_dir (iconDir s) \<Longrightarrow> icon_id i \<Longrightarrow> i \<noteq> ''.'' \<Longrightarrow> safeIconPath s i = Inr (iconPath s i)"
  using Join_name icon_id_file_name by (auto simp: safeIconPath_file iconPath_def clean_dir_def)

lemma safeIconPath_dot: "clean_dir (iconDir s) \<Longrightarrow> safeIconPath s ''.'' = Inr (iconDir s)"
proof -
  assume "clean_dir (iconDir s)"
  then obtain r out where d: "clean_stack r out" "out \<noteq> []" "iconDir s = render_path r out"
    by (auto simp: clean_dir_def)
  note s = path_stack_render [OF d(1,2)]
  have h: "HasPrefix (iconDir s @ ''/.'') ''/'' = HasPrefix (iconDir s) ''/''"
    using s(3) d(3) by (intro HasPrefix_root) simp
  then have st: "path_stack (iconDir s @ ''/.'') = path_stack (iconDir s)"
    using SplitByte_snoc [of "CHR ''/''" "''.''" "iconDir s"] by (simp add: path_stack_def path_step_def)
  have "Clean (iconDir s @ ''/.'') = iconDir s"
    using h st s d(3) by (simp add: Clean_def)
  moreover have "Clean ''.'' = ''.''"
    by (simp add: Clean_def path_stack_def HasPrefix_def path_step_def render_path_def)
  moreover have "\<not> Contains ''.'' ''..''" by (simp add: Contains_def HasPrefix_def)
  ultimately show ?thesis
    using s(3) d(3) HasPrefix_append [of "iconDir s" "[]"] by (simp add: safeIconPath_def Join_def)
qed

lemma icon_files_disjoint:
  assumes "clean_dir (iconDir s)" and "safeIconPath s i = Inr p" and "safeIconPath s j = Inr p"
  shows "i = j"
proof -
  have i: "icon_id i" "icon_id j" using assms(2,3) safeIconPath_reject by (metis Inl_Inr_False)+
  have "iconDir s @ ''/'' @ k \<noteq> iconDir s" for k by simp
  with i assms show ?thesis
    by (cases "i = ''.''"; cases "j = ''.''") (auto simp: safeIconPath_file safeIconPath_dot)
qed

section \<open>Reading, writing and deleting icons\<close>

lemma os_WriteFile_simps [simp]:
  "iconDir (snd (os_WriteFile p d s)) = iconDir s" "writable (snd (os_WriteFile p d s)) = writable s"
  "svcHeap (snd (os_WriteFile p d s)) = svcHeap s" "bmHeap (snd (os_WriteFile p d s)) = bmHeap s"
  "discHeap (snd (os_WriteFile p d s)) = discHeap s"
  by (simp_all add: os_WriteFile_def)

lemma WriteIcon_eq: "WriteIcon i d s = (case safeIconPath s i of
      Inl e \<Rightarrow> (Inl e, s)
    | Inr p \<Rightarrow> if writable s p then (Inr (), s\<lparr>files := (files s)(p \<mapsto> d)\<rparr>) else (Inl (''open '' @ p), s))"
  by (simp add: WriteIcon_def os_WriteFile_def split: sum.split)

lemma WriteIcon_ok:
  "safeIconPath s i = Inr p \<Longrightarrow> writable s p \<Longrightarrow> WriteIcon i d s = (Inr (), s\<lparr>files := (files s)(p \<mapsto> d)\<rparr>)"
  "safeIconPath s i = Inr p \<Longrightarrow> \<not> writable s p \<Longrightarrow> WriteIcon i d s = (Inl (''open '' @ p), s)"
  "safeIconPath s i = Inl e \<Longrightarrow> WriteIcon i d s = (Inl e, s)"
  by (simp_all add: WriteIcon_eq)

lemma WriteIcon_cases:
  obtains p where "safeIconPath s i = Inr p" "writable s p" "WriteIcon i d s = (Inr (), s\<lparr>files := (files s)(p \<mapsto> d)\<rparr>)"
  | e where "WriteIcon i d s = (Inl e, s)"
  by (cases "safeIconPath s i") (metis WriteIcon_ok)+

lemma safeIconPath_files [simp]:
  "safeIconPath (s\<lparr>files := f\<rparr>) i = safeIconPath s i"
  by (simp add: safeIconPath_def)

lemma ReadIcon_cases:
  "safeIconPath s i = Inl e \<Longrightarrow> ReadIcon i s = Inl e"
  "safeIconPath s i = Inr p \<Longrightarrow> files s p = Some d \<Longrightarrow> ReadIcon i s = Inr d"
  "safeIconPath s i = Inr p \<Longrightarrow> files s p = None \<Longrightarrow> ReadIcon i s = Inl (''open '' @ p)"
  by (simp_all add: ReadIcon_def)

lemma ReadIcon_other:
  "clean_dir (iconDir s) \<Longrightarrow> safeIconPath s i = Inr p \<Longrightarrow> j \<noteq> i \<Longrightarrow>
    ReadIcon j (s\<lparr>files := (files s)(p := x)\<rparr>) = ReadIcon j s"
proof (cases "safeIconPath s j")
  case (Inl e)
  then show ?thesis by (simp add: ReadIcon_cases(1))
next
  case (Inr q)
  assume a: "clean_dir (iconDir s)" "safeIconPath s i = Inr p" "j \<noteq> i"
  then have "q \<noteq> p" using icon_files_disjoint [of s j q i] Inr by auto
  then show ?thesis by (simp add: ReadIcon_def Inr)
qed

lemma ReadIcon_WriteIcon:
  assumes "clean_dir (iconDir s)" and "fst (WriteIcon i d s) = Inr ()"
  shows "ReadIcon j (snd (WriteIcon i d s)) = (if j = i then Inr d else ReadIcon j s)"
proof (rule WriteIcon_cases [of s i d])
  fix p assume p: "safeIconPath s i = Inr p" "WriteIcon i d s = (Inr (), s\<lparr>files := (files s)(p \<mapsto> d)\<rparr>)"
  then show ?thesis
    using ReadIcon_other [OF assms(1) p(1)] by (simp add: ReadIcon_cases(2))
next
  fix e assume "WriteIcon i d s = (Inl e, s)"
  with assms(2) show ?thesis by simp
qed

lemma WriteIcon_error: "fst (WriteIcon i d s) = Inl e \<Longrightarrow> snd (WriteIcon i d s) = s"
  by (rule WriteIcon_cases [of s i d]) simp_all

lemma ReadIcon_DeleteIcon:
  assumes "clean_dir (iconDir s)"
  shows "j \<noteq> i \<Longrightarrow> ReadIcon j (DeleteIcon i s) = ReadIcon j s" and "\<exists>e. ReadIcon i (DeleteIcon i s) = Inl e"
proof -
  show "\<exists>e. ReadIcon i (DeleteIcon i s) = Inl e"
    by (cases "safeIconPath s i") (simp_all add: ReadIcon_def DeleteIcon_def)
  show "j \<noteq> i \<Longrightarrow> ReadIcon j (DeleteIcon i s) = ReadIcon j s"
    using ReadIcon_other [OF assms, of i] by (cases "safeIconPath s i") (simp_all add: DeleteIcon_def)
qed

section \<open>Migration\<close>

lemma writeDataURI_cases:
  obtains "writeDataURI p u s = (False, s)"
  | d where "writeDataURI p u s = (True, s\<lparr>files := (files s)(p \<mapsto> d)\<rparr>)" "d \<noteq> []" "writable s p"
proof (cases "Index u '','' ")
  case None
  then show thesis using that(1) by (simp add: writeDataURI_def Cut_def)
next
  case (Some k)
  show thesis
  proof (cases "b64_decode (drop (Suc k) u)")
    case None
    with Some show thesis using that(1) by (simp add: writeDataURI_def Cut_def)
  next
    case d: (Some d)
    show thesis
    proof (cases "d = [] \<or> \<not> writable s p")
      case True
      with Some d show thesis using that(1) by (auto simp: writeDataURI_def Cut_def os_WriteFile_def)
    next
      case False
      with Some d show thesis using that(2) [of d] by (auto simp: writeDataURI_def Cut_def os_WriteFile_def)
    qed
  qed
qed

text \<open>A data URI whose payload is the encoding of some bytes is written as those bytes.\<close>

lemma writeDataURI_encode:
  assumes "CHR '','' \<notin> set m" and "data \<noteq> []" and "writable s p"
  shows "writeDataURI p (m @ '','' @ b64_encode data) s = (True, s\<lparr>files := (files s)(p \<mapsto> data)\<rparr>)"
  using assms Index_single [of "CHR '',''" m "b64_encode data"]
  by (simp add: writeDataURI_def Cut_def b64_decode_encode os_WriteFile_def)

text \<open>What a migration does to one entity: the icon becomes the marker when the payload was written.\<close>

definition uri_payload :: "string \<Rightarrow> string option" where
  "uri_payload u = (case Cut u '','' of (before, after, ok) \<Rightarrow>
     if \<not> ok then None else case b64_decode after of
       None \<Rightarrow> None | Some d \<Rightarrow> if d = [] then None else Some d)"

definition mig_icon :: "store \<Rightarrow> string \<Rightarrow> string \<Rightarrow> string" where
  "mig_icon s i u = (if HasPrefix u ''data:'' \<and> uri_payload u \<noteq> None \<and> writable s (iconPath s i)
     then IconFile else u)"

lemma writeDataURI_payload: "writeDataURI p u s =
    (case uri_payload u of None \<Rightarrow> (False, s) | Some d \<Rightarrow> os_WriteFile p d s)"
  by (cases "Cut u '',''") (simp add: writeDataURI_def uri_payload_def split: option.split)

lemma mig_icon_idem: "mig_icon s i (mig_icon s i u) = mig_icon s i u"
  by (auto simp: mig_icon_def)

text \<open>The parts of the store that the migration reads and does not change.\<close>

definition same_place :: "store \<Rightarrow> store \<Rightarrow> bool" where
  "same_place s t \<longleftrightarrow> iconDir t = iconDir s \<and> writable t = writable s"

lemma mig_icon_place: "same_place s t \<Longrightarrow> mig_icon t = mig_icon s"
  by (simp add: same_place_def mig_icon_def iconPath_def fun_eq_iff)

definition mig_svc :: "store \<Rightarrow> Service \<Rightarrow> Service" where
  "mig_svc s v = v\<lparr>sIcon := mig_icon s (sID v) (sIcon v)\<rparr>"

definition mig_bm :: "store \<Rightarrow> Bookmark \<Rightarrow> Bookmark" where
  "mig_bm s v = v\<lparr>bIcon := mig_icon s (bID v) (bIcon v)\<rparr>"

definition mig_disc :: "store \<Rightarrow> DiscoveredService \<Rightarrow> DiscoveredService" where
  "mig_disc s v = v\<lparr>dIcon := mig_icon s (dID v) (dIcon v)\<rparr>"

lemma migrate_service_step:
  "\<exists>m f. migrate_service r (n, s) = (m, s\<lparr>files := f, svcHeap := (svcHeap s)[r := mig_svc s (svcHeap s ! r)]\<rparr>)"
proof (cases "HasPrefix (sIcon (svcHeap s ! r)) ''data:'' \<and> uri_payload (sIcon (svcHeap s ! r)) \<noteq> None \<and>
    writable s (iconPath s (sID (svcHeap s ! r)))")
  case True
  then obtain d where "uri_payload (sIcon (svcHeap s ! r)) = Some d" by auto
  with True have "migrate_service r (n, s) = (Suc n, s\<lparr>files := (files s)(iconPath s (sID (svcHeap s ! r)) \<mapsto> d),
      svcHeap := (svcHeap s)[r := mig_svc s (svcHeap s ! r)]\<rparr>)"
    by (simp add: migrate_service_def writeDataURI_payload os_WriteFile_def mig_svc_def mig_icon_def Let_def)
  then show ?thesis by blast
next
  case False
  then have "mig_svc s (svcHeap s ! r) = svcHeap s ! r"
    by (auto simp: mig_svc_def mig_icon_def)
  moreover have "migrate_service r (n, s) = (n, s)"
    using False by (cases "uri_payload (sIcon (svcHeap s ! r))")
      (auto simp: migrate_service_def writeDataURI_payload os_WriteFile_def Let_def)
  ultimately show ?thesis
    by (intro exI [of _ n] exI [of _ "files s"]) simp
qed

lemma migrate_bookmark_step:
  "\<exists>m f. migrate_bookmark r (n, s) = (m, s\<lparr>files := f, bmHeap := (bmHeap s)[r := mig_bm s (bmHeap s ! r)]\<rparr>)"
proof (cases "HasPrefix (bIcon (bmHeap s ! r)) ''data:'' \<and> uri_payload (bIcon (bmHeap s ! r)) \<noteq> None \<and>
    writable s (iconPath s (bID (bmHeap s ! r)))")
  case True
  then obtain d where "uri_payload (bIcon (bmHeap s ! r)) = Some d" by auto
  with True have "migrate_bookmark r (n, s) = (Suc n, s\<lparr>files := (files s)(iconPath s (bID (bmHeap s ! r)) \<mapsto> d),
      bmHeap := (bmHeap s)[r := mig_bm s (bmHeap s ! r)]\<rparr>)"
    by (simp add: migrate_bookmark_def writeDataURI_payload os_WriteFile_def mig_bm_def mig_icon_def Let_def)
  then show ?thesis by blast
next
  case False
  then have "mig_bm s (bmHeap s ! r) = bmHeap s ! r"
    by (auto simp: mig_bm_def mig_icon_def)
  moreover have "migrate_bookmark r (n, s) = (n, s)"
    using False by (cases "uri_payload (bIcon (bmHeap s ! r))")
      (auto simp: migrate_bookmark_def writeDataURI_payload os_WriteFile_def Let_def)
  ultimately show ?thesis
    by (intro exI [of _ n] exI [of _ "files s"]) simp
qed

lemma migrate_discovered_step:
  "\<exists>m f. migrate_discovered r (n, s) = (m, s\<lparr>files := f, discHeap := (discHeap s)[r := mig_disc s (discHeap s ! r)]\<rparr>)"
proof (cases "HasPrefix (dIcon (discHeap s ! r)) ''data:'' \<and> uri_payload (dIcon (discHeap s ! r)) \<noteq> None \<and>
    writable s (iconPath s (dID (discHeap s ! r)))")
  case True
  then obtain d where "uri_payload (dIcon (discHeap s ! r)) = Some d" by auto
  with True have "migrate_discovered r (n, s) = (Suc n, s\<lparr>files := (files s)(iconPath s (dID (discHeap s ! r)) \<mapsto> d),
      discHeap := (discHeap s)[r := mig_disc s (discHeap s ! r)]\<rparr>)"
    by (simp add: migrate_discovered_def writeDataURI_payload os_WriteFile_def mig_disc_def mig_icon_def Let_def)
  then show ?thesis by blast
next
  case False
  then have "mig_disc s (discHeap s ! r) = discHeap s ! r"
    by (auto simp: mig_disc_def mig_icon_def)
  moreover have "migrate_discovered r (n, s) = (n, s)"
    using False by (cases "uri_payload (dIcon (discHeap s ! r))")
      (auto simp: migrate_discovered_def writeDataURI_payload os_WriteFile_def Let_def)
  ultimately show ?thesis
    by (intro exI [of _ n] exI [of _ "files s"]) simp
qed

definition write_each :: "('a \<Rightarrow> 'a) \<Rightarrow> ref list \<Rightarrow> 'a heap \<Rightarrow> 'a heap" where
  "write_each g rs h = fold (\<lambda>r h. h[r := g (h ! r)]) rs h"

lemma write_each_nth:
  assumes "\<And>x. g (g x) = g x"
  shows "q < length h \<Longrightarrow> write_each g rs h ! q = (if q \<in> set rs then g (h ! q) else h ! q)"
    and "length (write_each g rs h) = length h"
proof -
  show "length (write_each g rs h) = length h"
    by (induction rs arbitrary: h) (simp_all add: write_each_def)
  show "q < length h \<Longrightarrow> write_each g rs h ! q = (if q \<in> set rs then g (h ! q) else h ! q)"
  proof (induction rs arbitrary: h)
    case Nil
    then show ?case by (simp add: write_each_def)
  next
    case (Cons r rs)
    have "write_each g (r # rs) h = write_each g rs (h[r := g (h ! r)])" by (simp add: write_each_def)
    with Cons.prems Cons.IH [of "h[r := g (h ! r)]"] show ?case
      by (cases "q = r") (simp_all add: assms)
  qed
qed

lemma migrate_fold:
  "\<exists>m f. fold migrate_service rs (n, s) = (m, s\<lparr>files := f, svcHeap := write_each (mig_svc s) rs (svcHeap s)\<rparr>)"
  "\<exists>m f. fold migrate_bookmark rs (n, s) = (m, s\<lparr>files := f, bmHeap := write_each (mig_bm s) rs (bmHeap s)\<rparr>)"
  "\<exists>m f. fold migrate_discovered rs (n, s) = (m, s\<lparr>files := f, discHeap := write_each (mig_disc s) rs (discHeap s)\<rparr>)"
proof -
  have pl: "same_place s (s\<lparr>files := f, svcHeap := h\<rparr>)" "same_place s (s\<lparr>files := f, bmHeap := h1\<rparr>)"
    "same_place s (s\<lparr>files := f, discHeap := h2\<rparr>)" for s f h h1 h2
    by (simp_all add: same_place_def)
  have eq: "mig_svc (s\<lparr>files := f, svcHeap := h\<rparr>) = mig_svc s" "mig_bm (s\<lparr>files := f, bmHeap := h1\<rparr>) = mig_bm s"
    "mig_disc (s\<lparr>files := f, discHeap := h2\<rparr>) = mig_disc s" for s f h h1 h2
    by (simp_all add: mig_svc_def mig_bm_def mig_disc_def mig_icon_place [OF pl(1)] mig_icon_place [OF pl(2)]
        mig_icon_place [OF pl(3)] fun_eq_iff)
  show "\<exists>m f. fold migrate_service rs (n, s) = (m, s\<lparr>files := f, svcHeap := write_each (mig_svc s) rs (svcHeap s)\<rparr>)"
  proof (induction rs arbitrary: n s)
    case Nil
    show ?case by (intro exI [of _ n] exI [of _ "files s"]) (simp add: write_each_def)
  next
    case (Cons r rs)
    obtain m f where 1: "migrate_service r (n, s) = (m, s\<lparr>files := f, svcHeap := (svcHeap s)[r := mig_svc s (svcHeap s ! r)]\<rparr>)"
      using migrate_service_step by blast
    show ?case
      using Cons.IH [of m "s\<lparr>files := f, svcHeap := (svcHeap s)[r := mig_svc s (svcHeap s ! r)]\<rparr>"] eq(1)
      by (simp add: 1 write_each_def)
  qed
  show "\<exists>m f. fold migrate_bookmark rs (n, s) = (m, s\<lparr>files := f, bmHeap := write_each (mig_bm s) rs (bmHeap s)\<rparr>)"
  proof (induction rs arbitrary: n s)
    case Nil
    show ?case by (intro exI [of _ n] exI [of _ "files s"]) (simp add: write_each_def)
  next
    case (Cons r rs)
    obtain m f where 1: "migrate_bookmark r (n, s) = (m, s\<lparr>files := f, bmHeap := (bmHeap s)[r := mig_bm s (bmHeap s ! r)]\<rparr>)"
      using migrate_bookmark_step by blast
    show ?case
      using Cons.IH [of m "s\<lparr>files := f, bmHeap := (bmHeap s)[r := mig_bm s (bmHeap s ! r)]\<rparr>"] eq(2)
      by (simp add: 1 write_each_def)
  qed
  show "\<exists>m f. fold migrate_discovered rs (n, s) = (m, s\<lparr>files := f, discHeap := write_each (mig_disc s) rs (discHeap s)\<rparr>)"
  proof (induction rs arbitrary: n s)
    case Nil
    show ?case by (intro exI [of _ n] exI [of _ "files s"]) (simp add: write_each_def)
  next
    case (Cons r rs)
    obtain m f where 1: "migrate_discovered r (n, s) = (m, s\<lparr>files := f, discHeap := (discHeap s)[r := mig_disc s (discHeap s ! r)]\<rparr>)"
      using migrate_discovered_step by blast
    show ?case
      using Cons.IH [of m "s\<lparr>files := f, discHeap := (discHeap s)[r := mig_disc s (discHeap s ! r)]\<rparr>"] eq(3)
      by (simp add: 1 write_each_def)
  qed
qed

text \<open>\<open>migrateIcons\<close> as one update of the three heaps.\<close>

lemma migrateIcons_eq: "\<exists>f c. migrateIcons s = s\<lparr>files := f, saved := c,
    svcHeap := write_each (mig_svc s) (map snd (Services s)) (svcHeap s),
    bmHeap := write_each (mig_bm s) (Bookmarks s) (bmHeap s),
    discHeap := write_each (mig_disc s) (Discovered s) (discHeap s)\<rparr>"
proof -
  obtain n1 f1 s1 where 1: "fold migrate_service (map snd (Services s)) (0, s) = (n1, s1)"
    and e1: "s1 = s\<lparr>files := f1, svcHeap := write_each (mig_svc s) (map snd (Services s)) (svcHeap s)\<rparr>"
    using migrate_fold(1) by blast
  have m1: "mig_bm s1 = mig_bm s" "mig_disc s1 = mig_disc s"
    using mig_icon_place [of s s1] by (simp_all add: e1 mig_bm_def mig_disc_def same_place_def fun_eq_iff)
  obtain n2 f2 s2 where 2: "fold migrate_bookmark (Bookmarks s1) (n1, s1) = (n2, s2)"
    and e2: "s2 = s1\<lparr>files := f2, bmHeap := write_each (mig_bm s) (Bookmarks s1) (bmHeap s1)\<rparr>"
    using migrate_fold(2) [of "Bookmarks s1" n1 s1] unfolding m1 by blast
  have m2: "mig_disc s2 = mig_disc s"
    using mig_icon_place [of s s2] by (simp add: e1 e2 mig_disc_def same_place_def fun_eq_iff)
  obtain n3 f3 s3 where 3: "fold migrate_discovered (Discovered s2) (n2, s2) = (n3, s3)"
    and e3: "s3 = s2\<lparr>files := f3, discHeap := write_each (mig_disc s) (Discovered s2) (discHeap s2)\<rparr>"
    using migrate_fold(3) [of "Discovered s2" n2 s2] unfolding m2 by blast
  have "migrateIcons s = (if n3 > 0 then snd (Save s3) else s3)"
    by (simp add: migrateIcons_def 1 2 3)
  then have "migrateIcons s = s3 \<or> (\<exists>c. migrateIcons s = s3\<lparr>saved := c\<rparr>)"
    by (auto simp: Save_def)
  moreover have "s3 = s3\<lparr>saved := saved s3\<rparr>" by simp
  ultimately obtain c where "migrateIcons s = s3\<lparr>saved := c\<rparr>" by metis
  then show ?thesis by (intro exI [of _ f3] exI [of _ c]) (simp add: e1 e2 e3)
qed

lemma write_each_same:
  "(\<And>x. g (g x) = g x) \<Longrightarrow> (\<And>x. k (g x) = k x) \<Longrightarrow> k (write_each g rs h ! q) = k (h ! q)"
proof (induction rs arbitrary: h)
  case Nil
  then show ?case by (simp add: write_each_def)
next
  case (Cons r rs)
  have "write_each g (r # rs) h = write_each g rs (h[r := g (h ! r)])" by (simp add: write_each_def)
  moreover have "k (h[r := g (h ! r)] ! q) = k (h ! q)"
    using Cons.prems(2) by (cases "r < length h"; cases "q = r") (simp_all add: list_update_beyond)
  ultimately show ?case using Cons.IH [of "h[r := g (h ! r)]"] Cons.prems by simp
qed

lemma mig_idem: "mig_svc s (mig_svc s v) = mig_svc s v" "mig_bm s (mig_bm s b) = mig_bm s b"
  "mig_disc s (mig_disc s d) = mig_disc s d"
  by (simp_all add: mig_svc_def mig_bm_def mig_disc_def mig_icon_idem)

lemma mig_keys [simp]:
  "sID (mig_svc s v) = sID v" "sSubdomain (mig_svc s v) = sSubdomain v" "sContainerID (mig_svc s v) = sContainerID v"
  "sContainerName (mig_svc s v) = sContainerName v" "sSource (mig_svc s v) = sSource v"
  "bID (mig_bm s b) = bID b" "dID (mig_disc s d) = dID d" "dContainerID (mig_disc s d) = dContainerID d"
  by (simp_all add: mig_svc_def mig_bm_def mig_disc_def)

text \<open>The migration keeps the invariant and changes icons only, entity by entity.\<close>

lemma store_inv_migrateIcons: "store_inv s \<Longrightarrow> store_inv (migrateIcons s)"
proof -
  assume s: "store_inv s"
  obtain f c where m: "migrateIcons s = s\<lparr>files := f, saved := c,
      svcHeap := write_each (mig_svc s) (map snd (Services s)) (svcHeap s),
      bmHeap := write_each (mig_bm s) (Bookmarks s) (bmHeap s),
      discHeap := write_each (mig_disc s) (Discovered s) (discHeap s)\<rparr>"
    using migrateIcons_eq by blast
  have k: "sID (write_each (mig_svc s) rs h ! q) = sID (h ! q)"
    "sSubdomain (write_each (mig_svc s) rs h ! q) = sSubdomain (h ! q)"
    "sContainerID (write_each (mig_svc s) rs h ! q) = sContainerID (h ! q)"
    "sContainerName (write_each (mig_svc s) rs h ! q) = sContainerName (h ! q)"
    "sSource (write_each (mig_svc s) rs h ! q) = sSource (h ! q)"
    "bID (write_each (mig_bm s) rs hb ! q) = bID (hb ! q)"
    "dID (write_each (mig_disc s) rs hd ! q) = dID (hd ! q)"
    "dContainerID (write_each (mig_disc s) rs hd ! q) = dContainerID (hd ! q)" for rs h hb hd q
    by (rule write_each_same; simp add: mig_idem)+
  have l: "length (write_each (mig_svc s) rs h) = length h" "length (write_each (mig_bm s) rs hb) = length hb"
    "length (write_each (mig_disc s) rs hd) = length hd" for rs h hb hd
    by (rule write_each_nth(2); simp add: mig_idem)+
  have "sub_key (svcHeap (migrateIcons s)) = sub_key (svcHeap s)" "id_key (svcHeap (migrateIcons s)) = id_key (svcHeap s)"
    "cid_key (svcHeap (migrateIcons s)) = cid_key (svcHeap s)" "cname_key (svcHeap (migrateIcons s)) = cname_key (svcHeap s)"
    "bid_key (bmHeap (migrateIcons s)) = bid_key (bmHeap s)" "did_key (discHeap (migrateIcons s)) = did_key (discHeap s)"
    "dcid_key (discHeap (migrateIcons s)) = dcid_key (discHeap s)"
    by (simp_all add: m fun_eq_iff svc_keys bid_key_def did_key_def dcid_key_def k)
  with s show ?thesis
    by (simp add: store_inv_def svc_inv_def wf_service_def disc_inv_def ign_inv_def bm_inv_def) (simp add: m k l)
qed

lemma migrateIcons_values:
  assumes "store_inv s"
  shows "services (migrateIcons s) = map (mig_svc s) (services s)"
    and "bookmarks (migrateIcons s) = map (mig_bm s) (bookmarks s)"
    and "discovered (migrateIcons s) = map (mig_disc s) (discovered s)"
proof -
  obtain f c where m: "migrateIcons s = s\<lparr>files := f, saved := c,
      svcHeap := write_each (mig_svc s) (map snd (Services s)) (svcHeap s),
      bmHeap := write_each (mig_bm s) (Bookmarks s) (bmHeap s),
      discHeap := write_each (mig_disc s) (Discovered s) (discHeap s)\<rparr>"
    using migrateIcons_eq by blast
  note d = store_invD [OF assms]
  show "services (migrateIcons s) = map (mig_svc s) (services s)"
    using svc_invD(2) [OF d(1)] by (auto simp: services_def GetAllServices_def m refs_of_def
        write_each_nth(1) [OF mig_idem(1)])
  show "bookmarks (migrateIcons s) = map (mig_bm s) (bookmarks s)"
    using bm_invD(2) [OF d(4)] by (simp add: bookmarks_def m write_each_nth(1) [OF mig_idem(2)])
  show "discovered (migrateIcons s) = map (mig_disc s) (discovered s)"
    using disc_invD(2) [OF d(2)] by (simp add: discovered_def m write_each_nth(1) [OF mig_idem(3)])
qed

text \<open>\<open>New\<close> on what a running store saved: the same entities, with the icons migrated.\<close>

lemma New_values:
  fixes dir :: string and wr :: "string \<Rightarrow> bool" and disk :: "string \<rightharpoonup> string"
  assumes "store_inv s"
  defines "t \<equiv> load ((empty_store dir wr)\<lparr>files := disk, saved := Some (snapshot s)\<rparr>)"
  shows "store_inv (New dir wr disk (Some (snapshot s)))"
    and "services (New dir wr disk (Some (snapshot s))) = map (mig_svc t) (services s)"
    and "bookmarks (New dir wr disk (Some (snapshot s))) = map (mig_bm t) (bookmarks s)"
    and "discovered (New dir wr disk (Some (snapshot s))) = map (mig_disc t) (discovered s)"
proof -
  let ?u = "(empty_store dir wr)\<lparr>files := disk, saved := Some (snapshot s)\<rparr>"
  have u: "saved ?u = Some (snapshot s)" by simp
  have t: "store_inv t" unfolding t_def by (rule store_inv_load [OF u assms(1)])
  have n: "New dir wr disk (Some (snapshot s)) = migrateIcons t" by (simp add: New_def t_def)
  have v: "services t = services s" "bookmarks t = bookmarks s" "discovered t = discovered s"
    using svc_inv_load(2) [OF u] bm_inv_load(2) [OF u] disc_inv_load(2) [OF u] assms(1)
    by (simp_all add: t_def store_inv_def)
  show "store_inv (New dir wr disk (Some (snapshot s)))"
    unfolding n by (rule store_inv_migrateIcons [OF t])
  show "services (New dir wr disk (Some (snapshot s))) = map (mig_svc t) (services s)"
    "bookmarks (New dir wr disk (Some (snapshot s))) = map (mig_bm t) (bookmarks s)"
    "discovered (New dir wr disk (Some (snapshot s))) = map (mig_disc t) (discovered s)"
    unfolding n migrateIcons_values [OF t] v by simp_all
qed

end
