(* ===== verification/Server.thy ===== *)
theory Server
  imports DnsPlan IconStore
begin

text \<open>
  \<open>internal/web\<close>, what the handlers share: the state of \<open>Server\<close>, requests and
  responses (\<open>server.go\<close>, \<open>templates.go\<close>), the fetching of favicons for an entity
  (\<open>internal/util/favicon.go\<close>: \<open>FetchAndWriteFavicon\<close>) and the invariant of the
  server's state, \<open>srv_inv\<close>.

  A handler is a function of the request and the state.  A form value that is missing is the
  empty string.  Work that the code starts in a goroutine is returned as a \<open>task\<close>, run
  later by a function of its own.  The download of a favicon,
  \<open>FetchFaviconForTarget\<close>, is the parameter \<open>fetch\<close>: the bytes, none for a
  failure, and the world after it.
\<close>

record 'w Server =
  cfg :: Config
  st :: store
  cl :: Client
  world :: 'w

record http_req =
  formOk :: bool
  form :: "string \<Rightarrow> string"
  upload :: "string option"
  pathID :: string

text \<open>The status, the message of an error, the events of the \<open>Hx-Trigger\<close> header.\<close>

record response =
  status :: int
  message :: string
  events :: "string list"

definition errorResponse :: "int \<Rightarrow> string \<Rightarrow> response" where
  "errorResponse n msg = \<lparr>status = n, message = msg, events = [''showtoast'']\<rparr>"

definition apiError :: "int \<Rightarrow> string \<Rightarrow> response" where
  "apiError n msg = \<lparr>status = n, message = msg, events = []\<rparr>"

definition toastTrigger :: "int \<Rightarrow> string \<Rightarrow> string list \<Rightarrow> response" where
  "toastTrigger n msg extraEvents =
    \<lparr>status = n, message = msg, events = [''closemodal'', ''showtoast''] @ extraEvents\<rparr>"

definition ok_response :: "string list \<Rightarrow> response" where
  "ok_response evs = \<lparr>status = 200, message = [], events = evs\<rparr>"

datatype task = FetchServiceIcon string | FetchBookmarkIcon string

type_synonym 'w fetch = "string \<Rightarrow> 'w \<Rightarrow> string \<times> 'w"

definition save :: "'w Server \<Rightarrow> 'w Server" where
  "save s = s\<lparr>st := SaveLog (st s)\<rparr>"

definition on_store :: "(store \<Rightarrow> store) \<Rightarrow> 'w Server \<Rightarrow> 'w Server" where
  "on_store f s = s\<lparr>st := f (st s)\<rparr>"

definition FetchAndWriteFavicon :: "'w fetch \<Rightarrow> string \<Rightarrow> 'w Server \<Rightarrow> bool \<times> 'w Server" where
  "FetchAndWriteFavicon fetch i s =
    (let target = GetTarget i (st s)
     in if target = [] then (False, s)
        else let (data, w) = fetch target (world s); s1 = s\<lparr>world := w\<rparr>
             in if data = [] then (False, s1)
                else case WriteIcon i data (st s1) of
                  (Inr _, t) \<Rightarrow> (True, s1\<lparr>st := t\<rparr>)
                | (Inl _, t) \<Rightarrow> (False, s1\<lparr>st := t\<rparr>))"

section \<open>The invariant of the server's state\<close>

text \<open>The key of a service in the map: a DNS label, or the synthetic key of a direct link.\<close>

definition direct_key :: "string \<Rightarrow> string" where
  "direct_key i = ''_direct_'' @ i"

definition sub_ok :: "Service \<Rightarrow> bool" where
  "sub_ok v \<longleftrightarrow> (if sDirectOnly v then sSubdomain v = direct_key (sID v) else dns_label (sSubdomain v))"

text \<open>
  A discovered entry whose container no service stands for; only Docker entries carry a
  container name.
\<close>

definition disc_apart :: "store \<Rightarrow> DiscoveredService \<Rightarrow> bool" where
  "disc_apart s d \<longleftrightarrow>
     (dContainerName d \<noteq> [] \<longrightarrow> dSource d = SourceDocker) \<and>
     (dContainerID d \<noteq> [] \<longrightarrow> containerIDIdx s (dContainerID d) = None) \<and>
     (dContainerName d \<noteq> [] \<longrightarrow> containerNameIdx s (dContainerName d) = None)"

text \<open>
  The store's invariant, the form of every subdomain, and no ID both discovered and ignored.
\<close>

definition srv_inv :: "store \<Rightarrow> bool" where
  "srv_inv s \<longleftrightarrow> store_inv s \<and> (\<forall>v \<in> set (services s). sub_ok v) \<and>
     (\<forall>i. discoveredIdx s i = None \<or> ignoredIdx s i = None)"

lemma srv_invD:
  assumes "srv_inv s"
  shows "store_inv s" "svc_inv s" "disc_inv s" "ign_inv s" "bm_inv s"
    and "v \<in> set (services s) \<Longrightarrow> sub_ok v"
    and "discoveredIdx s i = None \<or> ignoredIdx s i = None"
  using assms by (auto simp: srv_inv_def store_inv_def)

lemma srv_inv_empty [simp]: "srv_inv (empty_store dir wr)"
  by (simp add: srv_inv_def services_def GetAllServices_def discovered_def) (simp add: empty_store_def)

lemma dns_label_not_direct: "dns_label k \<Longrightarrow> k \<noteq> direct_key i"
  by (auto simp: dns_label_def label_char_def direct_key_def is_lower_def is_digit_def)

lemma direct_key_inj [simp]: "direct_key i = direct_key j \<longleftrightarrow> i = j"
  by (simp add: direct_key_def)

text \<open>An ID that no service has makes a direct key that no service has.\<close>

lemma direct_key_free:
  assumes s: "srv_inv s" and i: "idIdx s i = None"
  shows "map_of (Services s) (direct_key i) = None"
proof (rule ccontr)
  assume "map_of (Services s) (direct_key i) \<noteq> None"
  then obtain r where r: "map_of (Services s) (direct_key i) = Some r" by auto
  then have m: "r \<in> refs_of (Services s)" "sSubdomain (svcHeap s ! r) = direct_key i"
    using srv_invD(2) [OF s] by (simp_all add: sub_iff)
  then have "sub_ok (svcHeap s ! r)" using srv_invD(6) [OF s] by (simp add: set_services)
  then have "sID (svcHeap s ! r) = i"
    using m(2) dns_label_not_direct by (auto simp: sub_ok_def split: if_splits)
  then have "idIdx s i = Some r" using m(1) srv_invD(2) [OF s] by (simp add: idIdx_iff)
  with i show False by simp
qed

section \<open>Frames\<close>

text \<open>Saving and the icon files are invisible to the tables.\<close>

lemma SaveLog_cases: "SaveLog s = s \<or> SaveLog s = s\<lparr>saved := Some (snapshot s)\<rparr>"
  by (simp add: SaveLog_def Save_def)

lemma files_cases:
  "\<exists>f. snd (WriteIcon i d s) = s\<lparr>files := f\<rparr>" "\<exists>f. DeleteIcon i s = s\<lparr>files := f\<rparr>"
proof -
  show "\<exists>f. snd (WriteIcon i d s) = s\<lparr>files := f\<rparr>"
    by (rule WriteIcon_cases [of s i d]) (auto intro: exI [of _ "files s"])
  show "\<exists>f. DeleteIcon i s = s\<lparr>files := f\<rparr>"
    by (cases "safeIconPath s i") (auto simp: DeleteIcon_def intro: exI [of _ "files s"])
qed

lemma inv_files [simp]:
  "svc_inv (s\<lparr>files := f\<rparr>) = svc_inv s" "disc_inv (s\<lparr>files := f\<rparr>) = disc_inv s"
  "ign_inv (s\<lparr>files := f\<rparr>) = ign_inv s" "bm_inv (s\<lparr>files := f\<rparr>) = bm_inv s"
  "svc_inv (s\<lparr>saved := c\<rparr>) = svc_inv s" "disc_inv (s\<lparr>saved := c\<rparr>) = disc_inv s"
  "ign_inv (s\<lparr>saved := c\<rparr>) = ign_inv s" "bm_inv (s\<lparr>saved := c\<rparr>) = bm_inv s"
  by (simp_all add: svc_inv_def disc_inv_def ign_inv_def bm_inv_def)

lemma values_files [simp]:
  "services (s\<lparr>files := f\<rparr>) = services s" "discovered (s\<lparr>files := f\<rparr>) = discovered s"
  "services (s\<lparr>saved := c\<rparr>) = services s" "discovered (s\<lparr>saved := c\<rparr>) = discovered s"
  by (simp_all add: services_def GetAllServices_def discovered_def)

lemma srv_inv_files [simp]: "srv_inv (s\<lparr>files := f\<rparr>) = srv_inv s" "srv_inv (s\<lparr>saved := c\<rparr>) = srv_inv s"
  by (simp_all add: srv_inv_def store_inv_def)

lemma srv_inv_SaveLog [simp]: "srv_inv (SaveLog s) = srv_inv s"
  using SaveLog_cases [of s] by auto

lemma srv_inv_WriteIcon [simp]: "srv_inv (snd (WriteIcon i d s)) = srv_inv s"
  using files_cases(1) [of i d s] by auto

lemma srv_inv_DeleteIcon [simp]: "srv_inv (DeleteIcon i s) = srv_inv s"
  using files_cases(2) [of i s] by auto

text \<open>What saving and icons leave alone, field by field.\<close>

lemma SaveLog_simps [simp]:
  "svcHeap (SaveLog s) = svcHeap s" "Services (SaveLog s) = Services s" "idIdx (SaveLog s) = idIdx s"
  "containerIDIdx (SaveLog s) = containerIDIdx s" "containerNameIdx (SaveLog s) = containerNameIdx s"
  "bmHeap (SaveLog s) = bmHeap s" "Bookmarks (SaveLog s) = Bookmarks s" "bookmarkIdx (SaveLog s) = bookmarkIdx s"
  "discHeap (SaveLog s) = discHeap s" "Discovered (SaveLog s) = Discovered s"
  "discoveredIdx (SaveLog s) = discoveredIdx s" "discoveredContainerIdx (SaveLog s) = discoveredContainerIdx s"
  "Ignored (SaveLog s) = Ignored s" "ignoredIdx (SaveLog s) = ignoredIdx s" "files (SaveLog s) = files s"
  "iconDir (SaveLog s) = iconDir s" "writable (SaveLog s) = writable s" "path (SaveLog s) = path s"
  "DDNSDomains (SaveLog s) = DDNSDomains s" "PublicIP (SaveLog s) = PublicIP s" "Tunnel (SaveLog s) = Tunnel s"
  using SaveLog_cases [of s] by auto

lemma ReadIcon_SaveLog [simp]: "ReadIcon i (SaveLog s) = ReadIcon i s"
proof -
  have "safeIconPath (SaveLog s) i = safeIconPath s i" by (simp add: safeIconPath_def)
  then show ?thesis by (cases "safeIconPath s i") (simp_all add: ReadIcon_def)
qed

lemma WriteIcon_simps [simp]:
  "svcHeap (snd (WriteIcon i d s)) = svcHeap s" "Services (snd (WriteIcon i d s)) = Services s"
  "idIdx (snd (WriteIcon i d s)) = idIdx s" "containerIDIdx (snd (WriteIcon i d s)) = containerIDIdx s"
  "containerNameIdx (snd (WriteIcon i d s)) = containerNameIdx s"
  "discHeap (snd (WriteIcon i d s)) = discHeap s" "Discovered (snd (WriteIcon i d s)) = Discovered s"
  "discoveredIdx (snd (WriteIcon i d s)) = discoveredIdx s" "ignoredIdx (snd (WriteIcon i d s)) = ignoredIdx s"
  "discoveredContainerIdx (snd (WriteIcon i d s)) = discoveredContainerIdx s"
  "iconDir (snd (WriteIcon i d s)) = iconDir s" "writable (snd (WriteIcon i d s)) = writable s"
  using files_cases(1) [of i d s] by auto

lemma DeleteIcon_simps [simp]:
  "svcHeap (DeleteIcon i s) = svcHeap s" "Services (DeleteIcon i s) = Services s"
  "idIdx (DeleteIcon i s) = idIdx s" "containerIDIdx (DeleteIcon i s) = containerIDIdx s"
  "containerNameIdx (DeleteIcon i s) = containerNameIdx s"
  "discHeap (DeleteIcon i s) = discHeap s" "Discovered (DeleteIcon i s) = Discovered s"
  "discoveredIdx (DeleteIcon i s) = discoveredIdx s" "ignoredIdx (DeleteIcon i s) = ignoredIdx s"
  "discoveredContainerIdx (DeleteIcon i s) = discoveredContainerIdx s"
  "iconDir (DeleteIcon i s) = iconDir s"
  using files_cases(2) [of i s] by auto

lemma lookups_frame [simp]:
  "serviceByID (SaveLog s) = serviceByID s" "serviceBySubdomain (SaveLog s) = serviceBySubdomain s"
  "discoveredByID (SaveLog s) = discoveredByID s" "bookmarkByID (SaveLog s) = bookmarkByID s"
  "serviceByID (snd (WriteIcon i d s)) = serviceByID s" "serviceByID (DeleteIcon i s) = serviceByID s"
  "serviceBySubdomain (snd (WriteIcon i d s)) = serviceBySubdomain s"
  "serviceBySubdomain (DeleteIcon i s) = serviceBySubdomain s"
  "discoveredByID (snd (WriteIcon i d s)) = discoveredByID s" "discoveredByID (DeleteIcon i s) = discoveredByID s"
  by (simp_all add: fun_eq_iff serviceByID_def GetServiceByID_def serviceBySubdomain_def GetServiceBySubdomain_def
      discoveredByID_def GetDiscoveredByID_def bookmarkByID_def GetBookmarkByID_def)

end
