(* ===== verification/WebServices.thy ===== *)
theory WebServices
  imports Server
begin

text \<open>
  \<open>internal/web/handle_services.go\<close>: the handlers that create, update and delete services
  and set their icons, and the background fetch of an icon.  The random bytes of a new ID and
  the time are arguments.
\<close>

section \<open>Creating\<close>

definition ToastAdded :: "string list" where
  "ToastAdded = [''refreshServicesTable'', ''refreshDiscovered'']"

text \<open>The icon part of the form: \<open>io.LimitReader\<close> cuts it at 512 KB; an empty file is no file.\<close>

definition uploadedIconData :: "http_req \<Rightarrow> string" where
  "uploadedIconData rq = (case upload rq of Some data \<Rightarrow> take (512 * 1024) data | None \<Rightarrow> [])"

text \<open>What a discovered entry, or the form without one, gives to the new service.\<close>

record draft =
  wTarget :: string
  wName :: string
  wSource :: string
  wContainerID :: string
  wContainerName :: string
  wIcon :: string

definition discovered_target :: "DiscoveredService \<Rightarrow> string" where
  "discovered_target d = port_scheme (dPort d) @ ''://'' @ dIP d @ '':'' @ Itoa (dPort d)"

definition draft_of :: "http_req \<Rightarrow> store \<Rightarrow> draft option" where
  "draft_of rq s =
    (if form rq ''discovered_id'' = [] then
       Some \<lparr>wTarget = form rq ''target'', wName = form rq ''name'', wSource = SourceManual,
             wContainerID = [], wContainerName = [], wIcon = []\<rparr>
     else case GetDiscoveredByID (form rq ''discovered_id'') s of
       None \<Rightarrow> None
     | Some r \<Rightarrow> let disc = discHeap s ! r in
         Some \<lparr>wTarget = discovered_target disc,
               wName = (if form rq ''name'' = [] then dTitle disc else form rq ''name''), wSource = dSource disc,
               wContainerID = dContainerID disc, wContainerName = dContainerName disc, wIcon = dIcon disc\<rparr>)"

definition maxOrder :: "store \<Rightarrow> int" where
  "maxOrder s = fold (\<lambda>r m. if sOrder (svcHeap s ! r) > m then sOrder (svcHeap s ! r) else m) (GetAllServices s) 0"

text \<open>The object the handler builds, before DNS and icon are settled.\<close>

definition new_service :: "http_req \<Rightarrow> draft \<Rightarrow> string \<Rightarrow> time \<Rightarrow> store \<Rightarrow> Service" where
  "new_service rq w svcID now s =
    (let sub = SanitiseSubdomain (form rq ''subdomain''); direct = ParseFormBool (form rq ''direct_only'')
     in \<lparr>sID = svcID, sName = (if wName w = [] then sub else wName w),
         sSubdomain = (if direct then direct_key svcID else sub), sTarget = wTarget w,
         sIcon = (if uploadedIconData rq \<noteq> [] then IconFile else wIcon w),
         sCategory = form rq ''category'', sOrder = maxOrder s + 1, sSource = wSource w,
         sContainerID = wContainerID w, sContainerName = wContainerName w,
         sDNSRecordID = [], sTunnelRouteID = [],
         sSkipHealth = ParseFormBool (form rq ''skip_health''), sDirectOnly = direct, sCreatedAt = now\<rparr>)"

definition direct_state :: dnsState where
  "direct_state = \<lparr>nSubdomain = [], nTarget = [], nDirectOnly = True, nTunnel = False, nDNSRecordID = [],
     nTunnelRouteID = []\<rparr>"

definition want_state :: "http_req \<Rightarrow> Service \<Rightarrow> dnsState" where
  "want_state rq v = \<lparr>nSubdomain = sSubdomain v, nTarget = sTarget v, nDirectOnly = sDirectOnly v,
     nTunnel = ParseFormBool (form rq ''tunnel''), nDNSRecordID = [], nTunnelRouteID = []\<rparr>"

text \<open>
  The last part: write the uploaded icon, store the service, copy the icon of the discovered
  entry and remove the entry.
\<close>

definition write_upload :: "http_req \<Rightarrow> Service \<Rightarrow> store \<Rightarrow> Service \<times> store" where
  "write_upload rq v s =
    (if uploadedIconData rq \<noteq> [] then
       (case WriteIcon (sID v) (uploadedIconData rq) s of
          (Inr _, s) \<Rightarrow> (v, s) | (Inl _, s) \<Rightarrow> (v\<lparr>sIcon := []\<rparr>, s))
     else (v, s))"

definition copy_icon :: "string \<Rightarrow> string \<Rightarrow> string \<Rightarrow> store \<Rightarrow> store" where
  "copy_icon icon did svcID s =
    (if icon = IconFile then
       (case ReadIcon did s of Inr data \<Rightarrow> snd (WriteIcon svcID data s) | Inl _ \<Rightarrow> s)
     else s)"

definition store_service :: "http_req \<Rightarrow> draft \<Rightarrow> Service \<Rightarrow> store \<Rightarrow> store" where
  "store_service rq w v s =
    (let (v, s) = write_upload rq v s;
         s = insertService v s;
         did = form rq ''discovered_id''
     in if did = [] then s else RemoveDiscovered did (copy_icon (wIcon w) did (sID v) s))"

definition createService :: "'w http \<Rightarrow> nat list \<Rightarrow> time \<Rightarrow> http_req \<Rightarrow> 'w Server \<Rightarrow> response \<times> 'w Server \<times> task list" where
  "createService http rand8 now rq s =
    (let sub = SanitiseSubdomain (form rq ''subdomain'');
         direct = ParseFormBool (form rq ''direct_only'')
     in if \<not> formOk rq then (errorResponse 400 ''invalid form data'', s, [])
        else if \<not> direct \<and> sub = [] then (errorResponse 400 ''subdomain is required'', s, [])
        else if \<not> direct \<and> GetServiceBySubdomain sub (st s) \<noteq> None
        then (errorResponse 409 ''subdomain already assigned'', s, [])
        else case draft_of rq (st s) of
          None \<Rightarrow> (errorResponse 404 ''discovered service not found'', s, [])
        | Some w \<Rightarrow>
            if wTarget w = [] then (errorResponse 400 ''target is required'', s, [])
            else
              let svcID = NewID rand8;
                  v = new_service rq w svcID now (st s);
                  ((dnsID, route), w') = reconcileDNS http (cfg s) (cl s) direct_state (want_state rq v) (world s);
                  v = v\<lparr>sDNSRecordID := dnsID, sTunnelRouteID := route\<rparr>;
                  t = store_service rq w v (st s);
                  s' = save (s\<lparr>st := t, world := w'\<rparr>);
                  icon = (case GetServiceByID svcID t of Some r \<Rightarrow> sIcon (svcHeap t ! r) | None \<Rightarrow> [])
              in (toastTrigger 204 ''Service added'' ToastAdded, s',
                  if icon = [] then [FetchServiceIcon svcID] else []))"

section \<open>Updating\<close>

text \<open>A form field that counts only when its \<open>_present\<close> companion is set.\<close>

definition present_bool :: "http_req \<Rightarrow> string \<Rightarrow> bool option" where
  "present_bool rq k = (if form rq (k @ ''_present'') = ''1'' then Some (ParseFormBool (form rq k)) else None)"

definition or_else :: "'a option \<Rightarrow> 'a \<Rightarrow> 'a" where
  "or_else x0 d = (case x0 of Some x \<Rightarrow> x | None \<Rightarrow> d)"

text \<open>\<open>cmp.Or\<close> on two strings.\<close>

definition cmp_Or :: "string \<Rightarrow> string \<Rightarrow> string" where
  "cmp_Or a b = (if a \<noteq> [] then a else b)"

definition updated_service :: "http_req \<Rightarrow> Service \<Rightarrow> Service" where
  "updated_service rq v =
    (let icon = (if form rq ''icon_present'' = ''1'' then form rq ''icon'' else sIcon v);
         skip = or_else (present_bool rq ''skip_health'') (sSkipHealth v);
         direct = or_else (present_bool rq ''direct_only'') (sDirectOnly v);
         newSub = (if direct then (if sDirectOnly v then sSubdomain v else direct_key (sID v))
                   else let k = SanitiseSubdomain (form rq ''subdomain'') in if k = [] then sSubdomain v else k)
     in \<lparr>sID = sID v, sName = cmp_Or (form rq ''name'') (sName v), sSubdomain = newSub,
         sTarget = cmp_Or (form rq ''target'') (sTarget v), sIcon = icon, sCategory = form rq ''category'',
         sOrder = sOrder v, sSource = sSource v, sContainerID = sContainerID v, sContainerName = sContainerName v,
         sDNSRecordID = [], sTunnelRouteID = [], sSkipHealth = skip, sDirectOnly = direct,
         sCreatedAt = sCreatedAt v\<rparr>)"

definition old_state :: "Service \<Rightarrow> dnsState" where
  "old_state v = \<lparr>nSubdomain = sSubdomain v, nTarget = sTarget v, nDirectOnly = sDirectOnly v,
     nTunnel = (sTunnelRouteID v \<noteq> []), nDNSRecordID = sDNSRecordID v, nTunnelRouteID = sTunnelRouteID v\<rparr>"

definition update_want :: "http_req \<Rightarrow> Service \<Rightarrow> Service \<Rightarrow> dnsState" where
  "update_want rq v u = \<lparr>nSubdomain = sSubdomain u, nTarget = sTarget u, nDirectOnly = sDirectOnly u,
     nTunnel = or_else (present_bool rq ''tunnel'') (sTunnelRouteID v \<noteq> []), nDNSRecordID = [], nTunnelRouteID = []\<rparr>"

definition updateService :: "'w http \<Rightarrow> http_req \<Rightarrow> 'w Server \<Rightarrow> response \<times> 'w Server" where
  "updateService http rq s = (case GetServiceByID (pathID rq) (st s) of
      None \<Rightarrow> (errorResponse 404 ''service not found'', s)
    | Some r \<Rightarrow>
        if \<not> formOk rq then (errorResponse 400 ''invalid form data'', s)
        else
          let v = svcHeap (st s) ! r;
              u = updated_service rq v;
              ((dnsID, route), w') = reconcileDNS http (cfg s) (cl s) (old_state v) (update_want rq v u) (world s);
              (q, t) = newService (u\<lparr>sDNSRecordID := dnsID, sTunnelRouteID := route\<rparr>) (st s)
          in (toastTrigger 204 ''Service updated'' [''refreshServicesTable''],
              save (s\<lparr>st := snd (UpdateService (pathID rq) q t), world := w'\<rparr>)))"

section \<open>Deleting\<close>

text \<open>The entry that stands for the container of a deleted service.\<close>

definition rediscovered :: "Service \<Rightarrow> string \<Rightarrow> time \<Rightarrow> DiscoveredService" where
  "rediscovered v i now = \<lparr>dID = i, dIP = [], dPort = 0, dTitle = sName v, dIcon = [], dServiceName = [],
     dConfidence = 0, dSource = SourceDocker, dContainerName = sContainerName v, dContainerID = sContainerID v,
     dSuggestedSubdomain = [], dDiscoveredAt = now\<rparr>"

definition deleteService :: "'w http \<Rightarrow> nat list \<Rightarrow> time \<Rightarrow> http_req \<Rightarrow> 'w Server \<Rightarrow> response \<times> 'w Server" where
  "deleteService http rand8 now rq s = (case GetServiceByID (pathID rq) (st s) of
      None \<Rightarrow> (ok_response [], s)
    | Some r \<Rightarrow>
        let v = svcHeap (st s) ! r;
            ((_, dnsID, tunnelRoute), t) = DeleteService (pathID rq) (st s);
            w' = (if tunnelRoute \<noteq> [] then logged (RemoveTunnelRoute http (cl s) tunnelRoute dnsID) (world s)
                  else if dnsID \<noteq> [] then logged (DeleteRecord http (cl s) dnsID) (world s)
                  else world s);
            again = (sSource v = SourceDocker \<and> sContainerID v \<noteq> []);
            t = (if again then let (q, t) = newDiscovered (rediscovered v (NewID rand8) now) t in AddDiscovered q t
                 else t)
        in (ok_response (if again then [''refreshDiscovered''] else []),
            save (s\<lparr>st := DeleteIcon (pathID rq) t, world := w'\<rparr>)))"

section \<open>Icons\<close>

definition set_icon :: "string \<Rightarrow> ref \<Rightarrow> store \<Rightarrow> store" where
  "set_icon icon r s = (let v = svcHeap s ! r; (q, t) = newService (v\<lparr>sIcon := icon\<rparr>) s
     in snd (UpdateService (sID v) q t))"

definition applyServiceIcon :: "ref \<Rightarrow> string \<Rightarrow> 'w Server \<Rightarrow> response \<times> 'w Server" where
  "applyServiceIcon r icon s = (ok_response [], save (s\<lparr>st := set_icon icon r (st s)\<rparr>))"

text \<open>\<open>upload\<close> is the \<open>icon\<close> file of a form within the limit of 512 KB.\<close>

definition uploadServiceIcon :: "http_req \<Rightarrow> 'w Server \<Rightarrow> response \<times> 'w Server" where
  "uploadServiceIcon rq s = (case GetServiceByID (pathID rq) (st s) of
      None \<Rightarrow> (apiError 404 ''service not found'', s)
    | Some r \<Rightarrow>
        if \<not> formOk rq then (apiError 400 ''file too large or invalid'', s)
        else case upload rq of
          None \<Rightarrow> (apiError 400 ''icon file required'', s)
        | Some file \<Rightarrow>
            if file = [] then (apiError 400 ''could not read file'', s)
            else case WriteIcon (pathID rq) (take (512 * 1024) file) (st s) of
              (Inl _, t) \<Rightarrow> (apiError 500 ''could not save icon'', s\<lparr>st := t\<rparr>)
            | (Inr _, t) \<Rightarrow> applyServiceIcon r IconFile (s\<lparr>st := t\<rparr>))"

definition clearServiceIcon :: "http_req \<Rightarrow> 'w Server \<Rightarrow> response \<times> 'w Server" where
  "clearServiceIcon rq s = (case GetServiceByID (pathID rq) (st s) of
      None \<Rightarrow> (apiError 404 ''service not found'', s)
    | Some r \<Rightarrow> applyServiceIcon r [] (on_store (DeleteIcon (pathID rq)) s))"

definition pullServiceFavicon :: "'w fetch \<Rightarrow> http_req \<Rightarrow> 'w Server \<Rightarrow> response \<times> 'w Server" where
  "pullServiceFavicon fetch rq s = (case GetServiceByID (pathID rq) (st s) of
      None \<Rightarrow> (apiError 404 ''service not found'', s)
    | Some r \<Rightarrow>
        let (data, w') = fetch (sTarget (svcHeap (st s) ! r)) (world s); s = s\<lparr>world := w'\<rparr>
        in if data = [] then (errorResponse 422 ''no favicon found'', s)
           else case WriteIcon (pathID rq) data (st s) of
             (Inl _, t) \<Rightarrow> (errorResponse 500 ''could not save favicon'', s\<lparr>st := t\<rparr>)
           | (Inr _, t) \<Rightarrow> applyServiceIcon r IconFile (s\<lparr>st := t\<rparr>))"

text \<open>The goroutine that \<open>createService\<close> starts.\<close>

definition fetchServiceIcon :: "'w fetch \<Rightarrow> string \<Rightarrow> 'w Server \<Rightarrow> 'w Server" where
  "fetchServiceIcon fetch i s = (case FetchAndWriteFavicon fetch i s of
      (False, s1) \<Rightarrow> s1
    | (True, s1) \<Rightarrow> (case GetServiceByID i (st s1) of
          None \<Rightarrow> s1
        | Some r \<Rightarrow>
            let (q, t) = newService ((svcHeap (st s1) ! r)\<lparr>sIcon := IconFile\<rparr>) (st s1)
            in save (s1\<lparr>st := snd (UpdateService i q t)\<rparr>)))"

end
