(* ===== verification/WebServiceLaws.thy ===== *)
theory WebServiceLaws
  imports WebServices
begin

text \<open>
  What the service handlers guarantee: the answers and the unchanged state of every error
  branch, the lookups after a creation, an update and a deletion, and the preservation of
  \<open>srv_inv\<close>.
\<close>

section \<open>Frames of the service table\<close>

lemma AddService_frame [simp]:
  "discHeap (AddService r s) = discHeap s" "Discovered (AddService r s) = Discovered s"
  "discoveredIdx (AddService r s) = discoveredIdx s" "discoveredContainerIdx (AddService r s) = discoveredContainerIdx s"
  "Ignored (AddService r s) = Ignored s" "ignoredIdx (AddService r s) = ignoredIdx s"
  "ignoredIPPortIdx (AddService r s) = ignoredIPPortIdx s" "bmHeap (AddService r s) = bmHeap s"
  "Bookmarks (AddService r s) = Bookmarks s" "bookmarkIdx (AddService r s) = bookmarkIdx s"
  "files (AddService r s) = files s" "iconDir (AddService r s) = iconDir s" "writable (AddService r s) = writable s"
  by (simp_all add: AddService_def indexService_def Let_def)

lemma detach_frame [simp]:
  "discHeap (detach r s) = discHeap s" "Discovered (detach r s) = Discovered s"
  "discoveredIdx (detach r s) = discoveredIdx s" "discoveredContainerIdx (detach r s) = discoveredContainerIdx s"
  "Ignored (detach r s) = Ignored s" "ignoredIdx (detach r s) = ignoredIdx s"
  "ignoredIPPortIdx (detach r s) = ignoredIPPortIdx s" "bmHeap (detach r s) = bmHeap s"
  "Bookmarks (detach r s) = Bookmarks s" "bookmarkIdx (detach r s) = bookmarkIdx s"
  "files (detach r s) = files s" "iconDir (detach r s) = iconDir s"
  by (simp_all add: detach_def unindexService_def Let_def)

lemma other_inv_frame:
  assumes "discHeap t = discHeap s" "Discovered t = Discovered s" "discoveredIdx t = discoveredIdx s"
    "discoveredContainerIdx t = discoveredContainerIdx s" "Ignored t = Ignored s" "ignoredIdx t = ignoredIdx s"
    "ignoredIPPortIdx t = ignoredIPPortIdx s" "bmHeap t = bmHeap s" "Bookmarks t = Bookmarks s"
    "bookmarkIdx t = bookmarkIdx s"
  shows "disc_inv t = disc_inv s" "ign_inv t = ign_inv s" "bm_inv t = bm_inv s"
  using assms by (simp_all add: disc_inv_def ign_inv_def bm_inv_def)

lemma drop_disc_frame [simp]:
  "svcHeap (drop_disc r s) = svcHeap s" "Services (drop_disc r s) = Services s" "idIdx (drop_disc r s) = idIdx s"
  "containerIDIdx (drop_disc r s) = containerIDIdx s" "containerNameIdx (drop_disc r s) = containerNameIdx s"
  "bmHeap (drop_disc r s) = bmHeap s" "Bookmarks (drop_disc r s) = Bookmarks s"
  "bookmarkIdx (drop_disc r s) = bookmarkIdx s" "Ignored (drop_disc r s) = Ignored s"
  "ignoredIdx (drop_disc r s) = ignoredIdx s" "ignoredIPPortIdx (drop_disc r s) = ignoredIPPortIdx s"
  by (simp_all add: drop_disc_def unindexDiscovered_def Let_def)

lemma RemoveDiscovered_frame [simp]:
  "svcHeap (RemoveDiscovered i s) = svcHeap s" "Services (RemoveDiscovered i s) = Services s"
  "idIdx (RemoveDiscovered i s) = idIdx s" "containerIDIdx (RemoveDiscovered i s) = containerIDIdx s"
  "containerNameIdx (RemoveDiscovered i s) = containerNameIdx s" "bmHeap (RemoveDiscovered i s) = bmHeap s"
  "Bookmarks (RemoveDiscovered i s) = Bookmarks s" "bookmarkIdx (RemoveDiscovered i s) = bookmarkIdx s"
  "Ignored (RemoveDiscovered i s) = Ignored s" "ignoredIdx (RemoveDiscovered i s) = ignoredIdx s"
  "ignoredIPPortIdx (RemoveDiscovered i s) = ignoredIPPortIdx s" "files (RemoveDiscovered i s) = files s"
  "iconDir (RemoveDiscovered i s) = iconDir s"
  by (simp_all add: RemoveDiscovered_def unindexDiscovered_def Let_def split: option.split)

lemma svc_inv_frame:
  assumes "svcHeap t = svcHeap s" "Services t = Services s" "idIdx t = idIdx s"
    "containerIDIdx t = containerIDIdx s" "containerNameIdx t = containerNameIdx s"
  shows "svc_inv t = svc_inv s" "services t = services s" "serviceByID t = serviceByID s"
proof -
  show "svc_inv t = svc_inv s" "services t = services s"
    using assms by (simp_all add: svc_inv_def services_def GetAllServices_def)
  show "serviceByID t = serviceByID s"
    by (rule ext) (simp add: serviceByID_def GetServiceByID_def assms)
qed

lemma serviceByID_files [simp]: "serviceByID (s\<lparr>files := f\<rparr>) = serviceByID s"
  by (rule svc_inv_frame(3)) simp_all

lemma serviceByID_RemoveDiscovered [simp]:
  "services (RemoveDiscovered i s) = services s" "serviceByID (RemoveDiscovered i s) = serviceByID s"
  by (rule svc_inv_frame; simp)+

section \<open>Inserting and removing a service under the server's invariant\<close>

lemma services_insert:
  assumes "svc_inv s" and "svc_free v s"
  shows "set (services (insertService v s)) = insert v (set (services s))"
proof -
  have i: "svc_inv (insertService v s)" by (rule svc_inv_insertService [OF assms])
  have "x \<in> set (services (insertService v s)) \<longleftrightarrow> x \<in> insert v (set (services s))" for x
  proof -
    have "x \<in> set (services (insertService v s)) \<longleftrightarrow> serviceByID (insertService v s) (sID x) = Some x"
      by (simp add: serviceByID_iff [OF i])
    also have "\<dots> \<longleftrightarrow> (if sID x = sID v then v = x else x \<in> set (services s))"
      by (auto simp: serviceByID_insert [OF assms] serviceByID_iff [OF assms(1)])
    also have "\<dots> \<longleftrightarrow> x \<in> insert v (set (services s))"
      using svc_table.free_id [OF assms] serviceByID_iff [OF assms(1), of "sID v" x] by auto
    finally show ?thesis .
  qed
  then show ?thesis by blast
qed

lemma services_delete:
  assumes "svc_inv s"
  shows "set (services (snd (DeleteService i s))) = {v \<in> set (services s). sID v \<noteq> i}"
proof -
  have i: "svc_inv (snd (DeleteService i s))" by (rule svc_inv_DeleteService [OF assms])
  have "x \<in> set (services (snd (DeleteService i s))) \<longleftrightarrow> x \<in> set (services s) \<and> sID x \<noteq> i" for x
  proof -
    have "x \<in> set (services (snd (DeleteService i s))) \<longleftrightarrow> serviceByID (snd (DeleteService i s)) (sID x) = Some x"
      by (simp add: serviceByID_iff [OF i])
    then show ?thesis
      using serviceByID_iff [OF assms, of "sID x" x] by (simp add: serviceByID_delete [OF assms])
  qed
  then show ?thesis by blast
qed

lemma srv_inv_insert:
  assumes s: "srv_inv s" and f: "svc_free v s" and k: "sub_ok v"
  shows "srv_inv (insertService v s)"
proof -
  note d = srv_invD [OF s]
  have "disc_inv (insertService v s) = disc_inv s" "ign_inv (insertService v s) = ign_inv s"
    "bm_inv (insertService v s) = bm_inv s"
    by (rule other_inv_frame; simp add: insertService_eq)+
  moreover have "discoveredIdx (insertService v s) = discoveredIdx s" "ignoredIdx (insertService v s) = ignoredIdx s"
    by (simp_all add: insertService_eq)
  ultimately show ?thesis
    using d(3-5,7) srv_invD(6) [OF s] k svc_inv_insertService [OF d(2) f]
    by (simp add: srv_inv_def store_inv_def services_insert [OF d(2) f])
qed

lemma srv_inv_RemoveDiscovered: "srv_inv s \<Longrightarrow> srv_inv (RemoveDiscovered i s)"
proof -
  assume s: "srv_inv s"
  note d = srv_invD [OF s]
  have "discoveredIdx (RemoveDiscovered i s) j = None \<or> ignoredIdx s j = None" for j
    using d(7) [of j] d(3) by (auto simp: RemoveDiscovered_eq drop_disc_def split: option.split)
  moreover have "svc_inv (RemoveDiscovered i s) = svc_inv s" by (rule svc_inv_frame) simp_all
  moreover have "ign_inv (RemoveDiscovered i s) = ign_inv s" by (simp add: ign_inv_def)
  moreover have "bm_inv (RemoveDiscovered i s) = bm_inv s" by (simp add: bm_inv_def)
  ultimately show ?thesis
    using d disc_inv_RemoveDiscovered [OF d(3)] by (simp add: srv_inv_def store_inv_def)
qed

section \<open>Creation\<close>

text \<open>The stored service of a creation: icons aside, the object that the handler built.\<close>

lemma write_upload_cases:
  obtains f where "write_upload rq v s = (v, s\<lparr>files := f\<rparr>)"
  | "write_upload rq v s = (v\<lparr>sIcon := []\<rparr>, s)" "uploadedIconData rq \<noteq> []"
proof (cases "uploadedIconData rq = []")
  case True
  then show thesis by (intro that(1) [of "files s"]) (simp add: write_upload_def)
next
  case False
  show thesis
  proof (rule WriteIcon_cases [of s "sID v" "uploadedIconData rq"])
    fix p assume "WriteIcon (sID v) (uploadedIconData rq) s = (Inr (), s\<lparr>files := (files s)(p \<mapsto> uploadedIconData rq)\<rparr>)"
    with False show thesis by (intro that(1) [of "(files s)(p \<mapsto> uploadedIconData rq)"]) (simp add: write_upload_def)
  next
    fix e assume "WriteIcon (sID v) (uploadedIconData rq) s = (Inl e, s)"
    with False show thesis by (intro that(2)) (simp_all add: write_upload_def)
  qed
qed

lemma copy_icon_files: "\<exists>g. copy_icon icon did i s = s\<lparr>files := g\<rparr>"
proof (cases "icon = IconFile \<and> (\<exists>data. ReadIcon did s = Inr data)")
  case True
  then obtain data where "copy_icon icon did i s = snd (WriteIcon i data s)" by (auto simp: copy_icon_def)
  then show ?thesis using files_cases(1) [of i data s] by simp
next
  case False
  then have "copy_icon icon did i s = s" by (auto simp: copy_icon_def split: sum.split)
  then show ?thesis by (intro exI [of _ "files s"]) simp
qed

lemma store_service_cases:
  obtains f g v1 where "v1 \<in> {v, v\<lparr>sIcon := []\<rparr>}"
    "store_service rq w v s =
      (if form rq ''discovered_id'' = [] then insertService v1 (s\<lparr>files := f\<rparr>)
       else RemoveDiscovered (form rq ''discovered_id'') ((insertService v1 (s\<lparr>files := f\<rparr>))\<lparr>files := g\<rparr>))"
proof -
  have "\<exists>f v1. write_upload rq v s = (v1, s\<lparr>files := f\<rparr>) \<and> v1 \<in> {v, v\<lparr>sIcon := []\<rparr>}"
  proof (rule write_upload_cases [of rq v s])
    fix f assume "write_upload rq v s = (v, s\<lparr>files := f\<rparr>)"
    then show ?thesis by blast
  next
    assume "write_upload rq v s = (v\<lparr>sIcon := []\<rparr>, s)"
    then show ?thesis by (intro exI [of _ "files s"] exI [of _ "v\<lparr>sIcon := []\<rparr>"]) simp
  qed
  then obtain f v1 where 1: "write_upload rq v s = (v1, s\<lparr>files := f\<rparr>)" "v1 \<in> {v, v\<lparr>sIcon := []\<rparr>}"
    by blast
  obtain g where "copy_icon (wIcon w) (form rq ''discovered_id'') (sID v1) (insertService v1 (s\<lparr>files := f\<rparr>))
      = (insertService v1 (s\<lparr>files := f\<rparr>))\<lparr>files := g\<rparr>"
    using copy_icon_files by blast
  then have "store_service rq w v s =
      (if form rq ''discovered_id'' = [] then insertService v1 (s\<lparr>files := f\<rparr>)
       else RemoveDiscovered (form rq ''discovered_id'') ((insertService v1 (s\<lparr>files := f\<rparr>))\<lparr>files := g\<rparr>))"
    by (simp add: store_service_def 1(1) Let_def)
  with 1(2) show thesis by (rule that)
qed

text \<open>The requests that \<open>createService\<close> accepts.\<close>

definition create_accepts :: "http_req \<Rightarrow> store \<Rightarrow> draft \<Rightarrow> bool" where
  "create_accepts rq s w \<longleftrightarrow> formOk rq \<and>
     (\<not> ParseFormBool (form rq ''direct_only'') \<longrightarrow> GetServiceBySubdomain (SanitiseSubdomain (form rq ''subdomain'')) s = None) \<and>
     draft_of rq s = Some w \<and> wTarget w \<noteq> []"

lemma createService_reject:
  assumes "\<nexists>w. create_accepts rq (st s) w"
  shows "\<exists>resp. createService http rand8 now rq s = (resp, s, []) \<and> status resp \<in> {400, 404, 409}"
  using assms by (auto simp: createService_def create_accepts_def Let_def errorResponse_def split: option.split)

text \<open>The service that an accepted request stores, before its icon is written.\<close>

definition created :: "'w http \<Rightarrow> nat list \<Rightarrow> time \<Rightarrow> http_req \<Rightarrow> draft \<Rightarrow> 'w Server \<Rightarrow> Service" where
  "created http rand8 now rq w s =
    (let v = new_service rq w (NewID rand8) now (st s);
         ids = fst (reconcileDNS http (cfg s) (cl s) direct_state (want_state rq v) (world s))
     in v\<lparr>sDNSRecordID := fst ids, sTunnelRouteID := snd ids\<rparr>)"

lemma createService_accept:
  assumes "create_accepts rq (st s) w"
  shows "\<exists>tasks w'. createService http rand8 now rq s = (toastTrigger 204 ''Service added'' ToastAdded,
    save (s\<lparr>st := store_service rq w (created http rand8 now rq w s) (st s), world := w'\<rparr>), tasks) \<and>
    w' = snd (reconcileDNS http (cfg s) (cl s) direct_state
      (want_state rq (new_service rq w (NewID rand8) now (st s))) (world s))"
  using assms by (auto simp: createService_def create_accepts_def Let_def created_def split: prod.splits)

lemma created_simps [simp]:
  "sID (created http rand8 now rq w s) = NewID rand8"
  "sContainerID (created http rand8 now rq w s) = wContainerID w"
  "sContainerName (created http rand8 now rq w s) = wContainerName w"
  "sSource (created http rand8 now rq w s) = wSource w"
  "sTarget (created http rand8 now rq w s) = wTarget w"
  "sDirectOnly (created http rand8 now rq w s) = ParseFormBool (form rq ''direct_only'')"
  "sSubdomain (created http rand8 now rq w s) =
    (if ParseFormBool (form rq ''direct_only'') then direct_key (NewID rand8)
     else SanitiseSubdomain (form rq ''subdomain''))"
  by (simp_all add: created_def new_service_def Let_def)

lemma sub_ok_created: "sub_ok (created http rand8 now rq w s)"
  by (simp add: sub_ok_def SanitiseSubdomain_dns_label)

lemma svc_free_created:
  assumes s: "srv_inv (st s)" and a: "create_accepts rq (st s) w" and f: "idIdx (st s) (NewID rand8) = None"
    and d: "\<And>r. GetDiscoveredByID (form rq ''discovered_id'') (st s) = Some r \<Longrightarrow> disc_apart (st s) (discHeap (st s) ! r)"
  shows "svc_free (created http rand8 now rq w s) (st s)"
proof -
  have k: "map_of (Services (st s)) (sSubdomain (created http rand8 now rq w s)) = None"
    using a direct_key_free [OF s f] by (auto simp: create_accepts_def GetServiceBySubdomain_def)
  have "(wContainerName w \<noteq> [] \<longrightarrow> wSource w = SourceDocker) \<and>
      (wContainerID w \<noteq> [] \<longrightarrow> containerIDIdx (st s) (wContainerID w) = None) \<and>
      (wContainerName w \<noteq> [] \<longrightarrow> containerNameIdx (st s) (wContainerName w) = None)"
    using a d by (auto simp: create_accepts_def draft_of_def Let_def disc_apart_def split: if_splits option.splits)
  with k f show ?thesis by (simp add: svc_free_def wf_service_def)
qed

lemma svc_free_icon [simp]: "svc_free (v\<lparr>sIcon := x\<rparr>) s = svc_free v s" "sub_ok (v\<lparr>sIcon := x\<rparr>) = sub_ok v"
  "svc_free v (s\<lparr>files := f\<rparr>) = svc_free v s"
  by (simp_all add: svc_free_def wf_service_def sub_ok_def)

text \<open>
  An accepted request: the new service is found under its new ID and is what the handler
  built (the icon aside), every other service is as before, the discovered entry is gone,
  and the invariant holds.
\<close>

lemma createService_effect:
  assumes s: "srv_inv (st s)" and a: "create_accepts rq (st s) w" and f: "idIdx (st s) (NewID rand8) = None"
    and d: "\<And>r. GetDiscoveredByID (form rq ''discovered_id'') (st s) = Some r \<Longrightarrow> disc_apart (st s) (discHeap (st s) ! r)"
    and c: "createService http rand8 now rq s = (resp, s', tasks)"
  shows "srv_inv (st s')" and "status resp = 204"
    and "\<exists>icon. serviceByID (st s') (NewID rand8) = Some ((created http rand8 now rq w s)\<lparr>sIcon := icon\<rparr>)"
    and "i \<noteq> NewID rand8 \<Longrightarrow> serviceByID (st s') i = serviceByID (st s) i"
    and "form rq ''discovered_id'' \<noteq> [] \<Longrightarrow> discoveredByID (st s') (form rq ''discovered_id'') = None"
proof -
  let ?v = "created http rand8 now rq w s" and ?d = "form rq ''discovered_id''"
  obtain w' where r: "resp = toastTrigger 204 ''Service added'' ToastAdded"
    "s' = save (s\<lparr>st := store_service rq w ?v (st s), world := w'\<rparr>)"
    using createService_accept [OF a, of http rand8 now] c by auto
  obtain fl g v1 where v1: "v1 \<in> {?v, ?v\<lparr>sIcon := []\<rparr>}" and t: "store_service rq w ?v (st s) =
      (if ?d = [] then insertService v1 ((st s)\<lparr>files := fl\<rparr>)
       else RemoveDiscovered ?d ((insertService v1 ((st s)\<lparr>files := fl\<rparr>))\<lparr>files := g\<rparr>))"
    by (rule store_service_cases [of ?v rq w "st s"])
  have fr: "svc_free v1 ((st s)\<lparr>files := fl\<rparr>)" and so: "sub_ok v1" and i1: "sID v1 = NewID rand8"
    using v1 svc_free_created [OF s a f d] sub_ok_created by auto
  have sf: "srv_inv ((st s)\<lparr>files := fl\<rparr>)" using s by simp
  note ins = srv_inv_insert [OF sf fr so]
  have st': "st s' = SaveLog (store_service rq w ?v (st s))" by (simp add: r(2) save_def)
  show "srv_inv (st s')"
    using ins by (simp add: st' t srv_inv_RemoveDiscovered)
  show "status resp = 204" by (simp add: r(1) toastTrigger_def)
  have look: "serviceByID (st s') j = (if j = sID v1 then Some v1 else serviceByID (st s) j)" for j
    using serviceByID_insert [OF srv_invD(2) [OF sf] fr, of j]
    by (cases "j = sID v1") (simp_all add: st' t)
  have "\<exists>icon. v1 = ?v\<lparr>sIcon := icon\<rparr>"
    using v1 by (auto intro: exI [of _ "sIcon ?v"])
  then show "\<exists>icon. serviceByID (st s') (NewID rand8) = Some (?v\<lparr>sIcon := icon\<rparr>)"
    using look [of "NewID rand8"] i1 by auto
  show "i \<noteq> NewID rand8 \<Longrightarrow> serviceByID (st s') i = serviceByID (st s) i"
    using look i1 by simp
  have "disc_inv ((insertService v1 ((st s)\<lparr>files := fl\<rparr>))\<lparr>files := g\<rparr>)" using srv_invD(3) [OF ins] by simp
  then show "?d \<noteq> [] \<Longrightarrow> discoveredByID (st s') ?d = None"
    by (simp add: st' t discoveredByID_remove)
qed

text \<open>
  An uploaded icon of a service that is assigned from a discovered entry with an icon file:
  the entry's icon is copied over the upload.
\<close>

lemma store_service_icon:
  assumes c: "clean_dir (iconDir s)" and u: "uploadedIconData rq \<noteq> []" and d: "form rq ''discovered_id'' \<noteq> []"
    and i: "wIcon w = IconFile" "ReadIcon (form rq ''discovered_id'') s = Inr old" "form rq ''discovered_id'' \<noteq> sID v"
    and ok: "safeIconPath s (sID v) = Inr p" "writable s p"
  shows "ReadIcon (sID v) (store_service rq w v s) = Inr old"
proof -
  let ?d = "form rq ''discovered_id''"
  let ?s1 = "s\<lparr>files := (files s)(p \<mapsto> uploadedIconData rq)\<rparr>"
  let ?t = "insertService v ?s1"
  have w1: "write_upload rq v s = (v, ?s1)"
    using u WriteIcon_ok(1) [OF ok] by (simp add: write_upload_def)
  have fr: "iconDir ?t = iconDir s" "writable ?t = writable s" "files ?t = files ?s1"
    by (simp_all add: insertService_eq)
  have sp: "safeIconPath ?t k = safeIconPath s k" for k by (simp add: safeIconPath_def fr)
  have "ReadIcon ?d ?s1 = Inr old"
    using ReadIcon_other [OF c ok(1) i(3)] i(2) by simp
  then have rd: "ReadIcon ?d ?t = Inr old" by (cases "safeIconPath s ?d") (simp_all add: ReadIcon_def sp fr)
  have "WriteIcon (sID v) old ?t = (Inr (), ?t\<lparr>files := (files ?t)(p \<mapsto> old)\<rparr>)"
    using ok by (intro WriteIcon_ok(1)) (simp_all add: sp fr)
  then have "store_service rq w v s = RemoveDiscovered ?d (?t\<lparr>files := (files ?t)(p \<mapsto> old)\<rparr>)"
    using d i(1) rd by (simp add: store_service_def w1 copy_icon_def Let_def)
  then show ?thesis
    using ok(1) by (simp add: ReadIcon_def safeIconPath_def fr split: if_splits)
qed

section \<open>Update\<close>

lemma updateService_none:
  "idIdx (st s) (pathID rq) = None \<Longrightarrow> updateService http rq s = (errorResponse 404 ''service not found'', s)"
  by (simp add: updateService_def GetServiceByID_def)

definition updated :: "'w http \<Rightarrow> http_req \<Rightarrow> 'w Server \<Rightarrow> Service \<Rightarrow> Service" where
  "updated http rq s v =
    (let u = updated_service rq v;
         ids = fst (reconcileDNS http (cfg s) (cl s) (old_state v) (update_want rq v u) (world s))
     in u\<lparr>sDNSRecordID := fst ids, sTunnelRouteID := snd ids\<rparr>)"

lemma updated_simps [simp]:
  "sID (updated http rq s v) = sID v" "sContainerID (updated http rq s v) = sContainerID v"
  "sContainerName (updated http rq s v) = sContainerName v" "sSource (updated http rq s v) = sSource v"
  "sOrder (updated http rq s v) = sOrder v" "sCreatedAt (updated http rq s v) = sCreatedAt v"
  "sSubdomain (updated http rq s v) = sSubdomain (updated_service rq v)"
  "sDirectOnly (updated http rq s v) = sDirectOnly (updated_service rq v)"
  "sTarget (updated http rq s v) = cmp_Or (form rq ''target'') (sTarget v)"
  by (simp_all add: updated_def updated_service_def Let_def)

lemma sub_ok_updated: "sub_ok v \<Longrightarrow> sub_ok (updated http rq s v)"
  by (simp add: sub_ok_def) (simp add: updated_service_def Let_def SanitiseSubdomain_dns_label)

lemma updateService_eq:
  assumes "serviceByID (st s) (pathID rq) = Some v" and "formOk rq"
  shows "\<exists>w' q. updateService http rq s = (toastTrigger 204 ''Service updated'' [''refreshServicesTable''],
    save (s\<lparr>st := snd (UpdateService (pathID rq) q ((st s)\<lparr>svcHeap := svcHeap (st s) @ [updated http rq s v]\<rparr>)),
           world := w'\<rparr>)) \<and> q = length (svcHeap (st s))"
  using assms by (auto simp: updateService_def serviceByID_def GetServiceByID_def Let_def updated_def newService_def alloc_def
      split: prod.splits)

text \<open>Replacing a live service by a fresh object under the same ID.\<close>

definition replaceService :: "string \<Rightarrow> Service \<Rightarrow> store \<Rightarrow> store" where
  "replaceService i v s = snd (UpdateService i (length (svcHeap s)) (s\<lparr>svcHeap := svcHeap s @ [v]\<rparr>))"

lemma detach_svcHeap:
  "r < length (svcHeap s) \<Longrightarrow> detach r (s\<lparr>svcHeap := svcHeap s @ [v]\<rparr>) = (detach r s)\<lparr>svcHeap := svcHeap s @ [v]\<rparr>"
  by (rule store.equality) (simp_all add: detach_def unindexService_def Let_def nth_append)

lemma replaceService_eq:
  assumes s: "svc_inv s" and r: "idIdx s i = Some r"
  shows "replaceService i v s = insertService v (detach r s)"
proof -
  have "r < length (svcHeap s)" using live_lt [OF s r] .
  moreover have "idIdx (s\<lparr>svcHeap := svcHeap s @ [v]\<rparr>) i = Some r" using r by simp
  ultimately show ?thesis
    unfolding replaceService_def insertService_eq
    by (simp only: UpdateService_detach detach_svcHeap) simp
qed

lemma replaceService_frame [simp]:
  "discHeap (replaceService i v s) = discHeap s" "Discovered (replaceService i v s) = Discovered s"
  "discoveredIdx (replaceService i v s) = discoveredIdx s"
  "discoveredContainerIdx (replaceService i v s) = discoveredContainerIdx s"
  "Ignored (replaceService i v s) = Ignored s" "ignoredIdx (replaceService i v s) = ignoredIdx s"
  "ignoredIPPortIdx (replaceService i v s) = ignoredIPPortIdx s" "bmHeap (replaceService i v s) = bmHeap s"
  "Bookmarks (replaceService i v s) = Bookmarks s" "bookmarkIdx (replaceService i v s) = bookmarkIdx s"
  by (simp_all add: replaceService_def UpdateService_def unindexService_def indexService_def Let_def split: option.split)

text \<open>The new object may keep every key of the old one; a new subdomain must be free.\<close>

lemma replace_free:
  assumes s: "svc_inv s" and r: "idIdx s i = Some r"
    and k: "sID v = i" "sContainerID v = sContainerID (svcHeap s ! r)" "sContainerName v = sContainerName (svcHeap s ! r)"
      "sSource v = sSource (svcHeap s ! r)"
    and sub: "sSubdomain v = sSubdomain (svcHeap s ! r) \<or> map_of (Services s) (sSubdomain v) = None"
  shows "svc_free v (detach r s)"
proof -
  have m: "r \<in> refs_of (Services s)" "sID (svcHeap s ! r) = i" using s r by (simp_all add: idIdx_iff)
  have "wf_service (svcHeap s ! r)" using svc_invD(3) [OF s m(1)] .
  then show ?thesis
    using m k sub by (auto simp: svc_free_def wf_service_def delete_conv')
qed

lemma serviceByID_replace:
  assumes s: "svc_inv s" and r: "idIdx s i = Some r" and f: "svc_free v (detach r s)" and i: "sID v = i"
  shows "serviceByID (replaceService i v s) j = (if j = i then Some v else serviceByID s j)"
    and "svc_inv (replaceService i v s)"
    and "set (services (replaceService i v s)) = insert v {u \<in> set (services s). sID u \<noteq> i}"
proof -
  have m: "r \<in> refs_of (Services s)" using s r by (simp add: idIdx_iff)
  note d = svc_inv_detach(1) [OF s m]
  have dl: "detach r s = snd (DeleteService i s)" using DeleteService_detach [OF r] by simp
  show "serviceByID (replaceService i v s) j = (if j = i then Some v else serviceByID s j)"
    using serviceByID_insert [OF d f, of j] serviceByID_delete [OF s, of i j]
    by (simp add: replaceService_eq [OF s r] i flip: dl)
  show "svc_inv (replaceService i v s)"
    unfolding replaceService_eq [OF s r] by (rule svc_inv_insertService [OF d f])
  show "set (services (replaceService i v s)) = insert v {u \<in> set (services s). sID u \<noteq> i}"
    unfolding replaceService_eq [OF s r] services_insert [OF d f] by (simp add: dl services_delete [OF s])
qed

lemma srv_inv_replace:
  assumes s: "srv_inv s" and r: "idIdx s i = Some r" and f: "svc_free v (detach r s)" and i: "sID v = i" and k: "sub_ok v"
  shows "srv_inv (replaceService i v s)"
proof -
  note d = srv_invD [OF s] and n = serviceByID_replace [OF srv_invD(2) [OF s] r f i]
  have "disc_inv (replaceService i v s) = disc_inv s" "ign_inv (replaceService i v s) = ign_inv s"
    "bm_inv (replaceService i v s) = bm_inv s"
    by (rule other_inv_frame; simp)+
  then show ?thesis
    using d(3-5,7) srv_invD(6) [OF s] k n(2,3) by (auto simp: srv_inv_def store_inv_def)
qed

text \<open>
  An update whose subdomain is free or unchanged: the service is replaced by the one that the
  handler built, every other service is as before, and the invariant holds.
\<close>

lemma updateService_effect:
  assumes s: "srv_inv (st s)" and v: "serviceByID (st s) (pathID rq) = Some v" and ok: "formOk rq"
    and sub: "sSubdomain (updated_service rq v) = sSubdomain v \<or>
      GetServiceBySubdomain (sSubdomain (updated_service rq v)) (st s) = None"
    and u: "updateService http rq s = (resp, s')"
  shows "srv_inv (st s')" and "status resp = 204"
    and "serviceByID (st s') i = (if i = pathID rq then Some (updated http rq s v) else serviceByID (st s) i)"
proof -
  let ?u = "updated http rq s v"
  obtain r where r: "idIdx (st s) (pathID rq) = Some r" "v = svcHeap (st s) ! r"
    using v by (auto simp: serviceByID_def GetServiceByID_def)
  have vi: "sID v = pathID rq" "v \<in> set (services (st s))"
    using v serviceByID_iff [OF srv_invD(2) [OF s]] by simp_all
  obtain w' where e: "resp = toastTrigger 204 ''Service updated'' [''refreshServicesTable'']"
    "s' = save (s\<lparr>st := replaceService (pathID rq) ?u (st s), world := w'\<rparr>)"
    using updateService_eq [OF v ok, of http] u by (auto simp: replaceService_def)
  have f: "svc_free ?u (detach r (st s))"
    using sub by (intro replace_free [OF srv_invD(2) [OF s] r(1)]) (simp_all add: vi flip: r(2), simp add: GetServiceBySubdomain_def)
  have i: "sID ?u = pathID rq" by (simp add: vi)
  show "srv_inv (st s')"
    using srv_inv_replace [OF s r(1) f i sub_ok_updated [OF srv_invD(6) [OF s vi(2)]]] by (simp add: e(2) save_def)
  show "status resp = 204" by (simp add: e(1) toastTrigger_def)
  show "serviceByID (st s') i = (if i = pathID rq then Some ?u else serviceByID (st s) i)"
    using serviceByID_replace(1) [OF srv_invD(2) [OF s] r(1) f i] by (simp add: e(2) save_def)
qed

section \<open>Deletion\<close>

lemma deleteService_none:
  "idIdx (st s) (pathID rq) = None \<Longrightarrow> deleteService http rand8 now rq s = (ok_response [], s)"
  by (simp add: deleteService_def GetServiceByID_def)

lemma DeleteService_frame [simp]:
  "discHeap (snd (DeleteService i s)) = discHeap s" "Discovered (snd (DeleteService i s)) = Discovered s"
  "discoveredIdx (snd (DeleteService i s)) = discoveredIdx s"
  "discoveredContainerIdx (snd (DeleteService i s)) = discoveredContainerIdx s"
  "Ignored (snd (DeleteService i s)) = Ignored s" "ignoredIdx (snd (DeleteService i s)) = ignoredIdx s"
  "ignoredIPPortIdx (snd (DeleteService i s)) = ignoredIPPortIdx s" "bmHeap (snd (DeleteService i s)) = bmHeap s"
  "Bookmarks (snd (DeleteService i s)) = Bookmarks s" "bookmarkIdx (snd (DeleteService i s)) = bookmarkIdx s"
  by (simp_all add: DeleteService_def unindexService_def Let_def split: option.split)

lemma AddDiscovered_frame [simp]:
  "svcHeap (AddDiscovered r s) = svcHeap s" "Services (AddDiscovered r s) = Services s" "idIdx (AddDiscovered r s) = idIdx s"
  "containerIDIdx (AddDiscovered r s) = containerIDIdx s" "containerNameIdx (AddDiscovered r s) = containerNameIdx s"
  "bmHeap (AddDiscovered r s) = bmHeap s" "Bookmarks (AddDiscovered r s) = Bookmarks s"
  "bookmarkIdx (AddDiscovered r s) = bookmarkIdx s" "Ignored (AddDiscovered r s) = Ignored s"
  "ignoredIdx (AddDiscovered r s) = ignoredIdx s" "ignoredIPPortIdx (AddDiscovered r s) = ignoredIPPortIdx s"
  by (simp_all add: AddDiscovered_def indexDiscovered_def Let_def)

lemma insertDiscovered_frame [simp]:
  "svcHeap (insertDiscovered v s) = svcHeap s" "Services (insertDiscovered v s) = Services s"
  "idIdx (insertDiscovered v s) = idIdx s" "containerIDIdx (insertDiscovered v s) = containerIDIdx s"
  "containerNameIdx (insertDiscovered v s) = containerNameIdx s" "bmHeap (insertDiscovered v s) = bmHeap s"
  "Bookmarks (insertDiscovered v s) = Bookmarks s" "bookmarkIdx (insertDiscovered v s) = bookmarkIdx s"
  "Ignored (insertDiscovered v s) = Ignored s" "ignoredIdx (insertDiscovered v s) = ignoredIdx s"
  "ignoredIPPortIdx (insertDiscovered v s) = ignoredIPPortIdx s"
  by (simp_all add: insertDiscovered_eq)

lemma discoveredIdx_insert_cases:
  "discoveredIdx (insertDiscovered v s) j = discoveredIdx s j \<or> j = dID v"
  by (auto simp: insertDiscovered_eq AddDiscovered_def Let_def nth_append)

lemma srv_inv_insertDiscovered:
  assumes s: "srv_inv s" and f: "discoveredIdx s (dID v) = None" "ignoredIdx s (dID v) = None"
  shows "srv_inv (insertDiscovered v s)"
proof -
  note d = srv_invD [OF s]
  have "svc_inv (insertDiscovered v s) = svc_inv s" "services (insertDiscovered v s) = services s"
    by (rule svc_inv_frame; simp)+
  moreover have "ign_inv (insertDiscovered v s) = ign_inv s" by (simp add: ign_inv_def)
  moreover have "bm_inv (insertDiscovered v s) = bm_inv s" by (simp add: bm_inv_def)
  moreover have "discoveredIdx (insertDiscovered v s) j = None \<or> ignoredIdx s j = None" for j
    using discoveredIdx_insert_cases [of v s j] d(7) [of j] f(2) by auto
  ultimately show ?thesis
    using d disc_inv_insert [OF d(3) f(1)] by (simp add: srv_inv_def store_inv_def)
qed

lemma srv_inv_DeleteService: "srv_inv s \<Longrightarrow> srv_inv (snd (DeleteService i s))"
proof -
  assume s: "srv_inv s"
  note d = srv_invD [OF s]
  have "disc_inv (snd (DeleteService i s)) = disc_inv s" "ign_inv (snd (DeleteService i s)) = ign_inv s"
    "bm_inv (snd (DeleteService i s)) = bm_inv s"
    by (rule other_inv_frame; simp)+
  then show ?thesis
    using d(3-5,7) srv_invD(6) [OF s] svc_inv_DeleteService [OF d(2)]
    by (simp add: srv_inv_def store_inv_def services_delete [OF d(2)])
qed

text \<open>
  A deletion: the service is gone, every other is as before, its icon file is gone, its
  record or route is removed at Cloudflare, and a container that is still attached is
  offered again for discovery (unless an entry with the same address stands there already).
\<close>

lemma deleteService_effect:
  assumes s: "srv_inv (st s)" and v: "serviceByID (st s) (pathID rq) = Some v"
    and f: "discoveredIdx (st s) (NewID rand8) = None" "ignoredIdx (st s) (NewID rand8) = None"
    and u: "deleteService http rand8 now rq s = (resp, s')"
  shows "srv_inv (st s')" and "status resp = 200"
    and "serviceByID (st s') i = (if i = pathID rq then None else serviceByID (st s) i)"
    and "\<exists>e. ReadIcon (pathID rq) (st s') = Inl e"
    and "world s' = (if sTunnelRouteID v \<noteq> [] then
        logged (RemoveTunnelRoute http (cl s) (sTunnelRouteID v) (sDNSRecordID v)) (world s)
      else if sDNSRecordID v \<noteq> [] then logged (DeleteRecord http (cl s) (sDNSRecordID v)) (world s) else world s)"
    and "sSource v = SourceDocker \<Longrightarrow> sContainerID v \<noteq> [] \<Longrightarrow>
      disc_addable (rediscovered v (NewID rand8) now) (st s) \<Longrightarrow>
      discoveredByID (st s') (NewID rand8) = Some (rediscovered v (NewID rand8) now)"
proof -
  obtain r where r: "idIdx (st s) (pathID rq) = Some r" "v = svcHeap (st s) ! r"
    using v by (auto simp: serviceByID_def GetServiceByID_def)
  let ?v = "rediscovered v (NewID rand8) now"
  let ?again = "sSource v = SourceDocker \<and> sContainerID v \<noteq> []"
  let ?t = "snd (DeleteService (pathID rq) (st s))"
  let ?t2 = "if ?again then insertDiscovered ?v ?t else ?t"
  let ?w = "if sTunnelRouteID v \<noteq> [] then
        logged (RemoveTunnelRoute http (cl s) (sTunnelRouteID v) (sDNSRecordID v)) (world s)
      else if sDNSRecordID v \<noteq> [] then logged (DeleteRecord http (cl s) (sDNSRecordID v)) (world s) else world s"
  have ids: "fst (DeleteService (pathID rq) (st s)) = (sSubdomain v, sDNSRecordID v, sTunnelRouteID v)"
    using r by (simp add: DeleteService_def Let_def)
  have e: "resp = ok_response (if ?again then [''refreshDiscovered''] else [])"
    "s' = save (s\<lparr>st := DeleteIcon (pathID rq) ?t2, world := ?w\<rparr>)"
    using u r ids unfolding deleteService_def insertDiscovered_def
    by (auto simp: GetServiceByID_def Let_def split_beta cong: if_cong)
  have si: "srv_inv ?t" by (rule srv_inv_DeleteService [OF s])
  have "srv_inv (insertDiscovered ?v ?t)"
    using f by (intro srv_inv_insertDiscovered si) (simp_all add: rediscovered_def)
  with si have "srv_inv ?t2" by simp
  then show "srv_inv (st s')" by (simp add: e(2) save_def)
  show "status resp = 200" by (simp add: e(1) ok_response_def)
  show "world s' = ?w" by (simp add: e(2) save_def)
  have "serviceByID (insertDiscovered ?v ?t) = serviceByID ?t" by (rule svc_inv_frame(3)) simp_all
  then show "serviceByID (st s') i = (if i = pathID rq then None else serviceByID (st s) i)"
    using serviceByID_delete [OF srv_invD(2) [OF s], of "pathID rq" i]
    by (cases "i = pathID rq") (simp_all add: e(2) save_def)
  obtain x where x: "ReadIcon (pathID rq) (DeleteIcon (pathID rq) ?t2) = Inl x"
  proof (cases "safeIconPath ?t2 (pathID rq)")
    case (Inl x)
    then show thesis by (intro that [of x]) (simp add: DeleteIcon_def ReadIcon_def)
  next
    case (Inr p)
    then show thesis by (intro that [of "''open '' @ p"]) (simp add: DeleteIcon_def ReadIcon_def)
  qed
  from x show "\<exists>e. ReadIcon (pathID rq) (st s') = Inl e" by (simp add: e(2) save_def)
  assume b: "sSource v = SourceDocker" "sContainerID v \<noteq> []" and a: "disc_addable ?v (st s)"
  have "disc_addable ?v ?t" using a by (simp add: disc_addable_def disc_free_def no_same_address_def)
  then have "discoveredByID (insertDiscovered ?v ?t) (NewID rand8) = Some ?v"
    using discoveredByID_insert [OF srv_invD(3) [OF si], of ?v "NewID rand8"] by (simp add: rediscovered_def)
  then show "discoveredByID (st s') (NewID rand8) = Some ?v"
    using b by (simp add: e(2) save_def)
qed

end
