(* ===== verification/WebHandlers.thy ===== *)
theory WebHandlers
  imports WebServiceLaws
begin

text \<open>
  The other handlers of \<open>internal/web\<close>: bookmarks (\<open>handle_bookmarks.go\<close>), discovered
  and ignored services and scan subnets (\<open>handle_discovery.go\<close>), DDNS domains
  (\<open>handle_settings.go\<close>) and the reordering of services and bookmarks (\<open>server.go\<close>);
  and the DDNS manager (\<open>internal/ddns\<close>).  The HTML that a handler renders is left out.
\<close>

section \<open>Bookmarks\<close>

definition normalizeBookmarkURL :: "string \<Rightarrow> string" where
  "normalizeBookmarkURL u =
    (if u = [] then u else if HasPrefix u ''http://'' \<or> HasPrefix u ''https://'' then u else ''https://'' @ u)"

definition createBookmark :: "nat list \<Rightarrow> http_req \<Rightarrow> 'w Server \<Rightarrow> response \<times> 'w Server \<times> task list" where
  "createBookmark rand8 rq s =
    (if \<not> formOk rq then (errorResponse 400 ''invalid form data'', s, [])
     else let bmURL = normalizeBookmarkURL (form rq ''url'')
     in if bmURL = [] then (errorResponse 400 ''url is required'', s, [])
        else let name = (if form rq ''name'' = [] then bmURL else form rq ''name'');
                 bm = \<lparr>bID = NewID rand8, bName = name, bURL = bmURL, bIcon = [], bCategory = form rq ''category'',
                       bOrder = 0\<rparr>
             in (toastTrigger 204 ''Bookmark added'' [''refreshBookmarksTable''],
                 save (on_store (insertBookmark bm) s), [FetchBookmarkIcon (NewID rand8)]))"

definition updateBookmark :: "http_req \<Rightarrow> 'w Server \<Rightarrow> response \<times> 'w Server \<times> task list" where
  "updateBookmark rq s =
    (if \<not> formOk rq then (errorResponse 400 ''invalid form data'', s, [])
     else let updated = \<lparr>bID = pathID rq, bName = form rq ''name'', bURL = normalizeBookmarkURL (form rq ''url''),
                         bIcon = [], bCategory = form rq ''category'', bOrder = 0\<rparr>;
              (r, t) = newBookmark updated (st s);
              (found, t) = UpdateBookmark (pathID rq) r t
     in if \<not> found then (errorResponse 404 ''bookmark not found'', s\<lparr>st := t\<rparr>, [])
        else (toastTrigger 204 ''Bookmark updated'' [''refreshBookmarksTable''], save (s\<lparr>st := t\<rparr>),
              [FetchBookmarkIcon (pathID rq)]))"

definition deleteBookmark :: "http_req \<Rightarrow> 'w Server \<Rightarrow> response \<times> 'w Server" where
  "deleteBookmark rq s = (case DeleteBookmark (pathID rq) (st s) of
      (False, t) \<Rightarrow> (apiError 404 ''bookmark not found'', s\<lparr>st := t\<rparr>)
    | (True, t) \<Rightarrow> (ok_response [], save (s\<lparr>st := DeleteIcon (pathID rq) t\<rparr>)))"

definition fetchBookmarkFavicon :: "'w fetch \<Rightarrow> string \<Rightarrow> 'w Server \<Rightarrow> 'w Server" where
  "fetchBookmarkFavicon fetch i s = (case FetchAndWriteFavicon fetch i s of
      (False, s1) \<Rightarrow> s1
    | (True, s1) \<Rightarrow> (case GetBookmarkByID i (st s1) of
          None \<Rightarrow> s1
        | Some r \<Rightarrow>
            if bIcon (bmHeap (st s1) ! r) \<noteq> IconFile then
              let (q, t) = newBookmark ((bmHeap (st s1) ! r)\<lparr>bIcon := IconFile\<rparr>) (st s1)
              in save (s1\<lparr>st := snd (UpdateBookmark i q t)\<rparr>)
            else s1))"

section \<open>Discovered and ignored services, subnets\<close>

definition deleteDiscovered :: "http_req \<Rightarrow> 'w Server \<Rightarrow> response \<times> 'w Server" where
  "deleteDiscovered rq s = (ok_response [], save (on_store (RemoveDiscovered (pathID rq)) s))"

definition ignoreDiscovered :: "time \<Rightarrow> http_req \<Rightarrow> 'w Server \<Rightarrow> response \<times> 'w Server" where
  "ignoreDiscovered now rq s = (case IgnoreDiscovered (pathID rq) now (st s) of
      (Inl e, t) \<Rightarrow> (apiError 404 e, s\<lparr>st := t\<rparr>)
    | (Inr _, t) \<Rightarrow> (ok_response [''refreshIgnored''], save (s\<lparr>st := t\<rparr>)))"

text \<open>The entry that an un-ignored service becomes.\<close>

definition unignored :: "IgnoredService \<Rightarrow> time \<Rightarrow> DiscoveredService" where
  "unignored ig now = \<lparr>dID = iID ig, dIP = iIP ig, dPort = iPort ig, dTitle = iTitle ig, dIcon = [], dServiceName = [],
     dConfidence = 0, dSource = SourceNetwork, dContainerName = [], dContainerID = [], dSuggestedSubdomain = [],
     dDiscoveredAt = now\<rparr>"

definition unignoreService :: "time \<Rightarrow> http_req \<Rightarrow> 'w Server \<Rightarrow> response \<times> 'w Server" where
  "unignoreService now rq s = (case UnignoreService (pathID rq) (st s) of
      (Inl e, t) \<Rightarrow> (apiError 404 e, s\<lparr>st := t\<rparr>)
    | (Inr ig, t) \<Rightarrow> (ok_response [''refreshDiscovered''], save (s\<lparr>st := insertDiscovered (unignored ig now) t\<rparr>)))"

text \<open>\<open>valid_cidr\<close> tells whether \<open>net.ParseCIDR\<close> accepts its argument.\<close>

definition addScanSubnet :: "(string \<Rightarrow> bool) \<Rightarrow> http_req \<Rightarrow> 'w Server \<Rightarrow> response \<times> 'w Server" where
  "addScanSubnet valid_cidr rq s =
    (if \<not> formOk rq then (errorResponse 400 ''invalid form data'', s)
     else let cidr = form rq ''cidr''
     in if cidr = [] then (errorResponse 400 ''cidr is required'', s)
        else if \<not> valid_cidr cidr then (errorResponse 400 ''invalid CIDR notation'', s)
        else (ok_response [], save (on_store (AddScanSubnet cidr) s)))"

text \<open>The subnet to remove comes from the query string.\<close>

definition removeScanSubnet :: "http_req \<Rightarrow> 'w Server \<Rightarrow> response \<times> 'w Server" where
  "removeScanSubnet rq s = (let cidr = form rq ''cidr'' in
     if cidr = [] then (apiError 400 ''cidr is required'', s)
     else (ok_response [], save (on_store (RemoveScanSubnet cidr) s)))"

section \<open>Reordering\<close>

text \<open>\<open>ids\<close>: the decoded body, \<open>None\<close> when it does not decode.\<close>

definition reorderHandler :: "(string list \<Rightarrow> store \<Rightarrow> store) \<Rightarrow> string list option \<Rightarrow> 'w Server \<Rightarrow> response \<times> 'w Server" where
  "reorderHandler reorderFn ids s = (case ids of
      None \<Rightarrow> (apiError 400 ''ids array is required'', s)
    | Some is \<Rightarrow>
        if is = [] then (apiError 400 ''ids array is required'', s)
        else (ok_response [], save (on_store (reorderFn is) s)))"

section \<open>DDNS\<close>

definition addDDNS :: "'w http \<Rightarrow> http_req \<Rightarrow> 'w Server \<Rightarrow> response \<times> 'w Server" where
  "addDDNS http rq s =
    (if \<not> formOk rq then (errorResponse 400 ''invalid form data'', s)
     else let domain = ToLower (TrimSpace (form rq ''domain''))
     in if domain = [] then (errorResponse 400 ''domain is required'', s)
        else let s = on_store (AddDDNSDomain domain) s; ip = GetPublicIP (st s);
                 s = (if ip \<noteq> [] then s\<lparr>world := logged (CreateRecord http (cl s) domain ip) (world s)\<rparr> else s)
             in (ok_response [], save s))"

definition removeDDNS :: "'w http \<Rightarrow> http_req \<Rightarrow> 'w Server \<Rightarrow> response \<times> 'w Server" where
  "removeDDNS http rq s =
    (let domain = pathID rq; s = on_store (RemoveDDNSDomain domain) s;
         w = (case FindRecord http (cl s) domain (world s) of
                (Inr (recordID, _), w) \<Rightarrow> if recordID \<noteq> [] then logged (DeleteRecord http (cl s) recordID) w else w
              | (Inl _, w) \<Rightarrow> w)
     in (ok_response [], save (s\<lparr>world := w\<rparr>)))"

text \<open>
  \<open>internal/ddns/ddns.go\<close>.  \<open>ipify\<close> is the address service: the body of its reply, at
  most 64 bytes, or a failure.
\<close>

definition getPublicIP :: "('w \<Rightarrow> string option \<times> 'w) \<Rightarrow> 'w \<Rightarrow> string option \<times> 'w" where
  "getPublicIP ipify w = (case ipify w of (None, w) \<Rightarrow> (None, w) | (Some body, w) \<Rightarrow> (Some (TrimSpace (take 64 body)), w))"

text \<open>One turn of the loop over the domains.\<close>

definition ddns_domain :: "'w http \<Rightarrow> Client \<Rightarrow> string \<Rightarrow> string \<Rightarrow> 'w \<Rightarrow> 'w" where
  "ddns_domain http c ip domain w = (case FindRecord http c domain w of
      (Inl _, w) \<Rightarrow> w
    | (Inr (recordID, current), w) \<Rightarrow>
        if recordID = [] then logged (CreateRecord http c domain ip) w
        else if current = ip then w
        else logged (UpdateRecord http c recordID ip) w)"

definition checkAndUpdate :: "'w http \<Rightarrow> ('w \<Rightarrow> string option \<times> 'w) \<Rightarrow> 'w Server \<Rightarrow> 'w Server" where
  "checkAndUpdate http ipify s =
    (let domains = GetDDNSDomains (st s)
     in if domains = [] then s
        else case getPublicIP ipify (world s) of
          (None, w) \<Rightarrow> s\<lparr>world := w\<rparr>
        | (Some ip, w) \<Rightarrow>
            if ip = GetPublicIP (st s) then s\<lparr>world := w\<rparr>
            else save (s\<lparr>st := SetPublicIP ip (st s), world := fold (ddns_domain http (cl s) ip) domains w\<rparr>))"

section \<open>What the handlers keep and do\<close>

text \<open>Changes outside the services, the discovered and the ignored entries.\<close>

lemma srv_inv_cong:
  assumes "svcHeap t = svcHeap s" "Services t = Services s" "idIdx t = idIdx s"
    "containerIDIdx t = containerIDIdx s" "containerNameIdx t = containerNameIdx s"
    "discHeap t = discHeap s" "Discovered t = Discovered s" "discoveredIdx t = discoveredIdx s"
    "discoveredContainerIdx t = discoveredContainerIdx s" "Ignored t = Ignored s" "ignoredIdx t = ignoredIdx s"
    "ignoredIPPortIdx t = ignoredIPPortIdx s" and "bm_inv t" and "srv_inv s"
  shows "srv_inv t"
proof -
  have "svc_inv t = svc_inv s" "services t = services s" by (rule svc_inv_frame; simp add: assms)+
  moreover have "disc_inv t = disc_inv s" "ign_inv t = ign_inv s" by (simp_all add: disc_inv_def ign_inv_def assms)
  ultimately show ?thesis using assms(13,14) by (simp add: srv_inv_def store_inv_def assms)
qed

lemma AddBookmark_frame [simp]:
  "svcHeap (AddBookmark r s) = svcHeap s" "Services (AddBookmark r s) = Services s" "idIdx (AddBookmark r s) = idIdx s"
  "containerIDIdx (AddBookmark r s) = containerIDIdx s" "containerNameIdx (AddBookmark r s) = containerNameIdx s"
  "discHeap (AddBookmark r s) = discHeap s" "Discovered (AddBookmark r s) = Discovered s"
  "discoveredIdx (AddBookmark r s) = discoveredIdx s" "discoveredContainerIdx (AddBookmark r s) = discoveredContainerIdx s"
  "Ignored (AddBookmark r s) = Ignored s" "ignoredIdx (AddBookmark r s) = ignoredIdx s"
  "ignoredIPPortIdx (AddBookmark r s) = ignoredIPPortIdx s"
  by (simp_all add: AddBookmark_def indexBookmark_def)

lemma DeleteBookmark_frame [simp]:
  "svcHeap (snd (DeleteBookmark i s)) = svcHeap s" "Services (snd (DeleteBookmark i s)) = Services s"
  "idIdx (snd (DeleteBookmark i s)) = idIdx s" "containerIDIdx (snd (DeleteBookmark i s)) = containerIDIdx s"
  "containerNameIdx (snd (DeleteBookmark i s)) = containerNameIdx s" "discHeap (snd (DeleteBookmark i s)) = discHeap s"
  "Discovered (snd (DeleteBookmark i s)) = Discovered s" "discoveredIdx (snd (DeleteBookmark i s)) = discoveredIdx s"
  "discoveredContainerIdx (snd (DeleteBookmark i s)) = discoveredContainerIdx s"
  "Ignored (snd (DeleteBookmark i s)) = Ignored s" "ignoredIdx (snd (DeleteBookmark i s)) = ignoredIdx s"
  "ignoredIPPortIdx (snd (DeleteBookmark i s)) = ignoredIPPortIdx s"
  by (simp_all add: DeleteBookmark_def unindexBookmark_def Let_def split: option.split)

lemma UpdateBookmark_frame [simp]:
  "svcHeap (snd (UpdateBookmark i r s)) = svcHeap s" "Services (snd (UpdateBookmark i r s)) = Services s"
  "idIdx (snd (UpdateBookmark i r s)) = idIdx s" "containerIDIdx (snd (UpdateBookmark i r s)) = containerIDIdx s"
  "containerNameIdx (snd (UpdateBookmark i r s)) = containerNameIdx s" "discHeap (snd (UpdateBookmark i r s)) = discHeap s"
  "Discovered (snd (UpdateBookmark i r s)) = Discovered s" "discoveredIdx (snd (UpdateBookmark i r s)) = discoveredIdx s"
  "discoveredContainerIdx (snd (UpdateBookmark i r s)) = discoveredContainerIdx s"
  "Ignored (snd (UpdateBookmark i r s)) = Ignored s" "ignoredIdx (snd (UpdateBookmark i r s)) = ignoredIdx s"
  "ignoredIPPortIdx (snd (UpdateBookmark i r s)) = ignoredIPPortIdx s" "bmHeap (snd (UpdateBookmark i r s)) = bmHeap s"
  by (simp_all add: UpdateBookmark_def unindexBookmark_def indexBookmark_def Let_def split: option.split)

lemma srv_inv_insertBookmark:
  assumes "srv_inv s" and "bookmarkIdx s (bID v) = None"
  shows "srv_inv (insertBookmark v s)"
  using bm_inv_insert [OF srv_invD(5) [OF assms(1)], of v] assms(2)
  by (intro srv_inv_cong [OF _ _ _ _ _ _ _ _ _ _ _ _ _ assms(1)]) (simp_all add: insertBookmark_eq bm_free_def)

text \<open>A bookmark that was created is found under its ID with an absolute URL.\<close>

lemma normalizeBookmarkURL_absolute:
  "normalizeBookmarkURL u \<noteq> [] \<Longrightarrow>
    HasPrefix (normalizeBookmarkURL u) ''http://'' \<or> HasPrefix (normalizeBookmarkURL u) ''https://''"
  using HasPrefix_append [of "''https://''" u] by (auto simp: normalizeBookmarkURL_def)

lemma normalizeBookmarkURL_idem: "normalizeBookmarkURL (normalizeBookmarkURL u) = normalizeBookmarkURL u"
  using normalizeBookmarkURL_absolute [of u] by (auto simp: normalizeBookmarkURL_def [of "normalizeBookmarkURL u"])

lemma bookmarkByID_SaveLog [simp]: "bookmarkByID (SaveLog s) = bookmarkByID s"
  by (simp add: fun_eq_iff bookmarkByID_def GetBookmarkByID_def)

lemma createBookmark_effect:
  assumes s: "srv_inv (st s)" and ok: "formOk rq" "form rq ''url'' \<noteq> []" and f: "bookmarkIdx (st s) (NewID rand8) = None"
    and c: "createBookmark rand8 rq s = (resp, s', tasks)"
  shows "srv_inv (st s')" and "status resp = 204"
    and "bookmarkByID (st s') i = (if i = NewID rand8 then
        Some \<lparr>bID = NewID rand8, bName = (if form rq ''name'' = [] then normalizeBookmarkURL (form rq ''url'') else form rq ''name''),
          bURL = normalizeBookmarkURL (form rq ''url''), bIcon = [], bCategory = form rq ''category'', bOrder = 0\<rparr>
      else bookmarkByID (st s) i)"
proof -
  let ?b = "\<lparr>bID = NewID rand8, bName = (if form rq ''name'' = [] then normalizeBookmarkURL (form rq ''url'') else form rq ''name''),
          bURL = normalizeBookmarkURL (form rq ''url''), bIcon = [], bCategory = form rq ''category'', bOrder = 0\<rparr>"
  have "normalizeBookmarkURL (form rq ''url'') \<noteq> []" using ok(2) by (simp add: normalizeBookmarkURL_def)
  then have e: "resp = toastTrigger 204 ''Bookmark added'' [''refreshBookmarksTable'']"
    "s' = save (on_store (insertBookmark ?b) s)"
    using c ok(1) by (simp_all add: createBookmark_def Let_def)
  show "srv_inv (st s')"
    using srv_inv_insertBookmark [OF s, of ?b] f by (simp add: e(2) save_def on_store_def)
  show "status resp = 204" by (simp add: e(1) toastTrigger_def)
  show "bookmarkByID (st s') i = (if i = NewID rand8 then Some ?b else bookmarkByID (st s) i)"
    using bookmarkByID_insert [OF srv_invD(5) [OF s], of ?b i]
    by (cases "i = NewID rand8") (simp_all add: e(2) save_def on_store_def)
qed

text \<open>Editing a bookmark resets its position and its icon; the name may become empty.\<close>

lemma deleteBookmark_effect:
  assumes s: "srv_inv (st s)" and d: "deleteBookmark rq s = (resp, s')"
  shows "srv_inv (st s')"
    and "bookmarkByID (st s') i = (if i = pathID rq then None else bookmarkByID (st s) i)"
    and "status resp = (if bookmarkByID (st s) (pathID rq) = None then 404 else 200)"
proof -
  note b = srv_invD(5) [OF s]
  have fst_iff: "fst (DeleteBookmark (pathID rq) (st s)) \<longleftrightarrow> bookmarkByID (st s) (pathID rq) \<noteq> None"
    by (simp add: DeleteBookmark_eq [OF b] bookmarkByID_def GetBookmarkByID_def split: option.split)
  let ?t = "snd (DeleteBookmark (pathID rq) (st s))"
  have t: "srv_inv ?t"
    by (rule srv_inv_cong [OF _ _ _ _ _ _ _ _ _ _ _ _ bm_inv_DeleteBookmark [OF b] s]) simp_all
  have e: "st s' = ?t \<or> st s' = SaveLog (DeleteIcon (pathID rq) ?t)"
    using d by (auto simp: deleteBookmark_def save_def split: prod.splits bool.splits)
  then show "srv_inv (st s')" using t by auto
  have "bookmarkByID (DeleteIcon k u) = bookmarkByID u" for k u
    using files_cases(2) [of k u] by (auto simp: fun_eq_iff bookmarkByID_def GetBookmarkByID_def)
  with e have "bookmarkByID (st s') = bookmarkByID ?t" by auto
  then show "bookmarkByID (st s') i = (if i = pathID rq then None else bookmarkByID (st s) i)"
    by (simp add: bookmarkByID_delete [OF b])
  show "status resp = (if bookmarkByID (st s) (pathID rq) = None then 404 else 200)"
    using d fst_iff by (auto simp: deleteBookmark_def apiError_def ok_response_def split: prod.splits bool.splits)
qed

text \<open>Ignoring and un-ignoring an entry bring it back under the same ID and address.\<close>

lemma IgnoreDiscovered_frame [simp]:
  "svcHeap (snd (IgnoreDiscovered i now s)) = svcHeap s" "Services (snd (IgnoreDiscovered i now s)) = Services s"
  "idIdx (snd (IgnoreDiscovered i now s)) = idIdx s" "containerIDIdx (snd (IgnoreDiscovered i now s)) = containerIDIdx s"
  "containerNameIdx (snd (IgnoreDiscovered i now s)) = containerNameIdx s" "bmHeap (snd (IgnoreDiscovered i now s)) = bmHeap s"
  "Bookmarks (snd (IgnoreDiscovered i now s)) = Bookmarks s" "bookmarkIdx (snd (IgnoreDiscovered i now s)) = bookmarkIdx s"
  by (simp_all add: IgnoreDiscovered_def indexIgnored_def unindexDiscovered_def Let_def split: option.split)

lemma UnignoreService_frame [simp]:
  "svcHeap (snd (UnignoreService i s)) = svcHeap s" "Services (snd (UnignoreService i s)) = Services s"
  "idIdx (snd (UnignoreService i s)) = idIdx s" "containerIDIdx (snd (UnignoreService i s)) = containerIDIdx s"
  "containerNameIdx (snd (UnignoreService i s)) = containerNameIdx s" "bmHeap (snd (UnignoreService i s)) = bmHeap s"
  "Bookmarks (snd (UnignoreService i s)) = Bookmarks s" "bookmarkIdx (snd (UnignoreService i s)) = bookmarkIdx s"
  by (simp_all add: UnignoreService_def unindexIgnored_def Let_def split: option.split)

lemma services_frame_only:
  "svcHeap t = svcHeap s \<Longrightarrow> Services t = Services s \<Longrightarrow> services t = services s"
  by (simp add: services_def GetAllServices_def)

lemma ddns_domain_ensure:
  "ddns_domain http c ip d w = logged (EnsureARecord http c d ip) w"
  by (cases "noop c")
    (auto simp: ddns_domain_def logged_def noop_ops EnsureARecord_def bind_op_def return_op_def
      split: prod.splits sum.splits)

text \<open>A run with an unchanged address sends nothing to Cloudflare.\<close>

lemma checkAndUpdate_unchanged:
  assumes "getPublicIP ipify (world s) = (Some (PublicIP (st s)), w)"
  shows "checkAndUpdate http ipify s = (if DDNSDomains (st s) = [] then s else s\<lparr>world := w\<rparr>)"
  using assms by (simp add: checkAndUpdate_def GetPublicIP_def GetDDNSDomains_def)

text \<open>
  So a run whose updates all failed is not repeated: the new address is stored before the
  records are written, and the next run with that address does nothing.
\<close>

lemma checkAndUpdate_no_retry:
  assumes d: "DDNSDomains (st s) \<noteq> []" and ip: "getPublicIP ipify (world s) = (Some ip, w)" "ip \<noteq> PublicIP (st s)"
    and again: "getPublicIP ipify (world (checkAndUpdate http ipify s)) = (Some ip, w')"
  shows "checkAndUpdate http ipify (checkAndUpdate http ipify s) = (checkAndUpdate http ipify s)\<lparr>world := w'\<rparr>"
proof -
  let ?s1 = "checkAndUpdate http ipify s"
  have "st ?s1 = SaveLog (SetPublicIP ip (st s))"
    using d ip by (simp add: checkAndUpdate_def GetPublicIP_def GetDDNSDomains_def save_def)
  then have "PublicIP (st ?s1) = ip" "DDNSDomains (st ?s1) \<noteq> []" using d by (simp_all add: SetPublicIP_def)
  then show ?thesis using checkAndUpdate_unchanged [of ipify ?s1 w' http] again by simp
qed

text \<open>Over the documented service: every domain has the address after a change, and no other name changes.\<close>

lemma length_of_name_keep: "h \<noteq> k \<Longrightarrow> not_of_name k zs' = not_of_name k zs \<Longrightarrow> of_name h zs' = of_name h zs"
  using of_name_other by metis

lemma zone_ok_ensure:
  assumes s: "serves_dns http c recs" and n: "\<not> noop c" and z: "zone_ok (recs w)"
    and e: "EnsureARecord http c d ip w = (Inr (), w')"
  shows "zone_ok (recs w')"
proof -
  obtain w1 where w1: "recs w1 = recs w" "FindRecord http c d w = (Inr (case filter (\<lambda>z. zName z = d) (recs w) of
       [] \<Rightarrow> ([], []) | z # _ \<Rightarrow> (zID z, zContent z)), w1)"
    by (rule served_find [OF s n])
  obtain i ct where f: "FindRecord http c d w = (Inr (i, ct), w1)" using w1(2) by fastforce
  obtain j w2 where w2: "j \<noteq> []" "j \<notin> zID ` set (recs w1)"
    "recs w2 = recs w1 @ [\<lparr>zID = j, zType = ''A'', zName = d, zContent = ip\<rparr>]"
    "createDNSRecord http c (record_params ''A'' d ip 60 False) w1 = (Inr j, w2)"
    by (rule served_post [OF s])
  obtain w3 where w3: "recs w3 = map (\<lambda>y. if zID y = i then y\<lparr>zContent := ip\<rparr> else y) (recs w1)"
    "UpdateRecord http c i ip w1 = (Inr (), w3)"
    by (rule served_update [OF s n])
  have "w' \<in> {w1, w2, w3}"
    using e n f w2(4) w3(2)
    by (auto simp: EnsureARecord_def bind_op_def CreateRecord_post wrap_op_def return_op_def split: if_splits)
  moreover have "zone_ok (recs w1)" "zone_ok (recs w2)" using z w1(1) w2 by (auto simp: zone_ok_def)
  moreover have "zone_ok (recs w3)"
  proof -
    have "map zID (recs w3) = map zID (recs w1)" by (simp add: w3(1))
    moreover from this have "set (map zID (recs w3)) = set (map zID (recs w1))" by simp
    ultimately show ?thesis using z w1(1) unfolding zone_ok_def by (metis image_iff list.set_map)
  qed
  ultimately show ?thesis by auto
qed

lemma ddns_all_served:
  assumes s: "serves_dns http c recs" and n: "\<not> noop c"
  shows "zone_ok (recs w) \<Longrightarrow> distinct ds \<Longrightarrow> (\<And>d. d \<in> set ds \<Longrightarrow> length (of_name d (recs w)) \<le> 1) \<Longrightarrow>
    (\<forall>d \<in> set ds. map zContent (of_name d (recs (fold (ddns_domain http c ip) ds w))) = [ip]) \<and>
    (\<forall>h. h \<notin> set ds \<longrightarrow> of_name h (recs (fold (ddns_domain http c ip) ds w)) = of_name h (recs w))"
proof (induction ds arbitrary: w)
  case Nil
  then show ?case by simp
next
  case (Cons d ds)
  obtain w1 where w1: "EnsureARecord http c d ip w = (Inr (), w1)" "map zContent (of_name d (recs w1)) = [ip]"
    "not_of_name d (recs w1) = not_of_name d (recs w)"
    using EnsureARecord_served [OF s n Cons.prems(1), of d ip] Cons.prems(3) by auto
  have keep: "of_name h (recs w1) = of_name h (recs w)" if "h \<noteq> d" for h
    using length_of_name_keep [OF that w1(3)] .
  have z1: "zone_ok (recs w1)" by (rule zone_ok_ensure [OF s n Cons.prems(1) w1(1)])
  have f: "fold (ddns_domain http c ip) (d # ds) w = fold (ddns_domain http c ip) ds w1"
    by (simp add: ddns_domain_ensure logged_def w1(1))
  have "length (of_name e (recs w1)) \<le> 1" if "e \<in> set ds" for e
  proof -
    have "e \<noteq> d" using that Cons.prems(2) by auto
    then show ?thesis using keep [of e] Cons.prems(3) [of e] that by simp
  qed
  then have IH: "(\<forall>e \<in> set ds. map zContent (of_name e (recs (fold (ddns_domain http c ip) ds w1))) = [ip]) \<and>
    (\<forall>h. h \<notin> set ds \<longrightarrow> of_name h (recs (fold (ddns_domain http c ip) ds w1)) = of_name h (recs w1))"
    using Cons.prems(2) by (intro Cons.IH z1) auto
  show ?case unfolding f using IH w1(2) Cons.prems(2) keep by auto
qed

lemma checkAndUpdate_served:
  assumes s: "serves_dns http (cl s) recs" and n: "\<not> noop (cl s)"
    and ip: "getPublicIP ipify (world s) = (Some ip, w)" "ip \<noteq> PublicIP (st s)" "recs w = recs (world s)"
    and z: "zone_ok (recs (world s))" and d: "distinct (DDNSDomains (st s))" "DDNSDomains (st s) \<noteq> []"
    and one: "\<And>d. d \<in> set (DDNSDomains (st s)) \<Longrightarrow> length (of_name d (recs (world s))) \<le> 1"
  shows "PublicIP (st (checkAndUpdate http ipify s)) = ip"
    and "d \<in> set (DDNSDomains (st s)) \<Longrightarrow> map zContent (of_name d (recs (world (checkAndUpdate http ipify s)))) = [ip]"
    and "h \<notin> set (DDNSDomains (st s)) \<Longrightarrow>
      of_name h (recs (world (checkAndUpdate http ipify s))) = of_name h (recs (world s))"
proof -
  have e: "checkAndUpdate http ipify s =
      save (s\<lparr>st := SetPublicIP ip (st s), world := fold (ddns_domain http (cl s) ip) (DDNSDomains (st s)) w\<rparr>)"
    using d(2) ip by (simp add: checkAndUpdate_def GetPublicIP_def GetDDNSDomains_def)
  note a = ddns_all_served [OF s n, of w "DDNSDomains (st s)" ip]
  show "PublicIP (st (checkAndUpdate http ipify s)) = ip" by (simp add: e save_def SetPublicIP_def)
  show "d \<in> set (DDNSDomains (st s)) \<Longrightarrow> map zContent (of_name d (recs (world (checkAndUpdate http ipify s)))) = [ip]"
    using a z d(1) one by (simp add: e save_def ip(3))
  show "h \<notin> set (DDNSDomains (st s)) \<Longrightarrow>
      of_name h (recs (world (checkAndUpdate http ipify s))) = of_name h (recs (world s))"
    using a z d(1) one by (simp add: e save_def ip(3))
qed

end
