(* ===== verification/Tunnel.thy ===== *)
theory Tunnel
  imports Server
begin

text \<open>
  \<open>internal/tunnel/manager.go\<close> and \<open>internal/web/handle_tunnel.go\<close>: creating, deleting
  and reporting the Cloudflare tunnel, with the state of the \<open>cloudflared\<close> process; then
  the process and its watchers as a step relation.

  Starting the process is the parameter \<open>launch\<close>: whether it started, and the world
  after it.
\<close>

section \<open>The manager\<close>

record 'w Manager =
  srv :: "'w Server"
  running :: bool

record TunnelStatus =
  tsTunnelID :: string
  tsRunning :: bool
  tsCreatedAt :: time

definition startProcess :: "(string \<Rightarrow> 'w \<Rightarrow> bool \<times> 'w) \<Rightarrow> string \<Rightarrow> 'w Manager \<Rightarrow> unit result \<times> 'w Manager" where
  "startProcess launch token m =
    (if running m then (Inr (), m)
     else let (ok, w) = launch token (world (srv m)); m = m\<lparr>srv := (srv m)\<lparr>world := w\<rparr>\<rparr>
          in if ok then (Inr (), m\<lparr>running := True\<rparr>) else (Inl ''start cloudflared'', m))"

definition StartIfConfigured :: "(string \<Rightarrow> 'w \<Rightarrow> bool \<times> 'w) \<Rightarrow> 'w Manager \<Rightarrow> unit result \<times> 'w Manager" where
  "StartIfConfigured launch m = (case GetTunnel (st (srv m)) of
      None \<Rightarrow> (Inr (), m)
    | Some info \<Rightarrow>
        startProcess launch (tiToken info) (m\<lparr>srv := (srv m)\<lparr>cl := SetTunnelID (tiTunnelID info) (cl (srv m))\<rparr>\<rparr>))"

definition Create :: "'w http \<Rightarrow> (string \<Rightarrow> 'w \<Rightarrow> bool \<times> 'w) \<Rightarrow> string \<Rightarrow> time \<Rightarrow> 'w Manager
    \<Rightarrow> TunnelInfo result \<times> 'w Manager" where
  "Create http launch secret now m =
    (case CreateTunnel http secret (cl (srv m)) ''lantern'' (world (srv m)) of
       (Inl e, w) \<Rightarrow> (Inl e, m\<lparr>srv := (srv m)\<lparr>world := w\<rparr>\<rparr>)
     | (Inr ((tid, token), c), w) \<Rightarrow>
         let info = \<lparr>tiTunnelID = tid, tiToken = token, tiCreatedAt = now\<rparr>;
             m = m\<lparr>srv := (srv m)\<lparr>world := w, cl := c, st := SaveLog (SetTunnel info (st (srv m)))\<rparr>\<rparr>
         in case startProcess launch token m of
              (Inl e, m) \<Rightarrow> (Inl e, m)
            | (Inr _, m) \<Rightarrow> (Inr info, m))"

definition Stop :: "'w Manager \<Rightarrow> 'w Manager" where
  "Stop m = m\<lparr>running := False\<rparr>"

definition Delete :: "'w http \<Rightarrow> 'w Manager \<Rightarrow> unit result \<times> 'w Manager" where
  "Delete http m =
    (let info = GetTunnel (st (srv m)); m = Stop m;
         forget = (\<lambda>m. m\<lparr>srv := (srv m)\<lparr>st := SaveLog (ClearTunnel (st (srv m))), cl := SetTunnelID [] (cl (srv m))\<rparr>\<rparr>)
     in case info of
          None \<Rightarrow> (Inr (), forget m)
        | Some i \<Rightarrow> (case DeleteTunnel http (cl (srv m)) (tiTunnelID i) (world (srv m)) of
            (Inl e, w) \<Rightarrow> (Inl e, m\<lparr>srv := (srv m)\<lparr>world := w\<rparr>\<rparr>)
          | (Inr _, w) \<Rightarrow> (Inr (), forget (m\<lparr>srv := (srv m)\<lparr>world := w\<rparr>\<rparr>))))"

definition Status :: "'w Manager \<Rightarrow> TunnelStatus" where
  "Status m = (case GetTunnel (st (srv m)) of
      None \<Rightarrow> \<lparr>tsTunnelID = [], tsRunning = False, tsCreatedAt = 0\<rparr>
    | Some info \<Rightarrow> \<lparr>tsTunnelID = tiTunnelID info, tsRunning = running m, tsCreatedAt = tiCreatedAt info\<rparr>)"

section \<open>The handlers\<close>

text \<open>The manager is always set (\<open>main.go\<close>), so the branches for none are left out.\<close>

definition getTunnel :: "'w Manager \<Rightarrow> response + TunnelStatus" where
  "getTunnel m = (if tsTunnelID (Status m) = [] then Inl (apiError 404 ''no tunnel configured'') else Inr (Status m))"

definition createTunnel :: "'w http \<Rightarrow> (string \<Rightarrow> 'w \<Rightarrow> bool \<times> 'w) \<Rightarrow> string \<Rightarrow> time \<Rightarrow> 'w Manager
    \<Rightarrow> response \<times> 'w Manager" where
  "createTunnel http launch secret now m =
    (if tsTunnelID (Status m) \<noteq> [] then (errorResponse 409 ''tunnel already exists'', m)
     else case Create http launch secret now m of
       (Inl e, m) \<Rightarrow> (errorResponse 500 e, m)
     | (Inr _, m) \<Rightarrow> (ok_response [], m))"

definition deleteTunnel :: "'w http \<Rightarrow> 'w Manager \<Rightarrow> response \<times> 'w Manager" where
  "deleteTunnel http m = (case Delete http m of
      (Inl e, m) \<Rightarrow> (errorResponse 500 e, m)
    | (Inr _, m) \<Rightarrow> (ok_response [], m))"

section \<open>What the operations leave\<close>

lemma SetTunnel_simps [simp]: "Tunnel (SetTunnel i s) = Some i" "Tunnel (ClearTunnel s) = None"
  by (simp_all add: SetTunnel_def ClearTunnel_def)

lemma CreateTunnel_client:
  "CreateTunnel http secret c name w = (Inr ((tid, token), c'), w') \<Longrightarrow>
    c' = SetTunnelID tid c \<and> \<not> noop c \<and> accountID c \<noteq> []"
  by (auto simp: CreateTunnel_def bind_op_def return_op_def error_op_def unmarshal_op_def
      split: if_splits prod.splits sum.splits option.splits)

text \<open>A created tunnel is stored, running, and turns on the routing of the client.\<close>

lemma Create_effect:
  assumes "Create http launch secret now m = (Inr info, m')"
  shows "Tunnel (st (srv m')) = Some info" and "running m'" and "tunnelID (cl (srv m')) = tiTunnelID info"
    and "tiTunnelID info \<noteq> [] \<Longrightarrow> TunnelEnabled (cl (srv m'))"
    and "Status m' = \<lparr>tsTunnelID = tiTunnelID info, tsRunning = True, tsCreatedAt = now\<rparr>"
proof -
  obtain tid token c w where c: "CreateTunnel http secret (cl (srv m)) ''lantern'' (world (srv m)) = (Inr ((tid, token), c), w)"
    using assms by (auto simp: Create_def split: prod.splits sum.splits)
  then have m': "info = \<lparr>tiTunnelID = tid, tiToken = token, tiCreatedAt = now\<rparr> \<and> running m' \<and>
      Tunnel (st (srv m')) = Some info \<and> cl (srv m') = c"
    using assms by (auto simp: Create_def startProcess_def Let_def split: prod.splits sum.splits if_splits)
  then show "Tunnel (st (srv m')) = Some info" "running m'" by simp_all
  note cc = CreateTunnel_client [OF c]
  show t: "tunnelID (cl (srv m')) = tiTunnelID info" using m' cc by (simp add: SetTunnelID_def)
  show "tiTunnelID info \<noteq> [] \<Longrightarrow> TunnelEnabled (cl (srv m'))"
    using m' cc by (simp add: TunnelEnabled_def SetTunnelID_def)
  show "Status m' = \<lparr>tsTunnelID = tiTunnelID info, tsRunning = True, tsCreatedAt = now\<rparr>"
    using m' by (simp add: Status_def GetTunnel_def)
qed

lemma Delete_effect:
  assumes "Delete http m = (Inr u, m')"
  shows "Tunnel (st (srv m')) = None" and "\<not> running m'" and "\<not> TunnelEnabled (cl (srv m'))"
    and "Status m' = \<lparr>tsTunnelID = [], tsRunning = False, tsCreatedAt = 0\<rparr>"
  using assms by (auto simp: Delete_def Let_def Stop_def Status_def GetTunnel_def TunnelEnabled_def SetTunnelID_def
      split: option.splits prod.splits sum.splits)

text \<open>When Cloudflare refuses the deletion, the process is stopped and the tunnel still stored.\<close>

lemma Delete_error:
  assumes "Delete http m = (Inl e, m')"
  shows "\<not> running m'" and "st (srv m') = st (srv m)" and "cl (srv m') = cl (srv m)"
    and "\<exists>info. Tunnel (st (srv m)) = Some info"
  using assms by (auto simp: Delete_def Let_def Stop_def GetTunnel_def split: option.splits prod.splits sum.splits)

text \<open>
  A tunnel that is configured by the environment is not in the store: deleting "the tunnel"
  then sends nothing and takes the ID from the client.
\<close>

lemma Delete_env_tunnel:
  assumes "Tunnel (st (srv m)) = None" and "TunnelEnabled (cl (srv m))"
  shows "fst (Delete http m) = Inr ()" and "\<not> TunnelEnabled (cl (srv (snd (Delete http m))))"
    and "world (srv (snd (Delete http m))) = world (srv m)"
  using assms by (simp_all add: Delete_def Let_def GetTunnel_def Stop_def TunnelEnabled_def SetTunnelID_def)

lemma createTunnel_conflict:
  "Tunnel (st (srv m)) = Some info \<Longrightarrow> tiTunnelID info \<noteq> [] \<Longrightarrow>
    createTunnel http launch secret now m = (errorResponse 409 ''tunnel already exists'', m)"
  by (simp add: createTunnel_def Status_def GetTunnel_def)

section \<open>The process and its watchers\<close>

text \<open>
  \<open>startProcess\<close>, \<open>watchAndRestart\<close> and \<open>Stop\<close> in their locked sections.  Processes
  and contexts are numbered; \<open>alive\<close> are the processes that run, \<open>cancelled\<close> the
  contexts that are over.  A stop first clears the fields and only then cancels and kills.
\<close>

datatype wphase = AtTop | Waiting nat | Check | Sleeping | Gone

record procs =
  isRunning :: bool
  cmd :: "nat option"
  cancelFn :: "nat option"
  alive :: "nat set"
  cancelled :: "nat set"
  watchers :: "nat \<Rightarrow> wphase"
  stopping :: "(nat option \<times> nat option) list"
  next_no :: nat

definition no_procs :: procs where
  "no_procs = \<lparr>isRunning = False, cmd = None, cancelFn = None, alive = {}, cancelled = {},
     watchers = (\<lambda>_. Gone), stopping = [], next_no = 0\<rparr>"

text \<open>A fresh number is both the context and the process of a start.\<close>

inductive proc_step :: "procs \<Rightarrow> procs \<Rightarrow> bool" where
  start_running: "isRunning s \<Longrightarrow> proc_step s s"
| start_ok: "\<not> isRunning s \<Longrightarrow> n = next_no s \<Longrightarrow>
    proc_step s (s\<lparr>isRunning := True, cmd := Some n, cancelFn := Some n, alive := insert n (alive s),
      watchers := (watchers s)(n := AtTop), next_no := Suc n\<rparr>)"
| start_err: "\<not> isRunning s \<Longrightarrow> n = next_no s \<Longrightarrow>
    proc_step s (s\<lparr>cancelFn := Some n, cancelled := insert n (cancelled s), next_no := Suc n\<rparr>)"
| exits: "p \<in> alive s \<Longrightarrow> proc_step s (s\<lparr>alive := alive s - {p}\<rparr>)"
| w_top_none: "watchers s c = AtTop \<Longrightarrow> cmd s = None \<Longrightarrow> proc_step s (s\<lparr>watchers := (watchers s)(c := Gone)\<rparr>)"
| w_top: "watchers s c = AtTop \<Longrightarrow> cmd s = Some p \<Longrightarrow> proc_step s (s\<lparr>watchers := (watchers s)(c := Waiting p)\<rparr>)"
| w_exit: "watchers s c = Waiting p \<Longrightarrow> p \<notin> alive s \<Longrightarrow>
    proc_step s (s\<lparr>isRunning := False, watchers := (watchers s)(c := Check)\<rparr>)"
| w_done: "watchers s c \<in> {Check, Sleeping} \<Longrightarrow> c \<in> cancelled s \<Longrightarrow>
    proc_step s (s\<lparr>watchers := (watchers s)(c := Gone)\<rparr>)"
| w_sleep: "watchers s c = Check \<Longrightarrow> c \<notin> cancelled s \<Longrightarrow> proc_step s (s\<lparr>watchers := (watchers s)(c := Sleeping)\<rparr>)"
| w_relaunch: "watchers s c = Sleeping \<Longrightarrow> c \<notin> cancelled s \<Longrightarrow> n = next_no s \<Longrightarrow>
    proc_step s (s\<lparr>isRunning := True, cmd := Some n, alive := insert n (alive s),
      watchers := (watchers s)(c := AtTop), next_no := Suc n\<rparr>)"
| w_relaunch_err: "watchers s c = Sleeping \<Longrightarrow> proc_step s (s\<lparr>watchers := (watchers s)(c := Gone)\<rparr>)"
| stop_lock: "proc_step s (s\<lparr>isRunning := False, cmd := None, cancelFn := None,
    stopping := (cancelFn s, cmd s) # stopping s\<rparr>)"
| stop_kill: "(c, p) \<in> set (stopping s) \<Longrightarrow>
    proc_step s (s\<lparr>cancelled := set_option c \<union> cancelled s, alive := alive s - set_option p,
      stopping := remove1 (c, p) (stopping s)\<rparr>)"

abbreviation proc_run :: "procs \<Rightarrow> procs \<Rightarrow> bool" where
  "proc_run \<equiv> proc_step\<^sup>*\<^sup>*"

lemmas proc_first = converse_rtranclp_into_rtranclp [where r = proc_step]
lemmas proc_none = rtranclp.rtrancl_refl [where r = proc_step]

text \<open>Numbers are fresh: everything the state mentions was given out before.\<close>

definition proc_inv :: "procs \<Rightarrow> bool" where
  "proc_inv s \<longleftrightarrow>
     alive s \<subseteq> {..< next_no s} \<and>
     (\<forall>p. cmd s = Some p \<longrightarrow> p < next_no s) \<and>
     (\<forall>c. watchers s c \<noteq> Gone \<longrightarrow> c < next_no s) \<and>
     (isRunning s \<longrightarrow> cmd s \<noteq> None)"

lemma proc_inv_none: "proc_inv no_procs"
  by (simp add: proc_inv_def no_procs_def)

lemma proc_inv_step: "proc_step s t \<Longrightarrow> proc_inv s \<Longrightarrow> proc_inv t"
  by (induction rule: proc_step.induct) (auto simp: proc_inv_def less_Suc_eq)

interpretation numbered: kept proc_step proc_inv
  by unfold_locales (rule proc_inv_step)

text \<open>A process that has ended or was killed never runs again.\<close>

lemma dead_step: "proc_step s t \<Longrightarrow> p < next_no s \<Longrightarrow> p \<notin> alive s \<Longrightarrow> p < next_no t \<and> p \<notin> alive t"
  by (induction rule: proc_step.induct) auto

interpretation dead: kept proc_step "\<lambda>s. p < next_no s \<and> p \<notin> alive s" for p
  by unfold_locales (use dead_step in blast)

lemma dead_run: "proc_run s t \<Longrightarrow> p < next_no s \<Longrightarrow> p \<notin> alive s \<Longrightarrow> p < next_no t \<and> p \<notin> alive t"
  using dead.always by blast

text \<open>What a stop has taken is dead once it has finished.\<close>

lemma stop_kills:
  "proc_inv s \<Longrightarrow> cmd s = Some p \<Longrightarrow>
    \<exists>t. proc_run s t \<and> p \<notin> alive t \<and> \<not> isRunning t \<and> cmd t = None \<and> p < next_no t"
proof -
  assume s: "proc_inv s" "cmd s = Some p"
  let ?a = "s\<lparr>isRunning := False, cmd := None, cancelFn := None, stopping := (cancelFn s, cmd s) # stopping s\<rparr>"
  let ?b = "?a\<lparr>cancelled := set_option (cancelFn s) \<union> cancelled ?a, alive := alive ?a - set_option (cmd s),
      stopping := remove1 (cancelFn s, cmd s) (stopping ?a)\<rparr>"
  have "proc_step s ?a" by (rule stop_lock)
  moreover have "proc_step ?a ?b" by (rule stop_kill) simp
  ultimately have "proc_run s ?b" by (intro proc_first [OF _ proc_first [OF _ proc_none]])
  moreover have "p \<notin> alive ?b \<and> \<not> isRunning ?b \<and> cmd ?b = None \<and> p < next_no ?b"
    using s by (simp add: proc_inv_def)
  ultimately show ?thesis by blast
qed

text \<open>
  A stop and a new start before the first watcher gets the lock: the watcher then clears the
  flag of the new process, which runs while the status says that nothing does.
\<close>

lemma stale_watcher:
  "\<exists>s. proc_run no_procs s \<and> cmd s = Some 1 \<and> 1 \<in> alive s \<and> stopping s = [] \<and> \<not> isRunning s"
proof -
  let ?s0 = no_procs
  let ?s1 = "?s0\<lparr>isRunning := True, cmd := Some 0, cancelFn := Some 0, alive := insert 0 (alive ?s0),
      watchers := (watchers ?s0)(0 := AtTop), next_no := Suc 0\<rparr>"
  let ?s2 = "?s1\<lparr>watchers := (watchers ?s1)(0 := Waiting 0)\<rparr>"
  let ?s3 = "?s2\<lparr>isRunning := False, cmd := None, cancelFn := None, stopping := (cancelFn ?s2, cmd ?s2) # stopping ?s2\<rparr>"
  let ?s4 = "?s3\<lparr>cancelled := set_option (Some 0) \<union> cancelled ?s3, alive := alive ?s3 - set_option (Some 0),
      stopping := remove1 (Some 0, Some 0) (stopping ?s3)\<rparr>"
  let ?s5 = "?s4\<lparr>isRunning := True, cmd := Some 1, cancelFn := Some 1, alive := insert 1 (alive ?s4),
      watchers := (watchers ?s4)(1 := AtTop), next_no := Suc 1\<rparr>"
  let ?s6 = "?s5\<lparr>isRunning := False, watchers := (watchers ?s5)(0 := Check)\<rparr>"
  have 1: "proc_step ?s0 ?s1" by (rule start_ok) (simp_all add: no_procs_def)
  have 2: "proc_step ?s1 ?s2" by (rule w_top) simp_all
  have 3: "proc_step ?s2 ?s3" by (rule stop_lock)
  have 4: "proc_step ?s3 ?s4" by (rule stop_kill) simp
  have 5: "proc_step ?s4 ?s5" by (rule start_ok) (simp_all add: no_procs_def)
  have 6: "proc_step ?s5 ?s6" by (rule w_exit [where p = 0]) (simp_all add: no_procs_def)
  have "proc_run ?s0 ?s6" by (rule proc_first [OF 1 proc_first [OF 2 proc_first [OF 3
      proc_first [OF 4 proc_first [OF 5 proc_first [OF 6 proc_none]]]]]])
  moreover have "cmd ?s6 = Some 1 \<and> 1 \<in> alive ?s6 \<and> stopping ?s6 = [] \<and> \<not> isRunning ?s6"
    by (simp add: no_procs_def)
  ultimately show ?thesis by blast
qed

end
