(* ===== verification/Docker.thy ===== *)
theory Docker
  imports WebServiceLaws "HOL-Library.Word"
begin

text \<open>
  \<open>internal/discovery/docker.go\<close>: what the program does with the containers that Docker
  reports.  \<open>resolveContainer\<close> reads the name, the subdomain and the backend from labels
  and published ports; \<open>upsertContainerWithLabels\<close> attaches a container to the service
  that stands for it, or offers it for discovery; \<open>detachContainer\<close> is what an exit does.

  The labels are a Go map, iterated in an order of the runtime's choice: the model takes them as
  the list of that iteration.  The Docker client and the HTTP client are not modelled: a
  \<open>get\<close> answers a URL with the status of the response, \<open>None\<close> when there is none.
\<close>

type_synonym labels = "(string \<times> string) list"
type_synonym 'w get = "string \<Rightarrow> 'w \<Rightarrow> int option \<times> 'w"

record PortSummary =
  pType :: string
  PrivatePort :: "16 word"
  PublicPort :: "16 word"

section \<open>Labels and ports\<close>

definition label :: "labels \<Rightarrow> string \<Rightarrow> string" where
  "label ls k = (case map_of ls k of Some v \<Rightarrow> v | None \<Rightarrow> [])"

text \<open>
  \<open>reTraefikHost\<close>, the expression \<open>(?i)Host\(`([^`]+)`\)\<close>: its first match.  Without
  regard to case, an \<open>s\<close> is also U+017F, two bytes in UTF-8.
\<close>

definition host_open :: "string \<Rightarrow> string option" where
  "host_open s =
    (if EqualFold (take 6 s) ''Host(`'' then Some (drop 6 s)
     else if EqualFold (take 7 s) ([CHR ''H'', CHR ''o'', CHR 0xC5, CHR 0xBF] @ ''t(`'') then Some (drop 7 s)
     else None)"

fun traefik_host :: "string \<Rightarrow> string option" where
  "traefik_host [] = None"
| "traefik_host (c # s) = (case host_open (c # s) of
      None \<Rightarrow> traefik_host s
    | Some t \<Rightarrow> let h = takeWhile (\<lambda>x. x \<noteq> CHR ''`'') t
        in if h \<noteq> [] \<and> HasPrefix (drop (length h) t) ''`)'' then Some h else traefik_host s)"

fun traefikSubdomain :: "labels \<Rightarrow> string \<Rightarrow> string" where
  "traefikSubdomain [] domain = []"
| "traefikSubdomain ((k, v) # ls) domain =
    (if \<not> HasPrefix k ''traefik.http.routers.'' \<or> \<not> HasSuffix k ''.rule'' then traefikSubdomain ls domain
     else case traefik_host v of
       None \<Rightarrow> traefikSubdomain ls domain
     | Some m \<Rightarrow> let host = ToLower m in
         if domain \<noteq> [] \<and> HasSuffix host (''.'' @ domain) then TrimSuffix host (''.'' @ domain)
         else SanitiseSubdomain host)"

fun traefikPort :: "labels \<Rightarrow> int" where
  "traefikPort [] = 0"
| "traefikPort ((k, v) # ls) =
    (if \<not> HasPrefix k ''traefik.http.services.'' then traefikPort ls
     else if \<not> HasSuffix k ''.loadbalancer.server.port'' then traefikPort ls
     else fst (Atoi v))"

definition preferred :: "int list" where
  "preferred = [80, 8080, 3000, 5000, 9443, 9000, 8096, 8123, 443, 8443, 8000]"

definition published :: "PortSummary \<Rightarrow> bool" where
  "published p \<longleftrightarrow> pType p = ''tcp'' \<and> PublicPort p > 0"

definition bestPort :: "PortSummary list \<Rightarrow> int" where
  "bestPort ports =
    (let portSet = set (map (\<lambda>p. uint (PublicPort p)) (filter published ports))
     in case find (\<lambda>pp. pp \<in> portSet) preferred of
          Some pp \<Rightarrow> pp
        | None \<Rightarrow> (case find published ports of Some p \<Rightarrow> uint (PublicPort p) | None \<Rightarrow> 0))"

text \<open>
  \<open>portsFromNetwork\<close>: the port map of an inspection, in the order of its iteration; the
  key is a port and a protocol, the value the host ports bound to it.
\<close>

definition bound_ports :: "string \<Rightarrow> nat \<Rightarrow> string list \<Rightarrow> PortSummary list" where
  "bound_ports proto priv bindings = concat (map (\<lambda>b. case ParseUint b 16 of
      None \<Rightarrow> []
    | Some pub \<Rightarrow> [\<lparr>pType = proto, PrivatePort = word_of_nat priv, PublicPort = word_of_nat pub\<rparr>]) bindings)"

definition portsFromNetwork :: "((string \<times> string) \<times> string list) list \<Rightarrow> PortSummary list" where
  "portsFromNetwork pm = concat (map (\<lambda>((port, proto), bindings). case ParseUint port 16 of
      None \<Rightarrow> [] | Some priv \<Rightarrow> bound_ports proto priv bindings) pm)"

section \<open>Targets\<close>

definition splitTarget :: "string \<Rightarrow> string \<times> int" where
  "splitTarget target =
    (let s = TrimSuffix (TrimPrefix (TrimPrefix target ''http://'') ''https://'') ''/''
     in case LastIndexByte s (CHR '':'') of
          None \<Rightarrow> (s, 0)
        | Some idx \<Rightarrow> (take idx s, fst (Atoi (drop (idx + 1) s))))"

definition preserveScheme :: "string \<Rightarrow> string \<Rightarrow> string" where
  "preserveScheme oldTarget newTarget =
    (case Cut oldTarget ''://'' of (before, _, ok) \<Rightarrow>
       if ok then (case Index newTarget ''://'' of Some j \<Rightarrow> before @ drop j newTarget | None \<Rightarrow> newTarget)
       else newTarget)"

definition probe_url :: "string \<Rightarrow> string \<Rightarrow> int \<Rightarrow> string" where
  "probe_url scheme ip port = scheme @ ''://'' @ ip @ '':'' @ Itoa port @ ''/''"

text \<open>\<open>schemeReachable\<close> and \<open>detectScheme\<close> of \<open>network.go\<close>.\<close>

definition schemeReachable :: "'w get \<Rightarrow> string \<Rightarrow> int \<Rightarrow> string \<Rightarrow> 'w \<Rightarrow> bool \<times> 'w" where
  "schemeReachable get ip port scheme w =
    (case get (probe_url scheme ip port) w of (None, w) \<Rightarrow> (False, w) | (Some sc, w) \<Rightarrow> (sc \<noteq> 400, w))"

definition detectScheme :: "'w get \<Rightarrow> string \<Rightarrow> int \<Rightarrow> 'w \<Rightarrow> string \<times> 'w" where
  "detectScheme get ip port w =
    (let scheme = port_scheme port;
         alt = (if scheme = ''https'' then ''http'' else ''https'')
     in case schemeReachable get ip port scheme w of
          (True, w) \<Rightarrow> (scheme, w)
        | (False, w) \<Rightarrow> (case schemeReachable get ip port alt w of
              (True, w) \<Rightarrow> (alt, w)
            | (False, w) \<Rightarrow> (scheme, w)))"

section \<open>Resolving a container\<close>

record containerInfo =
  ciName :: string
  ciSubdomain :: string
  ciTarget :: string

definition container_subdomain :: "Config \<Rightarrow> string \<Rightarrow> labels \<Rightarrow> string" where
  "container_subdomain c name ls =
    (if label ls ''lantern.subdomain'' \<noteq> [] then SanitiseSubdomain (label ls ''lantern.subdomain'')
     else if label ls ''lantern.url'' \<noteq> [] then SanitiseSubdomain name
     else if traefikSubdomain ls (Domain c) \<noteq> [] then traefikSubdomain ls (Domain c)
     else SanitiseSubdomain name)"

definition container_port :: "PortSummary list \<Rightarrow> labels \<Rightarrow> int" where
  "container_port ports ls =
    (let port = (if label ls ''lantern.port'' \<noteq> [] then fst (Atoi (label ls ''lantern.port'')) else 0);
         port = (if port = 0 then traefikPort ls else port)
     in if port = 0 then bestPort ports else port)"

definition container_scheme :: "'w get \<Rightarrow> Config \<Rightarrow> int \<Rightarrow> labels \<Rightarrow> 'w \<Rightarrow> string \<times> 'w" where
  "container_scheme get c port ls w =
    (let s = label ls ''lantern.scheme''
     in if s = ''https'' \<or> s = ''http'' then (s, w) else detectScheme get (ServerIP c) port w)"

definition resolveContainer ::
  "'w get \<Rightarrow> Config \<Rightarrow> string \<Rightarrow> PortSummary list \<Rightarrow> labels \<Rightarrow> 'w \<Rightarrow> containerInfo option \<times> 'w" where
  "resolveContainer get c name ports ls w =
    (let nm = (if label ls ''lantern.name'' \<noteq> [] then label ls ''lantern.name'' else name);
         sub = container_subdomain c name ls;
         port = container_port ports ls
     in if label ls ''lantern.url'' \<noteq> []
        then (Some \<lparr>ciName = nm, ciSubdomain = sub, ciTarget = label ls ''lantern.url''\<rparr>, w)
        else if port = 0 then (None, w)
        else case container_scheme get c port ls w of (scheme, w) \<Rightarrow>
          (Some \<lparr>ciName = nm, ciSubdomain = sub, ciTarget = scheme @ ''://'' @ ServerIP c @ '':'' @ Itoa port\<rparr>, w))"

section \<open>Attaching and detaching\<close>

definition detachContainer :: "string \<Rightarrow> 'w Server \<Rightarrow> 'w Server" where
  "detachContainer i = on_store (\<lambda>s. SaveLog (RemoveDiscoveredByContainerID i (ClearContainerID i s)))"

definition docker_entry :: "string \<Rightarrow> string \<Rightarrow> string \<Rightarrow> string \<Rightarrow> string \<Rightarrow> time \<Rightarrow> DiscoveredService" where
  "docker_entry did i name target suggestedSub now =
    \<lparr>dID = did, dIP = fst (splitTarget target), dPort = snd (splitTarget target), dTitle = name, dIcon = [],
     dServiceName = [], dConfidence = 0, dSource = SourceDocker, dContainerName = name, dContainerID = i,
     dSuggestedSubdomain = suggestedSub, dDiscoveredAt = now\<rparr>"

text \<open>The second result is the favicon fetch that the code starts in a goroutine: for which entry, from where.\<close>

definition addDockerDiscovered ::
  "nat list \<Rightarrow> time \<Rightarrow> string \<Rightarrow> string \<Rightarrow> string \<Rightarrow> string \<Rightarrow> 'w Server \<Rightarrow> 'w Server \<times> (string \<times> string) option" where
  "addDockerDiscovered rand8 now i name target suggestedSub s =
    (if GetDiscoveredByContainerID i (st s) \<noteq> None then (s, None)
     else (on_store (\<lambda>t. SaveLog (insertDiscovered (docker_entry (NewID rand8) i name target suggestedSub now) t)) s,
           Some (NewID rand8, target)))"

definition fetchAndStoreDiscoveredFavicon :: "'w fetch \<Rightarrow> string \<Rightarrow> string \<Rightarrow> 'w Server \<Rightarrow> 'w Server" where
  "fetchAndStoreDiscoveredFavicon fetch i target s =
    (let (data, w) = fetch target (world s); s = s\<lparr>world := w\<rparr>
     in if data = [] then s
        else case WriteIcon i data (st s) of
          (Inl _, t) \<Rightarrow> s\<lparr>st := t\<rparr>
        | (Inr _, t) \<Rightarrow> s\<lparr>st := SaveLog (UpdateDiscoveredIcon i IconFile t)\<rparr>)"

definition reattached :: "string \<Rightarrow> string \<Rightarrow> string \<Rightarrow> Service \<Rightarrow> Service" where
  "reattached i name target v =
    v\<lparr>sContainerID := i, sContainerName := name, sTarget := preserveScheme (sTarget v) target\<rparr>"

definition reattach :: "string \<Rightarrow> string \<Rightarrow> string \<Rightarrow> ref \<Rightarrow> 'w Server \<Rightarrow> 'w Server" where
  "reattach i name target r = on_store (\<lambda>s.
    let (q, t) = newService (reattached i name target (svcHeap s ! r)) s
    in SaveLog (snd (UpdateService (sID (svcHeap s ! r)) q t)))"

definition upsertContainerWithLabels ::
  "'w get \<Rightarrow> nat list \<Rightarrow> time \<Rightarrow> string \<Rightarrow> string \<Rightarrow> PortSummary list \<Rightarrow> labels \<Rightarrow> 'w Server \<Rightarrow>
    'w Server \<times> (string \<times> string) option" where
  "upsertContainerWithLabels get rand8 now i name ports ls s =
    (if name = [] \<or> name = ''lantern'' then (s, None)
     else if label ls ''lantern.enable'' = ''false'' then (s, None)
     else if GetServiceByContainerID i (st s) \<noteq> None then (s, None)
     else case resolveContainer get (cfg s) name ports ls (world s) of
       (None, w) \<Rightarrow> (s\<lparr>world := w\<rparr>, None)
     | (Some info, w) \<Rightarrow>
         let s = s\<lparr>world := w\<rparr>
         in case GetServiceByContainerName name (st s) of
           Some r \<Rightarrow> (reattach i (sContainerName (svcHeap (st s) ! r)) (ciTarget info) r s, None)
         | None \<Rightarrow> (case GetServiceBySubdomain (ciSubdomain info) (st s) of
             Some r \<Rightarrow>
               if sSource (svcHeap (st s) ! r) = SourceDocker then (reattach i name (ciTarget info) r s, None)
               else addDockerDiscovered rand8 now i (ciName info) (ciTarget info) (ciSubdomain info) s
           | None \<Rightarrow> addDockerDiscovered rand8 now i (ciName info) (ciTarget info) (ciSubdomain info) s))"

text \<open>
  A running container as \<open>ContainerList\<close> gives it, and \<open>syncContainers\<close> over all
  of them; the random bytes of each new ID come from the list.
\<close>

record container =
  cID :: string
  cNames :: "string list"
  cPorts :: "PortSummary list"
  cLabels :: labels

definition sync_one :: "'w get \<Rightarrow> time \<Rightarrow> container \<times> nat list \<Rightarrow> 'w Server \<Rightarrow> 'w Server" where
  "sync_one get now c s = (case c of (c, rand8) \<Rightarrow>
    (case cNames c of
       [] \<Rightarrow> s
     | n # _ \<Rightarrow> let name = TrimPrefix n ''/'' in
         if name \<noteq> [] then fst (upsertContainerWithLabels get rand8 now (cID c) name (cPorts c) (cLabels c) s)
         else s))"

definition syncContainers :: "'w get \<Rightarrow> time \<Rightarrow> (container \<times> nat list) list \<Rightarrow> 'w Server \<Rightarrow> 'w Server" where
  "syncContainers get now cs s = fold (sync_one get now) cs s"

text \<open>
  \<open>handleDockerEvent\<close>: \<open>insp\<close> is the inspection of a started container, \<open>None\<close>
  when it fails: its ID, name, port map and labels.
\<close>

definition handleDockerEvent ::
  "'w get \<Rightarrow> nat list \<Rightarrow> time \<Rightarrow> string \<Rightarrow> string \<Rightarrow>
    (string \<times> string \<times> ((string \<times> string) \<times> string list) list \<times> labels) option \<Rightarrow> 'w Server \<Rightarrow> 'w Server" where
  "handleDockerEvent get rand8 now action actor insp s =
    (if action = ''start'' then
       (case insp of
          None \<Rightarrow> s
        | Some (i, nm, pm, ls) \<Rightarrow> let name = TrimPrefix nm ''/'' in
            if name \<noteq> [] then fst (upsertContainerWithLabels get rand8 now i name (portsFromNetwork pm) ls s) else s)
     else if action \<in> {''die'', ''stop'', ''destroy'', ''kill''} then detachContainer actor s
     else s)"

section \<open>Ports, targets, schemes\<close>

text \<open>The port is a published TCP port, the first of the preferred ones that is, and 0 only when none is published.\<close>

lemma published_port: "published p \<Longrightarrow> 0 < uint (PublicPort p)"
  by (simp add: published_def word_less_alt)

lemma bestPort_published:
  assumes "bestPort ports \<noteq> 0"
  shows "\<exists>p \<in> set ports. published p \<and> uint (PublicPort p) = bestPort ports"
proof -
  let ?S = "set (map (\<lambda>p. uint (PublicPort p)) (filter published ports))"
  consider q where "find (\<lambda>pp. pp \<in> ?S) preferred = Some q"
    | p where "find (\<lambda>pp. pp \<in> ?S) preferred = None" "find published ports = Some p"
    | "find (\<lambda>pp. pp \<in> ?S) preferred = None" "find published ports = None"
    by fastforce
  then show ?thesis
  proof cases
    case (1 q)
    then have "bestPort ports = q" by (simp add: bestPort_def Let_def)
    with find_SomeD' [OF 1] show ?thesis by auto
  next
    case (2 p)
    then have "bestPort ports = uint (PublicPort p)" by (simp add: bestPort_def Let_def)
    with find_SomeD' [OF 2(2)] show ?thesis by auto
  next
    case 3
    with assms show ?thesis by (simp add: bestPort_def Let_def)
  qed
qed

lemma bestPort_zero: "bestPort ports = 0 \<longleftrightarrow> (\<forall>p \<in> set ports. \<not> published p)"
proof
  assume z: "bestPort ports = 0"
  show "\<forall>p \<in> set ports. \<not> published p"
  proof (rule ccontr)
    assume "\<not> ?thesis"
    then obtain p where p: "find published ports = Some p"
      by (cases "find published ports") (auto dest: find_NoneD')
    then have "0 < uint (PublicPort p)" by (simp add: published_port find_SomeD')
    moreover have "find (\<lambda>pp. pp \<in> S) preferred \<noteq> Some 0" for S :: "int set"
      by (auto simp: preferred_def split: if_splits dest!: find_SomeD')
    ultimately show False
      using z p by (auto simp: bestPort_def Let_def split: option.splits)
  qed
next
  assume n: "\<forall>p \<in> set ports. \<not> published p"
  then have "find published ports = None" "filter published ports = []"
    by (auto simp: find_None_iff filter_empty_conv)
  then show "bestPort ports = 0" by (simp add: bestPort_def preferred_def)
qed

lemma bestPort_preferred:
  assumes "pp \<in> set preferred" and "p \<in> set ports" "published p" "uint (PublicPort p) = pp"
  shows "find (\<lambda>q. q \<in> set (map (\<lambda>p. uint (PublicPort p)) (filter published ports))) preferred = Some (bestPort ports)"
proof (cases "find (\<lambda>q. q \<in> set (map (\<lambda>p. uint (PublicPort p)) (filter published ports))) preferred")
  case None
  then have "pp \<notin> set (map (\<lambda>p. uint (PublicPort p)) (filter published ports))"
    using assms(1) by (auto dest: find_NoneD')
  with assms(2-4) show ?thesis by auto
next
  case (Some q)
  then show ?thesis by (simp add: bestPort_def Let_def)
qed

lemma no_affix: "c \<in> set p \<Longrightarrow> c \<notin> set s \<Longrightarrow> TrimPrefix s p = s \<and> TrimSuffix s p = s"
  by (auto simp: TrimPrefix_def TrimSuffix_def HasPrefix_iff HasSuffix_iff)

lemma Itoa_no_slash: "CHR ''/'' \<notin> set (Itoa i)"
  by (auto simp: Itoa_def is_digit_def dest!: nat_digits_digit split: if_splits)

text \<open>\<open>splitTarget\<close> reads back what \<open>resolveContainer\<close> prints.\<close>

lemma splitTarget_printed:
  assumes sch: "scheme = ''http'' \<or> scheme = ''https''" and ip: "CHR ''/'' \<notin> set ip"
    and port: "0 \<le> port" "port < 2 ^ 63"
  shows "splitTarget (scheme @ ''://'' @ ip @ '':'' @ Itoa port) = (ip, port)"
proof -
  let ?hp = "ip @ CHR '':'' # Itoa port"
  have n: "CHR ''/'' \<notin> set ?hp" using ip Itoa_no_slash by simp
  note m = no_affix [of "CHR ''/''" _ ?hp, OF _ n]
  have h: "TrimPrefix (''http://'' @ ?hp) ''http://'' = ?hp" "TrimPrefix (''https://'' @ ?hp) ''https://'' = ?hp"
    by (rule TrimPrefix_append)+
  have ns: "TrimPrefix (''https://'' @ ?hp) ''http://'' = ''https://'' @ ?hp"
    by (simp add: TrimPrefix_def HasPrefix_def)
  have "TrimPrefix (TrimPrefix (scheme @ ''://'' @ ?hp) ''http://'') ''https://'' = ?hp"
    using sch h ns m [of "''https://''"] by auto
  moreover have "LastIndexByte ?hp (CHR '':'') = Some (length ip)"
    by (rule LastIndexByte_append) (rule Itoa_no_colon)
  moreover have "Atoi (Itoa port) = (port, True)" using port by (intro Atoi_Itoa) auto
  ultimately show ?thesis using m [of "''/''"] by (simp add: splitTarget_def Let_def)
qed

text \<open>
  \<open>preserveScheme\<close>: the scheme the user corrected stays, host and port come from the
  container.
\<close>

lemma Index_sep:
  assumes "CHR '':'' \<notin> set a"
  shows "Index (a @ ''://'' @ b) ''://'' = Some (length a)"
  using assms by (induction a) (auto simp: HasPrefix_def Index.simps)

lemma preserveScheme_eq:
  assumes "CHR '':'' \<notin> set a" and "CHR '':'' \<notin> set c"
  shows "preserveScheme (a @ ''://'' @ b) (c @ ''://'' @ d) = a @ ''://'' @ d"
  using Index_sep [OF assms(1), of b] Index_sep [OF assms(2), of d] by (simp add: preserveScheme_def Cut_def)

lemma preserveScheme_none:
  "Index oldTarget ''://'' = None \<or> Index newTarget ''://'' = None \<Longrightarrow> preserveScheme oldTarget newTarget = newTarget"
  by (auto simp: preserveScheme_def Cut_def split: option.splits)

text \<open>The scheme of the heuristic, or the other one when only that one answers.\<close>

lemma detectScheme_result:
  "fst (detectScheme get ip port w) \<in> {''http'', ''https''}"
  "fst (schemeReachable get ip port (port_scheme port) w) \<Longrightarrow> fst (detectScheme get ip port w) = port_scheme port"
  by (cases "schemeReachable get ip port (port_scheme port) w"; auto simp: detectScheme_def Let_def port_scheme_def split: prod.splits bool.splits)+

section \<open>Attaching a container\<close>

text \<open>The tables after a reattachment, for a container that no service has and a name that none has or that is kept.\<close>

lemma reattach_free:
  assumes s: "svc_inv s" and r: "idIdx s i = Some r" and src: "sSource (svcHeap s ! r) = SourceDocker"
    and c: "containerIDIdx s cid = None"
    and n: "name = sContainerName (svcHeap s ! r) \<or> containerNameIdx s name = None"
  shows "svc_free (reattached cid name target (svcHeap s ! r)) (detach r s)"
proof -
  have m: "r \<in> refs_of (Services s)" "sID (svcHeap s ! r) = i" using s r by (simp_all add: idIdx_iff)
  show ?thesis
    using m c n src by (auto simp: svc_free_def reattached_def wf_service_def delete_conv')
qed

lemma reattach_eq:
  assumes "idIdx s (sID (svcHeap s ! r)) = Some r"
  shows "st (reattach cid name target r (x\<lparr>st := s\<rparr>)) =
    SaveLog (replaceService (sID (svcHeap s ! r)) (reattached cid name target (svcHeap s ! r)) s)"
  by (simp add: reattach_def on_store_def newService_def alloc_def replaceService_def)

lemma reattach_effect:
  assumes s: "srv_inv (st s)" and r: "idIdx (st s) i = Some r" and src: "sSource (svcHeap (st s) ! r) = SourceDocker"
    and c: "containerIDIdx (st s) cid = None" "cid \<noteq> []"
    and n: "name = sContainerName (svcHeap (st s) ! r) \<or> containerNameIdx (st s) name = None"
  shows "srv_inv (st (reattach cid name target r s))"
    and "serviceByID (st (reattach cid name target r s)) j =
      (if j = i then Some (reattached cid name target (svcHeap (st s) ! r)) else serviceByID (st s) j)"
    and "map_option (\<lambda>q. svcHeap (st (reattach cid name target r s)) ! q)
      (GetServiceByContainerID cid (st (reattach cid name target r s))) =
      Some (reattached cid name target (svcHeap (st s) ! r))"
proof -
  let ?s = "st s"
  let ?v = "reattached cid name target (svcHeap ?s ! r)"
  note inv = srv_invD(2) [OF s]
  have i: "sID (svcHeap ?s ! r) = i" "r \<in> refs_of (Services ?s)" using r inv by (simp_all add: idIdx_iff)
  have e: "st (reattach cid name target r s) = SaveLog (replaceService i ?v ?s)"
    using reattach_eq [of ?s r cid name target s] r i by simp
  have f: "svc_free ?v (detach r ?s)" by (rule reattach_free [OF inv r src c(1) n])
  have vi: "sID ?v = i" by (simp add: reattached_def i)
  have "sub_ok (svcHeap ?s ! r)" using srv_invD(6) [OF s] i(2) by (simp add: set_services)
  then have k: "sub_ok ?v" by (simp add: sub_ok_def reattached_def)
  show "srv_inv (st (reattach cid name target r s))"
    using srv_inv_replace [OF s r f vi k] by (simp add: e)
  show b: "serviceByID (st (reattach cid name target r s)) j = (if j = i then Some ?v else serviceByID ?s j)" for j
    using serviceByID_replace(1) [OF inv r f vi, of j] by (simp add: e)
  have inv': "svc_inv (replaceService i ?v ?s)" by (rule serviceByID_replace(2) [OF inv r f vi])
  obtain q where q: "idIdx (replaceService i ?v ?s) i = Some q" "svcHeap (replaceService i ?v ?s) ! q = ?v"
    using b [of i] by (auto simp: e serviceByID_def GetServiceByID_def)
  then have "containerIDIdx (replaceService i ?v ?s) cid = Some q"
    using inv' c(2) by (simp add: cid_iff idIdx_iff reattached_def)
  then show "map_option (\<lambda>q. svcHeap (st (reattach cid name target r s)) ! q)
      (GetServiceByContainerID cid (st (reattach cid name target r s))) = Some ?v"
    using q(2) by (simp add: e GetServiceByContainerID_def)
qed

section \<open>Detaching a container\<close>

definition detached :: "string \<Rightarrow> Service \<Rightarrow> Service" where
  "detached cid v = (if sContainerID v = cid then v\<lparr>sContainerID := []\<rparr> else v)"

lemma serviceByID_Clear:
  assumes s: "svc_inv s" and c: "cid \<noteq> []"
  shows "serviceByID (ClearContainerID cid s) i = map_option (detached cid) (serviceByID s i)"
proof (cases "idIdx s i")
  case None
  then show ?thesis
    by (simp add: serviceByID_def GetServiceByID_def ClearContainerID_def split: option.split)
next
  case (Some q)
  then have q: "q \<in> refs_of (Services s)" "q < length (svcHeap s)" using s live_lt by (auto simp: idIdx_iff)
  show ?thesis
  proof (cases "containerIDIdx s cid")
    case None
    then have "sContainerID (svcHeap s ! q) \<noteq> cid" using cid_iff [OF s, of cid q] q c by auto
    with None Some show ?thesis
      by (simp add: serviceByID_def GetServiceByID_def ClearContainerID_def detached_def)
  next
    case r: (Some r)
    then have "q = r \<longleftrightarrow> sContainerID (svcHeap s ! q) = cid" 
      using cid_iff [OF s, of cid q] cid_iff [OF s, of cid r] q c by auto
    with r Some q(2) show ?thesis
      by (auto simp: serviceByID_def GetServiceByID_def ClearContainerID_def detached_def)
  qed
qed

lemma ClearContainerID_frame [simp]:
  "discHeap (ClearContainerID cid s) = discHeap s" "Discovered (ClearContainerID cid s) = Discovered s"
  "discoveredIdx (ClearContainerID cid s) = discoveredIdx s"
  "discoveredContainerIdx (ClearContainerID cid s) = discoveredContainerIdx s"
  "Ignored (ClearContainerID cid s) = Ignored s" "ignoredIdx (ClearContainerID cid s) = ignoredIdx s"
  "ignoredIPPortIdx (ClearContainerID cid s) = ignoredIPPortIdx s" "bmHeap (ClearContainerID cid s) = bmHeap s"
  "Bookmarks (ClearContainerID cid s) = Bookmarks s" "bookmarkIdx (ClearContainerID cid s) = bookmarkIdx s"
  "idIdx (ClearContainerID cid s) = idIdx s" "Services (ClearContainerID cid s) = Services s"
  by (simp_all add: ClearContainerID_def split: option.split)

lemma srv_inv_Clear:
  assumes s: "srv_inv s" and c: "cid \<noteq> []"
  shows "srv_inv (ClearContainerID cid s)"
proof -
  note d = srv_invD [OF s]
  have i: "svc_inv (ClearContainerID cid s)" by (rule svc_inv_ClearContainerID [OF d(2)])
  have "sub_ok v" if "v \<in> set (services (ClearContainerID cid s))" for v
  proof -
    have "serviceByID (ClearContainerID cid s) (sID v) = Some v" using that by (simp add: serviceByID_iff [OF i])
    then obtain u where u: "serviceByID s (sID v) = Some u" "v = detached cid u"
      by (auto simp: serviceByID_Clear [OF d(2) c])
    then have "sub_ok u" using d(6) serviceByID_iff [OF d(2)] by auto
    then show ?thesis by (simp add: u(2) detached_def sub_ok_def)
  qed
  moreover have "disc_inv (ClearContainerID cid s) = disc_inv s" "ign_inv (ClearContainerID cid s) = ign_inv s"
    "bm_inv (ClearContainerID cid s) = bm_inv s" by (rule other_inv_frame; simp)+
  ultimately show ?thesis using d(3-5,7) i by (simp add: srv_inv_def store_inv_def)
qed

lemma RemoveByContainer_cases:
  assumes "disc_inv s" and "cid \<noteq> []"
  obtains "RemoveDiscoveredByContainerID cid s = s" "discoveredContainerIdx s cid = None"
  | i where "RemoveDiscoveredByContainerID cid s = RemoveDiscovered i s"
      "map_option dContainerID (discoveredByID s i) = Some cid"
proof (cases "discoveredContainerIdx s cid")
  case None
  with assms show ?thesis by (intro that(1)) (simp_all add: RemoveDiscoveredByContainerID_eq)
next
  case (Some r)
  then have r: "r \<in> set (Discovered s)" "dContainerID (discHeap s ! r) = cid" using assms by (simp_all add: dcid_iff)
  then have "discoveredIdx s (dID (discHeap s ! r)) = Some r" using assms(1) by (simp add: discoveredIdx_iff)
  with Some assms r show ?thesis
    by (intro that(2) [of "dID (discHeap s ! r)"])
      (simp_all add: RemoveDiscoveredByContainerID_eq RemoveDiscovered_eq discoveredByID_def GetDiscoveredByID_def)
qed

lemma discoveredByID_RemoveByContainer:
  assumes s: "disc_inv s" and c: "cid \<noteq> []"
  shows "discoveredByID (RemoveDiscoveredByContainerID cid s) j =
    (case discoveredByID s j of None \<Rightarrow> None | Some d \<Rightarrow> if dContainerID d = cid then None else Some d)"
proof -
  have u: "discoveredContainerIdx s cid = Some r" if "discoveredByID s j = Some d" "dContainerID d = cid"
    "discoveredIdx s j = Some r" for d j r
    using that s c by (auto simp: dcid_iff discoveredByID_def GetDiscoveredByID_def discoveredIdx_iff)
  show ?thesis
  proof (rule RemoveByContainer_cases [OF s c])
    assume e: "RemoveDiscoveredByContainerID cid s = s" and n: "discoveredContainerIdx s cid = None"
    have "dContainerID d \<noteq> cid" if "discoveredByID s j = Some d" for d
      using u [OF that] n that by (auto simp: discoveredByID_def GetDiscoveredByID_def)
    then show ?thesis by (auto simp: e split: option.split)
  next
    fix i assume e: "RemoveDiscoveredByContainerID cid s = RemoveDiscovered i s"
      and i: "map_option dContainerID (discoveredByID s i) = Some cid"
    have "j = i" if jd: "discoveredByID s j = Some d" "dContainerID d = cid" for d
    proof -
      obtain a where a: "discoveredIdx s j = Some a"
        using jd(1) by (auto simp: discoveredByID_def GetDiscoveredByID_def)
      obtain e b where b: "discoveredByID s i = Some e" "dContainerID e = cid" "discoveredIdx s i = Some b"
        using i by (auto simp: discoveredByID_def GetDiscoveredByID_def)
      have "a = b" using u [OF jd a] u [OF b] by simp
      then show ?thesis using a b(3) s by (auto simp: discoveredIdx_iff)
    qed
    then show ?thesis
      using i by (auto simp: e discoveredByID_remove [OF s] split: option.split)
  qed
qed

lemma RemoveByContainer_frame [simp]:
  "svcHeap (RemoveDiscoveredByContainerID i s) = svcHeap s" "Services (RemoveDiscoveredByContainerID i s) = Services s"
  "idIdx (RemoveDiscoveredByContainerID i s) = idIdx s"
  "containerIDIdx (RemoveDiscoveredByContainerID i s) = containerIDIdx s"
  "containerNameIdx (RemoveDiscoveredByContainerID i s) = containerNameIdx s"
  by (simp_all add: RemoveDiscoveredByContainerID_def unindexDiscovered_def Let_def split: option.split)

text \<open>
  A container that stops: its service stays, without the container, its discovered entry
  goes, everything else is as before.
\<close>

lemma detachContainer_effect:
  assumes s: "srv_inv (st s)" and c: "cid \<noteq> []"
  shows "srv_inv (st (detachContainer cid s))"
    and "serviceByID (st (detachContainer cid s)) i = map_option (detached cid) (serviceByID (st s) i)"
    and "discoveredByID (st (detachContainer cid s)) i =
      (case discoveredByID (st s) i of None \<Rightarrow> None | Some d \<Rightarrow> if dContainerID d = cid then None else Some d)"
    and "GetServiceByContainerID cid (st (detachContainer cid s)) = None"
proof -
  let ?t = "ClearContainerID cid (st s)"
  have t: "srv_inv ?t" by (rule srv_inv_Clear [OF s c])
  note d = srv_invD [OF s] and dt = srv_invD [OF t]
  have e: "st (detachContainer cid s) = SaveLog (RemoveDiscoveredByContainerID cid ?t)"
    by (simp add: detachContainer_def on_store_def)
  have "srv_inv (RemoveDiscoveredByContainerID cid ?t)"
    by (rule RemoveByContainer_cases [OF dt(3) c]) (auto simp: t srv_inv_RemoveDiscovered)
  then show "srv_inv (st (detachContainer cid s))" by (simp add: e)
  have "serviceByID (RemoveDiscoveredByContainerID cid ?t) = serviceByID ?t" by (rule svc_inv_frame) simp_all
  then show "serviceByID (st (detachContainer cid s)) i = map_option (detached cid) (serviceByID (st s) i)"
    by (simp add: e serviceByID_Clear [OF d(2) c])
  have "discoveredByID ?t = discoveredByID (st s)"
    by (simp add: fun_eq_iff discoveredByID_def GetDiscoveredByID_def)
  then show "discoveredByID (st (detachContainer cid s)) i =
      (case discoveredByID (st s) i of None \<Rightarrow> None | Some d \<Rightarrow> if dContainerID d = cid then None else Some d)"
    by (simp add: e discoveredByID_RemoveByContainer [OF dt(3) c])
  show "GetServiceByContainerID cid (st (detachContainer cid s)) = None"
    using ClearContainerID_lookups(1) [OF d(2), of cid] by (simp add: e GetServiceByContainerID_def)
qed

section \<open>A container that starts\<close>

lemma addDockerDiscovered_effect:
  assumes s: "srv_inv (st s)" and f: "discoveredIdx (st s) (NewID rand8) = None" "ignoredIdx (st s) (NewID rand8) = None"
    and a: "addDockerDiscovered rand8 now i name target sub s = (s', fetch)"
  shows "srv_inv (st s')" and "services (st s') = services (st s)"
    and "disc_addable (docker_entry (NewID rand8) i name target sub now) (st s) \<Longrightarrow> i \<noteq> [] \<Longrightarrow>
      discoveredByID (st s') (NewID rand8) = Some (docker_entry (NewID rand8) i name target sub now)"
proof -
  let ?d = "docker_entry (NewID rand8) i name target sub now"
  have i: "dID ?d = NewID rand8" "dContainerID ?d = i" by (simp_all add: docker_entry_def)
  have e: "s' = s \<or> st s' = SaveLog (insertDiscovered ?d (st s))"
    using a by (auto simp: addDockerDiscovered_def on_store_def split: if_splits)
  have n: "srv_inv (insertDiscovered ?d (st s))" using f i by (intro srv_inv_insertDiscovered [OF s]) simp_all
  with e s show "srv_inv (st s')" by auto
  have "services (insertDiscovered ?d (st s)) = services (st s)" by (rule svc_inv_frame) simp_all
  moreover have "services (SaveLog t) = services t" for t by (simp add: services_def GetAllServices_def)
  ultimately show "services (st s') = services (st s)" using e by auto
  assume b: "disc_addable ?d (st s)" "i \<noteq> []"
  then have "GetDiscoveredByContainerID i (st s) = None"
    using i by (simp add: disc_addable_def disc_free_def GetDiscoveredByContainerID_def)
  then have "st s' = SaveLog (insertDiscovered ?d (st s))"
    using a by (auto simp: addDockerDiscovered_def on_store_def)
  then show "discoveredByID (st s') (NewID rand8) = Some ?d"
    using discoveredByID_insert [OF srv_invD(3) [OF s] b(1), of "NewID rand8"] i by simp
qed

text \<open>Which containers are left alone.\<close>

lemma upsert_ignored:
  assumes "name = [] \<or> name = ''lantern'' \<or> label ls ''lantern.enable'' = ''false'' \<or> GetServiceByContainerID i (st s) \<noteq> None"
  shows "upsertContainerWithLabels get rand8 now i name ports ls s = (s, None)"
  using assms by (auto simp: upsertContainerWithLabels_def)

text \<open>The three outcomes for the others: nothing to connect to, a service to attach to, an entry for discovery.\<close>

lemma upsert_cases:
  assumes "upsertContainerWithLabels get rand8 now i name ports ls s = (s', f)"
  obtains "st s' = st s" "f = None"
  | r info w where "GetServiceByContainerID i (st s) = None"
      "resolveContainer get (cfg s) name ports ls (world s) = (Some info, w)"
      "GetServiceByContainerName name (st s) = Some r"
      "s' = reattach i (sContainerName (svcHeap (st s) ! r)) (ciTarget info) r (s\<lparr>world := w\<rparr>)"
  | r info w where "GetServiceByContainerID i (st s) = None"
      "resolveContainer get (cfg s) name ports ls (world s) = (Some info, w)"
      "GetServiceByContainerName name (st s) = None" "GetServiceBySubdomain (ciSubdomain info) (st s) = Some r"
      "sSource (svcHeap (st s) ! r) = SourceDocker" "s' = reattach i name (ciTarget info) r (s\<lparr>world := w\<rparr>)"
  | info w where "GetServiceByContainerID i (st s) = None"
      "resolveContainer get (cfg s) name ports ls (world s) = (Some info, w)"
      "GetServiceByContainerName name (st s) = None"
      "addDockerDiscovered rand8 now i (ciName info) (ciTarget info) (ciSubdomain info) (s\<lparr>world := w\<rparr>) = (s', f)"
proof -
  obtain io w where R: "resolveContainer get (cfg s) name ports ls (world s) = (io, w)" by fastforce
  show thesis
  proof (cases "name = [] \<or> name = ''lantern'' \<or> label ls ''lantern.enable'' = ''false'' \<or>
      GetServiceByContainerID i (st s) \<noteq> None")
    case True
    from assms show thesis unfolding upsert_ignored [OF True] by (intro that(1)) auto
  next
    case go: False
    then have c: "GetServiceByContainerID i (st s) = None" by simp
    show thesis
    proof (cases io)
      case None
      then show thesis using assms go R by (intro that(1)) (auto simp: upsertContainerWithLabels_def)
    next
      case (Some info)
      note R' = R [unfolded Some]
      note e = assms [unfolded upsertContainerWithLabels_def R' Let_def, simplified go]
      show thesis
      proof (cases "GetServiceByContainerName name (st s)")
        case r: (Some r)
        then show thesis using e go by (intro that(2) [OF c R' r]) auto
      next
        case n: None
        show thesis
        proof (cases "GetServiceBySubdomain (ciSubdomain info) (st s)")
          case None
          then show thesis using e n go by (intro that(4) [OF c R' n]) auto
        next
          case r: (Some r)
          show thesis
          proof (cases "sSource (svcHeap (st s) ! r) = SourceDocker")
            case True
            then show thesis using e n r go by (intro that(3) [OF c R' n r True]) auto
          next
            case False
            then show thesis using e n r go by (intro that(4) [OF c R' n]) auto
          qed
        qed
      qed
    qed
  qed
qed

lemma by_name_docker:
  assumes s: "svc_inv s" and r: "GetServiceByContainerName name s = Some r"
  shows "sSource (svcHeap s ! r) = SourceDocker" and "sContainerName (svcHeap s ! r) = name"
    and "idIdx s (sID (svcHeap s ! r)) = Some r"
proof -
  have m: "r \<in> refs_of (Services s)" "name \<noteq> []" "sContainerName (svcHeap s ! r) = name"
    using r cname_iff [OF s] by (simp_all add: GetServiceByContainerName_def)
  then show "sSource (svcHeap s ! r) = SourceDocker" "sContainerName (svcHeap s ! r) = name"
    using svc_invD(3) [OF s m(1)] by (auto simp: wf_service_def)
  show "idIdx s (sID (svcHeap s ! r)) = Some r" using m(1) s by (simp add: idIdx_iff)
qed

text \<open>
  A restart or a re-creation: the service that carries the container's name gets the new
  container and its address, keeps its scheme and everything else, and is the one found
  under the container's ID.
\<close>

lemma upsert_restart:
  assumes s: "srv_inv (st s)" and i: "i \<noteq> []" "GetServiceByContainerID i (st s) = None"
    and n: "name \<noteq> ''lantern''" "label ls ''lantern.enable'' \<noteq> ''false''"
    and r: "GetServiceByContainerName name (st s) = Some r" and v: "v = svcHeap (st s) ! r"
    and R: "resolveContainer get (cfg s) name ports ls (world s) = (Some info, w)"
    and u: "upsertContainerWithLabels get rand8 now i name ports ls s = (s', f)"
  shows "srv_inv (st s')"
    and "serviceByID (st s') j = (if j = sID v
      then Some (v\<lparr>sContainerID := i, sTarget := preserveScheme (sTarget v) (ciTarget info)\<rparr>) else serviceByID (st s) j)"
    and "map_option (\<lambda>q. svcHeap (st s') ! q) (GetServiceByContainerID i (st s')) =
      Some (v\<lparr>sContainerID := i, sTarget := preserveScheme (sTarget v) (ciTarget info)\<rparr>)"
proof -
  note d = by_name_docker [OF srv_invD(2) [OF s] r]
  have c: "containerIDIdx (st s) i = None" using i(2) by (simp add: GetServiceByContainerID_def)
  have nm: "name \<noteq> []" using r cname_iff [OF srv_invD(2) [OF s]] by (simp add: GetServiceByContainerName_def)
  have e: "s' = reattach i (sContainerName (svcHeap (st s) ! r)) (ciTarget info) r (s\<lparr>world := w\<rparr>)"
    using u n nm i(2) r R by (simp add: upsertContainerWithLabels_def)
  have a: "reattached i (sContainerName (svcHeap (st s) ! r)) (ciTarget info) (svcHeap (st s) ! r) =
      v\<lparr>sContainerID := i, sTarget := preserveScheme (sTarget v) (ciTarget info)\<rparr>"
    by (simp add: reattached_def v)
  note eff = reattach_effect [of "s\<lparr>world := w\<rparr>", simplified, OF s d(3) d(1) c i(1) disjI1 [OF refl],
      where target = "ciTarget info", folded e, unfolded a]
  show "srv_inv (st s')" by (rule eff(1))
  show "serviceByID (st s') j = (if j = sID v
      then Some (v\<lparr>sContainerID := i, sTarget := preserveScheme (sTarget v) (ciTarget info)\<rparr>) else serviceByID (st s) j)"
    using eff(2) [of j] a by (simp add: v)
  show "map_option (\<lambda>q. svcHeap (st s') ! q) (GetServiceByContainerID i (st s')) =
      Some (v\<lparr>sContainerID := i, sTarget := preserveScheme (sTarget v) (ciTarget info)\<rparr>)"
    using eff(3) a by simp
qed

text \<open>
  In every case the invariant holds, no service appears or goes, and a service changes only
  in its container, its container's name and its target.
\<close>

lemma upsert_effect:
  assumes s: "srv_inv (st s)" and i: "i \<noteq> []"
    and fr: "discoveredIdx (st s) (NewID rand8) = None" "ignoredIdx (st s) (NewID rand8) = None"
    and u: "upsertContainerWithLabels get rand8 now i name ports ls s = (s', f)"
  shows "srv_inv (st s') \<and> (\<forall>j. serviceByID (st s') j = serviceByID (st s) j \<or>
    (\<exists>v n target. serviceByID (st s) j = Some v \<and> sSource v = SourceDocker \<and>
       serviceByID (st s') j = Some (reattached i n target v)))"
proof -
  note inv = srv_invD(2) [OF s]
  have attach: ?thesis
    if R: "s' = reattach i n target r (s\<lparr>world := w\<rparr>)" and c: "GetServiceByContainerID i (st s) = None"
      and r: "idIdx (st s) (sID (svcHeap (st s) ! r)) = Some r" and src: "sSource (svcHeap (st s) ! r) = SourceDocker"
      and n: "n = sContainerName (svcHeap (st s) ! r) \<or> containerNameIdx (st s) n = None" for n target r w
  proof -
    have c': "containerIDIdx (st s) i = None" using c by (simp add: GetServiceByContainerID_def)
    note eff = reattach_effect [of "s\<lparr>world := w\<rparr>", simplified, OF s r src c' i n, where target = target, folded R]
    have v: "serviceByID (st s) (sID (svcHeap (st s) ! r)) = Some (svcHeap (st s) ! r)"
      using r by (simp add: serviceByID_def GetServiceByID_def)
    show ?thesis using eff(1,2) v src by auto
  qed
  from u show ?thesis
  proof (cases rule: upsert_cases)
    case 1
    then show ?thesis using s by simp
  next
    case (2 r info w)
    show ?thesis
      using by_name_docker [OF inv 2(3)] by (intro attach [OF 2(4) 2(1)]) simp_all
  next
    case (3 r info w)
    have "r \<in> refs_of (Services (st s))" using 3(4) inv by (simp add: GetServiceBySubdomain_def sub_iff)
    then have "idIdx (st s) (sID (svcHeap (st s) ! r)) = Some r" using inv by (simp add: idIdx_iff)
    then show ?thesis
      using 3(3,5) by (intro attach [OF 3(6) 3(1)]) (simp_all add: GetServiceByContainerName_def)
  next
    case (4 info w)
    note eff = addDockerDiscovered_effect [OF _ _ _ 4(4), simplified, OF s fr]
    have "serviceByID (st s') = serviceByID (st s)"
      by (rule map_eq_iff_Some) (simp add: serviceByID_iff [OF srv_invD(2) [OF eff(1)]] serviceByID_iff [OF inv] eff(2))
    then show ?thesis using eff(1) by simp
  qed
qed

text \<open>
  The discovered entry of a container takes the display name for the container's name: under
  a label \<open>lantern.name\<close> the two differ, and the service assigned from the entry is not
  found under the name of its container.
\<close>

lemma upsert_display_name:
  assumes s: "srv_inv (st s)" and i: "i \<noteq> []" "GetServiceByContainerID i (st s) = None"
    and fr: "disc_addable (docker_entry (NewID rand8) i (ciName info) (ciTarget info) (ciSubdomain info) now) (st s)"
    and n: "name \<noteq> []" "name \<noteq> ''lantern''" "label ls ''lantern.enable'' \<noteq> ''false''"
    and r: "GetServiceByContainerName name (st s) = None" "GetServiceBySubdomain (ciSubdomain info) (st s) = None"
    and R: "resolveContainer get (cfg s) name ports ls (world s) = (Some info, w)"
    and u: "upsertContainerWithLabels get rand8 now i name ports ls s = (s', f)"
  shows "map_option dContainerName (discoveredByID (st s') (NewID rand8)) = Some (ciName info)"
    and "label ls ''lantern.name'' \<noteq> [] \<Longrightarrow> ciName info = label ls ''lantern.name''"
    and "f = Some (NewID rand8, ciTarget info)"
proof -
  let ?d = "docker_entry (NewID rand8) i (ciName info) (ciTarget info) (ciSubdomain info) now"
  have a: "addDockerDiscovered rand8 now i (ciName info) (ciTarget info) (ciSubdomain info) (s\<lparr>world := w\<rparr>) = (s', f)"
    using u n i(2) r R by (simp add: upsertContainerWithLabels_def)
  have "discoveredContainerIdx (st s) i = None"
    using fr i(1) by (simp add: disc_addable_def disc_free_def docker_entry_def)
  then have e: "s' = on_store (\<lambda>t. SaveLog (insertDiscovered ?d t)) (s\<lparr>world := w\<rparr>)" "f = Some (NewID rand8, ciTarget info)"
    using a by (simp_all add: addDockerDiscovered_def GetDiscoveredByContainerID_def)
  show "f = Some (NewID rand8, ciTarget info)" by (rule e(2))
  show "map_option dContainerName (discoveredByID (st s') (NewID rand8)) = Some (ciName info)"
    using discoveredByID_insert [OF srv_invD(3) [OF s] fr, of "NewID rand8"]
    by (simp add: e(1) on_store_def docker_entry_def)
  show "label ls ''lantern.name'' \<noteq> [] \<Longrightarrow> ciName info = label ls ''lantern.name''"
    using R by (auto simp: resolveContainer_def Let_def split: if_splits prod.splits)
qed

end
