(* ===== verification/Fingerprint.thy ===== *)
theory Fingerprint
  imports GoStrings
begin

text \<open>
  \<open>internal/discovery/network.go\<close>, the fingerprints: which application answered a
  probe.  A signature looks at the headers (\<open>h.Get\<close>, empty for a missing header), the body
  and the title of the page; the first signature that matches wins.  The confidence, a
  \<open>float32\<close> that is only copied, is in hundredths; the icon, an emoji, is the bytes of
  its UTF-8 encoding.
\<close>

type_synonym header = "string \<Rightarrow> string"

record signature =
  sgName :: string
  sgConfidence :: nat
  sgIcon :: string
  sgMatch :: "header \<Rightarrow> string \<Rightarrow> string \<Rightarrow> bool"

definition simpleSig :: "string \<Rightarrow> nat \<Rightarrow> string \<Rightarrow> string \<Rightarrow> string \<Rightarrow> signature" where
  "simpleSig nm conf icon titleMatch bodyMatch = \<lparr>sgName = nm, sgConfidence = conf, sgIcon = icon,
     sgMatch = (\<lambda>_ b t. Contains t titleMatch \<or> Contains b bodyMatch)\<rparr>"

definition utf8 :: "nat list \<Rightarrow> string" where
  "utf8 bs = map char_of bs"

text \<open>The table, in the order of the source; its last part has a name of its own.\<close>

definition later_signatures :: "signature list" where
  "later_signatures = [
    simpleSig ''Linkding'' 95 (utf8 [240, 159, 148, 151]) ''linkding'' ''linkding'',
    simpleSig ''Shlink'' 90 (utf8 [240, 159, 148, 151]) ''Shlink'' ''shlink'',
    \<lparr>sgName = ''n8n'', sgConfidence = 95, sgIcon = utf8 [226, 154, 153, 239, 184, 143],
       sgMatch = (\<lambda>h b t. EqualFold t ''n8n'' \<or> Contains b (CHR 0x22 # ''n8n'' @ [CHR 0x22]))\<rparr>,
    simpleSig ''Changedetection.io'' 95 (utf8 [240, 159, 145, 129, 239, 184, 143]) ''changedetection'' ''changedetection'',
    simpleSig ''Guacamole'' 95 (utf8 [240, 159, 150, 165, 239, 184, 143]) ''Guacamole'' ''guacamole'',
    \<lparr>sgName = ''Matrix Synapse'', sgConfidence = 95, sgIcon = utf8 [240, 159, 146, 172],
       sgMatch = (\<lambda>h b t. Contains (h ''Server'') ''Synapse'' \<or> Contains b ''matrix-synapse'' \<or> Contains t ''Matrix'')\<rparr>,
    simpleSig ''Verdaccio'' 90 (utf8 [240, 159, 147, 166]) ''Verdaccio'' ''verdaccio'',
    simpleSig ''IT Tools'' 90 (utf8 [240, 159, 148, 167]) ''IT Tools'' ''it-tools'']"

definition signatures :: "signature list" where
  "signatures = [
    \<lparr>sgName = ''Proxmox VE'', sgConfidence = 99, sgIcon = utf8 [240, 159, 150, 165, 239, 184, 143],
       sgMatch = (\<lambda>h b t. Contains (h ''Server'') ''pve-api-daemon'' \<or> Contains b ''Proxmox Virtual Environment'')\<rparr>,
    simpleSig ''Cockpit'' 92 (utf8 [240, 159, 150, 165, 239, 184, 143]) ''Cockpit'' ''cockpit'',
    simpleSig ''Webmin'' 90 (utf8 [240, 159, 150, 165, 239, 184, 143]) ''Webmin'' ''webmin'',
    \<lparr>sgName = ''Synology DSM'', sgConfidence = 95, sgIcon = utf8 [240, 159, 146, 190],
       sgMatch = (\<lambda>h b t. Contains t ''Synology'' \<or> Contains b ''Synology DiskStation'' \<or> Contains b ''SYNO.'')\<rparr>,
    simpleSig ''TrueNAS'' 95 (utf8 [240, 159, 146, 190]) ''TrueNAS'' ''TrueNAS'',
    simpleSig ''UniFi'' 92 (utf8 [240, 159, 147, 161]) ''UniFi'' ''UniFi'',
    simpleSig ''OpenWrt'' 92 (utf8 [240, 159, 147, 161]) ''OpenWrt'' ''OpenWrt'',
    \<lparr>sgName = ''Grafana'', sgConfidence = 99, sgIcon = utf8 [240, 159, 147, 138],
       sgMatch = (\<lambda>h b t. h ''X-Grafana-Version'' \<noteq> [] \<or> Contains t ''Grafana'' \<or> Contains b ''grafana'')\<rparr>,
    simpleSig ''Prometheus'' 95 (utf8 [240, 159, 147, 136]) ''Prometheus'' ''prometheus_'',
    \<lparr>sgName = ''Netdata'', sgConfidence = 99, sgIcon = utf8 [240, 159, 147, 137],
       sgMatch = (\<lambda>h b t. h ''X-Netdata-Version'' \<noteq> [] \<or> Contains b ''netdataRoot'' \<or> Contains t ''Netdata'')\<rparr>,
    simpleSig ''Uptime Kuma'' 95 (utf8 [240, 159, 159, 162]) ''Uptime Kuma'' ''uptimekuma'',
    simpleSig ''Scrutiny'' 95 (utf8 [240, 159, 146, 190]) ''Scrutiny'' ''scrutiny'',
    simpleSig ''Healthchecks'' 90 (utf8 [226, 156, 133]) ''Healthchecks'' ''healthchecks'',
    simpleSig ''Dozzle'' 95 (utf8 [240, 159, 147, 139]) ''Dozzle'' ''dozzle'',
    simpleSig ''Portainer'' 95 (utf8 [240, 159, 144, 179]) ''Portainer'' ''Portainer'',
    simpleSig ''Yacht'' 90 (utf8 [226, 155, 181]) ''Yacht'' ''yacht-app'',
    simpleSig ''Nginx Proxy Manager'' 95 (utf8 [240, 159, 148, 128]) ''Nginx Proxy Manager'' ''Nginx Proxy Manager'',
    simpleSig ''Traefik'' 92 (utf8 [240, 159, 148, 128]) ''Traefik'' ''traefik'',
    simpleSig ''Home Assistant'' 95 (utf8 [240, 159, 143, 160]) ''Home Assistant'' ''Home Assistant'',
    \<lparr>sgName = ''Node-RED'', sgConfidence = 97, sgIcon = utf8 [240, 159, 148, 180],
       sgMatch = (\<lambda>h b t. Contains (h ''X-Powered-By'') ''node-red'' \<or> Contains t ''Node-RED'' \<or> Contains b ''node-red'')\<rparr>,
    simpleSig ''Frigate'' 95 (utf8 [240, 159, 147, 185]) ''Frigate'' ''Frigate NVR'',
    simpleSig ''Zigbee2MQTT'' 90 (utf8 [240, 159, 147, 161]) ''Zigbee2MQTT'' ''zigbee2mqtt'',
    \<lparr>sgName = ''Jellyfin'', sgConfidence = 99, sgIcon = utf8 [240, 159, 142, 172],
       sgMatch = (\<lambda>h b t. h ''X-Jellyfin-Version'' \<noteq> [] \<or> Contains b ''Jellyfin'' \<or> Contains t ''Jellyfin'')\<rparr>,
    \<lparr>sgName = ''Plex'', sgConfidence = 99, sgIcon = utf8 [240, 159, 142, 172],
       sgMatch = (\<lambda>h b t. h ''X-Plex-Protocol'' \<noteq> [] \<or> Contains b ''Plex Media Server'' \<or> Contains t ''Plex'')\<rparr>,
    \<lparr>sgName = ''Emby'', sgConfidence = 95, sgIcon = utf8 [240, 159, 142, 172],
       sgMatch = (\<lambda>h b t. h ''X-Emby-Server-Id'' \<noteq> [] \<or> Contains t ''Emby'' \<or> Contains b ''Emby Server'')\<rparr>,
    simpleSig ''Navidrome'' 95 (utf8 [240, 159, 142, 181]) ''Navidrome'' ''Navidrome'',
    simpleSig ''Audiobookshelf'' 95 (utf8 [240, 159, 142, 167]) ''Audiobookshelf'' ''audiobookshelf'',
    simpleSig ''Overseerr'' 95 (utf8 [240, 159, 142, 173]) ''Overseerr'' ''Overseerr'',
    simpleSig ''Jellyseerr'' 95 (utf8 [240, 159, 142, 173]) ''Jellyseerr'' ''Jellyseerr'',
    simpleSig ''Ombi'' 90 (utf8 [240, 159, 142, 173]) ''Ombi'' ''Ombi'',
    simpleSig ''Tautulli'' 95 (utf8 [240, 159, 147, 138]) ''Tautulli'' ''tautulli'',
    simpleSig ''Sonarr'' 95 (utf8 [240, 159, 147, 186]) ''Sonarr'' ''Sonarr'',
    simpleSig ''Radarr'' 95 (utf8 [240, 159, 142, 165]) ''Radarr'' ''Radarr'',
    simpleSig ''Lidarr'' 92 (utf8 [240, 159, 142, 181]) ''Lidarr'' ''Lidarr'',
    simpleSig ''Readarr'' 92 (utf8 [240, 159, 147, 154]) ''Readarr'' ''Readarr'',
    simpleSig ''Prowlarr'' 95 (utf8 [240, 159, 148, 141]) ''Prowlarr'' ''Prowlarr'',
    simpleSig ''Bazarr'' 95 (utf8 [240, 159, 146, 172]) ''Bazarr'' ''Bazarr'',
    simpleSig ''Jackett'' 95 (utf8 [240, 159, 148, 141]) ''Jackett'' ''Jackett'',
    simpleSig ''Transmission'' 92 (utf8 [226, 172, 135, 239, 184, 143]) ''Transmission'' ''Transmission Web'',
    simpleSig ''qBittorrent'' 92 (utf8 [226, 172, 135, 239, 184, 143]) ''qBittorrent'' ''qBittorrent'',
    simpleSig ''Deluge'' 90 (utf8 [226, 172, 135, 239, 184, 143]) ''Deluge'' ''Deluge Web'',
    simpleSig ''ruTorrent'' 90 (utf8 [226, 172, 135, 239, 184, 143]) ''ruTorrent'' ''ruTorrent'',
    simpleSig ''Flood'' 90 (utf8 [226, 172, 135, 239, 184, 143]) ''Flood'' ''flood-app'',
    simpleSig ''SABnzbd'' 95 (utf8 [240, 159, 147, 165]) ''SABnzbd'' ''sabnzbd'',
    simpleSig ''NZBGet'' 95 (utf8 [240, 159, 147, 165]) ''NZBGet'' ''nzbget'',
    \<lparr>sgName = ''Gitea'', sgConfidence = 99, sgIcon = utf8 [240, 159, 166, 138],
       sgMatch = (\<lambda>h b t. h ''X-Gitea-Version'' \<noteq> [] \<or> Contains t ''Gitea'' \<or> Contains b ''Gitea'')\<rparr>,
    \<lparr>sgName = ''Forgejo'', sgConfidence = 99, sgIcon = utf8 [240, 159, 166, 138],
       sgMatch = (\<lambda>h b t. h ''X-Forgejo-Version'' \<noteq> [] \<or> Contains t ''Forgejo'' \<or> Contains b ''Forgejo'')\<rparr>,
    simpleSig ''Woodpecker CI'' 90 (utf8 [240, 159, 154, 128]) ''Woodpecker'' ''woodpecker-ci'',
    simpleSig ''Drone CI'' 90 (utf8 [240, 159, 154, 128]) ''Drone'' ''drone.io'',
    simpleSig ''Harbor'' 92 (utf8 [240, 159, 151, 131, 239, 184, 143]) ''Harbor'' ''harbor-app'',
    \<lparr>sgName = ''Vaultwarden'', sgConfidence = 95, sgIcon = utf8 [240, 159, 148, 144],
       sgMatch = (\<lambda>h b t. Contains b ''Vaultwarden'' \<or> Contains t ''Vaultwarden'' \<or> Contains b ''bitwarden'')\<rparr>,
    simpleSig ''Authelia'' 95 (utf8 [240, 159, 148, 144]) ''Authelia'' ''Authelia'',
    \<lparr>sgName = ''Authentik'', sgConfidence = 97, sgIcon = utf8 [240, 159, 148, 144],
       sgMatch = (\<lambda>h b t. Contains (h ''X-Powered-By'') ''authentik'' \<or> Contains b ''ak-flow'' \<or> Contains t ''authentik'')\<rparr>,
    simpleSig ''Keycloak'' 95 (utf8 [240, 159, 148, 145]) ''Keycloak'' ''Keycloak'',
    \<lparr>sgName = ''HashiCorp Vault'', sgConfidence = 97, sgIcon = utf8 [240, 159, 148, 146],
       sgMatch = (\<lambda>h b t. h ''X-Vault-Request'' \<noteq> [] \<or> Contains b ''hashicorp-vault'' \<or> Contains t ''Vault'')\<rparr>,
    simpleSig ''Pi-hole'' 95 (utf8 [240, 159, 149, 179, 239, 184, 143]) ''Pi-hole'' ''Pi-hole'',
    simpleSig ''AdGuard Home'' 95 (utf8 [240, 159, 155, 161, 239, 184, 143]) ''AdGuard'' ''AdGuard Home'',
    simpleSig ''Technitium DNS'' 95 (utf8 [240, 159, 140, 144]) ''Technitium'' ''TechnitiumDNS'',
    simpleSig ''WireGuard Easy'' 95 (utf8 [240, 159, 148, 146]) ''WG Easy'' ''wg-easy'',
    simpleSig ''Headscale'' 90 (utf8 [240, 159, 148, 146]) ''Headscale'' ''headscale'',
    simpleSig ''Gotify'' 95 (utf8 [240, 159, 148, 148]) ''Gotify'' ''gotify'',
    simpleSig ''ntfy'' 95 (utf8 [240, 159, 148, 148]) ''ntfy'' ''ntfy.sh'',
    simpleSig ''Immich'' 95 (utf8 [240, 159, 147, 183]) ''Immich'' ''Immich'',
    simpleSig ''PhotoPrism'' 95 (utf8 [240, 159, 147, 184]) ''PhotoPrism'' ''PhotoPrism'',
    \<lparr>sgName = ''Nextcloud'', sgConfidence = 97, sgIcon = utf8 [226, 152, 129, 239, 184, 143],
       sgMatch = (\<lambda>h b t. h ''X-Nextcloud-Request-Id'' \<noteq> [] \<or> Contains b ''Nextcloud'' \<or> Contains t ''Nextcloud'')\<rparr>,
    \<lparr>sgName = ''Syncthing'', sgConfidence = 97, sgIcon = utf8 [240, 159, 148, 132],
       sgMatch = (\<lambda>h b t. h ''X-Syncthing-Id'' \<noteq> [] \<or> Contains t ''Syncthing'' \<or> Contains b ''syncthing'')\<rparr>,
    simpleSig ''MinIO'' 95 (utf8 [240, 159, 151, 132, 239, 184, 143]) ''MinIO'' ''minio'',
    simpleSig ''Seafile'' 90 (utf8 [240, 159, 151, 132, 239, 184, 143]) ''Seafile'' ''seafile'',
    simpleSig ''Calibre-Web'' 95 (utf8 [240, 159, 147, 154]) ''Calibre-Web'' ''calibre-web'',
    simpleSig ''Komga'' 95 (utf8 [240, 159, 147, 154]) ''Komga'' ''Komga'',
    simpleSig ''Kavita'' 95 (utf8 [240, 159, 147, 154]) ''Kavita'' ''kavita'',
    simpleSig ''Paperless-ngx'' 95 (utf8 [240, 159, 147, 132]) ''Paperless'' ''paperless'',
    simpleSig ''Stirling-PDF'' 95 (utf8 [240, 159, 147, 132]) ''Stirling'' ''stirling-pdf'',
    simpleSig ''BookStack'' 90 (utf8 [240, 159, 147, 150]) ''BookStack'' ''BookStack'',
    simpleSig ''Wallabag'' 90 (utf8 [240, 159, 147, 176]) ''Wallabag'' ''wallabag'',
    simpleSig ''FreshRSS'' 90 (utf8 [240, 159, 147, 176]) ''FreshRSS'' ''FreshRSS'',
    simpleSig ''Miniflux'' 90 (utf8 [240, 159, 147, 176]) ''Miniflux'' ''miniflux'',
    simpleSig ''Homarr'' 95 (utf8 [240, 159, 143, 160]) ''Homarr'' ''Homarr'',
    simpleSig ''Homer'' 90 (utf8 [240, 159, 143, 160]) ''Homer'' ''homer-app'',
    simpleSig ''Flame'' 90 (utf8 [240, 159, 148, 165]) ''Flame'' ''flame-app'',
    simpleSig ''Dashy'' 90 (utf8 [240, 159, 147, 138]) ''Dashy'' ''dashy'',
    simpleSig ''Heimdall'' 90 (utf8 [240, 159, 155, 161, 239, 184, 143]) ''Heimdall'' ''heimdall'',
    simpleSig ''Organizr'' 90 (utf8 [240, 159, 147, 129]) ''Organizr'' ''organizr'',
    simpleSig ''Mealie'' 95 (utf8 [240, 159, 141, 189, 239, 184, 143]) ''Mealie'' ''mealie'',
    simpleSig ''Grocy'' 95 (utf8 [240, 159, 155, 146]) ''grocy'' ''grocy'',
    simpleSig ''Tandoor'' 90 (utf8 [240, 159, 141, 189, 239, 184, 143]) ''Tandoor'' ''tandoor''] @ later_signatures"

definition fingerprint :: "header \<Rightarrow> string \<Rightarrow> string \<Rightarrow> string \<times> nat \<times> string" where
  "fingerprint h body title = (case find (\<lambda>sig. sgMatch sig h body title) signatures of
      Some sig \<Rightarrow> (sgName sig, sgConfidence sig, sgIcon sig)
    | None \<Rightarrow> ([], 0, []))"

definition sane :: "signature \<Rightarrow> bool" where
  "sane sig \<longleftrightarrow> sgName sig \<noteq> [] \<and> 90 \<le> sgConfidence sig \<and> sgConfidence sig \<le> 99 \<and> sgIcon sig \<noteq> []"

lemma sane_simple: "nm \<noteq> [] \<Longrightarrow> 90 \<le> conf \<Longrightarrow> conf \<le> 99 \<Longrightarrow> icon \<noteq> [] \<Longrightarrow> sane (simpleSig nm conf icon t b)"
  by (simp add: sane_def simpleSig_def)

lemma sane_record:
  "nm \<noteq> [] \<Longrightarrow> 90 \<le> conf \<Longrightarrow> conf \<le> 99 \<Longrightarrow> icon \<noteq> [] \<Longrightarrow>
    sane \<lparr>sgName = nm, sgConfidence = conf, sgIcon = icon, sgMatch = m\<rparr>"
  by (simp add: sane_def)

lemma utf8_Cons: "utf8 (n # ns) \<noteq> []"
  by (simp add: utf8_def)

lemma signatures_sane: "list_all sane signatures"
  unfolding signatures_def later_signatures_def append.simps list.pred_inject
  by (intro conjI TrueI sane_simple sane_record utf8_Cons list.distinct(2)) simp_all

lemma signature_bounds:
  "\<forall>sig \<in> set signatures. sgName sig \<noteq> [] \<and> 90 \<le> sgConfidence sig \<and> sgConfidence sig \<le> 99 \<and> sgIcon sig \<noteq> []"
  using signatures_sane by (simp add: list_all_iff sane_def)

text \<open>A match has a confidence from 0.90 to 0.99, no match has none; the name tells which.\<close>

lemma fingerprint_cases:
  obtains "fingerprint h body title = ([], 0, [])" "\<forall>sig \<in> set signatures. \<not> sgMatch sig h body title"
  | xs sig ys where "signatures = xs @ sig # ys" "sgMatch sig h body title"
      "\<forall>s \<in> set xs. \<not> sgMatch s h body title" "fingerprint h body title = (sgName sig, sgConfidence sig, sgIcon sig)"
proof (cases "find (\<lambda>sig. sgMatch sig h body title) signatures")
  case None
  then have "\<forall>sig \<in> set signatures. \<not> sgMatch sig h body title" by (auto simp: find_None_iff)
  then show thesis using None by (intro that(1)) (simp_all add: fingerprint_def)
next
  case (Some sig)
  then obtain i where i: "i < length signatures" "sgMatch (signatures ! i) h body title" "sig = signatures ! i"
    "\<forall>j < i. \<not> sgMatch (signatures ! j) h body title"
    by (auto simp: find_Some_iff)
  show thesis
  proof (rule that(2) [of "take i signatures" sig "drop (Suc i) signatures"])
    show "signatures = take i signatures @ sig # drop (Suc i) signatures"
      using i(1,3) by (simp add: id_take_nth_drop)
    show "sgMatch sig h body title" using i(2,3) by simp
    show "\<forall>s \<in> set (take i signatures). \<not> sgMatch s h body title"
      using i(1,4) by (auto simp: in_set_conv_nth)
    show "fingerprint h body title = (sgName sig, sgConfidence sig, sgIcon sig)"
      by (simp add: fingerprint_def Some)
  qed
qed

lemma fingerprint_known:
  "fst (fingerprint h body title) \<noteq> [] \<longleftrightarrow> (\<exists>sig \<in> set signatures. sgMatch sig h body title)"
proof (rule fingerprint_cases [of h body title])
  fix xs sig ys
  assume s: "signatures = xs @ sig # ys" and m: "sgMatch sig h body title"
    and f: "fingerprint h body title = (sgName sig, sgConfidence sig, sgIcon sig)"
  have "sig \<in> set signatures" by (simp add: s)
  with m f signature_bounds show ?thesis by auto
qed auto

lemma fingerprint_confidence:
  "fst (fingerprint h body title) \<noteq> [] \<Longrightarrow>
    90 \<le> fst (snd (fingerprint h body title)) \<and> fst (snd (fingerprint h body title)) \<le> 99"
proof (rule fingerprint_cases [of h body title])
  fix xs sig ys
  assume s: "signatures = xs @ sig # ys" and f: "fingerprint h body title = (sgName sig, sgConfidence sig, sgIcon sig)"
  have "sig \<in> set signatures" by (simp add: s)
  with f signature_bounds show ?thesis by auto
qed auto

end
