(* ===== verification/Subnets.thy ===== *)
theory Subnets
  imports GoStrings "HOL-Library.Word"
begin

unbundle bit_operations_syntax

text \<open>
  \<open>internal/discovery/network.go\<close>, the addresses of a scan: the \<open>netip.Addr\<close> values
  the code steps through, \<open>broadcastAddr\<close>, \<open>generateIPs\<close> and \<open>getLocalSubnet\<close>.

  A \<open>netip.Addr\<close> is an IPv4 address or the zero \<open>Addr\<close>, which \<open>Next\<close> gives after
  255.255.255.255; the bits of a zero \<open>Addr\<close> do count on, but it stays one.  IPv6 does not
  occur: \<open>generateIPs\<close> returns early for it.
\<close>

datatype Addr = NoAddr "128 word" | Addr4 "32 word"

fun Next :: "Addr \<Rightarrow> Addr" where
  "Next (Addr4 w) = (if w + 1 = 0 then NoAddr 0 else Addr4 (w + 1))"
| "Next (NoAddr k) = NoAddr (k + 1)"

text \<open>\<open>ip.Compare(last) < 0\<close>: the zero \<open>Addr\<close> has fewer bits and is less than any address.\<close>

fun Compare_less :: "Addr \<Rightarrow> Addr \<Rightarrow> bool" where
  "Compare_less (Addr4 a) (Addr4 b) \<longleftrightarrow> a < b"
| "Compare_less (NoAddr a) (Addr4 b) \<longleftrightarrow> True"
| "Compare_less (Addr4 a) (NoAddr b) \<longleftrightarrow> False"
| "Compare_less (NoAddr a) (NoAddr b) \<longleftrightarrow> a < b"

text \<open>\<open>As4\<close> and \<open>AddrFrom4\<close>: the four bytes, most significant first.\<close>

definition As4 :: "32 word \<Rightarrow> 8 word list" where
  "As4 w = map (\<lambda>k. ucast (drop_bit (8 * k) w)) [3, 2, 1, 0]"

definition AddrFrom4 :: "8 word list \<Rightarrow> 32 word" where
  "AddrFrom4 b = push_bit 24 (ucast (b ! 0)) OR push_bit 16 (ucast (b ! 1)) OR push_bit 8 (ucast (b ! 2)) OR ucast (b ! 3)"

definition dotted :: "32 word \<Rightarrow> string" where
  "dotted w = concat (map (\<lambda>b. Itoa (uint b) @ ''.'') (butlast (As4 w))) @ Itoa (uint (last (As4 w)))"

fun Addr_String :: "Addr \<Rightarrow> string" where
  "Addr_String (Addr4 w) = dotted w"
| "Addr_String (NoAddr k) = ''invalid IP''"

text \<open>An IPv4 prefix: the address and the number of network bits; \<open>Masked\<close> clears the host bits.\<close>

type_synonym prefix = "32 word \<times> nat"

definition Masked :: "prefix \<Rightarrow> prefix" where
  "Masked p = (fst p AND NOT (mask (32 - snd p)), snd p)"

definition broadcast_step :: "nat \<Rightarrow> 8 word list \<Rightarrow> 8 word list" where
  "broadcast_step i b = b[3 - i div 8 := (b ! (3 - i div 8)) OR push_bit (i mod 8) 1]"

definition broadcastAddr :: "prefix \<Rightarrow> 32 word" where
  "broadcastAddr p = AddrFrom4 (fold broadcast_step [0..<32 - snd p] (As4 (fst p)))"

text \<open>The loop; \<open>None\<close> when it does not end.\<close>

partial_function (option) ip_loop :: "Addr \<Rightarrow> Addr \<Rightarrow> string list \<Rightarrow> string list option" where
  "ip_loop ip lastIP ips =
    (if Compare_less ip lastIP then ip_loop (Next ip) lastIP (ips @ [Addr_String ip]) else Some ips)"

text \<open>The argument is the subnet as \<open>netip.ParsePrefix\<close> reads it, \<open>None\<close> for an error or an IPv6 prefix.\<close>

definition generateIPs :: "prefix option \<Rightarrow> string list option" where
  "generateIPs subnet = (case subnet of
      None \<Rightarrow> Some []
    | Some p \<Rightarrow> let masked = Masked p in ip_loop (Next (Addr4 (fst masked))) (Addr4 (broadcastAddr masked)) [])"

section \<open>The local subnet\<close>

text \<open>
  An address of an interface: its IPv4 form if it has one, and the size of its mask
  (\<open>Mask.Size\<close>); addresses that are no \<open>IPNet\<close> are left out.
\<close>

record ifaddr =
  aIP4 :: "32 word option"
  aOnes :: nat
  aBits :: nat

record iface =
  ifName :: string
  ifLoopback :: bool
  ifUp :: bool
  ifAddrs :: "ifaddr list option"

definition IsLoopback :: "32 word \<Rightarrow> bool" where
  "IsLoopback w \<longleftrightarrow> hd (As4 w) = 127"

definition docker_iface :: "string \<Rightarrow> bool" where
  "docker_iface n \<longleftrightarrow> n = ''docker0'' \<or> HasPrefix n ''br-'' \<or> HasPrefix n ''veth''"

fun pick_addr :: "ifaddr list \<Rightarrow> prefix option" where
  "pick_addr [] = None"
| "pick_addr (a # as) = (case aIP4 a of
      None \<Rightarrow> pick_addr as
    | Some ip4 \<Rightarrow>
        if IsLoopback ip4 then pick_addr as
        else if aOnes a = 0 \<or> aBits a \<noteq> 32 then pick_addr as
        else let ones = (if aOnes a < 24 then 24 else aOnes a) in Some (Masked (ip4, ones)))"

fun getLocalSubnet :: "iface list \<Rightarrow> prefix option" where
  "getLocalSubnet [] = None"
| "getLocalSubnet (i # is) =
    (if ifLoopback i then getLocalSubnet is
     else if \<not> ifUp i then getLocalSubnet is
     else if docker_iface (ifName i) then getLocalSubnet is
     else case ifAddrs i of
       None \<Rightarrow> getLocalSubnet is
     | Some addrs \<Rightarrow> (case pick_addr addrs of Some p \<Rightarrow> Some p | None \<Rightarrow> getLocalSubnet is))"

section \<open>The broadcast address\<close>

lemma length_As4 [simp]: "length (As4 w) = 4"
  by (simp add: As4_def)

lemma less_4: "(k::nat) < 4 \<longleftrightarrow> k = 0 \<or> k = 1 \<or> k = 2 \<or> k = 3"
  by auto

text \<open>Bit \<open>n\<close> of the address is bit \<open>n mod 8\<close> of byte \<open>3 - n div 8\<close>.\<close>

lemma bit_As4:
  assumes "n < 32"
  shows "bit (As4 w ! (3 - n div 8)) (n mod 8) = bit w n"
proof -
  have k: "3 - n div 8 < 4" "n div 8 < 4" using assms by auto
  have m: "n mod 8 < 8" by simp
  have "As4 w ! (3 - n div 8) = ucast (drop_bit (8 * (n div 8)) w)"
    using k(2) by (auto simp: As4_def less_4)
  then show ?thesis by (simp add: bit_ucast_iff bit_drop_bit_eq)
qed

lemma bit_AddrFrom4:
  assumes "n < 32" and "length b = 4"
  shows "bit (AddrFrom4 b) n = bit (b ! (3 - n div 8)) (n mod 8)"
proof -
  have h: "\<not> bit (c::8 word) k" if "8 \<le> k" for c k
    using that bit_imp_le_length [of c k] by auto
  consider "n < 8" | "8 \<le> n" "n < 16" | "16 \<le> n" "n < 24" | "24 \<le> n" "n < 32" using assms(1) by linarith
  then show ?thesis
  proof cases
    case 1
    then show ?thesis by (simp add: AddrFrom4_def bit_simps)
  next
    case 2
    then have "n div 8 = 1" "n mod 8 = n - 8" by (simp_all add: mod_if div_if)
    with 2 show ?thesis by (auto simp: AddrFrom4_def bit_simps h numeral_2_eq_2)
  next
    case 3
    then have "n div 8 = 2" "n mod 8 = n - 16" "n - 16 < 8" "\<not> n - 8 < 8" by (simp_all add: mod_if div_if, arith+)
    with 3 show ?thesis by (auto simp: AddrFrom4_def bit_simps h)
  next
    case 4
    then have "n div 8 = 3" "n mod 8 = n - 24" "n - 24 < 8" "\<not> n - 16 < 8" "\<not> n - 8 < 8"
      by (simp_all add: mod_if div_if, arith+)
    with 4 show ?thesis by (auto simp: AddrFrom4_def bit_simps h)
  qed
qed

lemma broadcast_bits:
  assumes "m \<le> 32"
  shows "length (fold broadcast_step [0..<m] (As4 w)) = 4 \<and>
    (\<forall>n < 32. bit (fold broadcast_step [0..<m] (As4 w) ! (3 - n div 8)) (n mod 8) \<longleftrightarrow> bit w n \<or> n < m)"
  using assms
proof (induction m)
  case 0
  show ?case by (simp add: bit_As4)
next
  case (Suc m)
  let ?b = "fold broadcast_step [0..<m] (As4 w)"
  have IH: "length ?b = 4" "\<And>n. n < 32 \<Longrightarrow> bit (?b ! (3 - n div 8)) (n mod 8) \<longleftrightarrow> bit w n \<or> n < m"
    using Suc by auto
  have "bit (broadcast_step m ?b ! (3 - n div 8)) (n mod 8) \<longleftrightarrow> bit w n \<or> n < Suc m" if n: "n < 32" for n
  proof (cases "n div 8 = m div 8")
    case True
    then have "n mod 8 = m mod 8 \<longleftrightarrow> n = m" by (metis div_mult_mod_eq)
    then have p: "bit (push_bit (m mod 8) 1 :: 8 word) (n mod 8) \<longleftrightarrow> n = m"
      by (auto simp: bit_simps)
    have "broadcast_step m ?b ! (3 - n div 8) = ?b ! (3 - n div 8) OR push_bit (m mod 8) 1"
      by (simp add: broadcast_step_def IH(1) True)
    with p IH(2) [OF n] show ?thesis by (auto simp: bit_or_iff)
  next
    case False
    have "n div 8 < 4" "m div 8 < 4" using n Suc.prems by auto
    with False have "3 - n div 8 \<noteq> 3 - m div 8" by auto
    moreover have "n \<noteq> m" using False by auto
    ultimately show ?thesis using IH(2) [OF n] by (auto simp: broadcast_step_def)
  qed
  moreover have "length (broadcast_step m ?b) = 4" by (simp add: broadcast_step_def IH(1))
  ultimately show ?case by simp
qed

lemma broadcastAddr_mask: "broadcastAddr (w, bits) = w OR mask (32 - bits)"
proof (rule bit_word_eqI)
  fix n assume "n < LENGTH(32)"
  then have n: "n < 32" by simp
  note b = broadcast_bits [of "32 - bits" w, simplified]
  have "bit (broadcastAddr (w, bits)) n \<longleftrightarrow> bit w n \<or> n < 32 - bits"
    unfolding broadcastAddr_def using b n by (simp add: bit_AddrFrom4)
  then show "bit (broadcastAddr (w, bits)) n = bit (w OR mask (32 - bits)) n"
    using n by (simp add: bit_simps)
qed

text \<open>For a network address the last address is the first plus the number of host addresses, less one.\<close>

lemma unat_masked:
  "unat (fst (Masked (w, bits))) mod 2 ^ (32 - bits) = 0"
proof -
  have "take_bit (32 - bits) (fst (Masked (w, bits))) = 0"
    by (rule bit_word_eqI) (simp add: Masked_def bit_simps)
  then have "unat (take_bit (32 - bits) (fst (Masked (w, bits)))) = 0" by (simp only: unsigned_0)
  then have "take_bit (32 - bits) (unat (fst (Masked (w, bits)))) = 0" by (simp only: unsigned_take_bit_eq)
  then show ?thesis by (simp only: take_bit_eq_mod)
qed

lemma unat_broadcast:
  fixes v :: "32 word"
  assumes v: "unat v mod 2 ^ k = 0" and k: "k \<le> 32"
  shows "unat (v OR mask k) = unat v + (2 ^ k - 1)"
proof -
  have "take_bit k (unat v) = 0" using v by (simp add: take_bit_eq_mod)
  then have "take_bit k v = 0" by (metis unsigned_take_bit_eq unat_eq_zero)
  then have a: "v AND mask k = 0" by (simp add: take_bit_eq_mask)
  then have "v OR mask k = v + mask k"
    by (simp add: disjunctive_add_eq_or)
  moreover have "unat (mask k :: 32 word) = 2 ^ k - 1"
  proof -
    have "unat (mask k :: 32 word) = unat (of_nat (mask k) :: 32 word)" by (simp only: of_nat_mask_eq)
    also have "\<dots> = mask (min 32 k)" by (simp add: unsigned_of_nat take_bit_of_mask del: of_nat_mask_eq)
    finally show ?thesis using k by (simp add: min_def mask_eq_exp_minus_1)
  qed
  moreover have "unat v + (2 ^ k - 1) < 2 ^ 32"
  proof -
    obtain q where q: "unat v = 2 ^ k * q" using v by auto
    have "unat v < 2 ^ 32" using unsigned_less [of v] by simp
    then have "2 ^ k * q < 2 ^ k * 2 ^ (32 - k)" using q k by (simp flip: power_add)
    then have "q < 2 ^ (32 - k)" by simp
    then have "Suc q \<le> 2 ^ (32 - k)" by simp
    then have "2 ^ k * Suc q \<le> 2 ^ k * 2 ^ (32 - k)" by (rule mult_le_mono2)
    then have "2 ^ k * Suc q \<le> 2 ^ 32" using k by (simp flip: power_add)
    moreover have "(0::nat) < 2 ^ k" by simp
    ultimately show ?thesis using q by (simp only: mult_Suc_right)
  qed
  ultimately show ?thesis by (simp add: unat_word_ariths)
qed

section \<open>The hosts of a subnet\<close>

lemma unat_next:
  fixes a :: "32 word"
  assumes "a + 1 \<noteq> 0"
  shows "unat (a + 1) = Suc (unat a)"
proof -
  have e: "unat (a + 1) = Suc (unat a) mod 2 ^ 32" by (simp add: unat_word_ariths)
  have "unat a < 2 ^ 32" using unsigned_less [of a] by simp
  moreover have "Suc (unat a) \<noteq> 2 ^ 32" using e assms by (auto simp: unat_eq_zero [symmetric])
  ultimately show ?thesis using e by simp
qed

lemma ip_loop_addresses:
  assumes "unat a \<le> n" and "n = unat b"
  shows "ip_loop (Addr4 a) (Addr4 b) acc = Some (acc @ map (\<lambda>k. dotted (word_of_nat k)) [unat a..<n])"
  using assms
proof (induction "n - unat a" arbitrary: a acc)
  case 0
  then have "\<not> a < b" by (simp add: word_less_nat_alt)
  with 0 show ?case by (subst ip_loop.simps) simp
next
  case (Suc d)
  then have l: "a < b" "unat a < n" by (auto simp: word_less_nat_alt)
  have nz: "a + 1 \<noteq> 0"
  proof
    assume "a + 1 = 0"
    then have "a = - 1" by (simp add: eq_neg_iff_add_eq_0)
    with l(1) show False by (simp add: word_order.not_eq_extremum [symmetric] leD)
  qed
  then have u: "unat (a + 1) = Suc (unat a)" by (rule unat_next)
  have "ip_loop (Addr4 (a + 1)) (Addr4 b) (acc @ [dotted a]) =
      Some ((acc @ [dotted a]) @ map (\<lambda>k. dotted (word_of_nat k)) [unat (a + 1)..<n])"
    using Suc.hyps(2) l(2) Suc.prems(2) u by (intro Suc.hyps(1)) auto
  moreover have "[unat a..<n] = unat a # [Suc (unat a)..<n]" using l(2) by (rule upt_conv_Cons)
  ultimately show ?case
    using l(1) nz by (subst ip_loop.simps) (simp add: u)
qed

text \<open>
  For every IPv4 prefix but 255.255.255.255/32 the loop ends, with every address of the
  subnet but the network address and the broadcast address, each once and in order.
\<close>

lemma generateIPs_hosts:
  assumes bits: "bits \<le> 32" and ne: "(w, bits) \<noteq> (- 1, 32)"
  defines "net \<equiv> unat (fst (Masked (w, bits)))"
  shows "generateIPs (Some (w, bits)) =
    Some (map (\<lambda>k. dotted (word_of_nat k)) [net + 1..<net + 2 ^ (32 - bits) - 1])"
proof -
  let ?m = "fst (Masked (w, bits))"
  have last: "unat (broadcastAddr (Masked (w, bits))) = net + (2 ^ (32 - bits) - 1)"
    using unat_broadcast [OF unat_masked, of bits w] by (simp add: net_def broadcastAddr_mask Masked_def)
  show ?thesis
  proof (cases "?m = - 1")
    case True
    have "bits = 32"
    proof (rule ccontr)
      assume "bits \<noteq> 32"
      then have "\<not> bit ?m 0" using bits by (simp add: Masked_def bit_simps)
      with True show False by simp
    qed
    with True ne show ?thesis by (simp add: Masked_def)
  next
    case False
    then have nz: "?m + 1 \<noteq> 0" by (simp add: eq_neg_iff_add_eq_0 [symmetric])
    then have u: "unat (?m + 1) = net + 1" by (simp add: net_def unat_next)
    have g: "generateIPs (Some (w, bits)) = ip_loop (Addr4 (?m + 1)) (Addr4 (broadcastAddr (Masked (w, bits)))) []"
      using nz by (simp add: generateIPs_def Let_def)
    show ?thesis
    proof (cases "bits = 32")
      case True
      then have "unat (broadcastAddr (Masked (w, bits))) = net" using last by simp
      then have "\<not> ?m + 1 < broadcastAddr (Masked (w, bits))" using u by (simp add: word_less_nat_alt)
      with True show ?thesis unfolding g by (subst ip_loop.simps) simp
    next
      case False
      then have p: "(2::nat) \<le> 2 ^ (32 - bits)" using bits by (intro self_le_power) auto
      have "ip_loop (Addr4 (?m + 1)) (Addr4 (broadcastAddr (Masked (w, bits)))) [] =
          Some ([] @ map (\<lambda>k. dotted (word_of_nat k)) [unat (?m + 1)..<net + 2 ^ (32 - bits) - 1])"
        using last u p by (intro ip_loop_addresses) auto
      then show ?thesis unfolding g u by simp
    qed
  qed
qed

text \<open>
  For 255.255.255.255/32 it does not: the address after it is the zero \<open>Addr\<close>, which is less
  than the broadcast address, and so is every one after that.
\<close>

lemma ip_loop_diverges: "ip_loop (NoAddr k) (Addr4 b) acc = None"
proof -
  have "\<not> (\<exists>k b. ip = NoAddr k \<and> l = Addr4 b)" if "ip_loop ip l acc = Some r" for ip l acc r
  proof (rule ip_loop.raw_induct [where P = "\<lambda>ip l acc r. \<not> (\<exists>k b. ip = NoAddr k \<and> l = Addr4 b)", OF _ that])
    fix f ip l acc r
    assume IH: "\<And>ip l acc r. f ip l acc = Some r \<Longrightarrow> \<not> (\<exists>k b. ip = NoAddr k \<and> l = Addr4 b)"
      and eq: "(if Compare_less ip l then f (Next ip) l (acc @ [Addr_String ip]) else Some acc) = Some r"
    show "\<not> (\<exists>k b. ip = NoAddr k \<and> l = Addr4 b)"
    proof
      assume "\<exists>k b. ip = NoAddr k \<and> l = Addr4 b"
      then obtain k b where k: "ip = NoAddr k" "l = Addr4 b" by auto
      with eq have "f (NoAddr (k + 1)) (Addr4 b) (acc @ [Addr_String ip]) = Some r" by simp
      with IH show False by blast
    qed
  qed
  then have "ip_loop (NoAddr k) (Addr4 b) acc \<noteq> Some r" for r by blast
  then show ?thesis by (metis not_None_eq)
qed

lemma generateIPs_diverges: "generateIPs (Some (- 1, 32)) = None"
  by (simp add: generateIPs_def Masked_def ip_loop_diverges broadcastAddr_mask)

section \<open>The auto-detected subnet\<close>

lemma pick_addr_Some:
  "pick_addr as = Some p \<Longrightarrow>
    \<exists>a \<in> set as. \<exists>ip4. aIP4 a = Some ip4 \<and> \<not> IsLoopback ip4 \<and> aBits a = 32 \<and> p = Masked (ip4, max 24 (aOnes a))"
  by (induction as) (auto simp: max_def split: option.splits if_splits)

text \<open>
  The interface is up, neither loopback nor one of Docker's, and at most 254 hosts are
  scanned, whatever its mask.
\<close>

lemma getLocalSubnet_Some:
  "getLocalSubnet ifs = Some p \<Longrightarrow>
    \<exists>i \<in> set ifs. ifUp i \<and> \<not> ifLoopback i \<and> \<not> docker_iface (ifName i) \<and>
      (\<exists>as. ifAddrs i = Some as \<and> pick_addr as = Some p)"
  by (induction ifs) (auto split: option.splits if_splits)

lemma getLocalSubnet_capped: "getLocalSubnet ifs = Some p \<Longrightarrow> 24 \<le> snd p"
  by (drule getLocalSubnet_Some) (auto dest!: pick_addr_Some simp: Masked_def)

lemma generateIPs_length:
  assumes "bits \<le> 32" and "generateIPs (Some (w, bits)) = Some ips"
  shows "length ips = 2 ^ (32 - bits) - 2"
proof -
  have "(w, bits) \<noteq> (- 1, 32)" using assms(2) generateIPs_diverges by auto
  from generateIPs_hosts [OF assms(1) this] assms(2) show ?thesis by auto
qed

end
