(* ===== verification/Scan.thy ===== *)
theory Scan
  imports Docker Fingerprint Subnets
begin

text \<open>
  \<open>internal/discovery/discovery.go\<close> and the rest of \<open>network.go\<close>: the probe of an
  open port, the two scans and what they do to the store, the flag that keeps a full scan
  from running twice, and the ring of log lines.

  The network is not modelled: \<open>page\<close> answers the GET of a URL, \<open>rdns\<close> the reverse
  lookup of an address (no name for an error), \<open>favicon\<close> the download of the favicon that
  a page names (no bytes for a failure).  The sockets of the port sweep, of ARP and of the
  multicast discoveries deliver lists of hosts and open ports.
\<close>

section \<open>The log\<close>

definition logf :: "string \<Rightarrow> string \<Rightarrow> string list \<Rightarrow> string list" where
  "logf ts msg logLines =
    (let logLines = logLines @ [ts @ '' '' @ msg]
     in if length logLines > 400 then drop (length logLines - 200) logLines else logLines)"

text \<open>At most 400 lines, never fewer than the last 200, always a suffix of everything logged.\<close>

lemma logf_bound: "length l \<le> 400 \<Longrightarrow> length (logf ts msg l) \<le> 400"
  by (simp add: logf_def Let_def)

lemma logf_suffix:
  assumes "\<exists>d. all = d @ l" and "min 200 (length all) \<le> length l"
  shows "(\<exists>d. all @ [ts @ '' '' @ msg] = d @ logf ts msg l) \<and> min 200 (length (all @ [ts @ '' '' @ msg])) \<le> length (logf ts msg l)"
proof -
  let ?l = "l @ [ts @ '' '' @ msg]"
  obtain d where d: "all = d @ l" using assms(1) ..
  show ?thesis
  proof (cases "length ?l > 400")
    case True
    have "all @ [ts @ '' '' @ msg] = (d @ take (length ?l - 200) ?l) @ drop (length ?l - 200) ?l" by (simp add: d)
    moreover have "logf ts msg l = drop (length ?l - 200) ?l" "length (logf ts msg l) = 200"
      using True by (simp_all add: logf_def Let_def)
    ultimately show ?thesis by (metis min.cobounded1)
  next
    case False
    then have "logf ts msg l = ?l" by (simp add: logf_def Let_def)
    with d assms(2) show ?thesis by auto
  qed
qed

definition log_all :: "(string \<times> string) list \<Rightarrow> string list" where
  "log_all ms = fold (\<lambda>(ts, msg). logf ts msg) ms []"

lemma log_all_suffix:
  "length (log_all ms) \<le> 400 \<and> (\<exists>d. map (\<lambda>(ts, msg). ts @ '' '' @ msg) ms = d @ log_all ms) \<and>
    min 200 (length ms) \<le> length (log_all ms)"
proof (induction ms rule: rev_induct)
  case Nil
  then show ?case by (simp add: log_all_def)
next
  case (snoc m ms)
  obtain ts msg where m: "m = (ts, msg)" by fastforce
  have e: "log_all (ms @ [m]) = logf ts msg (log_all ms)" by (simp add: log_all_def m)
  have "min 200 (length (map (\<lambda>(ts, msg). ts @ '' '' @ msg) ms)) \<le> length (log_all ms)" using snoc by simp
  with snoc logf_suffix [of "map (\<lambda>(ts, msg). ts @ '' '' @ msg) ms" "log_all ms" ts msg] logf_bound [of "log_all ms" ts msg]
  show ?case by (simp add: e [unfolded m] m)
qed

section \<open>The title of a page\<close>

fun IndexFold :: "string \<Rightarrow> string \<Rightarrow> nat option" where
  "IndexFold [] sub = (if sub = [] then Some 0 else None)"
| "IndexFold (c # s) sub =
    (if EqualFold (take (length sub) (c # s)) sub then Some 0 else map_option Suc (IndexFold s sub))"

text \<open>\<open>reTitleTag\<close>, the expression \<open>(?is)<title[^>]*>(.*?)</title>\<close>: the group of its first match.\<close>

definition title_here :: "string \<Rightarrow> string option" where
  "title_here s =
    (if EqualFold (take 6 s) ''<title'' then
       (case Index (drop 6 s) ''>'' of
          None \<Rightarrow> None
        | Some i \<Rightarrow> let t = drop (6 + i + 1) s in map_option (\<lambda>j. take j t) (IndexFold t ''</title>''))
     else None)"

fun reTitleTag :: "string \<Rightarrow> string option" where
  "reTitleTag [] = None"
| "reTitleTag (c # s) = (case title_here (c # s) of Some m \<Rightarrow> Some m | None \<Rightarrow> reTitleTag s)"

definition join_spaces :: "string list \<Rightarrow> string" where
  "join_spaces ws = (case ws of [] \<Rightarrow> [] | w # ws \<Rightarrow> w @ concat (map (\<lambda>v. '' '' @ v) ws))"

definition extractTitle :: "string \<Rightarrow> string" where
  "extractTitle html = (case reTitleTag html of
      None \<Rightarrow> []
    | Some m \<Rightarrow> let t = join_spaces (Fields (TrimSpace m)) in if length t > 80 then take 80 t else t)"

section \<open>The probe of a port\<close>

record page =
  pgStatus :: int
  pgHeader :: header
  pgBody :: string

type_synonym 'w pages = "string \<Rightarrow> 'w \<Rightarrow> page option \<times> 'w"

record probeResult =
  rIP :: string
  rPort :: int
  rURL :: string
  rTitle :: string
  rIcon :: string
  rIconBytes :: string
  rServiceName :: string
  rConfidence :: nat

definition tryProbe ::
  "'w pages \<Rightarrow> (string \<Rightarrow> 'w \<Rightarrow> string list \<times> 'w) \<Rightarrow> (string \<Rightarrow> string \<Rightarrow> 'w \<Rightarrow> string \<times> 'w) \<Rightarrow>
    string \<Rightarrow> int \<Rightarrow> string \<Rightarrow> 'w \<Rightarrow> probeResult option \<times> 'w" where
  "tryProbe page rdns favicon ip port scheme w =
    (let rawURL = probe_url scheme ip port
     in case page rawURL w of
          (None, w) \<Rightarrow> (None, w)
        | (Some resp, w) \<Rightarrow>
            if pgStatus resp = 400 \<or> pgStatus resp = 404 then (None, w)
            else
              let body = take (64 * 1024) (pgBody resp);
                  (title, w) = (if extractTitle body \<noteq> [] then (extractTitle body, w)
                    else case rdns ip w of
                      ([], w) \<Rightarrow> (ip, w)
                    | (n # _, w) \<Rightarrow> (TrimSuffix n ''.'', w));
                  (svcName, confidence, svcIcon) = fingerprint (pgHeader resp) body title;
                  (iconData, w) = favicon body rawURL w
              in (Some \<lparr>rIP = ip, rPort = port, rURL = rawURL, rTitle = title,
                    rIcon = (if iconData \<noteq> [] then IconFile else svcIcon), rIconBytes = iconData,
                    rServiceName = svcName, rConfidence = confidence\<rparr>, w))"

definition probeHTTP ::
  "'w pages \<Rightarrow> (string \<Rightarrow> 'w \<Rightarrow> string list \<times> 'w) \<Rightarrow> (string \<Rightarrow> string \<Rightarrow> 'w \<Rightarrow> string \<times> 'w) \<Rightarrow>
    string \<Rightarrow> int \<Rightarrow> 'w \<Rightarrow> probeResult option \<times> 'w" where
  "probeHTTP page rdns favicon ip port w =
    (let scheme = port_scheme port
     in case tryProbe page rdns favicon ip port scheme w of
          (Some r, w) \<Rightarrow> (Some r, w)
        | (None, w) \<Rightarrow> tryProbe page rdns favicon ip port (if scheme = ''https'' then ''http'' else ''https'') w)"

text \<open>
  \<open>probeOnce\<close> over the open ports of all paths, in the order in which they reach
  \<open>LoadOrStore\<close>; \<open>probedPorts\<close> are the keys taken so far.
\<close>

type_synonym openPort = "string \<times> int"

definition port_key :: "openPort \<Rightarrow> string" where
  "port_key p = fst p @ '':'' @ Itoa (snd p)"

fun probeOnce ::
  "(string \<Rightarrow> int \<Rightarrow> 'w \<Rightarrow> probeResult option \<times> 'w) \<Rightarrow> string list \<Rightarrow> openPort list \<Rightarrow> 'w \<Rightarrow> probeResult list \<times> 'w" where
  "probeOnce probe probedPorts [] w = ([], w)"
| "probeOnce probe probedPorts (p # ops) w =
    (if port_key p \<in> set probedPorts then probeOnce probe probedPorts ops w
     else case probe (fst p) (snd p) w of (r, w) \<Rightarrow>
       case probeOnce probe (port_key p # probedPorts) ops w of (rs, w) \<Rightarrow>
         ((case r of Some x \<Rightarrow> x # rs | None \<Rightarrow> rs), w))"

text \<open>The hosts of the sweep: those of all subnets, each once; those that answered ARP, if any did.\<close>

fun sweep_hosts :: "string list \<Rightarrow> string list \<Rightarrow> string list" where
  "sweep_hosts seen [] = []"
| "sweep_hosts seen (ip # ips) = (if ip \<in> set seen then sweep_hosts seen ips else ip # sweep_hosts (ip # seen) ips)"

definition arp_narrow :: "string list \<Rightarrow> string list \<Rightarrow> string list" where
  "arp_narrow liveHosts ips = (if liveHosts \<noteq> [] then filter (\<lambda>ip. ip \<in> set liveHosts) ips else ips)"

section \<open>What the scans do to the store\<close>

definition JoinHostPort :: "string \<Rightarrow> string \<Rightarrow> string" where
  "JoinHostPort host port =
    (if CHR '':'' \<in> set host then ''['' @ host @ '']:'' @ port else host @ '':'' @ port)"

definition assignedTargets :: "store \<Rightarrow> string list" where
  "assignedTargets s = concat (map (\<lambda>r. [sTarget (svcHeap s ! r), TrimRight (sTarget (svcHeap s ! r)) ''/'']) (GetAllServices s))"

definition isAssignedTarget :: "string list \<Rightarrow> probeResult \<Rightarrow> bool" where
  "isAssignedTarget targets r =
    (let hp = JoinHostPort (rIP r) (Itoa (rPort r))
     in rURL r \<in> set targets \<or> ''http://'' @ hp \<in> set targets \<or> ''https://'' @ hp \<in> set targets)"

definition network_entry :: "string \<Rightarrow> time \<Rightarrow> probeResult \<Rightarrow> DiscoveredService" where
  "network_entry i now r = \<lparr>dID = i, dIP = rIP r, dPort = rPort r, dTitle = rTitle r, dIcon = rIcon r,
     dServiceName = rServiceName r, dConfidence = rConfidence r, dSource = SourceNetwork, dContainerName = [],
     dContainerID = [], dSuggestedSubdomain = [], dDiscoveredAt = now\<rparr>"

definition upsertProbeResult :: "nat list \<Rightarrow> time \<Rightarrow> probeResult \<Rightarrow> store \<Rightarrow> store" where
  "upsertProbeResult rand8 now r s =
    (case upsertDiscovered (network_entry (NewID rand8) now r) s of (i, s) \<Rightarrow>
       if rIconBytes r \<noteq> [] then snd (WriteIcon i (rIconBytes r) s) else s)"

text \<open>The loop of \<open>runLightScan\<close>; every result comes with the random bytes for a new ID.\<close>

definition light_step :: "string list \<Rightarrow> time \<Rightarrow> probeResult \<times> nat list \<Rightarrow> store \<Rightarrow> store" where
  "light_step targets now rr s = (case rr of (r, rand8) \<Rightarrow>
     if isAssignedTarget targets r then s else upsertProbeResult rand8 now r s)"

definition runLightScan :: "time \<Rightarrow> (probeResult \<times> nat list) list \<Rightarrow> store \<Rightarrow> store" where
  "runLightScan now results s = SaveLog (fold (light_step (assignedTargets s) now) results s)"

text \<open>The loop of \<open>runScan\<close>, with the ignored addresses and the count that saves every tenth result.\<close>

definition full_step ::
  "string list \<Rightarrow> string list \<Rightarrow> time \<Rightarrow> probeResult \<times> nat list \<Rightarrow> nat \<times> store \<Rightarrow> nat \<times> store" where
  "full_step ignoredSet targets now rr acc = (case (rr, acc) of ((r, rand8), (n, s)) \<Rightarrow>
     if rIP r @ '':'' @ Itoa (rPort r) \<in> set ignoredSet then (n, s)
     else if isAssignedTarget targets r then (n, s)
     else let s = upsertProbeResult rand8 now r s
          in (n + 1, if (n + 1) mod 10 = 0 then SaveLog s else s))"

definition runScan :: "time \<Rightarrow> time \<Rightarrow> (probeResult \<times> nat list) list \<Rightarrow> store \<Rightarrow> store" where
  "runScan now done_at results s =
    (let targets = assignedTargets s;
         ignoredSet = map (\<lambda>ig. iIP ig @ '':'' @ Itoa (iPort ig)) (GetIgnored s);
         s = ClearNetworkDiscovered s;
         (_, s) = fold (full_step ignoredSet targets now) results (0, s)
     in SaveLog (SetLastScan done_at s))"

section \<open>The scanning flag\<close>

text \<open>
  \<open>scanning\<close> with the times of the status, and the scans that are running.  A full scan
  holds the flag until its end; a light scan looks at it before it starts and leaves it alone.
\<close>

record Discoverer =
  scanning :: bool
  lastScan :: time
  nextScan :: time
  fulls :: nat
  lights :: nat

definition ScanNow :: "Discoverer \<Rightarrow> Discoverer" where
  "ScanNow d = (if scanning d then d else d\<lparr>scanning := True, fulls := fulls d + 1\<rparr>)"

definition ScanStatus :: "Discoverer \<Rightarrow> bool \<times> time \<times> time" where
  "ScanStatus d = (scanning d, lastScan d, nextScan d)"

inductive scan_step :: "Discoverer \<Rightarrow> Discoverer \<Rightarrow> bool" where
  scan_now: "scan_step d (ScanNow d)"
| scan_end: "0 < fulls d \<Longrightarrow> scan_step d (d\<lparr>lastScan := now, scanning := False, fulls := fulls d - 1\<rparr>)"
| tick: "\<not> scanning d \<Longrightarrow> lights d = 0 \<Longrightarrow> scan_step d (d\<lparr>lights := 1\<rparr>)"
| tick_skip: "scanning d \<Longrightarrow> lights d = 0 \<Longrightarrow> scan_step d (d\<lparr>nextScan := next_at\<rparr>)"
| light_end: "0 < lights d \<Longrightarrow> scan_step d (d\<lparr>lights := lights d - 1, nextScan := next_at\<rparr>)"

inductive_cases scan_stepE: "scan_step d d'"

definition idle :: Discoverer where
  "idle = \<lparr>scanning = False, lastScan = 0, nextScan = 0, fulls = 0, lights = 0\<rparr>"

inductive scan_run :: "Discoverer \<Rightarrow> bool" where
  start: "scan_run idle"
| more: "scan_run d \<Longrightarrow> scan_step d d' \<Longrightarrow> scan_run d'"

text \<open>One full scan at most, and the flag says exactly whether it runs.\<close>

lemma one_full_scan: "scan_run d \<Longrightarrow> fulls d = (if scanning d then 1 else 0) \<and> lights d \<le> 1"
proof (induction rule: scan_run.induct)
  case start
  then show ?case by (simp add: idle_def)
next
  case (more d d')
  from more.hyps(2) more.IH show ?case
    by (cases rule: scan_stepE) (auto simp: ScanNow_def split: if_splits)
qed

section \<open>Titles and probes\<close>

lemma extractTitle_length: "length (extractTitle html) \<le> 80"
  by (simp add: extractTitle_def Let_def split: option.split)

lemma EqualFold_length: "EqualFold s t \<Longrightarrow> length s = length t"
  unfolding EqualFold_def ToLower_def by (metis length_map)

lemma IndexFold_Some: "IndexFold s sub = Some j \<Longrightarrow> EqualFold (take (length sub) (drop j s)) sub"
proof (induction s arbitrary: j)
  case Nil
  then show ?case by (simp add: EqualFold_def split: if_splits)
next
  case (Cons c s)
  then show ?case by (auto split: if_splits)
qed

text \<open>A title stands between an opening and a closing tag of the page.\<close>

lemma reTitleTag_between:
  "reTitleTag s = Some m \<Longrightarrow> \<exists>a b open_tag close_tag. s = a @ open_tag @ m @ close_tag @ b \<and>
    EqualFold (take 6 open_tag) ''<title'' \<and> last open_tag = CHR ''>'' \<and> EqualFold close_tag ''</title>''"
proof (induction s)
  case Nil
  then show ?case by simp
next
  case (Cons c s)
  show ?case
  proof (cases "title_here (c # s)")
    case None
    with Cons have "reTitleTag s = Some m" by simp
    then obtain a b x y where "s = a @ x @ m @ y @ b" "EqualFold (take 6 x) ''<title''" "last x = CHR ''>''"
      "EqualFold y ''</title>''" using Cons.IH by blast
    then show ?thesis by (metis append_Cons)
  next
    case (Some m')
    let ?s = "c # s"
    from Some obtain i j where p: "EqualFold (take 6 ?s) ''<title''" and i: "Index (drop 6 ?s) ''>'' = Some i"
      and j: "IndexFold (drop (7 + i) ?s) ''</title>'' = Some j" and m: "m = take j (drop (7 + i) ?s)"
      using Cons.prems by (auto simp: title_here_def Let_def eval_nat_numeral split: if_splits option.splits)
    note ix = Index_split [OF i]
    let ?o = "take (7 + i) ?s" and ?r = "drop (7 + i) ?s"
    have l: "length (take 6 ?s) = 6" using EqualFold_length [OF p] by simp
    have ilen: "i < length (drop 6 ?s)"
      using arg_cong [OF ix, of length] by simp
    have o: "?o = take 6 ?s @ take (Suc i) (drop 6 ?s)"
      using l by (simp add: take_add [of 6 "Suc i" ?s, simplified])
    have "take (Suc i) (drop 6 ?s) = take i (drop 6 ?s) @ [drop 6 ?s ! i]"
      using ilen by (rule take_Suc_conv_app_nth)
    moreover have "drop 6 ?s ! i = CHR ''>''"
      using ilen by (subst ix) (simp add: nth_append)
    ultimately have "last ?o = CHR ''>''" using o by simp
    moreover have "EqualFold (take 6 ?o) ''<title''" using p l by (simp add: o)
    moreover have "EqualFold (take 8 (drop j ?r)) ''</title>''" using IndexFold_Some [OF j] by (simp add: eval_nat_numeral)
    moreover have "?s = [] @ ?o @ m @ take 8 (drop j ?r) @ drop 8 (drop j ?r)"
      unfolding m by (simp only: append_take_drop_id append_Nil)
    ultimately show ?thesis by blast
  qed
qed

text \<open>Every address and port is probed once, whichever paths found it.\<close>

lemma takeWhile_until: "c \<notin> set a \<Longrightarrow> takeWhile (\<lambda>x. x \<noteq> c) (a @ c # b) = a"
  by (induction a) auto

lemma port_key_inj:
  assumes "port_key p = port_key q"
  shows "p = q"
proof -
  have r: "takeWhile (\<lambda>x. x \<noteq> CHR '':'') (rev (port_key x)) = rev (Itoa (snd x))" for x
    using takeWhile_until [of "CHR '':''" "rev (Itoa (snd x))" "rev (fst x)"] Itoa_no_colon [of "snd x"]
    by (simp add: port_key_def)
  have "Itoa (snd p) = Itoa (snd q)" using r [of p] r [of q] assms by (metis rev_rev_ident)
  with assms show "p = q" by (simp add: prod_eq_iff Itoa_inj port_key_def)
qed

definition logging :: "(string \<Rightarrow> int \<Rightarrow> probeResult option) \<Rightarrow> string \<Rightarrow> int \<Rightarrow> openPort list \<Rightarrow> probeResult option \<times> openPort list" where
  "logging f ip port w = (f ip port, w @ [(ip, port)])"

lemma probeOnce_log:
  "\<exists>ps. snd (probeOnce (logging f) seen ops w) = w @ ps \<and> distinct (map port_key ps) \<and>
    set (map port_key ps) = set (map port_key ops) - set seen \<and> set ps \<subseteq> set ops \<and>
    fst (probeOnce (logging f) seen ops w) = List.map_filter (\<lambda>p. f (fst p) (snd p)) ps"
proof (induction ops arbitrary: seen w)
  case Nil
  then show ?case by (simp add: map_filter_simps)
next
  case (Cons p ops)
  show ?case
  proof (cases "port_key p \<in> set seen")
    case True
    obtain ps where "snd (probeOnce (logging f) seen ops w) = w @ ps" "distinct (map port_key ps)"
      "set (map port_key ps) = set (map port_key ops) - set seen" "set ps \<subseteq> set ops"
      "fst (probeOnce (logging f) seen ops w) = List.map_filter (\<lambda>p. f (fst p) (snd p)) ps"
      using Cons.IH [of seen w] by blast
    with True show ?thesis by (intro exI [of _ ps]) auto
  next
    case False
    obtain ps where ps: "snd (probeOnce (logging f) (port_key p # seen) ops (w @ [p])) = (w @ [p]) @ ps"
      "distinct (map port_key ps)" "set (map port_key ps) = set (map port_key ops) - set (port_key p # seen)"
      "set ps \<subseteq> set ops"
      "fst (probeOnce (logging f) (port_key p # seen) ops (w @ [p])) = List.map_filter (\<lambda>p. f (fst p) (snd p)) ps"
      using Cons.IH [of "port_key p # seen" "w @ [p]"] by blast
    obtain rs w' where r: "probeOnce (logging f) (port_key p # seen) ops (w @ [p]) = (rs, w')" by fastforce
    have "distinct (map port_key (p # ps))" using ps(2,3) by simp
    moreover have "set (map port_key (p # ps)) = set (map port_key (p # ops)) - set seen"
      using ps(3) False by auto
    moreover have "set (p # ps) \<subseteq> set (p # ops)" using ps(4) by auto
    moreover have "snd (probeOnce (logging f) seen (p # ops) w) = w @ p # ps"
      using False r ps(1) by (simp add: logging_def)
    moreover have "fst (probeOnce (logging f) seen (p # ops) w) = List.map_filter (\<lambda>p. f (fst p) (snd p)) (p # ps)"
      using False r ps(5) by (simp add: logging_def map_filter_simps split: option.split)
    ultimately show ?thesis by blast
  qed
qed

lemma sweep_hosts_once: "distinct (sweep_hosts seen ips) \<and> set (sweep_hosts seen ips) = set ips - set seen"
  by (induction ips arbitrary: seen) auto

section \<open>The store after a scan\<close>

definition add_addr :: "string \<times> int \<Rightarrow> (string \<times> int) list \<Rightarrow> (string \<times> int) list" where
  "add_addr a as = (if a \<in> set as then as else as @ [a])"

text \<open>The discovered entries that do not come from the network.\<close>

definition local_entries :: "store \<Rightarrow> DiscoveredService list" where
  "local_entries s = filter (\<lambda>d. dSource d \<noteq> SourceNetwork) (discovered s)"

lemma net_addr_values: "net_addr s = map (\<lambda>d. (dIP d, dPort d)) (filter (\<lambda>d. dSource d = SourceNetwork) (discovered s))"
  by (simp add: net_addr_def discovered_def filter_map comp_def)

lemma disc_values_frame [simp]:
  "net_addr (s\<lparr>files := f\<rparr>) = net_addr s" "local_entries (s\<lparr>files := f\<rparr>) = local_entries s"
  "net_addr (s\<lparr>saved := c\<rparr>) = net_addr s" "local_entries (s\<lparr>saved := c\<rparr>) = local_entries s"
  by (simp_all add: net_addr_values local_entries_def)

lemma discovered_upsert:
  assumes s: "disc_inv s"
  shows "discovered (snd (upsertDiscovered v s)) = discovered s @ [v] \<or>
    (\<exists>xs e ys. discovered s = xs @ e # ys \<and> dSource e = SourceNetwork \<and>
       discovered (snd (upsertDiscovered v s)) = xs @ refresh v e # ys)"
proof (cases "find (\<lambda>e. same_network v (discHeap s ! e)) (Discovered s)")
  case None
  then show ?thesis
    using disc_invD(2) [OF s]
    by (auto simp: upsertDiscovered_cases [OF s] discovered_def nth_append intro!: disjI1)
next
  case (Some e)
  then have e: "same_network v (discHeap s ! e)" "e \<in> set (Discovered s)" by (auto dest: find_SomeD')
  obtain xs ys where xy: "Discovered s = xs @ e # ys" using split_list [OF e(2)] by blast
  then have ne: "e \<notin> set xs" "e \<notin> set ys" using disc_invD(1) [OF s] by auto
  have bl: "q < length (discHeap s)" if "q \<in> set (Discovered s)" for q using disc_invD(2) [OF s that] by simp
  have h: "((discHeap s)[e := refresh v (discHeap s ! e)] @ [v]) ! q =
      (if q = e then refresh v (discHeap s ! e) else discHeap s ! q)" if "q \<in> set (Discovered s)" for q
    using bl [OF that] bl [OF e(2)] by (simp add: nth_append)
  have "discovered (snd (upsertDiscovered v s)) =
      map (\<lambda>q. if q = e then refresh v (discHeap s ! e) else discHeap s ! q) (Discovered s)"
    using Some h by (simp add: upsertDiscovered_cases [OF s] discovered_def)
  also have "\<dots> = map (\<lambda>q. discHeap s ! q) xs @ refresh v (discHeap s ! e) # map (\<lambda>q. discHeap s ! q) ys"
    using ne by (auto simp: xy)
  finally have "discovered (snd (upsertDiscovered v s)) =
      map (\<lambda>q. discHeap s ! q) xs @ refresh v (discHeap s ! e) # map (\<lambda>q. discHeap s ! q) ys" .
  moreover have "discovered s = map (\<lambda>q. discHeap s ! q) xs @ discHeap s ! e # map (\<lambda>q. discHeap s ! q) ys"
    by (simp add: discovered_def xy)
  ultimately show ?thesis using e(1) unfolding same_network_def by blast
qed

lemma upsertDiscovered_frame [simp]:
  "svcHeap (snd (upsertDiscovered v s)) = svcHeap s" "Services (snd (upsertDiscovered v s)) = Services s"
  "idIdx (snd (upsertDiscovered v s)) = idIdx s" "containerIDIdx (snd (upsertDiscovered v s)) = containerIDIdx s"
  "containerNameIdx (snd (upsertDiscovered v s)) = containerNameIdx s" "bmHeap (snd (upsertDiscovered v s)) = bmHeap s"
  "Bookmarks (snd (upsertDiscovered v s)) = Bookmarks s" "bookmarkIdx (snd (upsertDiscovered v s)) = bookmarkIdx s"
  "Ignored (snd (upsertDiscovered v s)) = Ignored s" "ignoredIdx (snd (upsertDiscovered v s)) = ignoredIdx s"
  "ignoredIPPortIdx (snd (upsertDiscovered v s)) = ignoredIPPortIdx s"
  by (simp_all add: upsertDiscovered_eq UpsertNetworkDiscovered_def indexDiscovered_def Let_def split: option.split)

lemma discoveredIdx_upsert:
  "discoveredIdx (snd (upsertDiscovered v s)) j = discoveredIdx s j \<or> j = dID v"
  by (auto simp: upsertDiscovered_eq UpsertNetworkDiscovered_def indexDiscovered_def Let_def split: option.split)

text \<open>Storing one result: the tables stay in order, the address is there once, the rest is untouched.\<close>

lemma upsertProbeResult_files:
  "\<exists>f. upsertProbeResult rand8 now r s = (snd (upsertDiscovered (network_entry (NewID rand8) now r) s))\<lparr>files := f\<rparr>"
proof -
  let ?u = "upsertDiscovered (network_entry (NewID rand8) now r) s"
  obtain f where f: "snd (WriteIcon (fst ?u) (rIconBytes r) (snd ?u)) = (snd ?u)\<lparr>files := f\<rparr>"
    using files_cases(1) by blast
  show ?thesis
    by (cases "rIconBytes r = []")
      (auto simp: upsertProbeResult_def case_prod_beta f intro: exI [of _ "files (snd ?u)"])
qed

lemma upsertProbeResult_effect:
  fixes now :: time and r :: probeResult
  assumes s: "srv_inv s" and f: "discoveredIdx s (NewID rand8) = None" "ignoredIdx s (NewID rand8) = None"
  defines "t \<equiv> upsertProbeResult rand8 now r s"
  shows "srv_inv t" and "services t = services s" and "net_addr t = add_addr (rIP r, rPort r) (net_addr s)"
    and "local_entries t = local_entries s" and "Ignored t = Ignored s" and "ignoredIdx t = ignoredIdx s"
    and "discoveredIdx t j = discoveredIdx s j \<or> j = NewID rand8"
proof -
  let ?v = "network_entry (NewID rand8) now r"
  let ?u = "snd (upsertDiscovered ?v s)"
  note d = srv_invD [OF s]
  obtain g where t: "t = ?u\<lparr>files := g\<rparr>"
    using upsertProbeResult_files [of rand8 now r s] by (auto simp: t_def)
  have v: "dID ?v = NewID rand8" "dSource ?v = SourceNetwork" "dContainerID ?v = []" "dIP ?v = rIP r" "dPort ?v = rPort r"
    by (simp_all add: network_entry_def)
  then have free: "disc_free ?v s" using f by (simp add: disc_free_def)
  show "discoveredIdx t j = discoveredIdx s j \<or> j = NewID rand8" for j
    using discoveredIdx_upsert [of ?v s j] by (simp add: t v)
  then have ap: "discoveredIdx ?u j = None \<or> ignoredIdx s j = None" for j
    using d(7) [of j] f(2) by (metis discoveredIdx_upsert v(1))
  have "svc_inv ?u = svc_inv s" "services ?u = services s" by (rule svc_inv_frame; simp)+
  moreover have "ign_inv ?u = ign_inv s" "bm_inv ?u = bm_inv s" by (simp_all add: ign_inv_def bm_inv_def)
  ultimately have "srv_inv ?u"
    using d ap disc_inv_upsertDiscovered [OF d(3) free] by (simp add: srv_inv_def store_inv_def)
  then show "srv_inv t" by (simp add: t)
  show "services t = services s" using \<open>services ?u = services s\<close> by (simp add: t)
  show "net_addr t = add_addr (rIP r, rPort r) (net_addr s)"
    using net_addr_upsert [OF d(3) v(2)] by (simp add: t add_addr_def v)
  show "local_entries t = local_entries s"
    using discovered_upsert [OF d(3), of ?v] v(2) by (auto simp: t local_entries_def)
  show "Ignored t = Ignored s" "ignoredIdx t = ignoredIdx s" by (simp_all add: t)
qed

lemma SaveLog_values [simp]:
  "services (SaveLog s) = services s" "net_addr (SaveLog s) = net_addr s" "local_entries (SaveLog s) = local_entries s"
  "discovered (SaveLog s) = discovered s"
  using SaveLog_cases [of s] by auto

definition accepted :: "string list \<Rightarrow> string list \<Rightarrow> probeResult \<Rightarrow> bool" where
  "accepted ignoredSet targets r \<longleftrightarrow>
    rIP r @ '':'' @ Itoa (rPort r) \<notin> set ignoredSet \<and> \<not> isAssignedTarget targets r"

definition result_addr :: "probeResult \<Rightarrow> string \<times> int" where
  "result_addr r = (rIP r, rPort r)"

definition fresh_ids :: "(probeResult \<times> nat list) list \<Rightarrow> store \<Rightarrow> bool" where
  "fresh_ids rs s \<longleftrightarrow> distinct (map (\<lambda>x. NewID (snd x)) rs) \<and>
     (\<forall>x \<in> set rs. discoveredIdx s (NewID (snd x)) = None \<and> ignoredIdx s (NewID (snd x)) = None)"

text \<open>What every step of a scan keeps.\<close>

definition scan_keeps :: "store \<Rightarrow> store \<Rightarrow> bool" where
  "scan_keeps s t \<longleftrightarrow> srv_inv t \<and> services t = services s \<and> local_entries t = local_entries s \<and>
     Ignored t = Ignored s \<and> ignoredIdx t = ignoredIdx s"

lemma scan_keeps_refl: "srv_inv s \<Longrightarrow> scan_keeps s s"
  by (simp add: scan_keeps_def)

lemma scan_keeps_trans: "scan_keeps s t \<Longrightarrow> scan_keeps t u \<Longrightarrow> scan_keeps s u"
  by (simp add: scan_keeps_def)

lemma scan_keeps_SaveLog [simp]: "scan_keeps s (SaveLog t) = scan_keeps s t"
  by (simp add: scan_keeps_def)

lemma fresh_ids_step:
  assumes f: "fresh_ids (x # rs) s" and j: "\<And>j. discoveredIdx t j = discoveredIdx s j \<or> j = NewID (snd x)"
    and i: "ignoredIdx t = ignoredIdx s"
  shows "fresh_ids rs t"
  unfolding fresh_ids_def
proof (intro conjI ballI)
  show "distinct (map (\<lambda>x. NewID (snd x)) rs)" using f by (simp add: fresh_ids_def)
  fix y assume y: "y \<in> set rs"
  moreover have "NewID (snd x) \<notin> (\<lambda>x. NewID (snd x)) ` set rs" using f by (simp add: fresh_ids_def)
  ultimately have "NewID (snd y) \<noteq> NewID (snd x)" by (metis imageI)
  with j [of "NewID (snd y)"] y f show "discoveredIdx t (NewID (snd y)) = None" by (auto simp: fresh_ids_def)
  show "ignoredIdx t (NewID (snd y)) = None" using y f i by (auto simp: fresh_ids_def)
qed

lemma light_fold:
  assumes "srv_inv s" and "fresh_ids rs s"
  shows "scan_keeps s (fold (light_step targets now) rs s) \<and>
    net_addr (fold (light_step targets now) rs s) =
      fold add_addr (map result_addr (filter (accepted [] targets) (map fst rs))) (net_addr s)"
  using assms
proof (induction rs arbitrary: s)
  case Nil
  then show ?case by (simp add: scan_keeps_refl)
next
  case (Cons x rs)
  obtain r b where x: "x = (r, b)" by fastforce
  show ?case
  proof (cases "isAssignedTarget targets r")
    case True
    then have "fresh_ids rs s" using Cons.prems(2) by (auto simp: fresh_ids_def)
    with True Cons show ?thesis by (simp add: x light_step_def accepted_def)
  next
    case False
    let ?t = "upsertProbeResult b now r s"
    have fr: "discoveredIdx s (NewID b) = None" "ignoredIdx s (NewID b) = None"
      using Cons.prems(2) by (auto simp: fresh_ids_def x)
    note e = upsertProbeResult_effect [OF Cons.prems(1) fr, of now r]
    have k: "scan_keeps s ?t" using e by (simp add: scan_keeps_def)
    have "fresh_ids rs ?t" by (rule fresh_ids_step [OF Cons.prems(2)]) (use e(6,7) in \<open>simp_all add: x\<close>)
    from Cons.IH [OF e(1) this] False e(3) show ?thesis
      by (auto simp: x light_step_def accepted_def result_addr_def intro: scan_keeps_trans [OF k])
  qed
qed

lemma full_fold:
  assumes "srv_inv s" and "fresh_ids rs s"
  shows "scan_keeps s (snd (fold (full_step ignoredSet targets now) rs (n, s))) \<and>
    net_addr (snd (fold (full_step ignoredSet targets now) rs (n, s))) =
      fold add_addr (map result_addr (filter (accepted ignoredSet targets) (map fst rs))) (net_addr s)"
  using assms
proof (induction rs arbitrary: s n)
  case Nil
  then show ?case by (simp add: scan_keeps_refl)
next
  case (Cons x rs)
  obtain r b where x: "x = (r, b)" by fastforce
  show ?case
  proof (cases "accepted ignoredSet targets r")
    case False
    then have "full_step ignoredSet targets now x (n, s) = (n, s)" by (auto simp: x full_step_def accepted_def)
    moreover have "fresh_ids rs s" using Cons.prems(2) by (auto simp: fresh_ids_def)
    ultimately show ?thesis using False Cons by (simp add: x)
  next
    case True
    let ?u = "upsertProbeResult b now r s"
    let ?t = "if (n + 1) mod 10 = 0 then SaveLog ?u else ?u"
    have st: "full_step ignoredSet targets now (r, b) (n, s) = (n + 1, ?t)"
      using True by (simp add: full_step_def accepted_def Let_def)
    have fr: "discoveredIdx s (NewID b) = None" "ignoredIdx s (NewID b) = None"
      using Cons.prems(2) by (auto simp: fresh_ids_def x)
    note e = upsertProbeResult_effect [OF Cons.prems(1) fr, of now r]
    have k: "scan_keeps s ?t" using e by (simp add: scan_keeps_def)
    have t: "srv_inv ?t" "net_addr ?t = add_addr (result_addr r) (net_addr s)"
      using e(1,3) by (simp_all add: result_addr_def)
    have "fresh_ids rs ?t" by (rule fresh_ids_step [OF Cons.prems(2)]) (use e(6,7) in \<open>simp_all add: x\<close>)
    from Cons.IH [OF t(1) this, of "n + 1"] True k t(2) show ?thesis
      by (auto simp only: fold.simps comp_apply st x fst_conv list.map filter.simps if_True intro: scan_keeps_trans)
  qed
qed

text \<open>Clearing the network entries.\<close>

lemma fold_drop_disc_frame:
  "svcHeap (fold drop_disc rs s) = svcHeap s \<and> Services (fold drop_disc rs s) = Services s \<and>
   idIdx (fold drop_disc rs s) = idIdx s \<and> containerIDIdx (fold drop_disc rs s) = containerIDIdx s \<and>
   containerNameIdx (fold drop_disc rs s) = containerNameIdx s \<and> bmHeap (fold drop_disc rs s) = bmHeap s \<and>
   Bookmarks (fold drop_disc rs s) = Bookmarks s \<and> bookmarkIdx (fold drop_disc rs s) = bookmarkIdx s \<and>
   Ignored (fold drop_disc rs s) = Ignored s \<and> ignoredIdx (fold drop_disc rs s) = ignoredIdx s \<and>
   ignoredIPPortIdx (fold drop_disc rs s) = ignoredIPPortIdx s \<and> discHeap (fold drop_disc rs s) = discHeap s \<and>
   (discoveredIdx (fold drop_disc rs s) j = discoveredIdx s j \<or> discoveredIdx (fold drop_disc rs s) j = None)"
proof (induction rs arbitrary: s)
  case Nil
  then show ?case by simp
next
  case (Cons r rs)
  have "discHeap (drop_disc r s) = discHeap s"
    "discoveredIdx (drop_disc r s) j = discoveredIdx s j \<or> discoveredIdx (drop_disc r s) j = None"
    by (simp_all add: drop_disc_def unindexDiscovered_def Let_def)
  with Cons.IH [of "drop_disc r s"] show ?case by auto
qed

lemma ClearNetwork_effect:
  assumes s: "srv_inv s"
  shows "scan_keeps s (ClearNetworkDiscovered s)" and "net_addr (ClearNetworkDiscovered s) = []"
    and "discoveredIdx s j = None \<Longrightarrow> discoveredIdx (ClearNetworkDiscovered s) j = None"
proof -
  let ?t = "ClearNetworkDiscovered s"
  note d = srv_invD [OF s]
  note f = fold_drop_disc_frame [of "filter (\<lambda>d. dSource (discHeap s ! d) = SourceNetwork) (Discovered s)" s,
      folded ClearNetworkDiscovered_eq]
  have "svc_inv ?t = svc_inv s" and sv: "services ?t = services s" by (rule svc_inv_frame; simp add: f)+
  moreover have "ign_inv ?t = ign_inv s" "bm_inv ?t = bm_inv s" by (simp_all add: ign_inv_def bm_inv_def f)
  moreover have "discoveredIdx ?t j = None \<or> ignoredIdx ?t j = None" for j
    using f [of j] d(7) [of j] by auto
  ultimately have "srv_inv ?t"
    using d disc_inv_ClearNetwork [OF d(3)] by (simp add: srv_inv_def store_inv_def)
  moreover have dv: "discovered ?t = filter (\<lambda>d. dSource d \<noteq> SourceNetwork) (discovered s)"
    using f by (simp add: discovered_def ClearNetwork_list filter_map comp_def)
  ultimately show "scan_keeps s ?t" using sv f by (simp add: scan_keeps_def local_entries_def)
  show "net_addr ?t = []" by (simp add: net_addr_values dv filter_empty_conv)
  show "discoveredIdx s j = None \<Longrightarrow> discoveredIdx ?t j = None" using f [of j] by auto
qed

lemma SetLastScan_keeps [simp]:
  "scan_keeps s (SetLastScan x t) = scan_keeps s t" "net_addr (SetLastScan x t) = net_addr t"
proof -
  have "discovered (SetLastScan x t) = discovered t" "services (SetLastScan x t) = services t"
    by (simp_all add: SetLastScan_def discovered_def services_def GetAllServices_def)
  moreover have "srv_inv (SetLastScan x t) = srv_inv t"
    using calculation by (simp add: srv_inv_def store_inv_def svc_inv_def disc_inv_def ign_inv_def bm_inv_def SetLastScan_def)
  ultimately show "scan_keeps s (SetLastScan x t) = scan_keeps s t" "net_addr (SetLastScan x t) = net_addr t"
    by (simp_all add: scan_keeps_def local_entries_def net_addr_values) (simp_all add: SetLastScan_def)
qed

text \<open>
  A full scan replaces the network entries: afterwards they are the results that are neither
  ignored nor assigned, each address once in the order of arrival; services, containers
  and the ignored list are untouched.
\<close>

lemma runScan_effect:
  assumes s: "srv_inv s" and f: "fresh_ids rs s"
  shows "scan_keeps s (runScan now done_at rs s)"
    and "net_addr (runScan now done_at rs s) = fold add_addr (map result_addr (filter
      (accepted (map (\<lambda>ig. iIP ig @ '':'' @ Itoa (iPort ig)) (Ignored s)) (assignedTargets s)) (map fst rs))) []"
proof -
  let ?ig = "map (\<lambda>ig. iIP ig @ '':'' @ Itoa (iPort ig)) (GetIgnored s)"
  let ?c = "ClearNetworkDiscovered s"
  let ?t = "snd (fold (full_step ?ig (assignedTargets s) now) rs (0, ?c))"
  note c = ClearNetwork_effect [OF s]
  have i: "srv_inv ?c" using c(1) by (simp add: scan_keeps_def)
  have fc: "fresh_ids rs ?c" using f c(1,3) by (auto simp: fresh_ids_def scan_keeps_def)
  have r: "runScan now done_at rs s = SaveLog (SetLastScan done_at ?t)"
    by (simp add: runScan_def Let_def case_prod_beta)
  note e = full_fold [OF i fc, of ?ig "assignedTargets s" now 0]
  show "scan_keeps s (runScan now done_at rs s)"
    using scan_keeps_trans [OF c(1) e [THEN conjunct1]] by (simp add: r)
  show "net_addr (runScan now done_at rs s) = fold add_addr (map result_addr (filter
      (accepted (map (\<lambda>ig. iIP ig @ '':'' @ Itoa (iPort ig)) (Ignored s)) (assignedTargets s)) (map fst rs))) []"
    using e c(2) by (simp add: r GetIgnored_def)
qed

lemma set_fold_add_addr: "set (fold add_addr as bs) = set as \<union> set bs" "distinct bs \<Longrightarrow> distinct (fold add_addr as bs)"
  by (induction as arbitrary: bs) (auto simp: add_addr_def)

text \<open>
  A light scan adds its results to the network entries there are.  It does not look at the
  ignored list: an ignored address that answers is offered again.
\<close>

lemma runLightScan_effect:
  assumes s: "srv_inv s" and f: "fresh_ids rs s"
  shows "scan_keeps s (runLightScan now rs s)"
    and "net_addr (runLightScan now rs s) =
      fold add_addr (map result_addr (filter (accepted [] (assignedTargets s)) (map fst rs))) (net_addr s)"
  using light_fold [OF s f, of "assignedTargets s" now] by (simp_all add: runLightScan_def)

lemma light_scan_ignored:
  assumes s: "srv_inv s" and f: "fresh_ids [(r, b)] s" and a: "\<not> isAssignedTarget (assignedTargets s) r"
  shows "(rIP r, rPort r) \<in> set (net_addr (runLightScan now [(r, b)] s))"
    and "IsIgnored ip port (runLightScan now [(r, b)] s) = IsIgnored ip port s"
proof -
  show "(rIP r, rPort r) \<in> set (net_addr (runLightScan now [(r, b)] s))"
    using a runLightScan_effect(2) [OF s f, of now]
    by (simp add: accepted_def result_addr_def set_fold_add_addr add_addr_def)
  obtain g where "upsertProbeResult b now r s = (snd (upsertDiscovered (network_entry (NewID b) now r) s))\<lparr>files := g\<rparr>"
    using upsertProbeResult_files by blast
  then have "ignoredIPPortIdx (runLightScan now [(r, b)] s) = ignoredIPPortIdx s"
    using a SaveLog_cases [of "upsertProbeResult b now r s"] by (auto simp: runLightScan_def light_step_def)
  then show "IsIgnored ip port (runLightScan now [(r, b)] s) = IsIgnored ip port s"
    by (simp add: IsIgnored_def)
qed

end
