(* ===== verification/HandlerLaws.thy ===== *)
theory HandlerLaws
  imports WebHandlers Tunnel Scan
begin

text \<open>
  The invariant \<open>srv_inv\<close> through the operations whose effect the other theories do not
  state: the icon handlers, editing a bookmark, ignoring and un-ignoring, reordering, the
  settings, the background fetches and the Docker events.
\<close>

section \<open>Operations of the store\<close>

text \<open>Settings: changes of the fields that no invariant looks at.\<close>

lemma srv_inv_settings [simp]:
  "srv_inv (s\<lparr>DDNSDomains := d\<rparr>) = srv_inv s" "srv_inv (s\<lparr>ScanSubnets := d\<rparr>) = srv_inv s"
  "srv_inv (s\<lparr>LastScan := n\<rparr>) = srv_inv s" "srv_inv (s\<lparr>PublicIP := ip\<rparr>) = srv_inv s"
  "srv_inv (s\<lparr>Tunnel := t\<rparr>) = srv_inv s"
  by (simp_all add: srv_inv_def store_inv_def svc_inv_def disc_inv_def ign_inv_def bm_inv_def services_def
      GetAllServices_def)

lemma srv_inv_set_icon:
  assumes s: "srv_inv s" and r: "idIdx s i = Some r"
  shows "srv_inv (replaceService i ((svcHeap s ! r)\<lparr>sIcon := icon\<rparr>) s)"
proof -
  note d = srv_invD(2) [OF s]
  have m: "r \<in> refs_of (Services s)" "sID (svcHeap s ! r) = i" using d r by (simp_all add: idIdx_iff)
  have "sub_ok (svcHeap s ! r)" using srv_invD(6) [OF s] m(1) by (simp add: set_services)
  then show ?thesis
    using m by (intro srv_inv_replace [OF s r replace_free [OF d r]]) simp_all
qed

lemma services_ids: "svc_inv s \<Longrightarrow> idIdx s i = Some r \<Longrightarrow> svcHeap s ! r \<in> set (services s) \<and> sID (svcHeap s ! r) = i"
  by (auto simp: idIdx_iff set_services)

text \<open>Writing a service object in place, with its keys kept.\<close>

lemma srv_inv_setServiceOrder:
  assumes s: "srv_inv s"
  shows "srv_inv (setServiceOrder n i s)"
proof (cases "idIdx s i")
  case None
  then show ?thesis using s by (simp add: setServiceOrder_def)
next
  case (Some r)
  let ?h = "(svcHeap s)[r := (svcHeap s ! r)\<lparr>sOrder := n\<rparr>]"
  have e: "setServiceOrder n i s = s\<lparr>svcHeap := ?h\<rparr>" using Some by (simp add: setServiceOrder_def)
  note d = srv_invD [OF s]
  have o: "disc_inv (setServiceOrder n i s) = disc_inv s" "ign_inv (setServiceOrder n i s) = ign_inv s"
    "bm_inv (setServiceOrder n i s) = bm_inv s"
    by (rule other_inv_frame; simp add: e)+
  have r: "r < length (svcHeap s)" using live_lt [OF d(2) Some] .
  have "\<exists>u \<in> set (services s). v = u \<or> v = u\<lparr>sOrder := n\<rparr>" if v: "v \<in> set (services (setServiceOrder n i s))" for v
  proof -
    from v obtain q where "q \<in> refs_of (Services s)" "v = ?h ! q" by (auto simp: set_services e)
    then show ?thesis using r by (cases "q = r") (auto simp: set_services)
  qed
  then have "sub_ok v" if "v \<in> set (services (setServiceOrder n i s))" for v
    using that d(6) by (fastforce simp: sub_ok_def)
  moreover have "discoveredIdx (setServiceOrder n i s) = discoveredIdx s" "ignoredIdx (setServiceOrder n i s) = ignoredIdx s"
    by (simp_all add: e)
  ultimately show ?thesis
    using svc_inv_setServiceOrder [OF d(2)] d(3-5,7) by (simp add: srv_inv_def store_inv_def o)
qed

lemma reorder_keeps:
  assumes "\<And>n i s. P s \<Longrightarrow> P (set_order n i s)"
  shows "P s \<Longrightarrow> P (reorder_with set_order n is s)"
  by (induction "is" arbitrary: n s) (simp_all add: assms)

lemma srv_inv_ReorderServices: "srv_inv s \<Longrightarrow> srv_inv (ReorderServices ids s)"
  unfolding ReorderServices_def by (rule reorder_keeps [where P = srv_inv]) (rule srv_inv_setServiceOrder)

lemma srv_inv_setBookmarkOrder: "srv_inv s \<Longrightarrow> srv_inv (setBookmarkOrder n i s)"
  by (rule srv_inv_cong [where s = s])
    (simp_all add: bm_inv_setOrder srv_invD(5), simp_all add: setBookmarkOrder_def split: option.split)

lemma srv_inv_ReorderBookmarks: "srv_inv s \<Longrightarrow> srv_inv (ReorderBookmarks ids s)"
  unfolding ReorderBookmarks_def by (rule reorder_keeps [where P = srv_inv]) (rule srv_inv_setBookmarkOrder)

text \<open>Replacing a bookmark by a fresh object under the same ID.\<close>

definition replaceBookmark :: "string \<Rightarrow> Bookmark \<Rightarrow> store \<Rightarrow> bool \<times> store" where
  "replaceBookmark i v s = UpdateBookmark i (length (bmHeap s)) (s\<lparr>bmHeap := bmHeap s @ [v]\<rparr>)"

lemma srv_inv_replaceBookmark:
  assumes s: "srv_inv s" and i: "bID v = i"
  shows "srv_inv (snd (replaceBookmark i v s))"
proof -
  note b = srv_invD(5) [OF s]
  have "length (bmHeap s) \<notin> set (Bookmarks s)" using b by (auto simp: bm_inv_def)
  then have t: "bm_inv (snd (replaceBookmark i v s))"
    unfolding replaceBookmark_def by (intro bm_inv_UpdateBookmark bm_inv_new b) (simp_all add: i)
  show ?thesis
    by (rule srv_inv_cong [where s = s]) (simp_all add: s t, simp_all add: replaceBookmark_def)
qed

text \<open>Ignoring and un-ignoring keep the two ID spaces apart.\<close>

lemma srv_inv_Ignore:
  assumes s: "srv_inv s"
  shows "srv_inv (snd (IgnoreDiscovered i now s))"
proof (cases "discoveredIdx s i")
  case None
  then show ?thesis using s by (simp add: IgnoreDiscovered_def)
next
  case (Some r)
  note d = srv_invD [OF s]
  let ?t = "snd (IgnoreDiscovered i now s)"
  have g: "ignoredIdx s i = None" using d(7) [of i] Some by simp
  have "svc_inv ?t = svc_inv s" "services ?t = services s" by (rule svc_inv_frame; simp)+
  moreover have "bm_inv ?t = bm_inv s" by (simp add: bm_inv_def)
  moreover have "dID (discHeap s ! r) = i" using Some d(3) by (simp add: discoveredIdx_iff)
  then have "discoveredIdx ?t = (discoveredIdx s)(i := None)" "\<And>j. j \<noteq> i \<Longrightarrow> ignoredIdx ?t j = ignoredIdx s j"
    by (simp_all add: IgnoreDiscovered_eq [OF d(3) Some] add_ignored_def drop_disc_def)
  then have "discoveredIdx ?t j = None \<or> ignoredIdx ?t j = None" for j
    using d(7) [of j] by (cases "j = i") simp_all
  ultimately show ?thesis
    using d ignored_inv_IgnoreDiscovered [OF d(3,4) g, of now] by (simp add: srv_inv_def store_inv_def)
qed

lemma srv_inv_Unignore:
  assumes s: "srv_inv s"
  shows "srv_inv (snd (UnignoreService i s))"
proof -
  note d = srv_invD [OF s]
  let ?t = "snd (UnignoreService i s)"
  have "svc_inv ?t = svc_inv s" "services ?t = services s" by (rule svc_inv_frame; simp)+
  moreover have "bm_inv ?t = bm_inv s" by (simp add: bm_inv_def)
  moreover have "ignoredIdx ?t j = ignoredIdx s j \<or> ignoredIdx ?t j = None" for j
    by (auto simp: UnignoreService_def unindexIgnored_def Let_def split: option.split)
  then have "discoveredIdx ?t j = None \<or> ignoredIdx ?t j = None" for j
    using d(7) [of j] by (metis UnignoreService_disc(3))
  ultimately show ?thesis
    using d ign_inv_UnignoreService [OF d(4)] disc_inv_UnignoreService [OF d(3)] by (simp add: srv_inv_def store_inv_def)
qed

lemma srv_inv_UpdateDiscoveredIcon:
  assumes s: "srv_inv s"
  shows "srv_inv (UpdateDiscoveredIcon i icon s)"
proof -
  note d = srv_invD [OF s]
  let ?t = "UpdateDiscoveredIcon i icon s"
  have f: "svcHeap ?t = svcHeap s" "Services ?t = Services s" "idIdx ?t = idIdx s" "containerIDIdx ?t = containerIDIdx s"
    "containerNameIdx ?t = containerNameIdx s" "bmHeap ?t = bmHeap s" "Bookmarks ?t = Bookmarks s"
    "bookmarkIdx ?t = bookmarkIdx s" "Ignored ?t = Ignored s" "ignoredIdx ?t = ignoredIdx s"
    "ignoredIPPortIdx ?t = ignoredIPPortIdx s" "discoveredIdx ?t = discoveredIdx s"
    by (simp_all add: UpdateDiscoveredIcon_def split: option.split)
  have "svc_inv ?t = svc_inv s" "services ?t = services s" by (rule svc_inv_frame; simp add: f)+
  moreover have "bm_inv ?t = bm_inv s" "ign_inv ?t = ign_inv s" by (simp_all add: bm_inv_def ign_inv_def f)
  ultimately show ?thesis using d disc_inv_UpdateIcon [OF d(3)] by (simp add: srv_inv_def store_inv_def f)
qed

section \<open>Handlers\<close>

text \<open>A server step that keeps the invariant of its store.\<close>

definition keeps :: "('w Server \<Rightarrow> 'w Server) \<Rightarrow> bool" where
  "keeps f \<longleftrightarrow> (\<forall>s. srv_inv (st s) \<longrightarrow> srv_inv (st (f s)))"

lemma keepsD: "keeps f \<Longrightarrow> srv_inv (st s) \<Longrightarrow> srv_inv (st (f s))"
  by (simp add: keeps_def)

lemma st_save [simp]: "st (save s) = SaveLog (st s)" "world (save s) = world s" "cl (save s) = cl s" "cfg (save s) = cfg s"
  by (simp_all add: save_def)

lemma st_on_store [simp]: "st (on_store f s) = f (st s)" "world (on_store f s) = world s" "cl (on_store f s) = cl s"
  "cfg (on_store f s) = cfg s"
  by (simp_all add: on_store_def)

lemma set_icon_eq:
  "svc_inv s \<Longrightarrow> idIdx s i = Some r \<Longrightarrow> set_icon icon r s = replaceService i ((svcHeap s ! r)\<lparr>sIcon := icon\<rparr>) s"
  using services_ids [of s i r]
  by (simp add: set_icon_def replaceService_def newService_def alloc_def Let_def)

lemma applyServiceIcon_keeps:
  "srv_inv (st s) \<Longrightarrow> idIdx (st s) i = Some r \<Longrightarrow> srv_inv (st (snd (applyServiceIcon r icon s)))"
  using srv_inv_set_icon [of "st s" i r icon] by (simp add: applyServiceIcon_def set_icon_eq srv_invD(2))

lemma WriteIcon_splitE:
  assumes "WriteIcon i d s = (r, t)"
  obtains f where "t = s\<lparr>files := f\<rparr>"
  using files_cases(1) [of i d s] assms by auto

lemma uploadServiceIcon_keeps: "keeps (\<lambda>s. snd (uploadServiceIcon rq s))"
  unfolding keeps_def uploadServiceIcon_def GetServiceByID_def
  by (auto split: option.split prod.splits sum.splits elim!: WriteIcon_splitE intro: applyServiceIcon_keeps)

lemma clearServiceIcon_keeps: "keeps (\<lambda>s. snd (clearServiceIcon rq s))"
  unfolding keeps_def clearServiceIcon_def GetServiceByID_def
  by (auto split: option.split intro!: applyServiceIcon_keeps)

lemma pullServiceFavicon_keeps: "keeps (\<lambda>s. snd (pullServiceFavicon fetch rq s))"
  unfolding keeps_def pullServiceFavicon_def GetServiceByID_def Let_def
  by (auto split: option.split prod.splits sum.splits elim!: WriteIcon_splitE intro!: applyServiceIcon_keeps)

lemma FetchAndWriteFavicon_st:
  assumes "FetchAndWriteFavicon fetch i s = (ok, t)"
  shows "\<exists>f. st t = (st s)\<lparr>files := f\<rparr>"
proof -
  have k: "\<exists>f. st s = (st s)\<lparr>files := f\<rparr>" by (rule exI [of _ "files (st s)"]) simp
  show ?thesis
    using assms k by (auto simp: FetchAndWriteFavicon_def Let_def split: if_splits prod.splits sum.splits elim!: WriteIcon_splitE)
qed

lemma fetchServiceIcon_keeps: "keeps (fetchServiceIcon fetch i)"
  unfolding keeps_def
proof (intro allI impI)
  fix s :: "'a Server" assume s: "srv_inv (st s)"
  obtain ok t where t: "FetchAndWriteFavicon fetch i s = (ok, t)" by fastforce
  then obtain f where f: "st t = (st s)\<lparr>files := f\<rparr>" using FetchAndWriteFavicon_st by blast
  show "srv_inv (st (fetchServiceIcon fetch i s))"
  proof (cases "ok \<and> idIdx (st t) i \<noteq> None")
    case True
    then obtain r where r: "idIdx (st t) i = Some r" by blast
    have "st (fetchServiceIcon fetch i s) = SaveLog (replaceService i ((svcHeap (st t) ! r)\<lparr>sIcon := IconFile\<rparr>) (st t))"
      using t True r by (simp add: fetchServiceIcon_def GetServiceByID_def replaceService_def newService_def alloc_def Let_def)
    then show ?thesis using srv_inv_set_icon [OF _ r] s f by simp
  next
    case False
    then have "st (fetchServiceIcon fetch i s) = st t"
      using t by (auto simp: fetchServiceIcon_def GetServiceByID_def split: bool.split)
    then show ?thesis using s f by simp
  qed
qed

lemma updateBookmark_keeps: "keeps (\<lambda>s. fst (snd (updateBookmark rq s)))"
  unfolding keeps_def
proof (intro allI impI)
  fix s :: "'a Server" assume s: "srv_inv (st s)"
  let ?v = "\<lparr>bID = pathID rq, bName = form rq ''name'', bURL = normalizeBookmarkURL (form rq ''url''),
      bIcon = [], bCategory = form rq ''category'', bOrder = 0\<rparr>"
  have "st (fst (snd (updateBookmark rq s))) \<in> {st s, snd (replaceBookmark (pathID rq) ?v (st s)),
      SaveLog (snd (replaceBookmark (pathID rq) ?v (st s)))}"
    by (auto simp: updateBookmark_def newBookmark_def alloc_def replaceBookmark_def Let_def split: prod.split)
  then show "srv_inv (st (fst (snd (updateBookmark rq s))))"
    using s srv_inv_replaceBookmark [OF s, of ?v "pathID rq"] by auto
qed

lemma fetchBookmarkFavicon_keeps: "keeps (fetchBookmarkFavicon fetch i)"
  unfolding keeps_def
proof (intro allI impI)
  fix s :: "'a Server" assume s: "srv_inv (st s)"
  obtain ok t where t: "FetchAndWriteFavicon fetch i s = (ok, t)" by fastforce
  then obtain f where f: "st t = (st s)\<lparr>files := f\<rparr>" using FetchAndWriteFavicon_st by blast
  then have ti: "srv_inv (st t)" using s by simp
  show "srv_inv (st (fetchBookmarkFavicon fetch i s))"
  proof (cases "\<exists>r. ok \<and> bookmarkIdx (st t) i = Some r \<and> bIcon (bmHeap (st t) ! r) \<noteq> IconFile")
    case True
    then obtain r where r: "ok" "bookmarkIdx (st t) i = Some r" "bIcon (bmHeap (st t) ! r) \<noteq> IconFile" by blast
    have "bID (bmHeap (st t) ! r) = i" using r(2) srv_invD(5) [OF ti] by (simp add: bookmarkIdx_iff)
    moreover have "st (fetchBookmarkFavicon fetch i s) =
        SaveLog (snd (replaceBookmark i ((bmHeap (st t) ! r)\<lparr>bIcon := IconFile\<rparr>) (st t)))"
      using t r by (simp add: fetchBookmarkFavicon_def GetBookmarkByID_def replaceBookmark_def newBookmark_def alloc_def Let_def)
    ultimately show ?thesis
      using srv_inv_replaceBookmark [OF ti, of "(bmHeap (st t) ! r)\<lparr>bIcon := IconFile\<rparr>" i] by simp
  next
    case False
    then have "st (fetchBookmarkFavicon fetch i s) = st t"
      using t by (auto simp: fetchBookmarkFavicon_def GetBookmarkByID_def split: bool.split option.split)
    then show ?thesis using ti by simp
  qed
qed

lemma deleteDiscovered_keeps: "keeps (\<lambda>s. snd (deleteDiscovered rq s))"
  by (simp add: keeps_def deleteDiscovered_def srv_inv_RemoveDiscovered)

lemma ignoreDiscovered_keeps: "keeps (\<lambda>s. snd (ignoreDiscovered now rq s))"
proof -
  have "srv_inv (st (snd (ignoreDiscovered now rq s)))" if "srv_inv (st s)" for s :: "'a Server"
    using srv_inv_Ignore [OF that, of "pathID rq" now]
    by (cases "IgnoreDiscovered (pathID rq) now (st s)") (auto simp: ignoreDiscovered_def split: sum.split)
  then show ?thesis by (simp add: keeps_def)
qed

lemma unignoreService_keeps: "keeps (\<lambda>s. snd (unignoreService now rq s))"
  unfolding keeps_def
proof (intro allI impI)
  fix s :: "'a Server" assume s: "srv_inv (st s)"
  let ?i = "pathID rq" and ?t = "snd (UnignoreService (pathID rq) (st s))"
  note t = srv_inv_Unignore [OF s, of ?i] and d = srv_invD [OF s]
  show "srv_inv (st (snd (unignoreService now rq s)))"
  proof (cases "ignoredIdx (st s) ?i")
    case None
    then show ?thesis using s by (simp add: unignoreService_def UnignoreService_def)
  next
    case (Some ig)
    have i: "iID ig = ?i" "discoveredIdx (st s) ?i = None" using Some d(4) d(7) [of ?i] by (auto simp: ign_inv_def)
    have "ignoredIdx ?t ?i = None" using Some i(1) by (simp add: UnignoreService_def unindexIgnored_def Let_def)
    then have "srv_inv (insertDiscovered (unignored ig now) ?t)"
      using i by (intro srv_inv_insertDiscovered t) (simp_all add: unignored_def)
    then show ?thesis
      using UnignoreService_Some(1) [OF d(4) Some]
      by (cases "UnignoreService ?i (st s)") (simp add: unignoreService_def)
  qed
qed

lemma subnets_keep: "keeps (\<lambda>s. snd (addScanSubnet valid rq s))" "keeps (\<lambda>s. snd (removeScanSubnet rq s))"
  by (simp_all add: keeps_def addScanSubnet_def removeScanSubnet_def Let_def AddScanSubnet_def RemoveScanSubnet_def)

lemma reorderHandler_keeps:
  "keeps (\<lambda>s. snd (reorderHandler ReorderServices ids s))" "keeps (\<lambda>s. snd (reorderHandler ReorderBookmarks ids s))"
  by (auto simp: keeps_def reorderHandler_def srv_inv_ReorderServices srv_inv_ReorderBookmarks split: option.split)

lemma ddns_keep: "keeps (\<lambda>s. snd (addDDNS http rq s))" "keeps (\<lambda>s. snd (removeDDNS http rq s))"
  "keeps (checkAndUpdate http ipify)"
  by (auto simp: keeps_def addDDNS_def removeDDNS_def checkAndUpdate_def Let_def AddDDNSDomain_def RemoveDDNSDomain_def
      SetPublicIP_def split: option.split prod.split sum.split)

lemma deleteBookmark_keeps: "keeps (\<lambda>s. snd (deleteBookmark rq s))"
proof -
  have "srv_inv (st (snd (deleteBookmark rq s)))" if "srv_inv (st s)" for s :: "'a Server"
    by (rule deleteBookmark_effect(1) [OF that, of rq "fst (deleteBookmark rq s)"]) simp
  then show ?thesis by (simp add: keeps_def)
qed

lemma fetchAndStoreDiscoveredFavicon_keeps: "keeps (fetchAndStoreDiscoveredFavicon fetch i target)"
  by (auto simp: keeps_def fetchAndStoreDiscoveredFavicon_def Let_def
      split: prod.splits sum.splits elim!: WriteIcon_splitE intro!: srv_inv_UpdateDiscoveredIcon)

lemma detachContainer_keeps:
  assumes "cid \<noteq> []"
  shows "keeps (detachContainer cid)"
  by (auto simp: keeps_def intro: detachContainer_effect(1) [OF _ assms])

text \<open>The tunnel handlers change the tunnel field of the store only.\<close>

lemma tunnel_keeps:
  assumes "srv_inv (st (srv m))"
  shows "srv_inv (st (srv (snd (createTunnel http launch secret now m))))"
    and "srv_inv (st (srv (snd (deleteTunnel http m))))"
  using assms by (auto simp: createTunnel_def Create_def startProcess_def deleteTunnel_def Delete_def Stop_def Let_def
      SetTunnel_def ClearTunnel_def split: prod.splits sum.splits option.splits)

end
