(* ===== verification/Proxy.thy ===== *)
theory Proxy
  imports Server
begin

text \<open>
  \<open>internal/proxy/proxy.go\<close>: the handler in front of everything.  It routes a request by
  its \<open>Host\<close>: to the web interface, to the service that has the subdomain, or to an
  error; it keeps one reverse proxy per subdomain, rewrites the outgoing request and the
  \<open>Location\<close> of the response.

  \<open>net/url\<close> is a parameter: \<open>parse\<close> of a string, \<open>None\<close> for an error, and
  \<open>render\<close>, the \<open>String\<close> method.  Of a URL the code reads and writes the scheme and
  the host.  Headers are maps from the canonical name to the first value.
\<close>

record 'u URL =
  Scheme :: string
  UHost :: string
  URest :: 'u

type_synonym headers = "string \<rightharpoonup> string"

definition hget :: "headers \<Rightarrow> string \<Rightarrow> string" where
  "hget h k = (case h k of Some v \<Rightarrow> v | None \<Rightarrow> [])"

record request_in =
  rqHost :: string
  rqRemoteAddr :: string
  rqTLS :: bool
  rqHeader :: headers

section \<open>Error pages\<close>

text \<open>\<open>html.EscapeString\<close>.\<close>

definition escape_char :: "char \<Rightarrow> string" where
  "escape_char c =
    (if c = CHR ''<'' then ''&lt;'' else if c = CHR ''>'' then ''&gt;'' else if c = CHR ''&'' then ''&amp;''
     else if c = CHR 0x27 then ''&#39;'' else if c = CHR 0x22 then ''&#34;'' else [c])"

definition EscapeString :: "string \<Rightarrow> string" where
  "EscapeString s = concat (map escape_char s)"

record error_page =
  epCode :: int
  epTitle :: string
  epMsg :: string
  epDomain :: string

definition errorPage :: "Config \<Rightarrow> int \<Rightarrow> string \<Rightarrow> error_page" where
  "errorPage c sc msg = \<lparr>epCode = sc, epTitle = (if sc = 404 then ''Service Not Found'' else ''Service Unavailable''),
     epMsg = msg, epDomain = Domain c\<rparr>"

section \<open>Routing\<close>

text \<open>A reverse proxy is determined by the subdomain and the parsed target that it was built for.\<close>

record 'u ReverseProxy =
  rpSub :: string
  rpTarget :: "'u URL"

record 'u proxyEntry =
  peProxy :: "'u ReverseProxy"
  peTarget :: string

record 'u Handler =
  hcfg :: Config
  proxies :: "string \<rightharpoonup> 'u proxyEntry"
  hsuffix :: string
  lanternHost :: string

definition new_handler :: "Config \<Rightarrow> 'u Handler" where
  "new_handler c = \<lparr>hcfg = c, proxies = Map.empty, hsuffix = ''.'' @ Domain c, lanternHost = ''lantern'' @ ''.'' @ Domain c\<rparr>"

datatype 'u outcome = ToWeb | NotFound | Failed error_page | Proxied "'u ReverseProxy"

definition buildProxy :: "string \<Rightarrow> 'u URL \<Rightarrow> 'u ReverseProxy" where
  "buildProxy sub target = \<lparr>rpSub = sub, rpTarget = target\<rparr>"

definition proxySubdomain :: "(string \<Rightarrow> 'u URL option) \<Rightarrow> store \<Rightarrow> string \<Rightarrow> 'u Handler \<Rightarrow> 'u outcome \<times> 'u Handler" where
  "proxySubdomain parse s sub h = (case GetServiceBySubdomain sub s of
      None \<Rightarrow> (Failed (errorPage (hcfg h) 404 (''No service assigned to <strong>'' @ EscapeString sub @ ''.'' @
                 EscapeString (Domain (hcfg h)) @ ''</strong>'')), h\<lparr>proxies := (proxies h)(sub := None)\<rparr>)
    | Some r \<Rightarrow> (case parse (sTarget (svcHeap s ! r)) of
        None \<Rightarrow> (Failed (errorPage (hcfg h) 502 ''Invalid target URL for this service.''), h)
      | Some target \<Rightarrow>
          let cached = (case proxies h sub of
                Some e \<Rightarrow> if peTarget e = sTarget (svcHeap s ! r) then Some (peProxy e) else None
              | None \<Rightarrow> None)
          in case cached of
               Some rp \<Rightarrow> (Proxied rp, h)
             | None \<Rightarrow> let rp = buildProxy sub target
                 in (Proxied rp, h\<lparr>proxies := (proxies h)(sub \<mapsto> \<lparr>peProxy = rp, peTarget = sTarget (svcHeap s ! r)\<rparr>)\<rparr>)))"

definition strip_port :: "string \<Rightarrow> string" where
  "strip_port host = (case LastIndexByte host (CHR '':'') of Some i \<Rightarrow> take i host | None \<Rightarrow> host)"

definition ServeHTTP :: "(string \<Rightarrow> 'u URL option) \<Rightarrow> store \<Rightarrow> request_in \<Rightarrow> 'u Handler \<Rightarrow> 'u outcome \<times> 'u Handler" where
  "ServeHTTP parse s rq h =
    (let host = strip_port (rqHost rq)
     in if host = lanternHost h \<or> host = Domain (hcfg h) \<or> host = [] then (ToWeb, h)
        else if HasSuffix host (hsuffix h) then proxySubdomain parse s (TrimSuffix host (hsuffix h)) h
        else (NotFound, h))"

section \<open>The outgoing request\<close>

text \<open>\<open>net.SplitHostPort\<close>: the host, \<open>None\<close> for an error.\<close>

definition SplitHost :: "string \<Rightarrow> string option" where
  "SplitHost hp = (case LastIndexByte hp (CHR '':'') of
      None \<Rightarrow> None
    | Some i \<Rightarrow>
        if HasPrefix hp ''['' then
          (case Index hp '']'' of
             None \<Rightarrow> None
           | Some e \<Rightarrow>
               if e + 1 \<noteq> i then None
               else if CHR ''['' \<in> set (drop 1 hp) \<or> CHR '']'' \<in> set (drop (e + 1) hp) then None
               else Some (take (e - 1) (drop 1 hp)))
        else if CHR '':'' \<in> set (take i hp) then None
        else if CHR ''['' \<in> set hp \<or> CHR '']'' \<in> set hp then None
        else Some (take i hp))"

text \<open>
  \<open>httputil.ReverseProxy\<close> hands \<open>Rewrite\<close> a copy of the request without the
  forwarding headers of the client; \<open>SetXForwarded\<close> sets them anew.
\<close>

definition fwd_headers :: "string list" where
  "fwd_headers = [''Forwarded'', ''X-Forwarded-For'', ''X-Forwarded-Host'', ''X-Forwarded-Proto'']"

definition strip_forwarded :: "headers \<Rightarrow> headers" where
  "strip_forwarded h = (\<lambda>k. if k \<in> set fwd_headers then None else h k)"

definition SetXForwarded :: "request_in \<Rightarrow> headers \<Rightarrow> headers" where
  "SetXForwarded rq h =
    (let h = (case SplitHost (rqRemoteAddr rq) of
           Some ip \<Rightarrow> h(''X-Forwarded-For'' \<mapsto> ip) | None \<Rightarrow> h(''X-Forwarded-For'' := None));
         h = h(''X-Forwarded-Host'' \<mapsto> rqHost rq)
     in h(''X-Forwarded-Proto'' \<mapsto> (if rqTLS rq then ''https'' else ''http'')))"

definition realIP :: "headers \<Rightarrow> string \<Rightarrow> string" where
  "realIP h remoteAddr =
    (if hget h ''X-Real-Ip'' \<noteq> [] then hget h ''X-Real-Ip''
     else if hget h ''X-Forwarded-For'' \<noteq> [] then
       (case Index (hget h ''X-Forwarded-For'') '','' of
          Some i \<Rightarrow> take i (hget h ''X-Forwarded-For'') | None \<Rightarrow> hget h ''X-Forwarded-For'')
     else remoteAddr)"

record out_request =
  outScheme :: string
  outURLHost :: string
  outHost :: string
  outHeader :: headers

definition Rewrite :: "'u ReverseProxy \<Rightarrow> request_in \<Rightarrow> out_request" where
  "Rewrite rp rq =
    (let h = SetXForwarded rq (strip_forwarded (rqHeader rq));
         h = h(''X-Real-Ip'' \<mapsto> realIP h (rqRemoteAddr rq));
         proto = hget (rqHeader rq) ''X-Forwarded-Proto'';
         h = (if proto \<noteq> [] then h(''X-Forwarded-Proto'' \<mapsto> proto) else h)
     in \<lparr>outScheme = Scheme (rpTarget rp), outURLHost = UHost (rpTarget rp), outHost = UHost (rpTarget rp), outHeader = h\<rparr>)"

text \<open>\<open>ModifyResponse\<close>, on the headers of the response and the outgoing request it answers.\<close>

definition ModifyResponse ::
  "(string \<Rightarrow> 'u URL option) \<Rightarrow> ('u URL \<Rightarrow> string) \<Rightarrow> 'u ReverseProxy \<Rightarrow> out_request \<Rightarrow> headers \<Rightarrow> headers" where
  "ModifyResponse parse render rp out h =
    (let loc = hget h ''Location''
     in if loc = [] then h
        else case parse loc of
          None \<Rightarrow> h
        | Some u \<Rightarrow>
            if UHost u = UHost (rpTarget rp)
            then h(''Location'' \<mapsto> render (u\<lparr>Scheme := ''https'', UHost := hget (outHeader out) ''X-Forwarded-Host''\<rparr>))
            else h)"

text \<open>\<open>ErrorHandler\<close>: the page for a backend that cannot be reached, with the error's text.\<close>

definition ErrorHandler :: "Config \<Rightarrow> store \<Rightarrow> 'u ReverseProxy \<Rightarrow> string \<Rightarrow> error_page" where
  "ErrorHandler c s rp err =
    (let svcName = (case GetServiceBySubdomain (rpSub rp) s of Some r \<Rightarrow> sName (svcHeap s ! r) | None \<Rightarrow> [])
     in errorPage c 502 (''Could not reach <strong>'' @ EscapeString svcName @ ''</strong>.<br><small>'' @
          EscapeString err @ ''</small>''))"

section \<open>The cache of proxies\<close>

text \<open>Every cached proxy was built for its subdomain and for the parse of the target it is filed with.\<close>

definition proxies_ok :: "(string \<Rightarrow> 'u URL option) \<Rightarrow> 'u Handler \<Rightarrow> bool" where
  "proxies_ok parse h \<longleftrightarrow> (\<forall>sub e. proxies h sub = Some e \<longrightarrow>
     rpSub (peProxy e) = sub \<and> parse (peTarget e) = Some (rpTarget (peProxy e)))"

lemma proxies_ok_new: "proxies_ok parse (new_handler c)"
  by (simp add: proxies_ok_def new_handler_def)

lemma proxySubdomain_ok:
  "proxies_ok parse h \<Longrightarrow> proxies_ok parse (snd (proxySubdomain parse s sub h))"
  by (auto simp: proxies_ok_def proxySubdomain_def Let_def buildProxy_def split: option.splits if_splits)

lemma ServeHTTP_ok: "proxies_ok parse h \<Longrightarrow> proxies_ok parse (snd (ServeHTTP parse s rq h))"
  by (simp add: ServeHTTP_def Let_def proxySubdomain_ok)

text \<open>A request always reaches the target that the service has now, however old the cached proxy.\<close>

lemma proxySubdomain_current:
  assumes ok: "proxies_ok parse h" and p: "proxySubdomain parse s sub h = (Proxied rp, h')"
  shows "\<exists>v. serviceBySubdomain s sub = Some v \<and> parse (sTarget v) = Some (rpTarget rp) \<and> rpSub rp = sub"
proof -
  obtain r u where r: "GetServiceBySubdomain sub s = Some r" "parse (sTarget (svcHeap s ! r)) = Some u"
    using p by (auto simp: proxySubdomain_def split: option.splits)
  show ?thesis
  proof (cases "\<exists>e. proxies h sub = Some e \<and> peTarget e = sTarget (svcHeap s ! r)")
    case True
    then obtain e where e: "proxies h sub = Some e" "peTarget e = sTarget (svcHeap s ! r)" by auto
    then have "rp = peProxy e" using p r by (simp add: proxySubdomain_def)
    moreover have "rpSub (peProxy e) = sub" "parse (peTarget e) = Some (rpTarget (peProxy e))"
      using ok e(1) by (simp_all add: proxies_ok_def)
    ultimately show ?thesis using e(2) r by (simp add: serviceBySubdomain_def)
  next
    case False
    then have "rp = buildProxy sub u"
      using p r by (auto simp: proxySubdomain_def Let_def split: option.splits if_splits)
    then show ?thesis using r by (simp add: buildProxy_def serviceBySubdomain_def)
  qed
qed

lemma proxySubdomain_total:
  "(serviceBySubdomain s sub = None \<longrightarrow>
      (\<exists>msg. fst (proxySubdomain parse s sub h) = Failed (errorPage (hcfg h) 404 msg)) \<and>
      proxies (snd (proxySubdomain parse s sub h)) sub = None) \<and>
   (\<forall>v. serviceBySubdomain s sub = Some v \<longrightarrow> parse (sTarget v) = None \<longrightarrow>
      fst (proxySubdomain parse s sub h) = Failed (errorPage (hcfg h) 502 ''Invalid target URL for this service.'')) \<and>
   (\<forall>v u. serviceBySubdomain s sub = Some v \<longrightarrow> parse (sTarget v) = Some u \<longrightarrow>
      (\<exists>rp. fst (proxySubdomain parse s sub h) = Proxied rp))"
  by (auto simp: proxySubdomain_def Let_def serviceBySubdomain_def split: option.splits if_splits)

section \<open>Hosts\<close>

lemma strip_port_port: "CHR '':'' \<notin> set p \<Longrightarrow> strip_port (host @ '':'' @ p) = host"
  by (simp add: strip_port_def LastIndexByte_append)

lemma strip_port_none: "CHR '':'' \<notin> set host \<Longrightarrow> strip_port host = host"
  by (simp add: strip_port_def LastIndexByte_None [THEN iffD2])

text \<open>The subdomain of a host under the domain, with or without a port.\<close>

lemma ServeHTTP_subdomain:
  assumes h: "hsuffix h = ''.'' @ Domain (hcfg h)" "lanternHost h = ''lantern'' @ hsuffix h"
    and sub: "sub \<noteq> ''lantern''" and host: "strip_port (rqHost rq) = sub @ hsuffix h"
  shows "ServeHTTP parse s rq h = proxySubdomain parse s sub h"
proof -
  have "sub @ hsuffix h \<noteq> lanternHost h" using sub h(2) by simp
  moreover have "length (sub @ hsuffix h) \<noteq> length (Domain (hcfg h))" by (simp add: h(1))
  then have "sub @ hsuffix h \<noteq> Domain (hcfg h)" by metis
  moreover have "hsuffix h \<noteq> []" by (simp add: h(1))
  ultimately show ?thesis by (simp add: ServeHTTP_def Let_def host)
qed

lemma new_handler_hosts:
  "hsuffix (new_handler c) = ''.'' @ Domain c" "lanternHost (new_handler c) = ''lantern'' @ ''.'' @ Domain c" "hcfg (new_handler c) = c"
  by (simp_all add: new_handler_def)

lemma ServeHTTP_handler [simp]:
  "hcfg (snd (ServeHTTP parse s rq h)) = hcfg h" "hsuffix (snd (ServeHTTP parse s rq h)) = hsuffix h"
  "lanternHost (snd (ServeHTTP parse s rq h)) = lanternHost h"
  by (auto simp: ServeHTTP_def proxySubdomain_def Let_def split: option.splits if_splits)

text \<open>A handler that has served any requests, the store changing between them.\<close>

fun serve_all :: "(string \<Rightarrow> 'u URL option) \<Rightarrow> (store \<times> request_in) list \<Rightarrow> 'u Handler \<Rightarrow> 'u Handler" where
  "serve_all parse [] h = h"
| "serve_all parse ((s, rq) # rest) h = serve_all parse rest (snd (ServeHTTP parse s rq h))"

lemma serve_all_ok:
  "proxies_ok parse h \<Longrightarrow> proxies_ok parse (serve_all parse past h) \<and> hcfg (serve_all parse past h) = hcfg h \<and>
    hsuffix (serve_all parse past h) = hsuffix h \<and> lanternHost (serve_all parse past h) = lanternHost h"
  by (induction parse past h rule: serve_all.induct) (simp_all add: ServeHTTP_ok)

lemma serve_all_current:
  assumes "ServeHTTP parse s rq (serve_all parse past (new_handler c)) = (Proxied rp, h')"
    and "sub \<noteq> ''lantern''" and "strip_port (rqHost rq) = sub @ ''.'' @ Domain c"
  shows "\<exists>v. serviceBySubdomain s sub = Some v \<and> parse (sTarget v) = Some (rpTarget rp) \<and> rpSub rp = sub"
proof -
  let ?h = "serve_all parse past (new_handler c)"
  note o = serve_all_ok [OF proxies_ok_new, of parse past c]
  have "ServeHTTP parse s rq ?h = proxySubdomain parse s sub ?h"
    using o assms(2,3) by (intro ServeHTTP_subdomain) (simp_all add: new_handler_hosts)
  with assms(1) o show ?thesis by (intro proxySubdomain_current) auto
qed

text \<open>
  The specification of the routing, without a cache: what a request to a host gets.  The
  handler agrees with it whatever it has served before.
\<close>

definition answer :: "(string \<Rightarrow> 'u URL option) \<Rightarrow> Config \<Rightarrow> store \<Rightarrow> string \<Rightarrow> 'u outcome" where
  "answer parse c s host =
    (if host \<in> {''lantern.'' @ Domain c, Domain c, []} then ToWeb
     else if HasSuffix host (''.'' @ Domain c) then
       let sub = TrimSuffix host (''.'' @ Domain c)
       in case serviceBySubdomain s sub of
            None \<Rightarrow> Failed (errorPage c 404 (''No service assigned to <strong>'' @ EscapeString sub @ ''.'' @
                      EscapeString (Domain c) @ ''</strong>''))
          | Some v \<Rightarrow> (case parse (sTarget v) of
              None \<Rightarrow> Failed (errorPage c 502 ''Invalid target URL for this service.'')
            | Some u \<Rightarrow> Proxied (buildProxy sub u))
     else NotFound)"

lemma buildProxy_eq: "rpSub rp = sub \<Longrightarrow> rpTarget rp = u \<Longrightarrow> rp = buildProxy sub u"
  by (simp add: buildProxy_def)

lemma proxySubdomain_answer:
  assumes ok: "proxies_ok parse h"
  shows "fst (proxySubdomain parse s sub h) = (case serviceBySubdomain s sub of
      None \<Rightarrow> Failed (errorPage (hcfg h) 404 (''No service assigned to <strong>'' @ EscapeString sub @ ''.'' @
                EscapeString (Domain (hcfg h)) @ ''</strong>''))
    | Some v \<Rightarrow> (case parse (sTarget v) of
        None \<Rightarrow> Failed (errorPage (hcfg h) 502 ''Invalid target URL for this service.'')
      | Some u \<Rightarrow> Proxied (buildProxy sub u)))"
proof (cases "\<exists>v u. serviceBySubdomain s sub = Some v \<and> parse (sTarget v) = Some u")
  case True
  then obtain v u where v: "serviceBySubdomain s sub = Some v" "parse (sTarget v) = Some u" by blast
  then obtain rp where "fst (proxySubdomain parse s sub h) = Proxied rp"
    using proxySubdomain_total by metis
  then obtain h' where p: "proxySubdomain parse s sub h = (Proxied rp, h')"
    by (cases "proxySubdomain parse s sub h") simp
  have "rp = buildProxy sub u"
    using proxySubdomain_current [OF ok p] v by (auto intro: buildProxy_eq)
  then show ?thesis by (simp add: p v)
next
  case False
  then show ?thesis
    by (auto simp: proxySubdomain_def serviceBySubdomain_def split: option.split)
qed

lemma serve_all_answer:
  "fst (ServeHTTP parse s rq (serve_all parse past (new_handler c))) = answer parse c s (strip_port (rqHost rq))"
proof -
  let ?h = "serve_all parse past (new_handler c)"
  have o: "proxies_ok parse ?h" "hcfg ?h = c" "hsuffix ?h = ''.'' @ Domain c" "lanternHost ?h = ''lantern.'' @ Domain c"
    using serve_all_ok [OF proxies_ok_new, of parse past c] by (simp_all add: new_handler_hosts)
  show ?thesis
    by (simp add: ServeHTTP_def answer_def Let_def o proxySubdomain_answer [OF o(1), unfolded o(2)])
qed

section \<open>Headers\<close>

text \<open>No markup of the client's or the service's making reaches an error page.\<close>

lemma EscapeString_plain:
  "c \<in> set (EscapeString s) \<Longrightarrow> c \<noteq> CHR ''<'' \<and> c \<noteq> CHR ''>'' \<and> c \<noteq> CHR 0x22 \<and> c \<noteq> CHR 0x27"
  by (auto simp: EscapeString_def escape_char_def split: if_splits)

lemma Rewrite_headers:
  "hget (outHeader (Rewrite rp rq)) ''X-Forwarded-Host'' = rqHost rq"
  "hget (outHeader (Rewrite rp rq)) ''X-Forwarded-Proto'' =
    (if hget (rqHeader rq) ''X-Forwarded-Proto'' \<noteq> [] then hget (rqHeader rq) ''X-Forwarded-Proto''
     else if rqTLS rq then ''https'' else ''http'')"
  "outHost (Rewrite rp rq) = UHost (rpTarget rp)"
  by (auto simp: Rewrite_def Let_def SetXForwarded_def hget_def split: option.split)

text \<open>The address of the client, unless the request brought an \<open>X-Real-IP\<close> of its own, which is believed.\<close>

lemma Rewrite_real_ip:
  "hget (outHeader (Rewrite rp rq)) ''X-Real-Ip'' =
    (if hget (rqHeader rq) ''X-Real-Ip'' \<noteq> [] then hget (rqHeader rq) ''X-Real-Ip''
     else realIP (SetXForwarded rq (strip_forwarded (rqHeader rq))) (rqRemoteAddr rq))"
proof -
  let ?h = "SetXForwarded rq (strip_forwarded (rqHeader rq))"
  have "?h ''X-Real-Ip'' = rqHeader rq ''X-Real-Ip''"
    by (simp add: SetXForwarded_def Let_def strip_forwarded_def fwd_headers_def split: option.split)
  then have "realIP ?h (rqRemoteAddr rq) = (if hget (rqHeader rq) ''X-Real-Ip'' \<noteq> [] then hget (rqHeader rq) ''X-Real-Ip''
      else realIP ?h (rqRemoteAddr rq))"
    by (simp add: realIP_def hget_def)
  moreover have "hget (outHeader (Rewrite rp rq)) ''X-Real-Ip'' = realIP ?h (rqRemoteAddr rq)"
    by (simp add: Rewrite_def Let_def hget_def)
  ultimately show ?thesis by simp
qed

text \<open>A redirect of the backend to itself becomes a redirect to the public host; any other is left alone.\<close>

lemma ModifyResponse_location:
  "loc \<noteq> [] \<Longrightarrow> h ''Location'' = Some loc \<Longrightarrow> parse loc = Some u \<Longrightarrow>
    ModifyResponse parse render rp (Rewrite rp rq) h =
      (if UHost u = UHost (rpTarget rp)
       then h(''Location'' \<mapsto> render (u\<lparr>Scheme := ''https'', UHost := rqHost rq\<rparr>)) else h)"
  by (simp add: ModifyResponse_def hget_def [of h] Rewrite_headers)

lemma ModifyResponse_other: "k \<noteq> ''Location'' \<Longrightarrow> ModifyResponse parse render rp out h k = h k"
  by (simp add: ModifyResponse_def Let_def split: option.split)

section \<open>Direct links\<close>

text \<open>
  A service for direct links only is filed under a synthetic key, and the key is a host
  name: the proxy serves it there.
\<close>

lemma direct_only_proxied:
  assumes s: "srv_inv s" and v: "v \<in> set (services s)" "sDirectOnly v" and u: "parse (sTarget v) = Some u"
    and host: "strip_port (rqHost rq) = direct_key (sID v) @ ''.'' @ Domain c"
  shows "\<exists>rp. fst (ServeHTTP parse s rq (new_handler c)) = Proxied rp \<and> rpTarget rp = u"
proof -
  have "sSubdomain v = direct_key (sID v)" using srv_invD(6) [OF s v(1)] v(2) by (simp add: sub_ok_def)
  then have b: "serviceBySubdomain s (direct_key (sID v)) = Some v"
    using v(1) serviceBySubdomain_iff [OF srv_invD(2) [OF s]] by simp
  have "direct_key (sID v) \<noteq> ''lantern''" by (simp add: direct_key_def)
  then have e: "ServeHTTP parse s rq (new_handler c) = proxySubdomain parse s (direct_key (sID v)) (new_handler c)"
    using host by (intro ServeHTTP_subdomain) (simp_all add: new_handler_hosts)
  obtain r where r: "GetServiceBySubdomain (direct_key (sID v)) s = Some r" "svcHeap s ! r = v"
    using b by (auto simp: serviceBySubdomain_def)
  have "fst (proxySubdomain parse s (direct_key (sID v)) (new_handler c)) = Proxied (buildProxy (direct_key (sID v)) u)"
    using r u by (simp add: proxySubdomain_def Let_def new_handler_def)
  then show ?thesis by (simp add: e buildProxy_def)
qed

end
