(* ===== verification/System.thy ===== *)
theory System
  imports HandlerLaws Proxy
begin

text \<open>
  The program as a whole: the events that reach it (requests, background fetches, Docker
  events, scans, the DDNS ticker), one function for each, and runs of them.  Two properties
  hold through every run: the invariant \<open>srv_inv\<close>, and durability: after every event
  the file on disk is the state in memory.  \<open>admissible\<close> says what a run needs for the
  first: IDs from \<open>NewID\<close> are new, an update takes no name that another service holds,
  and a discovered entry that is assigned stands for no container of another service.  A scan
  is one event here; \<open>Lifecycle\<close> stores its results one by one.
\<close>

section \<open>Events\<close>

text \<open>The world outside: Cloudflare, favicons, HTTP probes, the address service, \<open>cloudflared\<close>, CIDR syntax.\<close>

record 'w env =
  eHTTP :: "'w http"
  eFetch :: "'w fetch"
  eGet :: "'w get"
  eIPify :: "'w \<Rightarrow> string option \<times> 'w"
  eLaunch :: "string \<Rightarrow> 'w \<Rightarrow> bool \<times> 'w"
  eCIDR :: "string \<Rightarrow> bool"

datatype event =
    EvCreateService "nat list" time http_req
  | EvUpdateService http_req
  | EvDeleteService "nat list" time http_req
  | EvUploadIcon http_req
  | EvClearIcon http_req
  | EvPullIcon http_req
  | EvFetchServiceIcon string
  | EvCreateBookmark "nat list" http_req
  | EvUpdateBookmark http_req
  | EvDeleteBookmark http_req
  | EvFetchBookmarkIcon string
  | EvDeleteDiscovered http_req
  | EvIgnore time http_req
  | EvUnignore time http_req
  | EvAddSubnet http_req
  | EvRemoveSubnet http_req
  | EvReorderServices "string list option"
  | EvReorderBookmarks "string list option"
  | EvAddDDNS http_req
  | EvRemoveDDNS http_req
  | EvCheckAddress
  | EvContainer "nat list" time string string "PortSummary list" labels
  | EvContainerGone string
  | EvContainerIcon string string
  | EvFullScan time time "(probeResult \<times> nat list) list"
  | EvLightScan time "(probeResult \<times> nat list) list"

fun handle :: "'w env \<Rightarrow> event \<Rightarrow> 'w Server \<Rightarrow> 'w Server" where
  "handle e (EvCreateService rand8 now rq) s = fst (snd (createService (eHTTP e) rand8 now rq s))"
| "handle e (EvUpdateService rq) s = snd (updateService (eHTTP e) rq s)"
| "handle e (EvDeleteService rand8 now rq) s = snd (deleteService (eHTTP e) rand8 now rq s)"
| "handle e (EvUploadIcon rq) s = snd (uploadServiceIcon rq s)"
| "handle e (EvClearIcon rq) s = snd (clearServiceIcon rq s)"
| "handle e (EvPullIcon rq) s = snd (pullServiceFavicon (eFetch e) rq s)"
| "handle e (EvFetchServiceIcon i) s = fetchServiceIcon (eFetch e) i s"
| "handle e (EvCreateBookmark rand8 rq) s = fst (snd (createBookmark rand8 rq s))"
| "handle e (EvUpdateBookmark rq) s = fst (snd (updateBookmark rq s))"
| "handle e (EvDeleteBookmark rq) s = snd (deleteBookmark rq s)"
| "handle e (EvFetchBookmarkIcon i) s = fetchBookmarkFavicon (eFetch e) i s"
| "handle e (EvDeleteDiscovered rq) s = snd (deleteDiscovered rq s)"
| "handle e (EvIgnore now rq) s = snd (ignoreDiscovered now rq s)"
| "handle e (EvUnignore now rq) s = snd (unignoreService now rq s)"
| "handle e (EvAddSubnet rq) s = snd (addScanSubnet (eCIDR e) rq s)"
| "handle e (EvRemoveSubnet rq) s = snd (removeScanSubnet rq s)"
| "handle e (EvReorderServices ids) s = snd (reorderHandler ReorderServices ids s)"
| "handle e (EvReorderBookmarks ids) s = snd (reorderHandler ReorderBookmarks ids s)"
| "handle e (EvAddDDNS rq) s = snd (addDDNS (eHTTP e) rq s)"
| "handle e (EvRemoveDDNS rq) s = snd (removeDDNS (eHTTP e) rq s)"
| "handle e EvCheckAddress s = checkAndUpdate (eHTTP e) (eIPify e) s"
| "handle e (EvContainer rand8 now i name ports ls) s = fst (upsertContainerWithLabels (eGet e) rand8 now i name ports ls s)"
| "handle e (EvContainerGone i) s = detachContainer i s"
| "handle e (EvContainerIcon i target) s = fetchAndStoreDiscoveredFavicon (eFetch e) i target s"
| "handle e (EvFullScan now done_at rs) s = on_store (runScan now done_at rs) s"
| "handle e (EvLightScan now rs) s = on_store (runLightScan now rs) s"

definition fresh_entry :: "nat list \<Rightarrow> store \<Rightarrow> bool" where
  "fresh_entry rand8 s \<longleftrightarrow> discoveredIdx s (NewID rand8) = None \<and> ignoredIdx s (NewID rand8) = None"

fun admissible :: "event \<Rightarrow> store \<Rightarrow> bool" where
  "admissible (EvCreateService rand8 now rq) s \<longleftrightarrow> idIdx s (NewID rand8) = None \<and>
     (case GetDiscoveredByID (form rq ''discovered_id'') s of None \<Rightarrow> True | Some r \<Rightarrow> disc_apart s (discHeap s ! r))"
| "admissible (EvUpdateService rq) s \<longleftrightarrow>
     (case serviceByID s (pathID rq) of None \<Rightarrow> True
      | Some v \<Rightarrow> sSubdomain (updated_service rq v) = sSubdomain v \<or>
          GetServiceBySubdomain (sSubdomain (updated_service rq v)) s = None)"
| "admissible (EvDeleteService rand8 now rq) s \<longleftrightarrow> fresh_entry rand8 s"
| "admissible (EvCreateBookmark rand8 rq) s \<longleftrightarrow> bookmarkIdx s (NewID rand8) = None"
| "admissible (EvContainer rand8 now i name ports ls) s \<longleftrightarrow> i \<noteq> [] \<and> fresh_entry rand8 s"
| "admissible (EvContainerGone i) s \<longleftrightarrow> i \<noteq> []"
| "admissible (EvFullScan now done_at rs) s \<longleftrightarrow> fresh_ids rs s"
| "admissible (EvLightScan now rs) s \<longleftrightarrow> fresh_ids rs s"
| "admissible ev s \<longleftrightarrow> True"

section \<open>The invariant\<close>

lemma createService_keeps:
  assumes s: "srv_inv (st s)" and a: "admissible (EvCreateService rand8 now rq) (st s)"
  shows "srv_inv (st (fst (snd (createService http rand8 now rq s))))"
proof (cases "\<exists>w. create_accepts rq (st s) w")
  case True
  then obtain w where w: "create_accepts rq (st s) w" by blast
  obtain resp s' tasks where c: "createService http rand8 now rq s = (resp, s', tasks)"
    by (cases "createService http rand8 now rq s") auto
  have "disc_apart (st s) (discHeap (st s) ! r)" if "GetDiscoveredByID (form rq ''discovered_id'') (st s) = Some r" for r
    using a that by simp
  then show ?thesis using createService_effect(1) [OF s w _ _ c] a c by simp
next
  case False
  then show ?thesis using createService_reject [of rq s http rand8 now] s by auto
qed

lemma updateService_keeps:
  assumes s: "srv_inv (st s)" and a: "admissible (EvUpdateService rq) (st s)"
  shows "srv_inv (st (snd (updateService http rq s)))"
proof (cases "serviceByID (st s) (pathID rq)")
  case None
  then show ?thesis using s by (simp add: updateService_none serviceByID_def GetServiceByID_def)
next
  case (Some v)
  obtain resp s' where u: "updateService http rq s = (resp, s')" by fastforce
  show ?thesis
  proof (cases "formOk rq")
    case True
    then show ?thesis using updateService_effect(1) [OF s Some True _ u] a Some u by simp
  next
    case False
    then show ?thesis using s by (auto simp: updateService_def split: option.split)
  qed
qed

lemma deleteService_keeps:
  assumes s: "srv_inv (st s)" and a: "admissible (EvDeleteService rand8 now rq) (st s)"
  shows "srv_inv (st (snd (deleteService http rand8 now rq s)))"
proof (cases "serviceByID (st s) (pathID rq)")
  case None
  then show ?thesis using s by (simp add: deleteService_none serviceByID_def GetServiceByID_def)
next
  case (Some v)
  obtain resp s' where u: "deleteService http rand8 now rq s = (resp, s')" by fastforce
  then show ?thesis using deleteService_effect(1) [OF s Some _ _ u] a by (simp add: fresh_entry_def)
qed

lemma createBookmark_keeps:
  assumes s: "srv_inv (st s)" and a: "admissible (EvCreateBookmark rand8 rq) (st s)"
  shows "srv_inv (st (fst (snd (createBookmark rand8 rq s))))"
proof (cases "formOk rq \<and> form rq ''url'' \<noteq> []")
  case True
  obtain resp s' tasks where c: "createBookmark rand8 rq s = (resp, s', tasks)"
    by (cases "createBookmark rand8 rq s") auto
  then show ?thesis using createBookmark_effect(1) [OF s _ _ _ c] True a by simp
next
  case False
  then show ?thesis using s by (auto simp: createBookmark_def normalizeBookmarkURL_def Let_def)
qed

lemma container_keeps:
  assumes s: "srv_inv (st s)" and a: "admissible (EvContainer rand8 now i name ports ls) (st s)"
  shows "srv_inv (st (fst (upsertContainerWithLabels get rand8 now i name ports ls s)))"
proof -
  obtain s' f where u: "upsertContainerWithLabels get rand8 now i name ports ls s = (s', f)" by fastforce
  then show ?thesis using upsert_effect [OF s _ _ _ u] a by (simp add: fresh_entry_def)
qed

lemma gone_keeps: "srv_inv (st s) \<Longrightarrow> admissible (EvContainerGone i) (st s) \<Longrightarrow> srv_inv (st (detachContainer i s))"
  by (simp add: keepsD [OF detachContainer_keeps])

lemma scans_keep:
  "srv_inv (st s) \<Longrightarrow> admissible (EvFullScan now done_at rs) (st s) \<Longrightarrow> srv_inv (runScan now done_at rs (st s))"
  "srv_inv (st s) \<Longrightarrow> admissible (EvLightScan now rs) (st s) \<Longrightarrow> srv_inv (runLightScan now rs (st s))"
  using runScan_effect(1) [of "st s" rs now done_at] runLightScan_effect(1) [of "st s" rs now] by (simp_all add: scan_keeps_def)

lemmas conditional_keeps = createService_keeps updateService_keeps deleteService_keeps createBookmark_keeps
  container_keeps gone_keeps scans_keep

lemmas handlers_keep = uploadServiceIcon_keeps clearServiceIcon_keeps pullServiceFavicon_keeps fetchServiceIcon_keeps
  updateBookmark_keeps deleteBookmark_keeps fetchBookmarkFavicon_keeps deleteDiscovered_keeps ignoreDiscovered_keeps
  unignoreService_keeps subnets_keep reorderHandler_keeps ddns_keep fetchAndStoreDiscoveredFavicon_keeps

lemma handle_keeps:
  assumes "srv_inv (st s)" and "admissible ev (st s)"
  shows "srv_inv (st (handle e ev s))"
  using assms by (cases ev) (simp_all add: conditional_keeps handlers_keep [THEN keepsD] del: admissible.simps)

section \<open>Runs\<close>

fun run :: "'w env \<Rightarrow> event list \<Rightarrow> 'w Server \<Rightarrow> 'w Server" where
  "run e [] s = s"
| "run e (ev # evs) s = run e evs (handle e ev s)"

fun run_admissible :: "'w env \<Rightarrow> event list \<Rightarrow> 'w Server \<Rightarrow> bool" where
  "run_admissible e [] s \<longleftrightarrow> True"
| "run_admissible e (ev # evs) s \<longleftrightarrow> admissible ev (st s) \<and> run_admissible e evs (handle e ev s)"

lemma run_keeps: "srv_inv (st s) \<Longrightarrow> run_admissible e evs s \<Longrightarrow> srv_inv (st (run e evs s))"
  by (induction evs arbitrary: s) (simp_all add: handle_keeps)

end
