(* ===== verification/Durable.thy ===== *)
theory Durable
  imports System
begin

text \<open>
  Durability: after every event the file on disk holds the state in memory, so that a restart
  finds everything.  Every handler that changes what \<open>Save\<close> writes ends by saving.
\<close>

section \<open>Where the store saves\<close>

definition place :: "store \<Rightarrow> string \<times> (string \<Rightarrow> bool)" where
  "place s = (path s, writable s)"

definition can_save :: "store \<Rightarrow> bool" where
  "can_save s \<longleftrightarrow> snd (place s) (fst (place s) @ ''.tmp'')"

definition durable :: "store \<Rightarrow> bool" where
  "durable s \<longleftrightarrow> saved s = Some (snapshot s)"

lemma can_save_place: "place t = place s \<Longrightarrow> can_save t = can_save s"
  by (simp add: can_save_def)

lemma place_fields [simp]:
  "place (s\<lparr>files := f\<rparr>) = place s" "place (s\<lparr>saved := c\<rparr>) = place s" "place (s\<lparr>svcHeap := h\<rparr>) = place s"
  "place (s\<lparr>discHeap := dh\<rparr>) = place s" "place (s\<lparr>bmHeap := bh\<rparr>) = place s" "place (s\<lparr>DDNSDomains := d\<rparr>) = place s"
  "place (s\<lparr>ScanSubnets := d\<rparr>) = place s" "place (s\<lparr>LastScan := n\<rparr>) = place s" "place (s\<lparr>PublicIP := ip\<rparr>) = place s"
  by (simp_all add: place_def)

lemma place_SaveLog [simp]: "place (SaveLog s) = place s"
  using SaveLog_cases [of s] by auto

lemma place_services [simp]:
  "place (AddService r s) = place s" "place (insertService v s) = place s"
  "place (snd (UpdateService i r s)) = place s" "place (snd (DeleteService i s)) = place s"
  "place (ClearContainerID i s) = place s" "place (setServiceOrder n i s) = place s"
  by (simp_all add: place_def insertService_def newService_def alloc_def AddService_def UpdateService_def DeleteService_def
      ClearContainerID_def setServiceOrder_def indexService_def unindexService_def Let_def split: option.split)

lemma place_discovered [simp]:
  "place (AddDiscovered r s) = place s" "place (insertDiscovered v s) = place s" "place (RemoveDiscovered i s) = place s"
  "place (RemoveDiscoveredByContainerID i s) = place s" "place (UpdateDiscoveredIcon i icon s) = place s"
  "place (snd (IgnoreDiscovered i now s)) = place s" "place (snd (UnignoreService i s)) = place s"
  by (simp_all add: place_def insertDiscovered_def newDiscovered_def alloc_def AddDiscovered_def RemoveDiscovered_def
      RemoveDiscoveredByContainerID_def UpdateDiscoveredIcon_def IgnoreDiscovered_def UnignoreService_def indexDiscovered_def
      unindexDiscovered_def indexIgnored_def unindexIgnored_def Let_def split: option.split)

lemma place_bookmarks [simp]:
  "place (insertBookmark v s) = place s" "place (snd (UpdateBookmark i r s)) = place s"
  "place (snd (DeleteBookmark i s)) = place s" "place (setBookmarkOrder n i s) = place s"
  by (simp_all add: place_def insertBookmark_def newBookmark_def alloc_def AddBookmark_def UpdateBookmark_def
      DeleteBookmark_def setBookmarkOrder_def indexBookmark_def unindexBookmark_def Let_def split: option.split)

lemma place_icons [simp]: "place (snd (WriteIcon i d s)) = place s" "place (DeleteIcon i s) = place s"
  using files_cases(1) [of i d s] files_cases(2) [of i s] by auto

lemma place_reorder [simp]: "place (ReorderServices ids s) = place s" "place (ReorderBookmarks ids s) = place s"
  using reorder_keeps [where P = "\<lambda>t. place t = place s" and set_order = setServiceOrder, of s 0 ids]
    reorder_keeps [where P = "\<lambda>t. place t = place s" and set_order = setBookmarkOrder, of s 0 ids]
  by (simp_all add: ReorderServices_def ReorderBookmarks_def)

section \<open>What a snapshot shows\<close>

lemma snapshot_files [simp]: "snapshot (s\<lparr>files := f\<rparr>) = snapshot s" "snapshot (s\<lparr>saved := c\<rparr>) = snapshot s"
  by (simp_all add: snapshot_def)

lemma durable_files [simp]: "durable (s\<lparr>files := f\<rparr>) = durable s"
  by (simp add: durable_def)

lemma durable_SaveLog [simp]: "can_save s \<Longrightarrow> durable (SaveLog s)"
  by (simp add: durable_def SaveLog_def Save_def can_save_def place_def)

text \<open>
  The two outcomes of a step: the state was saved, or nothing that a snapshot shows has
  changed.
\<close>

definition ends :: "store \<Rightarrow> store \<Rightarrow> bool" where
  "ends s s' \<longleftrightarrow> place s' = place s \<and>
     ((\<exists>t. place t = place s \<and> s' = SaveLog t) \<or> saved s' = saved s \<and> snapshot s' = snapshot s)"

lemma ends_durable: "ends s s' \<Longrightarrow> can_save s \<Longrightarrow> durable s \<Longrightarrow> can_save s' \<and> durable s'"
proof -
  assume e: "ends s s'" and s: "can_save s" "durable s"
  have p: "can_save s' = can_save s" using e by (intro can_save_place) (simp add: ends_def)
  have "durable (SaveLog t)" if "place t = place s" for t
    using can_save_place [OF that] s(1) by simp
  then show ?thesis using e s p by (auto simp: ends_def durable_def)
qed

lemma ends_refl [simp]: "ends s s"
  by (simp add: ends_def)

lemma ends_saved [simp, intro]: "place t = place s \<Longrightarrow> ends s (SaveLog t)"
  by (auto simp: ends_def)

lemma ends_files [simp]: "ends s (s\<lparr>files := fl\<rparr>)"
  by (simp add: ends_def)

lemma ends_WriteIcon [simp]: "ends s (snd (WriteIcon i d s))" "WriteIcon i d s = (r, t) \<Longrightarrow> ends s t"
  using files_cases(1) [of i d s] by auto

section \<open>The handlers\<close>

lemma place_WriteIcon: "WriteIcon i d s = (r, t) \<Longrightarrow> place t = place s"
  using place_icons(1) [of i d s] by simp

lemma place_store_service [simp]: "place (store_service rq w v s) = place s"
  by (rule store_service_cases [of v rq w s]) simp

lemma createService_ends: "ends (st s) (st (fst (snd (createService http rand8 now rq s))))"
  by (auto simp: createService_def Let_def split: option.split prod.split)

lemma updateService_ends: "ends (st s) (st (snd (updateService http rq s)))"
  by (auto simp: updateService_def newService_def alloc_def Let_def split: option.split prod.split)

lemma deleteService_ends: "ends (st s) (st (snd (deleteService http rand8 now rq s)))"
proof (cases "GetServiceByID (pathID rq) (st s)")
  case None
  then show ?thesis by (simp add: deleteService_def)
next
  case (Some r)
  obtain a b c t where d: "DeleteService (pathID rq) (st s) = ((a, b, c), t)"
    by (cases "DeleteService (pathID rq) (st s)") auto
  then have "place t = place (st s)" using place_services(4) [of "pathID rq" "st s"] by simp
  then show ?thesis
    using Some d by (auto simp: deleteService_def newDiscovered_def alloc_def Let_def)
qed

lemma place_set_icon [simp]: "place (set_icon icon r s) = place s"
  by (simp add: set_icon_def newService_def alloc_def Let_def)

lemma icon_handlers_end:
  "ends (st s) (st (snd (uploadServiceIcon rq s)))" "ends (st s) (st (snd (clearServiceIcon rq s)))"
  "ends (st s) (st (snd (pullServiceFavicon fetch rq s)))"
  by (auto simp: uploadServiceIcon_def clearServiceIcon_def pullServiceFavicon_def applyServiceIcon_def Let_def
      split: option.split prod.split sum.split dest: place_WriteIcon)

lemma FetchAndWriteFavicon_ends:
  "FetchAndWriteFavicon fetch i s = (ok, t) \<Longrightarrow> ends (st s) (st t) \<and> place (st t) = place (st s)"
  using FetchAndWriteFavicon_st [of fetch i s ok t] by auto

lemma fetches_end:
  "ends (st s) (st (fetchServiceIcon fetch i s))" "ends (st s) (st (fetchBookmarkFavicon fetch i s))"
  "ends (st s) (st (fetchAndStoreDiscoveredFavicon fetch i target s))"
  by (auto simp: fetchServiceIcon_def fetchBookmarkFavicon_def fetchAndStoreDiscoveredFavicon_def newService_def
      newBookmark_def alloc_def Let_def split: prod.split sum.split bool.split option.split
      dest!: FetchAndWriteFavicon_ends place_WriteIcon)

text \<open>An edit of an unknown bookmark allocates an object that nothing refers to.\<close>

lemma snapshot_bmHeap: "bm_inv s \<Longrightarrow> snapshot (s\<lparr>bmHeap := bmHeap s @ [v]\<rparr>) = snapshot s"
  by (auto simp: snapshot_def bm_inv_def nth_append)

lemma ends_bmHeap: "bm_inv s \<Longrightarrow> ends s (s\<lparr>bmHeap := bmHeap s @ [v]\<rparr>)"
  by (simp add: ends_def snapshot_bmHeap)

lemma UpdateBookmark_place: "UpdateBookmark i r s = (b, t) \<Longrightarrow> place t = place s \<and> (b \<or> t = s)"
  using place_bookmarks(2) [of i r s] by (auto simp: UpdateBookmark_def Let_def split: option.splits)

lemma bookmark_handlers_end:
  assumes "srv_inv (st s)"
  shows "ends (st s) (st (fst (snd (createBookmark rand8 rq s))))"
    and "ends (st s) (st (fst (snd (updateBookmark rq s))))"
    and "ends (st s) (st (snd (deleteBookmark rq s)))"
proof -
  show "ends (st s) (st (fst (snd (createBookmark rand8 rq s))))"
    by (simp add: createBookmark_def Let_def)
  show "ends (st s) (st (fst (snd (updateBookmark rq s))))"
    using ends_bmHeap [OF srv_invD(5) [OF assms]]
    by (auto simp: updateBookmark_def newBookmark_def alloc_def Let_def split: prod.split dest!: UpdateBookmark_place)
  have "DeleteBookmark (pathID rq) (st s) = (b, t) \<Longrightarrow> place t = place (st s) \<and> (b \<or> t = st s)" for b t
    using place_bookmarks(3) [of "pathID rq" "st s"] by (auto simp: DeleteBookmark_def Let_def split: option.splits)
  then show "ends (st s) (st (snd (deleteBookmark rq s)))"
    by (auto simp: deleteBookmark_def split: prod.split bool.split)
qed

lemma discovery_handlers_end:
  "ends (st s) (st (snd (deleteDiscovered rq s)))" "ends (st s) (st (snd (ignoreDiscovered now rq s)))"
  "ends (st s) (st (snd (unignoreService now rq s)))" "ends (st s) (st (snd (addScanSubnet valid rq s)))"
  "ends (st s) (st (snd (removeScanSubnet rq s)))"
proof -
  have i: "IgnoreDiscovered (pathID rq) now (st s) = (r, t) \<Longrightarrow> place t = place (st s) \<and> ((\<exists>u. r = Inr u) \<or> t = st s)" for r t
    using place_discovered(6) [of "pathID rq" now "st s"] by (auto simp: IgnoreDiscovered_def Let_def split: option.splits)
  have u: "UnignoreService (pathID rq) (st s) = (r, t) \<Longrightarrow> place t = place (st s) \<and> ((\<exists>u. r = Inr u) \<or> t = st s)" for r t
    using place_discovered(7) [of "pathID rq" "st s"] by (auto simp: UnignoreService_def Let_def split: option.splits)
  show "ends (st s) (st (snd (ignoreDiscovered now rq s)))"
    using i by (fastforce simp: ignoreDiscovered_def split: prod.split sum.split)
  show "ends (st s) (st (snd (unignoreService now rq s)))"
    using u by (fastforce simp: unignoreService_def split: prod.split sum.split)
qed (auto simp: deleteDiscovered_def addScanSubnet_def removeScanSubnet_def AddScanSubnet_def RemoveScanSubnet_def Let_def)

lemma settings_end:
  "ends (st s) (st (snd (reorderHandler ReorderServices ids s)))" "ends (st s) (st (snd (reorderHandler ReorderBookmarks ids s)))"
  "ends (st s) (st (snd (addDDNS http rq s)))" "ends (st s) (st (snd (removeDDNS http rq s)))"
  "ends (st s) (st (checkAndUpdate http ipify s))"
  by (auto simp: reorderHandler_def addDDNS_def removeDDNS_def checkAndUpdate_def AddDDNSDomain_def RemoveDDNSDomain_def
      SetPublicIP_def Let_def split: option.split prod.split sum.split)

section \<open>Discovery\<close>

lemma upsertContainer_ends: "ends (st s) (st (fst (upsertContainerWithLabels get rand8 now i name ports ls s)))"
  by (auto simp: upsertContainerWithLabels_def addDockerDiscovered_def reattach_def newService_def alloc_def Let_def
      split: option.split prod.split)

lemma detachContainer_ends: "ends (st s) (st (detachContainer i s))"
  by (simp add: detachContainer_def)

lemma place_fold: "(\<And>x s. place (f x s) = place s) \<Longrightarrow> place (fold f xs s) = place s"
  by (induction xs arbitrary: s) simp_all

lemma place_upsertDiscovered [simp]: "place (snd (upsertDiscovered v s)) = place s"
  by (auto simp: upsertDiscovered_def newDiscovered_def alloc_def UpsertNetworkDiscovered_def refresh_def indexDiscovered_def
      place_def Let_def split: option.split)

lemma place_upsertProbe [simp]: "place (upsertProbeResult rand8 now r s) = place s"
proof (cases "upsertDiscovered (network_entry (NewID rand8) now r) s")
  case (Pair i t)
  then show ?thesis
    using place_upsertDiscovered [of "network_entry (NewID rand8) now r" s] by (simp add: upsertProbeResult_def)
qed

lemma place_clear: "place (snd (clear_network ds s)) = place s"
  by (induction ds s rule: clear_network.induct)
    (auto simp: Let_def unindexDiscovered_def place_def split: prod.splits)

lemma place_ClearNetwork [simp]: "place (ClearNetworkDiscovered s) = place s"
proof (cases "clear_network (Discovered s) s")
  case (Pair keep t)
  then show ?thesis using place_clear [of "Discovered s" s] by (simp add: ClearNetworkDiscovered_def place_def)
qed

lemma place_full_fold: "place (snd (fold (full_step g ts now) rs (n, t))) = place t"
  by (induction rs arbitrary: n t) (auto simp: full_step_def Let_def)

lemma place_light_fold: "place (fold (light_step ts now) rs t) = place t"
  by (rule place_fold) (simp add: light_step_def split: prod.split)

lemma scans_end: "ends s (runScan now done_at rs s)" "ends s (runLightScan now rs s)"
proof -
  let ?g = "map (\<lambda>ig. iIP ig @ '':'' @ Itoa (iPort ig)) (GetIgnored s)"
  obtain n t where f: "fold (full_step ?g (assignedTargets s) now) rs (0, ClearNetworkDiscovered s) = (n, t)" by fastforce
  then have "place t = place s"
    using place_full_fold [of ?g "assignedTargets s" now rs 0 "ClearNetworkDiscovered s"] by simp
  then show "ends s (runScan now done_at rs s)" unfolding runScan_def Let_def f by (simp add: SetLastScan_def)
qed (simp add: runLightScan_def place_light_fold)

section \<open>Every event\<close>

lemmas all_end = createService_ends updateService_ends deleteService_ends icon_handlers_end fetches_end bookmark_handlers_end
  discovery_handlers_end settings_end upsertContainer_ends detachContainer_ends scans_end

lemma handle_ends: "srv_inv (st s) \<Longrightarrow> ends (st s) (st (handle e ev s))"
  by (cases ev) (simp_all add: all_end)

lemma run_durable:
  "srv_inv (st s) \<Longrightarrow> run_admissible e evs s \<Longrightarrow> can_save (st s) \<Longrightarrow> durable (st s) \<Longrightarrow>
    can_save (st (run e evs s)) \<and> durable (st (run e evs s))"
proof (induction evs arbitrary: s)
  case (Cons ev evs)
  have "srv_inv (st (handle e ev s))" using Cons.prems by (simp add: handle_keeps)
  moreover have "can_save (st (handle e ev s)) \<and> durable (st (handle e ev s))"
    using ends_durable [OF handle_ends [OF Cons.prems(1), of e ev]] Cons.prems by simp
  ultimately show ?case using Cons by simp
qed simp

section \<open>Composition\<close>

text \<open>A store that starts from what is on disk answers as the one that ran.\<close>

lemma restart_after_run:
  assumes s: "srv_inv (st s)" "run_admissible e evs s" "can_save (st s)" "durable (st s)"
    and t: "saved t = saved (st (run e evs s))"
  shows "serviceByID (load t) = serviceByID (st (run e evs s)) \<and>
    serviceBySubdomain (load t) = serviceBySubdomain (st (run e evs s)) \<and>
    bookmarkByID (load t) = bookmarkByID (st (run e evs s)) \<and>
    discoveredByID (load t) = discoveredByID (st (run e evs s))"
proof -
  have "saved t = Some (snapshot (st (run e evs s)))"
    using run_durable [OF s] t by (simp add: durable_def)
  then show ?thesis using load_lookups srv_invD(1) [OF run_keeps [OF s(1,2)]] by blast
qed

text \<open>Every service is reached at its name, but for one: the name of the web interface.\<close>

lemma service_reached:
  assumes s: "srv_inv s" and v: "v \<in> set (services s)" "sSubdomain v \<noteq> ''lantern''"
    and u: "parse (sTarget v) = Some u" and host: "strip_port (rqHost rq) = sSubdomain v @ ''.'' @ Domain c"
  shows "fst (ServeHTTP parse s rq (serve_all parse past (new_handler c))) = Proxied (buildProxy (sSubdomain v) u)"
proof -
  let ?h = "sSubdomain v @ ''.'' @ Domain c"
  have b: "serviceBySubdomain s (sSubdomain v) = Some v"
    using v(1) serviceBySubdomain_iff [OF srv_invD(2) [OF s]] by simp
  have "?h \<noteq> ''lantern.'' @ Domain c" using v(2) by (auto simp: append_eq_append_conv2 Cons_eq_append_conv)
  moreover have "length ?h \<noteq> length (Domain c)" by simp
  then have "?h \<noteq> Domain c" by metis
  moreover have "HasSuffix ?h (''.'' @ Domain c)" "TrimSuffix ?h (''.'' @ Domain c) = sSubdomain v"
    using HasSuffix_append [of "sSubdomain v" "''.'' @ Domain c"] TrimSuffix_append [of "sSubdomain v" "''.'' @ Domain c"]
    by simp_all
  ultimately show ?thesis unfolding serve_all_answer host by (simp add: answer_def Let_def b u)
qed

lemma lantern_shadowed:
  "strip_port (rqHost rq) = ''lantern.'' @ Domain c \<Longrightarrow>
    fst (ServeHTTP parse s rq (serve_all parse past (new_handler c))) = ToWeb"
  by (simp add: serve_all_answer answer_def)

end
