(* ===== verification/Restart.thy ===== *)
theory Restart
  imports Durable
begin

text \<open>
  What a start of the program finds on disk.  \<open>agrees\<close>: the file holds the state in memory;
  \<open>agrees_but\<close>: it does but for the discovered entries, as in the middle of a scan, which
  saves only now and then.  A store that \<open>New\<close> (\<open>internal/store/store.go\<close>) makes of the file
  holds what the one before held, its icons migrated.
\<close>

section \<open>The file and the memory\<close>

text \<open>No file is the same as that of an empty store.\<close>

definition blank :: data where
  "blank = snapshot (empty_store [] (\<lambda>_. True))"

definition content :: "data option \<Rightarrow> data" where
  "content c = (case c of None \<Rightarrow> blank | Some d \<Rightarrow> d)"

definition unscanned :: "data \<Rightarrow> data" where
  "unscanned d = d\<lparr>jDiscovered := []\<rparr>"

definition agrees :: "store \<Rightarrow> bool" where
  "agrees s \<longleftrightarrow> content (saved s) = snapshot s"

definition agrees_but :: "store \<Rightarrow> bool" where
  "agrees_but s \<longleftrightarrow> (\<exists>t. srv_inv t \<and> content (saved s) = snapshot t \<and> unscanned (snapshot t) = unscanned (snapshot s))"

lemma agrees_agrees_but: "srv_inv s \<Longrightarrow> agrees s \<Longrightarrow> agrees_but s"
  by (auto simp: agrees_def agrees_but_def)

lemma SaveLog_agrees: "can_save s \<Longrightarrow> agrees (SaveLog s)"
  using durable_SaveLog [of s] by (simp add: agrees_def durable_def content_def)

lemma agrees_files [simp]: "agrees (s\<lparr>files := f\<rparr>) = agrees s" "agrees_but (s\<lparr>files := f\<rparr>) = agrees_but s"
  by (simp_all add: agrees_def agrees_but_def)

lemma can_save_SaveLog [simp]: "can_save (SaveLog s) = can_save s"
  by (simp add: can_save_def)

lemma ends_agrees:
  assumes "ends s s'" and "can_save s"
  shows "agrees s \<Longrightarrow> agrees s'" and "agrees_but s \<Longrightarrow> srv_inv s' \<Longrightarrow> agrees_but s'" and "can_save s'"
proof -
  show "can_save s'" using assms by (simp add: ends_def can_save_def)
  have "agrees s' \<or> saved s' = saved s \<and> snapshot s' = snapshot s"
    using assms SaveLog_agrees by (auto simp: ends_def can_save_def)
  then show "agrees s \<Longrightarrow> agrees s'" "agrees_but s \<Longrightarrow> srv_inv s' \<Longrightarrow> agrees_but s'"
    using agrees_agrees_but [of s'] by (auto simp: agrees_def agrees_but_def)
qed

text \<open>A step of a scan writes nothing and changes only the discovered entries.\<close>

definition scan_moves :: "store \<Rightarrow> store \<Rightarrow> bool" where
  "scan_moves s s' \<longleftrightarrow> place s' = place s \<and> saved s' = saved s \<and> unscanned (snapshot s') = unscanned (snapshot s)"

lemma scan_moves_agrees: "scan_moves s s' \<Longrightarrow> agrees_but s \<Longrightarrow> agrees_but s'"
  by (auto simp: scan_moves_def agrees_but_def)

lemma upsert_rest [simp]:
  "saved (snd (upsertDiscovered v s)) = saved s" "DDNSDomains (snd (upsertDiscovered v s)) = DDNSDomains s"
  "ScanSubnets (snd (upsertDiscovered v s)) = ScanSubnets s" "LastScan (snd (upsertDiscovered v s)) = LastScan s"
  "PublicIP (snd (upsertDiscovered v s)) = PublicIP s" "Tunnel (snd (upsertDiscovered v s)) = Tunnel s"
  by (simp_all add: upsertDiscovered_eq UpsertNetworkDiscovered_def indexDiscovered_def Let_def split: option.split)

lemma scan_moves_upsert: "scan_moves s (upsertProbeResult rand8 now r s)"
proof -
  obtain f where u: "upsertProbeResult rand8 now r s =
      (snd (upsertDiscovered (network_entry (NewID rand8) now r) s))\<lparr>files := f\<rparr>"
    using upsertProbeResult_files by blast
  show ?thesis by (simp add: u scan_moves_def unscanned_def snapshot_def)
qed

lemma drop_disc_rest:
  "saved (fold drop_disc rs s) = saved s \<and> DDNSDomains (fold drop_disc rs s) = DDNSDomains s \<and>
   ScanSubnets (fold drop_disc rs s) = ScanSubnets s \<and> LastScan (fold drop_disc rs s) = LastScan s \<and>
   PublicIP (fold drop_disc rs s) = PublicIP s \<and> Tunnel (fold drop_disc rs s) = Tunnel s"
  by (induction rs arbitrary: s) (simp_all add: drop_disc_def unindexDiscovered_def Let_def)

lemma scan_moves_clear: "scan_moves s (ClearNetworkDiscovered s)"
  using fold_drop_disc_frame [of "filter (\<lambda>d. dSource (discHeap s ! d) = SourceNetwork) (Discovered s)" s,
      folded ClearNetworkDiscovered_eq] drop_disc_rest [of "filter (\<lambda>d. dSource (discHeap s ! d) = SourceNetwork) (Discovered s)" s,
      folded ClearNetworkDiscovered_eq]
  by (simp add: scan_moves_def unscanned_def snapshot_def)

section \<open>What a snapshot determines\<close>

lemma snapshot_services: "services s = map snd (jServices (snapshot s))"
  by (simp add: snapshot_def services_def GetAllServices_def case_prod_beta comp_def)

lemma snapshot_bookmarks: "bookmarks s = jBookmarks (snapshot s)"
  by (simp add: snapshot_def bookmarks_def)

lemma snapshot_discovered: "discovered s = jDiscovered (snapshot s)"
  by (simp add: snapshot_def discovered_def)

lemma unscanned_same:
  assumes "unscanned (snapshot t) = unscanned (snapshot s)"
  shows "services t = services s" and "bookmarks t = bookmarks s" and "Ignored t = Ignored s"
    and "DDNSDomains t = DDNSDomains s" and "ScanSubnets t = ScanSubnets s" and "Tunnel t = Tunnel s"
    and "PublicIP t = PublicIP s" and "LastScan t = LastScan s"
proof -
  have e: "f (unscanned (snapshot t)) = f (unscanned (snapshot s))" for f :: "data \<Rightarrow> 'b" using assms by simp
  show "services t = services s"
    using assms by (simp add: snapshot_services unscanned_def snapshot_def)
  show "bookmarks t = bookmarks s" "Ignored t = Ignored s"
    "DDNSDomains t = DDNSDomains s" "ScanSubnets t = ScanSubnets s" "Tunnel t = Tunnel s" "PublicIP t = PublicIP s" "LastScan t = LastScan s"
    using assms by (simp_all add: unscanned_def snapshot_def bookmarks_def)
qed

section \<open>The migration\<close>

text \<open>A loop that has migrated nothing has changed nothing of the data.\<close>

definition counts_changes :: "(nat \<times> store) \<Rightarrow> (nat \<times> store) \<Rightarrow> bool" where
  "counts_changes a b \<longleftrightarrow> fst a \<le> fst b \<and> saved (snd b) = saved (snd a) \<and> place (snd b) = place (snd a) \<and>
    (fst b = fst a \<longrightarrow> snapshot (snd b) = snapshot (snd a))"

lemma counts_changes_fold:
  assumes "\<And>r a. counts_changes a (f r a)"
  shows "counts_changes a (fold f rs a)"
proof (induction rs arbitrary: a)
  case (Cons r rs)
  show ?case using assms [of a r] Cons [of "f r a"] by (auto simp: counts_changes_def)
qed (simp add: counts_changes_def)

lemma writeDataURI_frame:
  "saved (snd (writeDataURI p u s)) = saved s \<and> place (snd (writeDataURI p u s)) = place s \<and>
    snapshot (snd (writeDataURI p u s)) = snapshot s"
  by (auto simp: writeDataURI_payload os_WriteFile_def split: option.split)

lemma migrate_counts: "counts_changes a (migrate_service r a)" "counts_changes a (migrate_bookmark r a)" "counts_changes a (migrate_discovered r a)"
proof -
  obtain n s where a: "a = (n, s)" by fastforce
  have w: "saved t = saved s \<and> place t = place s \<and> snapshot t = snapshot s" if "writeDataURI p u s = (b, t)" for p u b t
    using writeDataURI_frame [of p u s] that by simp
  show "counts_changes a (migrate_service r a)"
    by (auto simp: a counts_changes_def migrate_service_def Let_def split: prod.split bool.split dest: w)
  show "counts_changes a (migrate_bookmark r a)"
    by (auto simp: a counts_changes_def migrate_bookmark_def Let_def split: prod.split bool.split dest: w)
  show "counts_changes a (migrate_discovered r a)"
    by (auto simp: a counts_changes_def migrate_discovered_def Let_def split: prod.split bool.split dest: w)
qed

lemma migrateIcons_agrees:
  assumes "agrees s" and "can_save s"
  shows "agrees (migrateIcons s)" and "can_save (migrateIcons s)"
proof -
  define a1 where "a1 = fold migrate_service (map snd (Services s)) (0, s)"
  define a2 where "a2 = fold migrate_bookmark (Bookmarks (snd a1)) a1"
  define a3 where "a3 = fold migrate_discovered (Discovered (snd a2)) a2"
  have "counts_changes (0, s) a1" "counts_changes a1 a2" "counts_changes a2 a3"
    unfolding a1_def a2_def a3_def by (rule counts_changes_fold; rule migrate_counts)+
  then have c: "counts_changes (0, s) a3" by (auto simp: counts_changes_def)
  have m: "migrateIcons s = (if fst a3 > 0 then SaveLog (snd a3) else snd a3)"
    by (simp add: migrateIcons_def a1_def a2_def a3_def SaveLog_def case_prod_beta Let_def)
  have k: "can_save (snd a3)" using c assms(2) by (simp add: counts_changes_def can_save_def)
  then show "can_save (migrateIcons s)" by (simp add: m)
  show "agrees (migrateIcons s)"
    using c assms(1) SaveLog_agrees [OF k] by (auto simp: m agrees_def counts_changes_def)
qed

section \<open>A new start\<close>

text \<open>An icon is kept, or was a data URI and is a file now.\<close>

definition same_icon :: "string \<Rightarrow> string \<Rightarrow> bool" where
  "same_icon u u' \<longleftrightarrow> u' = u \<or> HasPrefix u ''data:'' \<and> u' = IconFile"

definition same_service :: "Service \<Rightarrow> Service \<Rightarrow> bool" where
  "same_service v v' \<longleftrightarrow> same_icon (sIcon v) (sIcon v') \<and> v' = v\<lparr>sIcon := sIcon v'\<rparr>"

definition same_bookmark :: "Bookmark \<Rightarrow> Bookmark \<Rightarrow> bool" where
  "same_bookmark v v' \<longleftrightarrow> same_icon (bIcon v) (bIcon v') \<and> v' = v\<lparr>bIcon := bIcon v'\<rparr>"

definition same_entry :: "DiscoveredService \<Rightarrow> DiscoveredService \<Rightarrow> bool" where
  "same_entry v v' \<longleftrightarrow> same_icon (dIcon v) (dIcon v') \<and> v' = v\<lparr>dIcon := dIcon v'\<rparr>"

text \<open>The same data but for the discovered entries.\<close>

definition restored :: "store \<Rightarrow> store \<Rightarrow> bool" where
  "restored s t \<longleftrightarrow> list_all2 same_service (services s) (services t) \<and> list_all2 same_bookmark (bookmarks s) (bookmarks t) \<and>
    Ignored t = Ignored s \<and> DDNSDomains t = DDNSDomains s \<and> ScanSubnets t = ScanSubnets s \<and> Tunnel t = Tunnel s \<and>
    PublicIP t = PublicIP s \<and> LastScan t = LastScan s"

lemma same_mig: "same_service v (mig_svc s v)" "same_bookmark b (mig_bm s b)" "same_entry d (mig_disc s d)"
  by (simp_all add: same_service_def same_bookmark_def same_entry_def same_icon_def mig_svc_def mig_bm_def mig_disc_def mig_icon_def)

lemma list_all2_map_same: "(\<And>x. P x (f x)) \<Longrightarrow> list_all2 P xs (map f xs)"
  by (induction xs) simp_all

lemma New_blank: "New dir wr disk None = (empty_store dir wr)\<lparr>files := disk, saved := None\<rparr>"
proof -
  have "migrateIcons ((empty_store dir wr)\<lparr>files := disk, saved := None\<rparr>) = (empty_store dir wr)\<lparr>files := disk, saved := None\<rparr>"
    by (simp add: migrateIcons_def empty_store_def)
  then show ?thesis by (simp add: New_def load_def)
qed

lemma blank_empty: "blank = snapshot (empty_store dir wr)"
  by (simp add: blank_def snapshot_def empty_store_def)

text \<open>A start from the data of a store that is in order.\<close>

lemma srv_inv_New:
  assumes s: "srv_inv s"
  shows "srv_inv (New dir wr disk (Some (snapshot s)))"
proof -
  let ?n = "New dir wr disk (Some (snapshot s))"
  let ?t = "load ((empty_store dir wr)\<lparr>files := disk, saved := Some (snapshot s)\<rparr>)"
  note i = srv_invD(1) [OF s] and v = New_values [OF srv_invD(1) [OF s], of dir wr disk]
  have sv: "saved ((empty_store dir wr)\<lparr>files := disk, saved := Some (snapshot s)\<rparr>) = Some (snapshot s)" by simp
  obtain f c h1 h2 h3 where n: "?n = ?t\<lparr>files := f, saved := c, svcHeap := h1, bmHeap := h2, discHeap := h3\<rparr>"
    unfolding New_def using migrateIcons_eq by blast
  have ids: "discoveredIdx ?n = discoveredIdx ?t" "ignoredIdx ?n = ignoredIdx ?t" unfolding n by simp_all
  have "sub_ok v" if "v \<in> set (services ?n)" for v
    using that srv_invD(6) [OF s] by (auto simp: v(2) mig_svc_def sub_ok_def)
  moreover have "discoveredIdx ?n j = None \<or> ignoredIdx ?n j = None" for j
  proof -
    have "discoveredByID ?t j = discoveredByID s j" using load_lookups(5) [OF sv i] by simp
    then have "discoveredIdx ?t j = None \<longleftrightarrow> discoveredIdx s j = None"
      by (auto simp: discoveredByID_def GetDiscoveredByID_def)
    moreover have "ignoredIdx ?t = ignoredIdx s" by (rule ign_inv_load(2) [OF sv srv_invD(4) [OF s]])
    ultimately show ?thesis using srv_invD(7) [OF s, of j] ids by simp
  qed
  ultimately show ?thesis using v(1) by (simp add: srv_inv_def)
qed

lemma agrees_load:
  assumes "saved t = Some (snapshot s)"
  shows "agrees (load t)"
proof -
  have m: "map ((!) (map f xs)) [0..<length xs] = map f xs" for f :: "'b \<Rightarrow> 'c" and xs
    by (rule nth_equalityI) simp_all
  have z: "map (\<lambda>(k, r). (k, services s ! r)) (zip (map fst (Services s)) [0..<length (Services s)]) =
      map (\<lambda>(k, r). (k, svcHeap s ! r)) (Services s)"
    by (rule nth_equalityI) (simp_all add: services_def GetAllServices_def case_prod_beta)
  have "snapshot (load t) = snapshot s"
    by (simp add: snapshot_def load_fields [OF assms] z) (simp add: discovered_def bookmarks_def m)
  moreover have "saved (load t) = saved t" by (simp add: load_def rebuildIndexes_eq split: option.split)
  ultimately show ?thesis using assms by (simp add: agrees_def content_def)
qed

lemma New_restores:
  assumes s: "srv_inv s" and c: "content conf = snapshot s" and w: "can_save (New dir wr disk conf)"
  shows "srv_inv (New dir wr disk conf)" and "agrees (New dir wr disk conf)" and "restored s (New dir wr disk conf)"
    and "list_all2 same_entry (discovered s) (discovered (New dir wr disk conf))"
proof -
  have "srv_inv (New dir wr disk conf) \<and> agrees (New dir wr disk conf) \<and> restored s (New dir wr disk conf) \<and>
    list_all2 same_entry (discovered s) (discovered (New dir wr disk conf))"
  proof (cases conf)
    case None
    let ?n = "(empty_store dir wr)\<lparr>files := disk, saved := None\<rparr>"
    have b: "snapshot s = snapshot ?n" using c by (simp add: None content_def blank_empty [of dir wr])
    then have "unscanned (snapshot ?n) = unscanned (snapshot s)" by simp
    note u = unscanned_same [OF this]
    have "services ?n = []" "bookmarks ?n = []" "discovered ?n = []"
      by (simp_all add: services_def GetAllServices_def bookmarks_def discovered_def empty_store_def)
    moreover have "discovered s = discovered ?n" using b by (simp add: snapshot_discovered)
    moreover have "srv_inv ?n" by simp
    moreover have "agrees ?n" by (simp add: agrees_def content_def blank_empty [of dir wr])
    ultimately show ?thesis using u by (simp add: None New_blank restored_def)
  next
    case (Some d)
    let ?u = "(empty_store dir wr)\<lparr>files := disk, saved := conf\<rparr>"
    have d: "conf = Some (snapshot s)" using c by (simp add: Some content_def)
    then have u: "saved ?u = Some (snapshot s)" by simp
    obtain f c' h1 h2 h3 where n: "New dir wr disk conf =
        (load ?u)\<lparr>files := f, saved := c', svcHeap := h1, bmHeap := h2, discHeap := h3\<rparr>"
      unfolding New_def using migrateIcons_eq by blast
    have "can_save (load ?u)" using w by (simp add: n can_save_def)
    from migrateIcons_agrees(1) [OF agrees_load [OF u] this] have "agrees (New dir wr disk conf)" by (simp add: New_def)
    moreover have "restored s (New dir wr disk conf)"
      unfolding restored_def d New_values [OF srv_invD(1) [OF s]]
      by (simp add: d [symmetric]) (simp add: n load_fields [OF u] list_all2_map_same same_mig)
    moreover have "list_all2 same_entry (discovered s) (discovered (New dir wr disk conf))"
      unfolding d New_values [OF srv_invD(1) [OF s]] by (simp add: list_all2_map_same same_mig)
    ultimately show ?thesis using srv_inv_New [OF s] by (simp add: d)
  qed
  then show "srv_inv (New dir wr disk conf)" "agrees (New dir wr disk conf)" "restored s (New dir wr disk conf)"
    "list_all2 same_entry (discovered s) (discovered (New dir wr disk conf))" by blast+
qed

end
