(* ===== verification/HealthCheck.thy ===== *)
theory HealthCheck
  imports StoreInvariant "HOL-Library.Multiset"
begin

text \<open>
  The background checks of \<open>internal/web/health.go\<close>.

  One round of checks asks every service once, at most twenty at a time; the goroutines record
  their results in any order, given as the list \<open>order\<close>.  The outcome of the request for a
  target is the parameter \<open>reach\<close>.\<close>

section \<open>Health checks\<close>

type_synonym health = "string \<rightharpoonup> string"

definition healthUp :: string where "healthUp = ''up''"

definition healthDown :: string where "healthDown = ''down''"

definition health_targets :: "store \<Rightarrow> (string \<times> string) list" where
  "health_targets s = map (\<lambda>v. (sID v, sTarget v)) (filter (\<lambda>v. \<not> sSkipHealth v) (services s))"

definition record_health :: "(string \<Rightarrow> string \<Rightarrow> bool) \<Rightarrow> string \<times> string \<Rightarrow> health \<Rightarrow> health" where
  "record_health reach it result =
    result(fst it \<mapsto> (if reach (fst it) (snd it) then healthUp else healthDown))"

definition checkHealth :: "(string \<Rightarrow> string \<Rightarrow> bool) \<Rightarrow> (string \<times> string) list \<Rightarrow> store \<Rightarrow> health \<Rightarrow> health" where
  "checkHealth reach order s health =
    (if GetAllServices s = [] then health else fold (record_health reach) order Map.empty)"

lemma record_all:
  "distinct (map fst order) \<Longrightarrow> fold (record_health reach) order m i =
    (case map_of order i of Some t \<Rightarrow> Some (if reach i t then healthUp else healthDown) | None \<Rightarrow> m i)"
proof (induction order arbitrary: m)
  case (Cons x order)
  then have "fst x \<notin> set (map fst order)" by simp
  then have "map_of order (fst x) = None" by (simp add: map_of_eq_None_iff)
  then show ?case using Cons by (cases "fst x = i") (auto simp: record_health_def split: option.splits)
qed simp

lemma services_distinct_ids: "svc_inv s \<Longrightarrow> distinct (map sID (services s))"
proof -
  assume v: "svc_inv s"
  have k: "distinct (map fst (Services s))" using svc_invD(1) [OF v] .
  have "inj_on snd (set (Services s))"
  proof (rule inj_onI)
    fix x y assume m: "x \<in> set (Services s)" "y \<in> set (Services s)" "snd x = snd y"
    then have "map_of (Services s) (fst x) = Some (snd x)" "map_of (Services s) (fst y) = Some (snd y)"
      using map_of_is_SomeI [OF k, of "fst x" "snd x"] map_of_is_SomeI [OF k, of "fst y" "snd y"] m(1,2)
      by (metis prod.collapse)+
    then have "fst x = fst y" using v m(3) by (simp add: sub_iff)
    with m(3) show "x = y" by (simp add: prod_eq_iff)
  qed
  then have d: "distinct (GetAllServices s)"
    using k by (simp add: GetAllServices_def distinct_map)
  have "inj_on (\<lambda>r. sID (svcHeap s ! r)) (set (GetAllServices s))"
  proof (rule inj_onI)
    fix q r assume m: "q \<in> set (GetAllServices s)" "r \<in> set (GetAllServices s)" "sID (svcHeap s ! q) = sID (svcHeap s ! r)"
    then have "q \<in> refs_of (Services s)" "r \<in> refs_of (Services s)" by (auto simp: GetAllServices_def refs_of_def)
    then have i: "idIdx s (sID (svcHeap s ! q)) = Some q" "idIdx s (sID (svcHeap s ! r)) = Some r"
      by (simp_all only: idIdx_iff [OF v] simp_thms)
    show "q = r" using i(1) unfolding m(3) i(2) by simp
  qed
  with d have "distinct (map (\<lambda>r. sID (svcHeap s ! r)) (GetAllServices s))" by (simp only: distinct_map)
  then show ?thesis by (simp only: services_def map_map comp_def)
qed

text \<open>Whatever the order, a round gives each service that is not skipped its own result, and nothing else.\<close>

lemma checkHealth_result:
  assumes "svc_inv s" and "mset order = mset (health_targets s)" and "services s \<noteq> []"
  shows "v \<in> set (services s) \<Longrightarrow> checkHealth reach order s health (sID v) =
      (if sSkipHealth v then None else Some (if reach (sID v) (sTarget v) then healthUp else healthDown))"
    and "i \<notin> sID ` set (services s) \<Longrightarrow> checkHealth reach order s health i = None"
proof -
  have t: "set order = set (health_targets s)" using assms(2) by (metis set_mset_mset)
  have "distinct (map fst (health_targets s))"
    using services_distinct_ids [OF assms(1)] by (simp add: health_targets_def comp_def distinct_map inj_on_def)
  then have d: "distinct (map fst order)" using assms(2) by (metis mset_map mset_eq_imp_distinct_iff)
  have ne: "GetAllServices s \<noteq> []" using assms(3) by (simp add: services_def)
  have id: "v = v'" if "v \<in> set (services s)" "v' \<in> set (services s)" "sID v = sID v'" for v v'
    using services_distinct_ids [OF assms(1)] that by (meson distinct_map inj_onD)
  show "checkHealth reach order s health i = None" if "i \<notin> sID ` set (services s)"
  proof -
    have "map_of order i = None" using that t by (auto simp: map_of_eq_None_iff health_targets_def)
    then show ?thesis using ne by (simp add: checkHealth_def record_all [OF d])
  qed
  show "checkHealth reach order s health (sID v) =
      (if sSkipHealth v then None else Some (if reach (sID v) (sTarget v) then healthUp else healthDown))"
    if v: "v \<in> set (services s)"
  proof (cases "sSkipHealth v")
    case True
    then have "map_of order (sID v) = None" using id [OF v] t by (auto simp: map_of_eq_None_iff health_targets_def)
    then show ?thesis using ne True by (simp add: checkHealth_def record_all [OF d])
  next
    case False
    then have "(sID v, sTarget v) \<in> set order" using v t by (auto simp: health_targets_def)
    then have "map_of order (sID v) = Some (sTarget v)" using d by simp
    then show ?thesis using ne False by (simp add: checkHealth_def record_all [OF d])
  qed
qed

end
