(* ===== verification/Certs.thy ===== *)
theory Certs
  imports DnsPlan GoPath
begin

text \<open>
  \<open>internal/certs/certs.go\<close>: the TLS certificate, loaded from disk, obtained or renewed with
  Let's Encrypt, or self-signed.

  Parameters: the parsers of \<open>crypto/tls\<close>, \<open>crypto/x509\<close>, \<open>encoding/pem\<close> and
  \<open>encoding/json\<close>, the generation of keys, and the ACME client \<open>lego\<close>.  The state holds the
  certificate in use, the files and the world.  The system clock is the argument \<open>now\<close>.
\<close>

text \<open>A certificate: its chain, and the expiry of its leaf when the code has parsed it.\<close>

record tlsCert =
  Certificate :: "string list"
  Leaf :: "time option"

text \<open>The resource of \<open>lego\<close>: the certificate and key files, and the rest (\<open>domain\<close>, URLs).\<close>

record Resource =
  resCertificate :: string
  resPrivateKey :: string
  resRest :: string

record acmeUser =
  Email :: string
  Registration :: "string option"
  userKey :: string

record 'w pki =
  X509KeyPair :: "string \<Rightarrow> string \<Rightarrow> string list option"
  ParseCertificate :: "string \<Rightarrow> time option"
  SelfSigned :: "string list \<Rightarrow> time \<Rightarrow> 'w \<Rightarrow> string list option \<times> 'w"
  DecodeECKey :: "string \<Rightarrow> string option"
  EncodeECKey :: "string \<Rightarrow> string"
  GenerateKey :: "'w \<Rightarrow> string option \<times> 'w"
  MarshalResource :: "Resource \<Rightarrow> string"
  UnmarshalResource :: "string \<Rightarrow> Resource option"
  UnmarshalRegistration :: "string \<Rightarrow> string option"
  MarshalRegistration :: "string \<Rightarrow> string"
  NewClient :: "acmeUser \<Rightarrow> string \<Rightarrow> 'w \<Rightarrow> bool \<times> 'w"
  Register :: "acmeUser \<Rightarrow> 'w \<Rightarrow> string option \<times> 'w"
  Obtain :: "acmeUser \<Rightarrow> string list \<Rightarrow> 'w \<Rightarrow> Resource option \<times> 'w"
  RenewWithOptions :: "acmeUser \<Rightarrow> Resource \<Rightarrow> 'w \<Rightarrow> Resource option \<times> 'w"

text \<open>\<open>canWrite\<close> says for which paths \<open>os.WriteFile\<close> succeeds.\<close>

record 'w CertManager =
  mcfg :: Config
  mcert :: "tlsCert option"
  mdisk :: "string \<rightharpoonup> string"
  canWrite :: "string \<Rightarrow> bool"
  mworld :: 'w

definition acmeDir :: "'w CertManager \<Rightarrow> string" where
  "acmeDir m = Join [DataDir (mcfg m), ''acme'']"

definition certFile :: "'w CertManager \<Rightarrow> string" where
  "certFile m = Join [Join [DataDir (mcfg m), ''certs''], ''cert.pem'']"

definition keyFile :: "'w CertManager \<Rightarrow> string" where
  "keyFile m = Join [Join [DataDir (mcfg m), ''certs''], ''key.pem'']"

definition resFile :: "'w CertManager \<Rightarrow> string" where
  "resFile m = Join [Join [DataDir (mcfg m), ''certs''], ''resource.json'']"

text \<open>\<open>New\<close>; \<open>mk\<close> says which directories \<open>MkdirAll\<close> provides.\<close>

definition new_manager ::
  "(string \<Rightarrow> bool) \<Rightarrow> Config \<Rightarrow> (string \<rightharpoonup> string) \<Rightarrow> (string \<Rightarrow> bool) \<Rightarrow> 'w \<Rightarrow> 'w CertManager result" where
  "new_manager mk c files wr w =
    (if \<not> mk (Join [DataDir c, ''acme'']) \<or> \<not> mk (Join [DataDir c, ''certs'']) then Inl ''mkdir''
     else Inr \<lparr>mcfg = c, mcert = None, mdisk = files, canWrite = wr, mworld = w\<rparr>)"

definition GetCertificate :: "'w CertManager \<Rightarrow> tlsCert result" where
  "GetCertificate m = (case mcert m of None \<Rightarrow> Inl ''no certificate available'' | Some c \<Rightarrow> Inr c)"

definition write_file :: "string \<Rightarrow> string \<Rightarrow> 'w CertManager \<Rightarrow> bool \<times> 'w CertManager" where
  "write_file p d m = (if canWrite m p then (True, m\<lparr>mdisk := (mdisk m)(p \<mapsto> d)\<rparr>) else (False, m))"

abbreviation day :: time where "day \<equiv> 24 * 60 * 60 * 1000000000"

section \<open>The certificate on disk\<close>

definition leaf_of :: "'w pki \<Rightarrow> string list \<Rightarrow> time option" where
  "leaf_of p chain = (case chain of der # _ \<Rightarrow> ParseCertificate p der | [] \<Rightarrow> None)"

definition tryLoadExisting :: "'w pki \<Rightarrow> time \<Rightarrow> 'w CertManager \<Rightarrow> bool \<times> 'w CertManager" where
  "tryLoadExisting p now m = (case (mdisk m (certFile m), mdisk m (keyFile m)) of
      (Some certPEM, Some keyPEM) \<Rightarrow> (case X509KeyPair p certPEM keyPEM of
          None \<Rightarrow> (False, m)
        | Some chain \<Rightarrow> (case leaf_of p chain of
            Some notAfter \<Rightarrow>
              if notAfter - now < 30 * day then (False, m)
              else (True, m\<lparr>mcert := Some \<lparr>Certificate = chain, Leaf = Some notAfter\<rparr>\<rparr>)
          | None \<Rightarrow> (True, m\<lparr>mcert := Some \<lparr>Certificate = chain, Leaf = None\<rparr>\<rparr>)))
    | _ \<Rightarrow> (False, m))"

definition saveCert :: "'w pki \<Rightarrow> Resource \<Rightarrow> 'w CertManager \<Rightarrow> unit result \<times> 'w CertManager" where
  "saveCert p res m = (case write_file (certFile m) (resCertificate res) m of
      (False, m) \<Rightarrow> (Inl ''write certificate'', m)
    | (True, m) \<Rightarrow> (case write_file (keyFile m) (resPrivateKey res) m of
        (False, m) \<Rightarrow> (Inl ''write key'', m)
      | (True, m) \<Rightarrow>
          let m = snd (write_file (resFile m) (MarshalResource p res) m)
          in case X509KeyPair p (resCertificate res) (resPrivateKey res) of
               None \<Rightarrow> (Inl ''key pair'', m)
             | Some chain \<Rightarrow> (Inr (), m\<lparr>mcert := Some \<lparr>Certificate = chain, Leaf = leaf_of p chain\<rparr>\<rparr>)))"

section \<open>The ACME user\<close>

definition loadOrCreateUser :: "'w pki \<Rightarrow> 'w CertManager \<Rightarrow> acmeUser option \<times> 'w CertManager" where
  "loadOrCreateUser p m =
    (let keyPath = Join [acmeDir m, ''account.key'']; regPath = Join [acmeDir m, ''account.json''];
         key = (case mdisk m keyPath of Some raw \<Rightarrow> DecodeECKey p raw | None \<Rightarrow> None);
         (key, m) = (case key of
             Some k \<Rightarrow> (Some k, m)
           | None \<Rightarrow> (case GenerateKey p (mworld m) of
               (None, w) \<Rightarrow> (None, m\<lparr>mworld := w\<rparr>)
             | (Some k, w) \<Rightarrow> (Some k, snd (write_file keyPath (EncodeECKey p k) (m\<lparr>mworld := w\<rparr>)))))
     in (map_option (\<lambda>k. \<lparr>Email = ''admin@'' @ Domain (mcfg m),
            Registration = (case mdisk m regPath of Some raw \<Rightarrow> UnmarshalRegistration p raw | None \<Rightarrow> None),
            userKey = k\<rparr>) key, m))"

definition saveUser :: "'w pki \<Rightarrow> acmeUser \<Rightarrow> 'w CertManager \<Rightarrow> 'w CertManager" where
  "saveUser p user m = (case Registration user of
      None \<Rightarrow> m
    | Some reg \<Rightarrow> snd (write_file (Join [acmeDir m, ''account.json'']) (MarshalRegistration p reg) m))"

definition buildLegoClient :: "'w pki \<Rightarrow> 'w CertManager \<Rightarrow> acmeUser result \<times> 'w CertManager" where
  "buildLegoClient p m = (case loadOrCreateUser p m of
      (None, m) \<Rightarrow> (Inl ''acme user'', m)
    | (Some user, m) \<Rightarrow> (case NewClient p user (CFAPIToken (mcfg m)) (mworld m) of
        (False, w) \<Rightarrow> (Inl ''client'', m\<lparr>mworld := w\<rparr>)
      | (True, w) \<Rightarrow>
          let m = m\<lparr>mworld := w\<rparr>
          in if Registration user \<noteq> None then (Inr user, m)
             else (case Register p user (mworld m) of
               (None, w) \<Rightarrow> (Inl ''register'', m\<lparr>mworld := w\<rparr>)
             | (Some reg, w) \<Rightarrow>
                 let user = user\<lparr>Registration := Some reg\<rparr>
                 in (Inr user, saveUser p user (m\<lparr>mworld := w\<rparr>)))))"

section \<open>Obtaining and renewing\<close>

definition cert_domains :: "'w CertManager \<Rightarrow> string list" where
  "cert_domains m = [''*.'' @ Domain (mcfg m), Domain (mcfg m)]"

definition obtain_cert :: "'w pki \<Rightarrow> 'w CertManager \<Rightarrow> unit result \<times> 'w CertManager" where
  "obtain_cert p m = (case buildLegoClient p m of
      (Inl e, m) \<Rightarrow> (Inl e, m)
    | (Inr user, m) \<Rightarrow> (case Obtain p user (cert_domains m) (mworld m) of
        (None, w) \<Rightarrow> (Inl ''obtain cert'', m\<lparr>mworld := w\<rparr>)
      | (Some res, w) \<Rightarrow> saveCert p res (m\<lparr>mworld := w\<rparr>)))"

definition renew :: "'w pki \<Rightarrow> 'w CertManager \<Rightarrow> unit result \<times> 'w CertManager" where
  "renew p m = (case (case mdisk m (resFile m) of Some raw \<Rightarrow> UnmarshalResource p raw | None \<Rightarrow> None) of
      None \<Rightarrow> obtain_cert p m
    | Some res \<Rightarrow> (case buildLegoClient p m of
        (Inl e, m) \<Rightarrow> (Inl e, m)
      | (Inr user, m) \<Rightarrow> (case RenewWithOptions p user res (mworld m) of
          (None, w) \<Rightarrow> (Inl ''renew cert'', m\<lparr>mworld := w\<rparr>)
        | (Some renewed, w) \<Rightarrow> saveCert p renewed (m\<lparr>mworld := w\<rparr>))))"

text \<open>\<open>SelfSigned\<close>: the chain of a new self-signed certificate for the names and the expiry.\<close>

definition useSelfSigned :: "'w pki \<Rightarrow> time \<Rightarrow> 'w CertManager \<Rightarrow> unit result \<times> 'w CertManager" where
  "useSelfSigned p now m = (case SelfSigned p (cert_domains m) (now + 90 * day) (mworld m) of
      (None, w) \<Rightarrow> (Inl ''self-signed'', m\<lparr>mworld := w\<rparr>)
    | (Some chain, w) \<Rightarrow> (Inr (), m\<lparr>mworld := w, mcert := Some \<lparr>Certificate = chain, Leaf = None\<rparr>\<rparr>))"

definition EnsureCert :: "'w pki \<Rightarrow> time \<Rightarrow> 'w CertManager \<Rightarrow> unit result \<times> 'w CertManager" where
  "EnsureCert p now m = (case tryLoadExisting p now m of
      (True, m) \<Rightarrow> (Inr (), m)
    | (False, m) \<Rightarrow> (case obtain_cert p m of
        (Inr u, m) \<Rightarrow> (Inr u, m)
      | (Inl e, m) \<Rightarrow> useSelfSigned p now m))"

text \<open>One turn of \<open>RenewLoop\<close>, every twelve hours.\<close>

definition renew_tick :: "'w pki \<Rightarrow> time \<Rightarrow> 'w CertManager \<Rightarrow> 'w CertManager" where
  "renew_tick p now m = (case mcert m of
      None \<Rightarrow> snd (EnsureCert p now m)
    | Some cert \<Rightarrow>
        (case (case Leaf cert of Some t \<Rightarrow> Some t | None \<Rightarrow> leaf_of p (Certificate cert)) of
          None \<Rightarrow> m
        | Some notAfter \<Rightarrow> if notAfter - now < 30 * day then snd (renew p m) else m))"

section \<open>A certificate is served\<close>

lemma write_file_fields [simp]:
  "mcert (snd (write_file q d m)) = mcert m" "mcfg (snd (write_file q d m)) = mcfg m"
  "canWrite (snd (write_file q d m)) = canWrite m"
  by (simp_all add: write_file_def)

lemma saveUser_fields [simp]: "mcert (saveUser p u m) = mcert m" "mcfg (saveUser p u m) = mcfg m"
  by (simp_all add: saveUser_def split: option.split)

lemma loadOrCreateUser_fields [simp]:
  "mcert (snd (loadOrCreateUser p m)) = mcert m" "mcfg (snd (loadOrCreateUser p m)) = mcfg m"
  by (simp_all add: loadOrCreateUser_def Let_def split: option.split prod.split)

lemma buildLegoClient_fields [simp]:
  "mcert (snd (buildLegoClient p m)) = mcert m" "mcfg (snd (buildLegoClient p m)) = mcfg m"
proof -
  obtain u m1 where u: "loadOrCreateUser p m = (u, m1)" by fastforce
  then have "mcert m1 = mcert m" "mcfg m1 = mcfg m" using loadOrCreateUser_fields [of p m] by simp_all
  then show "mcert (snd (buildLegoClient p m)) = mcert m" "mcfg (snd (buildLegoClient p m)) = mcfg m"
    by (simp_all add: buildLegoClient_def u Let_def split: option.split prod.split bool.split)
qed

text \<open>What happens to the certificate in use: it is replaced on success, and kept on failure.\<close>

definition swaps :: "unit result \<times> 'w CertManager \<Rightarrow> 'w CertManager \<Rightarrow> bool" where
  "swaps r m \<longleftrightarrow> mcfg (snd r) = mcfg m \<and>
     (case fst r of Inr _ \<Rightarrow> mcert (snd r) \<noteq> None | Inl _ \<Rightarrow> mcert (snd r) = mcert m)"

lemma saveCert_swaps: "swaps (saveCert p res m) m"
  by (auto simp: swaps_def saveCert_def write_file_def Let_def split: option.split)

lemma swaps_saveCert:
  assumes "mcert m1 = mcert m" and "mcfg m1 = mcfg m"
  shows "swaps (saveCert p res m1) m"
  using saveCert_swaps [of p res m1] assms by (auto simp: swaps_def split: sum.splits)

lemma swaps_fail: "mcert m1 = mcert m \<Longrightarrow> mcfg m1 = mcfg m \<Longrightarrow> swaps (Inl e, m1) m"
  by (simp add: swaps_def)

lemma client_then_swaps:
  assumes "\<And>user m1. mcert m1 = mcert m \<Longrightarrow> mcfg m1 = mcfg m \<Longrightarrow> swaps (f user m1) m"
  shows "swaps (case buildLegoClient p m of (Inl e, m) \<Rightarrow> (Inl e, m) | (Inr user, m) \<Rightarrow> f user m) m"
proof -
  obtain u m1 where u: "buildLegoClient p m = (u, m1)" by fastforce
  then have "mcert m1 = mcert m" "mcfg m1 = mcfg m" using buildLegoClient_fields [of p m] by simp_all
  then show ?thesis using assms swaps_fail by (cases u) (simp_all add: u)
qed

lemma obtain_cert_swaps: "swaps (obtain_cert p m) m"
  unfolding obtain_cert_def
  by (rule client_then_swaps) (auto intro: swaps_fail swaps_saveCert split: option.split prod.split)

lemma renew_swaps: "swaps (renew p m) m"
proof (cases "case mdisk m (resFile m) of Some raw \<Rightarrow> UnmarshalResource p raw | None \<Rightarrow> None")
  case None
  then show ?thesis using obtain_cert_swaps by (simp add: renew_def)
next
  case (Some res)
  show ?thesis unfolding renew_def Some option.case
    by (rule client_then_swaps) (auto intro: swaps_fail swaps_saveCert split: option.split prod.split)
qed

lemma useSelfSigned_swaps: "swaps (useSelfSigned p now m) m"
  by (auto simp: useSelfSigned_def swaps_def split: option.split prod.split)

lemma tryLoadExisting_cases:
  obtains m' where "tryLoadExisting p now m = (True, m')" "mcert m' \<noteq> None" "mcfg m' = mcfg m" "mworld m' = mworld m"
  | "tryLoadExisting p now m = (False, m)"
  by (cases "tryLoadExisting p now m") (auto simp: tryLoadExisting_def split: option.splits if_splits)

text \<open>\<open>EnsureCert\<close> without an error leaves a certificate to serve; no certificate is ever dropped.\<close>

lemma EnsureCert_ok: "fst (EnsureCert p now m) = Inr u \<Longrightarrow> mcert (snd (EnsureCert p now m)) \<noteq> None"
proof (rule tryLoadExisting_cases [of p now m])
  fix m' assume "tryLoadExisting p now m = (True, m')" "mcert m' \<noteq> None"
  then show ?thesis by (simp add: EnsureCert_def)
next
  assume t: "tryLoadExisting p now m = (False, m)" and e: "fst (EnsureCert p now m) = Inr u"
  obtain r m1 where o: "obtain_cert p m = (r, m1)" by fastforce
  show ?thesis
  proof (cases r)
    case (Inl x)
    then show ?thesis using e useSelfSigned_swaps [of p now m1]
      by (simp add: EnsureCert_def t o swaps_def split: sum.splits)
  next
    case (Inr x)
    then show ?thesis using obtain_cert_swaps [of p m] by (simp add: EnsureCert_def t o swaps_def)
  qed
qed

lemma renew_tick_keeps: "mcert m \<noteq> None \<Longrightarrow> mcert (snd r) \<noteq> None" if "swaps r m" for r
  using that by (auto simp: swaps_def split: sum.splits)

lemma renew_tick_serves: "mcert m \<noteq> None \<Longrightarrow> mcert (renew_tick p now m) \<noteq> None"
  using renew_tick_keeps [OF renew_swaps] by (auto simp: renew_tick_def split: option.split)

section \<open>Restarts\<close>

lemma Join_two:
  assumes "d \<noteq> []" and "file_name a" and "file_name b"
  shows "Join [Join [d, a], b] = Join [d, a] @ ''/'' @ b"
proof -
  have "Join [d, a] = render_path (HasPrefix d ''/'') (a # path_stack d)"
    using assms(1,2) path_stack_snoc [OF assms(1,2)] by (auto simp: Join_def Clean_def file_name_def)
  moreover have "clean_stack (HasPrefix d ''/'') (a # path_stack d)"
    using clean_path_stack [of d] assms(2) by (simp add: file_name_def)
  ultimately show ?thesis using Join_name [OF _ _ assms(3)] by simp
qed

lemma cert_paths_distinct:
  assumes "DataDir (mcfg m) \<noteq> []"
  shows "certFile m \<noteq> keyFile m" "certFile m \<noteq> resFile m" "keyFile m \<noteq> resFile m"
  using assms by (simp_all add: certFile_def keyFile_def resFile_def Join_two file_name_def)

lemma saveCert_effect:
  assumes "saveCert p res m = (Inr u, m')" and "DataDir (mcfg m) \<noteq> []"
  obtains chain where "X509KeyPair p (resCertificate res) (resPrivateKey res) = Some chain"
    "mcert m' = Some \<lparr>Certificate = chain, Leaf = leaf_of p chain\<rparr>"
    "mdisk m' (certFile m') = Some (resCertificate res)" "mdisk m' (keyFile m') = Some (resPrivateKey res)"
proof -
  note d = cert_paths_distinct [OF assms(2)]
  have f: "certFile (m1 :: 'a CertManager) = certFile m" "keyFile m1 = keyFile m" "resFile m1 = resFile m" if "mcfg m1 = mcfg m" for m1
    using that by (simp_all add: certFile_def keyFile_def resFile_def)
  have w: "canWrite m (certFile m)" using assms(1) by (simp add: saveCert_def write_file_def split: if_splits)
  let ?m1 = "m\<lparr>mdisk := (mdisk m)(certFile m \<mapsto> resCertificate res)\<rparr>"
  have w2: "canWrite m (keyFile m)" using assms(1) w f [of ?m1] by (simp add: saveCert_def write_file_def split: if_splits)
  let ?m2 = "?m1\<lparr>mdisk := (mdisk ?m1)(keyFile m \<mapsto> resPrivateKey res)\<rparr>"
  let ?m3 = "snd (write_file (resFile m) (MarshalResource p res) ?m2)"
  have e: "saveCert p res m = (case X509KeyPair p (resCertificate res) (resPrivateKey res) of
      None \<Rightarrow> (Inl ''key pair'', ?m3)
    | Some chain \<Rightarrow> (Inr (), ?m3\<lparr>mcert := Some \<lparr>Certificate = chain, Leaf = leaf_of p chain\<rparr>\<rparr>))"
    using w w2 f [of ?m1] f [of ?m2]
    by (cases "X509KeyPair p (resCertificate res) (resPrivateKey res)") (simp_all add: saveCert_def write_file_def Let_def)
  then obtain chain where k: "X509KeyPair p (resCertificate res) (resPrivateKey res) = Some chain"
      "m' = ?m3\<lparr>mcert := Some \<lparr>Certificate = chain, Leaf = leaf_of p chain\<rparr>\<rparr>"
    using assms(1) by (auto split: option.splits)
  have c: "mcfg m' = mcfg m" and m2: "mcfg ?m2 = mcfg m" by (simp_all add: k(2))
  have "mdisk m' = mdisk ?m3" by (simp add: k(2))
  then have "mdisk m' (certFile m) = Some (resCertificate res)" "mdisk m' (keyFile m) = Some (resPrivateKey res)"
    using d by (simp_all add: write_file_def f(3) [OF m2])
  then have "mdisk m' (certFile m') = Some (resCertificate res)" "mdisk m' (keyFile m') = Some (resPrivateKey res)"
    by (simp_all only: f(1,2) [OF c])
  moreover have "mcert m' = Some \<lparr>Certificate = chain, Leaf = leaf_of p chain\<rparr>" by (simp add: k(2))
  ultimately show thesis using that k(1) by blast
qed

text \<open>A certificate that was saved is the one a restart loads, while it has thirty days left.\<close>

lemma saved_cert_reloads:
  assumes "saveCert p res m = (Inr u, m')" and "DataDir (mcfg m) \<noteq> []"
    and long: "\<And>chain t. X509KeyPair p (resCertificate res) (resPrivateKey res) = Some chain \<Longrightarrow>
      leaf_of p chain = Some t \<Longrightarrow> now + 30 * day \<le> t"
  shows "tryLoadExisting p now (m'\<lparr>mcert := None\<rparr>) = (True, m')"
proof -
  obtain chain where c: "X509KeyPair p (resCertificate res) (resPrivateKey res) = Some chain"
    "mcert m' = Some \<lparr>Certificate = chain, Leaf = leaf_of p chain\<rparr>"
    "mdisk m' (certFile m') = Some (resCertificate res)" "mdisk m' (keyFile m') = Some (resPrivateKey res)"
    by (rule saveCert_effect [OF assms(1,2)])
  have f: "certFile (m'\<lparr>mcert := None\<rparr>) = certFile m'" "keyFile (m'\<lparr>mcert := None\<rparr>) = keyFile m'"
    by (simp_all add: certFile_def keyFile_def)
  have "m'\<lparr>mcert := Some \<lparr>Certificate = chain, Leaf = leaf_of p chain\<rparr>\<rparr> = m'" using c(2) by simp
  then show ?thesis using c f long [OF c(1)] by (auto simp: tryLoadExisting_def split: option.split)
qed

section \<open>The self-signed fallback\<close>

text \<open>
  After the fallback, the loop waits until the self-signed certificate is about to expire: for
  the next sixty days no turn of it changes anything, and Let's Encrypt is not asked again.
\<close>

lemma no_retry:
  assumes "useSelfSigned p now m = (Inr u, m')"
    and "\<And>ds t w chain w'. SelfSigned p ds t w = (Some chain, w') \<Longrightarrow> leaf_of p chain = Some t"
    and "later \<le> now + 60 * day"
  shows "renew_tick p later m' = m'"
proof -
  obtain chain w where c: "SelfSigned p (cert_domains m) (now + 90 * day) (mworld m) = (Some chain, w)"
    using assms(1) by (auto simp: useSelfSigned_def split: prod.splits option.splits)
  then have "m' = m\<lparr>mworld := w, mcert := Some \<lparr>Certificate = chain, Leaf = None\<rparr>\<rparr>"
    using assms(1) by (simp add: useSelfSigned_def)
  then show ?thesis using assms(2) [OF c] assms(3) by (simp add: renew_tick_def)
qed

text \<open>The names in a certificate on disk are not looked at: one for another domain is loaded.\<close>

lemma domain_not_checked:
  assumes "tryLoadExisting p now m = (True, m')" and "DataDir c = DataDir (mcfg m)"
  shows "fst (tryLoadExisting p now (m\<lparr>mcfg := c\<rparr>))"
proof -
  have "certFile (m\<lparr>mcfg := c\<rparr>) = certFile m" "keyFile (m\<lparr>mcfg := c\<rparr>) = keyFile m"
    using assms(2) by (simp_all add: certFile_def keyFile_def)
  then show ?thesis using assms(1) by (auto simp: tryLoadExisting_def split: option.splits if_splits)
qed

end
