(* ===== verification/Startup.thy ===== *)
theory Startup
  imports Certs Tunnel "HOL-Library.Word"
begin

text \<open>
  \<open>internal/config/config.go\<close> and \<open>main.go\<close>: the configuration from the environment, the
  start of the program, its server on port 80 and its shutdown.

  \<open>getenv\<close> is the environment, \<open>parseDuration\<close> the parser \<open>time.ParseDuration\<close>.
  The goroutines that \<open>main\<close> starts are in \<open>Loops\<close>, what runs together in
  \<open>Lifecycle\<close>.
\<close>

section \<open>The configuration\<close>

definition getEnv :: "(string \<Rightarrow> string) \<Rightarrow> string \<Rightarrow> string \<Rightarrow> string" where
  "getEnv getenv key def = (if getenv key \<noteq> [] then getenv key else def)"

text \<open>The product of \<open>time.Duration\<close>, an \<open>int64\<close>, wraps.\<close>

definition millis :: "int \<Rightarrow> time" where
  "millis n = sint (word_of_int (n * 1000000) :: 64 word)"

definition Load :: "(string \<Rightarrow> string) \<Rightarrow> (string \<Rightarrow> time option) \<Rightarrow> Config result" where
  "Load getenv parseDuration =
    (case (if getenv ''SCAN_INTERVAL'' \<noteq> [] then parseDuration (getenv ''SCAN_INTERVAL'')
           else Some (24 * 60 * 60 * 1000000000)) of
       None \<Rightarrow> Inl (''invalid SCAN_INTERVAL '' @ getenv ''SCAN_INTERVAL'')
     | Some scanInterval \<Rightarrow>
         (case (if getenv ''SCAN_TIMEOUT_MS'' \<noteq> [] then Atoi (getenv ''SCAN_TIMEOUT_MS'') else (200, True)) of
            (_, False) \<Rightarrow> Inl (''invalid SCAN_TIMEOUT_MS '' @ getenv ''SCAN_TIMEOUT_MS'')
          | (scanTimeoutMs, True) \<Rightarrow> Inr
              \<lparr>Domain = getEnv getenv ''DOMAIN'' [], CFAPIToken = getenv ''CF_API_TOKEN'',
               CFZoneID = getenv ''CF_ZONE_ID'', CFTunnelID = getenv ''CF_TUNNEL_ID'',
               CFAccountID = getenv ''CF_ACCOUNT_ID'', ServerIP = getenv ''SERVER_IP'',
               DataDir = getEnv getenv ''DATA_DIR'' ''/data'', ScanInterval = scanInterval,
               ScanTimeout = millis scanTimeoutMs\<rparr>))"

lemma millis_exact: "\<bar>n\<bar> \<le> 9223372036854 \<Longrightarrow> millis n = n * 1000000"
  unfolding millis_def sint_sbintrunc' by (rule signed_take_bit_int_eq_self) simp_all

text \<open>A configuration that is accepted has a data directory, and the values of the environment.\<close>

lemma Load_ok:
  assumes "Load getenv parseDuration = Inr c"
  shows "DataDir c \<noteq> []" and "Domain c = getenv ''DOMAIN''"
    and "getenv ''SCAN_INTERVAL'' \<noteq> [] \<Longrightarrow> parseDuration (getenv ''SCAN_INTERVAL'') = Some (ScanInterval c)"
    and "getenv ''SCAN_TIMEOUT_MS'' \<noteq> [] \<Longrightarrow>
      \<exists>n. Atoi (getenv ''SCAN_TIMEOUT_MS'') = (n, True) \<and> ScanTimeout c = millis n"
  using assms by (auto simp: Load_def getEnv_def split: option.splits prod.splits bool.splits if_splits)

section \<open>The start\<close>

text \<open>
  What the program finds: the directories it can make, \<open>config.json\<close> (an error, no file, or
  its data), the icon files, the paths it can write to.
\<close>

record data_dir =
  ddMkdir :: "string \<Rightarrow> bool"
  ddConfig :: "data option result"
  ddFiles :: "string \<rightharpoonup> string"
  ddWritable :: "string \<Rightarrow> bool"

definition open_store :: "data_dir \<Rightarrow> string \<Rightarrow> store result" where
  "open_store d dataDir =
    (if \<not> ddMkdir d dataDir then Inl ''create data dir''
     else if \<not> ddMkdir d (Join [dataDir, ''icons'']) then Inl ''create icon dir''
     else case ddConfig d of
       Inl e \<Rightarrow> Inl (''load store: '' @ e)
     | Inr content \<Rightarrow> Inr (New dataDir (ddWritable d) (ddFiles d) content))"

text \<open>\<open>main\<close> up to the start of its goroutines; \<open>Inl\<close> for \<open>log.Fatalf\<close>.\<close>

definition boot ::
  "(string \<Rightarrow> string) \<Rightarrow> (string \<Rightarrow> time option) \<Rightarrow> data_dir \<Rightarrow> 'w http \<Rightarrow> (string \<Rightarrow> 'w \<Rightarrow> bool \<times> 'w) \<Rightarrow> 'w \<Rightarrow>
    ('w Manager \<times> 'w CertManager) result" where
  "boot getenv parseDuration d http launch w = (case Load getenv parseDuration of
      Inl e \<Rightarrow> Inl (''config: '' @ e)
    | Inr c \<Rightarrow> (case open_store d (DataDir c) of
        Inl e \<Rightarrow> Inl (''store: '' @ e)
      | Inr s \<Rightarrow>
          let client = new_client (CFAPIToken c) (CFZoneID c) (CFTunnelID c) (CFAccountID c);
              w = (if Domain c \<noteq> [] \<and> ServerIP c \<noteq> []
                   then snd (EnsureARecord http client (''lantern.'' @ Domain c) (ServerIP c) w) else w)
          in case new_manager (ddMkdir d) c (ddFiles d) (ddWritable d) w of
               Inl e \<Rightarrow> Inl (''certs: '' @ e)
             | Inr certs \<Rightarrow> Inr (snd (StartIfConfigured launch
                 \<lparr>srv = \<lparr>cfg = c, st = s, cl = client, world = w\<rparr>, running = False\<rparr>), certs)))"

text \<open>After the signal: the tunnel is stopped and the store saved.\<close>

definition shutdown :: "'w Manager \<Rightarrow> 'w Manager" where
  "shutdown m = (let m = Stop m in m\<lparr>srv := (srv m)\<lparr>st := SaveLog (st (srv m))\<rparr>\<rparr>)"

section \<open>Port 80\<close>

datatype plain_reply = Healthy | MovedPermanently string

definition plain_http :: "string \<Rightarrow> string \<Rightarrow> string \<Rightarrow> plain_reply" where
  "plain_http urlPath host requestURI =
    (if urlPath = ''/healthz'' then Healthy else MovedPermanently (''https://'' @ host @ requestURI))"

text \<open>The \<open>healthcheck\<close> subcommand: the exit code for the answer of \<open>/healthz\<close>, \<open>None\<close> for none.\<close>

definition healthcheck :: "int option \<Rightarrow> int" where
  "healthcheck answer = (case answer of Some scode \<Rightarrow> if scode = 200 then 0 else 1 | None \<Rightarrow> 1)"

section \<open>What a start restores\<close>

lemma StartIfConfigured_fields:
  "st (srv (snd (StartIfConfigured launch m))) = st (srv m)" "cfg (srv (snd (StartIfConfigured launch m))) = cfg (srv m)"
  by (auto simp: StartIfConfigured_def startProcess_def Let_def split: option.split prod.split)

lemma boot_ok:
  assumes "boot getenv parseDuration d http launch w = Inr (m, certs)"
  shows "\<exists>c content. Load getenv parseDuration = Inr c \<and> ddConfig d = Inr content \<and> cfg (srv m) = c \<and> mcfg certs = c \<and>
    st (srv m) = New (DataDir c) (ddWritable d) (ddFiles d) content \<and> mcert certs = None"
  using assms
  by (auto simp: boot_def open_store_def new_manager_def StartIfConfigured_fields Let_def split: sum.splits if_splits)

text \<open>The tunnel that was created before is running again when its process could be started.\<close>

lemma boot_tunnel:
  assumes "boot getenv parseDuration d http launch w = Inr (m, certs)" and "GetTunnel (st (srv m)) = Some info"
    and "\<And>w. fst (launch (tiToken info) w)"
  shows "running m \<and> tunnelID (cl (srv m)) = tiTunnelID info"
proof -
  have step: "running (snd (StartIfConfigured launch n)) \<and>
      tunnelID (cl (srv (snd (StartIfConfigured launch n)))) = tiTunnelID info"
    if "GetTunnel (st (srv n)) = Some info" "\<not> running n" for n
  proof -
    obtain w' where "launch (tiToken info) (world (srv n)) = (True, w')"
      using assms(3) [of "world (srv n)"] by (cases "launch (tiToken info) (world (srv n))") simp
    then show ?thesis using that by (simp add: StartIfConfigured_def startProcess_def SetTunnelID_def)
  qed
  from assms(1) obtain n where n: "m = snd (StartIfConfigured launch n)" "\<not> running n"
    by (auto simp: boot_def Let_def split: sum.splits)
  then have "GetTunnel (st (srv n)) = Some info" using assms(2) by (simp add: StartIfConfigured_fields)
  then show ?thesis using step n by simp
qed

lemma boot_no_tunnel:
  assumes "boot getenv parseDuration d http launch w = Inr (m, certs)" and "GetTunnel (st (srv m)) = None"
  shows "\<not> running m"
proof -
  from assms(1) obtain n where n: "m = snd (StartIfConfigured launch n)" "\<not> running n"
    by (auto simp: boot_def Let_def split: sum.splits)
  then have "GetTunnel (st (srv n)) = None" using assms(2) by (simp add: StartIfConfigured_fields)
  then show ?thesis using n by (simp add: StartIfConfigured_def)
qed

text \<open>What the client needs is reached: a request on port 80 is sent to the same host over HTTPS.\<close>

lemma plain_http_keeps_host:
  "p \<noteq> ''/healthz'' \<Longrightarrow> plain_http p host uri = MovedPermanently (''https://'' @ host @ uri)"
  by (simp add: plain_http_def)

end
