(* ===== verification/Containers.thy ===== *)
theory Containers
  imports System
begin

text \<open>
  The containers that the server knows: those that a service or a discovered entry points to.
  Only an event of the Docker daemon makes a container known; every other operation of the
  program takes the container IDs it writes from the store.
\<close>

section \<open>Known containers\<close>

text \<open>A container with its service or its discovered entry.\<close>

definition knows :: "store \<Rightarrow> string \<Rightarrow> bool" where
  "knows s i \<longleftrightarrow> i \<noteq> [] \<and> ((\<exists>v \<in> set (services s). sContainerID v = i) \<or> (\<exists>d \<in> set (discovered s). dContainerID d = i))"

definition adds_none :: "store \<Rightarrow> store \<Rightarrow> bool" where
  "adds_none s t \<longleftrightarrow> (\<forall>i. knows t i \<longrightarrow> knows s i)"

lemma adds_none_refl [simp]: "adds_none s s"
  by (simp add: adds_none_def)

lemma adds_none_trans [trans]: "adds_none s t \<Longrightarrow> adds_none t u \<Longrightarrow> adds_none s u"
  by (auto simp: adds_none_def)

lemma adds_noneI:
  assumes "\<And>v. v \<in> set (services t) \<Longrightarrow> sContainerID v \<noteq> [] \<Longrightarrow> knows s (sContainerID v)"
    and "\<And>d. d \<in> set (discovered t) \<Longrightarrow> dContainerID d \<noteq> [] \<Longrightarrow> knows s (dContainerID d)"
  shows "adds_none s t"
  using assms by (fastforce simp: adds_none_def knows_def [of t])

lemma knows_service: "v \<in> set (services s) \<Longrightarrow> sContainerID v \<noteq> [] \<Longrightarrow> knows s (sContainerID v)"
  by (auto simp: knows_def)

lemma knows_entry: "d \<in> set (discovered s) \<Longrightarrow> dContainerID d \<noteq> [] \<Longrightarrow> knows s (dContainerID d)"
  by (auto simp: knows_def)

lemma adds_none_frame:
  assumes "svcHeap t = svcHeap s" and "Services t = Services s" and "discHeap t = discHeap s" and "Discovered t = Discovered s"
  shows "adds_none s t"
  using assms by (simp add: adds_none_def knows_def services_def GetAllServices_def discovered_def)

lemma knows_SaveLog [simp]: "knows (SaveLog s) i = knows s i"
  using SaveLog_cases [of s] by (auto simp: knows_def)

lemma adds_none_SaveLog [simp]: "adds_none s (SaveLog t) = adds_none s t"
  by (simp add: adds_none_def)

lemma knows_files [simp]: "knows (s\<lparr>files := f\<rparr>) i = knows s i"
  by (simp add: knows_def services_def GetAllServices_def discovered_def)

lemma adds_none_files [simp]: "adds_none s (t\<lparr>files := f\<rparr>) = adds_none s t" "adds_none (s\<lparr>files := f\<rparr>) t = adds_none s t"
  by (simp_all add: adds_none_def)

lemma adds_none_WriteIcon: "adds_none s (snd (WriteIcon i d t)) = adds_none s t" "adds_none s (DeleteIcon i t) = adds_none s t"
  using files_cases(1) [of i d t] files_cases(2) [of i t] by (metis adds_none_files(1))+

section \<open>The operations of the store\<close>

lemma refs_update: "refs_of (AList.update k r al) \<subseteq> insert r (refs_of al)"
  by (induction al) (auto simp: refs_of_def split: if_splits)

lemma refs_delete: "refs_of (AList.delete k al) \<subseteq> refs_of al"
  by (auto simp: refs_of_def AList.delete_eq)

text \<open>A new service object, listed in the place of another or beside them.\<close>

lemma adds_none_service:
  assumes s: "srv_inv s" and t: "svcHeap t = svcHeap s @ [v]" "refs_of (Services t) \<subseteq> insert (length (svcHeap s)) (refs_of (Services s))"
    and d: "discHeap t = discHeap s" "Discovered t = Discovered s"
    and k: "sContainerID v \<noteq> [] \<Longrightarrow> knows s (sContainerID v)"
  shows "adds_none s t"
proof (rule adds_noneI)
  fix u assume u: "u \<in> set (services t)" "sContainerID u \<noteq> []"
  then obtain r where "r \<in> insert (length (svcHeap s)) (refs_of (Services s))" "u = svcHeap t ! r" using t(2) by (auto simp: set_services)
  moreover have "r < length (svcHeap s)" if "r \<in> refs_of (Services s)" for r using svc_invD(2) [OF srv_invD(2) [OF s] that] .
  ultimately have "u = v \<or> u \<in> set (services s)" using t(1) by (auto simp: set_services nth_append)
  then show "knows s (sContainerID u)" using k u(2) knows_service by blast
qed (use d knows_entry in \<open>auto simp: discovered_def\<close>)

lemma adds_none_insertService:
  assumes "srv_inv s" and "sContainerID v \<noteq> [] \<Longrightarrow> knows s (sContainerID v)"
  shows "adds_none s (insertService v s)"
proof (rule adds_none_service [OF assms(1), where v = v])
  show "discHeap (insertService v s) = discHeap s" "Discovered (insertService v s) = Discovered s"
    by (simp_all add: insertService_eq AddService_def indexService_def Let_def)
qed (simp_all add: insertService_eq refs_update assms(2))

lemma adds_none_UpdateService:
  assumes "srv_inv s" and "sContainerID v \<noteq> [] \<Longrightarrow> knows s (sContainerID v)"
  shows "adds_none s (snd (UpdateService i (length (svcHeap s)) (s\<lparr>svcHeap := svcHeap s @ [v]\<rparr>)))"
proof (cases "idIdx s i")
  case None
  have "adds_none s (s\<lparr>svcHeap := svcHeap s @ [v]\<rparr>)"
    by (rule adds_none_service [OF assms(1), where v = v]) (use assms(2) in auto)
  then show ?thesis using None by (simp add: UpdateService_def)
next
  case (Some r)
  let ?t = "s\<lparr>svcHeap := svcHeap s @ [v]\<rparr>"
  have u: "snd (UpdateService i (length (svcHeap s)) ?t) = AddService (length (svcHeap s)) (detach r ?t)"
    using Some by (simp add: UpdateService_detach)
  show ?thesis unfolding u
  proof (rule adds_none_service [OF assms(1), where v = v])
    show "refs_of (Services (AddService (length (svcHeap s)) (detach r ?t))) \<subseteq> insert (length (svcHeap s)) (refs_of (Services s))"
      using order_trans [OF refs_update insert_mono [OF refs_delete]] by simp
  qed (use assms(2) in \<open>simp_all add: AddService_def indexService_def detach_def unindexService_def Let_def\<close>)
qed

lemma adds_none_replace:
  assumes "srv_inv s" and "idIdx s i = Some r" and "sContainerID v = sContainerID (svcHeap s ! r)"
  shows "adds_none s (snd (UpdateService j (length (svcHeap s)) (s\<lparr>svcHeap := svcHeap s @ [v]\<rparr>)))"
  using adds_none_UpdateService [OF assms(1)] assms(2,3) services_ids [OF srv_invD(2) [OF assms(1)]] knows_service by metis

lemma adds_none_DeleteService: "adds_none s (snd (DeleteService i s))"
proof (rule adds_noneI)
  have "refs_of (Services (snd (DeleteService i s))) \<subseteq> refs_of (Services s)" "svcHeap (snd (DeleteService i s)) = svcHeap s"
    by (simp_all add: DeleteService_def unindexService_def refs_delete Let_def split: option.split)
  then show "v \<in> set (services (snd (DeleteService i s))) \<Longrightarrow> sContainerID v \<noteq> [] \<Longrightarrow> knows s (sContainerID v)" for v
    by (auto simp: set_services intro!: knows_service)
  have "discovered (snd (DeleteService i s)) = discovered s"
    by (simp add: discovered_def DeleteService_def unindexService_def Let_def split: option.split)
  then show "d \<in> set (discovered (snd (DeleteService i s))) \<Longrightarrow> dContainerID d \<noteq> [] \<Longrightarrow> knows s (dContainerID d)" for d
    by (simp add: knows_entry)
qed

text \<open>Writing an object in place, its container ID kept.\<close>

lemma adds_none_write:
  "sContainerID v = sContainerID (svcHeap s ! r) \<Longrightarrow> adds_none s (s\<lparr>svcHeap := (svcHeap s)[r := v]\<rparr>)"
  "dContainerID d = dContainerID (discHeap s ! r) \<Longrightarrow> adds_none s (s\<lparr>discHeap := (discHeap s)[r := d]\<rparr>)"
proof -
  assume v: "sContainerID v = sContainerID (svcHeap s ! r)"
  have "sContainerID ((svcHeap s)[r := v] ! q) = sContainerID (svcHeap s ! q)" for q
    using v by (cases "r < length (svcHeap s)"; cases "q = r"; simp add: list_update_beyond)
  then show "adds_none s (s\<lparr>svcHeap := (svcHeap s)[r := v]\<rparr>)"
    by (auto simp: adds_none_def knows_def set_services discovered_def)
next
  assume d: "dContainerID d = dContainerID (discHeap s ! r)"
  have "dContainerID ((discHeap s)[r := d] ! q) = dContainerID (discHeap s ! q)" for q
    using d by (cases "r < length (discHeap s)"; cases "q = r"; simp add: list_update_beyond)
  then show "adds_none s (s\<lparr>discHeap := (discHeap s)[r := d]\<rparr>)"
    by (auto simp: adds_none_def knows_def set_services discovered_def)
qed

lemma adds_none_setServiceOrder: "adds_none s (setServiceOrder n i s)"
  by (auto simp: setServiceOrder_def intro!: adds_none_write split: option.split)

lemma adds_none_reorder:
  "adds_none s (ReorderServices ids s)" "adds_none s (ReorderBookmarks ids s)"
proof -
  have o: "adds_none t (setBookmarkOrder n i t)" for n i t
    by (rule adds_none_frame) (simp_all add: setBookmarkOrder_def split: option.split)
  show "adds_none s (ReorderServices ids s)" unfolding ReorderServices_def
    by (rule reorder_keeps [where P = "adds_none s"]) (auto intro: adds_none_trans adds_none_setServiceOrder)
  show "adds_none s (ReorderBookmarks ids s)" unfolding ReorderBookmarks_def
    by (rule reorder_keeps [where P = "adds_none s"]) (auto intro: adds_none_trans o)
qed

text \<open>Fewer entries, or one more.\<close>

lemma adds_none_fewer:
  assumes "svcHeap t = svcHeap s" and "Services t = Services s" and "discHeap t = discHeap s" and "set (Discovered t) \<subseteq> set (Discovered s)"
  shows "adds_none s t"
  using assms by (fastforce simp: adds_none_def knows_def services_def GetAllServices_def discovered_def)

lemma adds_none_entry:
  assumes s: "srv_inv s" and t: "svcHeap t = svcHeap s" "Services t = Services s" "discHeap t = discHeap s @ [d]"
      "set (Discovered t) \<subseteq> insert (length (discHeap s)) (set (Discovered s))"
    and k: "dContainerID d \<noteq> [] \<Longrightarrow> knows s (dContainerID d)"
  shows "adds_none s t"
proof (rule adds_noneI)
  show "knows s (sContainerID v)" if "v \<in> set (services t)" "sContainerID v \<noteq> []" for v
    using that t(1,2) knows_service by (auto simp: set_services)
  fix u assume u: "u \<in> set (discovered t)" "dContainerID u \<noteq> []"
  then obtain r where "r \<in> insert (length (discHeap s)) (set (Discovered s))" "u = discHeap t ! r" using t(4) by (auto simp: discovered_def)
  moreover have "r < length (discHeap s)" if "r \<in> set (Discovered s)" for r using disc_invD(2) [OF srv_invD(3) [OF s] that] .
  ultimately have "u = d \<or> u \<in> set (discovered s)" using t(3) by (auto simp: discovered_def nth_append)
  then show "knows s (dContainerID u)" using k u(2) knows_entry by blast
qed

lemma adds_none_insertDiscovered:
  "srv_inv s \<Longrightarrow> (dContainerID d \<noteq> [] \<Longrightarrow> knows s (dContainerID d)) \<Longrightarrow> adds_none s (insertDiscovered d s)"
  by (rule adds_none_entry [where d = d]) (auto simp: insertDiscovered_eq AddDiscovered_def indexDiscovered_def Let_def)

lemma adds_none_removals:
  "adds_none s (RemoveDiscovered i s)" "adds_none s (snd (IgnoreDiscovered i now s))" "adds_none s (snd (UnignoreService i s))"
  by (rule adds_none_fewer;
      auto simp: RemoveDiscovered_def IgnoreDiscovered_def UnignoreService_def unindexDiscovered_def indexIgnored_def
        unindexIgnored_def Let_def split: option.split)+

lemma adds_none_ClearNetwork: "adds_none s (ClearNetworkDiscovered s)"
proof (rule adds_none_fewer)
  note f = fold_drop_disc_frame [of "filter (\<lambda>d. dSource (discHeap s ! d) = SourceNetwork) (Discovered s)" s,
      folded ClearNetworkDiscovered_eq]
  show "svcHeap (ClearNetworkDiscovered s) = svcHeap s" "Services (ClearNetworkDiscovered s) = Services s"
    "discHeap (ClearNetworkDiscovered s) = discHeap s" using f by simp_all
qed (auto simp: ClearNetwork_list)

lemma adds_none_UpdateDiscoveredIcon: "adds_none s (UpdateDiscoveredIcon i icon s)"
  by (auto simp: UpdateDiscoveredIcon_def intro!: adds_none_write split: option.split)

lemma adds_none_upsertDiscovered:
  assumes s: "srv_inv s" and d: "dContainerID d = []"
  shows "adds_none s (snd (upsertDiscovered d s))"
proof -
  let ?s = "s\<lparr>discHeap := discHeap s @ [d]\<rparr>"
  have 1: "adds_none s ?s" by (rule adds_none_entry [OF s, where d = d]) (use d in auto)
  have "adds_none s (snd (UpsertNetworkDiscovered (length (discHeap s)) ?s))"
  proof (cases "find (\<lambda>e. same_network d (discHeap ?s ! e)) (Discovered s)")
    case None
    show ?thesis
      by (rule adds_none_entry [OF s, where d = d]) (use None d in \<open>auto simp: UpsertNetworkDiscovered_def indexDiscovered_def Let_def\<close>)
  next
    case (Some e)
    have "adds_none ?s (snd (UpsertNetworkDiscovered (length (discHeap s)) ?s))"
      using Some adds_none_write(2) [of "refresh d (discHeap ?s ! e)" ?s e] by (simp add: UpsertNetworkDiscovered_def Let_def)
    with 1 show ?thesis by (rule adds_none_trans)
  qed
  then show ?thesis by (simp add: upsertDiscovered_def newDiscovered_def alloc_def Let_def)
qed

section \<open>The scans\<close>

lemma adds_none_upsertProbe: "srv_inv s \<Longrightarrow> adds_none s (upsertProbeResult rand8 now r s)"
  using adds_none_upsertDiscovered [of s "network_entry (NewID rand8) now r"]
  by (cases "upsertDiscovered (network_entry (NewID rand8) now r) s")
    (simp add: upsertProbeResult_def network_entry_def adds_none_WriteIcon)

lemma adds_none_light:
  "srv_inv s \<Longrightarrow> fresh_ids rs s \<Longrightarrow> adds_none s (fold (light_step targets now) rs s)"
proof (induction rs arbitrary: s)
  case (Cons x rs)
  obtain r b where x: "x = (r, b)" by fastforce
  let ?t = "light_step targets now x s"
  have fr: "discoveredIdx s (NewID b) = None" "ignoredIdx s (NewID b) = None" using Cons.prems(2) by (auto simp: fresh_ids_def x)
  note e = upsertProbeResult_effect [OF Cons.prems(1) fr, of now r]
  have f: "fresh_ids rs (upsertProbeResult b now r s)"
    by (rule fresh_ids_step [OF Cons.prems(2)]) (use e(6,7) in \<open>simp_all add: x\<close>)
  have "fresh_ids rs s" using Cons.prems(2) by (auto simp: fresh_ids_def)
  then have t: "srv_inv ?t" "fresh_ids rs ?t" "adds_none s ?t"
    using Cons.prems(1) e(1) f adds_none_upsertProbe [OF Cons.prems(1)] by (simp_all add: x light_step_def)
  show ?case using adds_none_trans [OF t(3) Cons.IH [OF t(1,2)]] by simp
qed simp

lemma adds_none_full:
  "srv_inv s \<Longrightarrow> fresh_ids rs s \<Longrightarrow> adds_none s (snd (fold (full_step ignoredSet targets now) rs (n, s)))"
proof (induction rs arbitrary: s n)
  case (Cons x rs)
  obtain r b where x: "x = (r, b)" by fastforce
  obtain m t where t: "full_step ignoredSet targets now x (n, s) = (m, t)" by fastforce
  have fr: "discoveredIdx s (NewID b) = None" "ignoredIdx s (NewID b) = None" using Cons.prems(2) by (auto simp: fresh_ids_def x)
  note e = upsertProbeResult_effect [OF Cons.prems(1) fr, of now r]
  have "t \<in> {s, upsertProbeResult b now r s, SaveLog (upsertProbeResult b now r s)}"
    using t by (auto simp: x full_step_def Let_def split: if_splits)
  moreover have "fresh_ids rs (upsertProbeResult b now r s)"
    by (rule fresh_ids_step [OF Cons.prems(2)]) (use e(6,7) in \<open>simp_all add: x\<close>)
  moreover have "fresh_ids rs (SaveLog (upsertProbeResult b now r s))"
    by (rule fresh_ids_step [OF Cons.prems(2)]) (use e(6,7) in \<open>simp_all add: x\<close>)
  moreover have "fresh_ids rs s" using Cons.prems(2) by (auto simp: fresh_ids_def)
  ultimately have u: "srv_inv t" "fresh_ids rs t" "adds_none s t"
    using Cons.prems(1) e(1) adds_none_upsertProbe [OF Cons.prems(1)] by auto
  show ?case using adds_none_trans [OF u(3) Cons.IH [OF u(1,2)]] by (simp add: t)
qed simp

lemma adds_none_scans:
  assumes s: "srv_inv s" and f: "fresh_ids rs s"
  shows "adds_none s (runScan now done_at rs s)" and "adds_none s (runLightScan now rs s)"
proof -
  let ?g = "full_step (map (\<lambda>ig. iIP ig @ '':'' @ Itoa (iPort ig)) (GetIgnored s)) (assignedTargets s) now"
  note c = ClearNetwork_effect [OF s]
  have ci: "srv_inv (ClearNetworkDiscovered s)" using c(1) by (simp add: scan_keeps_def)
  have fc: "fresh_ids rs (ClearNetworkDiscovered s)"
    using f c(1,3) by (auto simp: fresh_ids_def scan_keeps_def)
  obtain n t where t: "fold ?g rs (0, ClearNetworkDiscovered s) = (n, t)" by fastforce
  have "adds_none s t"
    using adds_none_trans [OF adds_none_ClearNetwork adds_none_full [OF ci fc, where n = 0 and now = now]] t by (metis snd_conv)
  moreover have "adds_none t (SetLastScan done_at t)" by (rule adds_none_frame) (simp_all add: SetLastScan_def)
  ultimately show "adds_none s (runScan now done_at rs s)" using t by (simp add: runScan_def Let_def adds_none_trans)
qed (simp add: runLightScan_def adds_none_light assms)

section \<open>The handlers\<close>

lemma WriteIcon_adds: "WriteIcon i d s = (r, t) \<Longrightarrow> adds_none s t"
  by (auto elim!: WriteIcon_splitE)

lemma createService_adds:
  assumes s: "srv_inv (st s)"
  shows "adds_none (st s) (st (fst (snd (createService http rand8 now rq s))))"
proof (cases "\<exists>w. create_accepts rq (st s) w")
  case True
  then obtain w where w: "create_accepts rq (st s) w" by blast
  let ?v = "created http rand8 now rq w s"
  have k: "knows (st s) (wContainerID w)" if "wContainerID w \<noteq> []"
    using w that discoveredIdx_iff [OF srv_invD(3) [OF s]]
    by (auto simp: create_accepts_def draft_of_def GetDiscoveredByID_def discovered_def Let_def split: if_splits option.splits
        intro!: knows_entry)
  obtain fl g v1 where v1: "v1 \<in> {?v, ?v\<lparr>sIcon := []\<rparr>}" and t: "store_service rq w ?v (st s) =
      (if form rq ''discovered_id'' = [] then insertService v1 ((st s)\<lparr>files := fl\<rparr>)
       else RemoveDiscovered (form rq ''discovered_id'') ((insertService v1 ((st s)\<lparr>files := fl\<rparr>))\<lparr>files := g\<rparr>))"
    by (rule store_service_cases [of ?v rq w "st s"])
  have "sContainerID v1 = wContainerID w" using v1 by auto
  then have i: "adds_none (st s) (insertService v1 ((st s)\<lparr>files := fl\<rparr>))"
    using adds_none_insertService [of "(st s)\<lparr>files := fl\<rparr>" v1] k s by simp
  then have "adds_none (st s) (store_service rq w ?v (st s))"
    unfolding t by (auto intro: adds_none_trans [OF _ adds_none_removals(1)])
  then show ?thesis using createService_accept [OF w, of http rand8 now] by auto
next
  case False
  then show ?thesis using createService_reject [of rq s http rand8 now] by auto
qed

lemma updateService_adds:
  assumes "srv_inv (st s)"
  shows "adds_none (st s) (st (snd (updateService http rq s)))"
  using adds_none_replace [OF assms]
  by (auto simp: updateService_def GetServiceByID_def newService_def alloc_def updated_service_def Let_def
      split: option.split prod.split)

lemma deleteService_adds:
  assumes s: "srv_inv (st s)"
  shows "adds_none (st s) (st (snd (deleteService http rand8 now rq s)))"
proof (cases "idIdx (st s) (pathID rq)")
  case None
  then show ?thesis by (simp add: deleteService_def GetServiceByID_def)
next
  case (Some r)
  let ?t = "snd (DeleteService (pathID rq) (st s))" and ?v = "svcHeap (st s) ! r"
  let ?d = "rediscovered ?v (NewID rand8) now"
  note d = srv_invD [OF s]
  have v: "?v \<in> set (services (st s))" using services_ids [OF d(2) Some] by simp
  have h: "svcHeap ?t = svcHeap (st s)" "discHeap ?t = discHeap (st s)" "Discovered ?t = Discovered (st s)"
    by (simp_all add: DeleteService_def unindexService_def Let_def split: option.split)
  have "knows (st s) (dContainerID ?d)" if "dContainerID ?d \<noteq> []"
    using knows_service [OF v] that by (simp add: rediscovered_def)
  have "adds_none (st s) (insertDiscovered ?d ?t)"
  proof (rule adds_noneI)
    fix u assume u: "u \<in> set (services (insertDiscovered ?d ?t))" "sContainerID u \<noteq> []"
    have "services (insertDiscovered ?d ?t) = services ?t"
      by (simp add: services_def GetAllServices_def insertDiscovered_eq AddDiscovered_def indexDiscovered_def Let_def)
    then have "knows ?t (sContainerID u)" using u knows_service by metis
    then show "knows (st s) (sContainerID u)" using adds_none_DeleteService by (auto simp: adds_none_def)
  next
    fix u assume u: "u \<in> set (discovered (insertDiscovered ?d ?t))" "dContainerID u \<noteq> []"
    then have "u = ?d \<or> u \<in> set (discovered (st s))"
      using disc_invD(2) [OF d(3)] h
      by (auto simp: discovered_def insertDiscovered_eq AddDiscovered_def indexDiscovered_def nth_append Let_def split: if_splits)
    then show "knows (st s) (dContainerID u)" using knows_service [OF v] knows_entry u(2) by (auto simp: rediscovered_def)
  qed
  then show ?thesis
    using Some adds_none_DeleteService [of "st s" "pathID rq"]
    by (auto simp: deleteService_def GetServiceByID_def insertDiscovered_def adds_none_WriteIcon Let_def split: prod.splits)
qed

lemma set_icon_adds: "srv_inv s \<Longrightarrow> idIdx s i = Some r \<Longrightarrow> adds_none s (set_icon icon r s)"
  by (simp add: set_icon_def newService_def alloc_def Let_def adds_none_replace)

lemma applyServiceIcon_adds:
  "srv_inv (st s) \<Longrightarrow> idIdx (st s) i = Some r \<Longrightarrow> adds_none (st s) (st (snd (applyServiceIcon r icon s)))"
  by (simp add: applyServiceIcon_def set_icon_adds)

lemma icon_handlers_add:
  assumes s: "srv_inv (st s)"
  shows "adds_none (st s) (st (snd (uploadServiceIcon rq s)))" and "adds_none (st s) (st (snd (clearServiceIcon rq s)))"
    and "adds_none (st s) (st (snd (pullServiceFavicon fetch rq s)))"
proof -
  have a: "adds_none (st s) (st (snd (applyServiceIcon r icon (x\<lparr>st := (st s)\<lparr>files := f\<rparr>\<rparr>))))"
    if "idIdx (st s) i = Some r" for r i icon f and x :: "'a Server"
    using applyServiceIcon_adds [of "x\<lparr>st := (st s)\<lparr>files := f\<rparr>\<rparr>" i r icon] s that by simp
  show "adds_none (st s) (st (snd (uploadServiceIcon rq s)))" "adds_none (st s) (st (snd (pullServiceFavicon fetch rq s)))"
    unfolding uploadServiceIcon_def pullServiceFavicon_def GetServiceByID_def
    by (auto simp: Let_def a split: option.split prod.split sum.split elim!: WriteIcon_splitE)
  have "\<exists>f. DeleteIcon i (st s) = (st s)\<lparr>files := f\<rparr>" for i using files_cases(2) [of i "st s"] by metis
  then obtain f where "DeleteIcon (pathID rq) (st s) = (st s)\<lparr>files := f\<rparr>" by blast
  then show "adds_none (st s) (st (snd (clearServiceIcon rq s)))"
    using a [where i = "pathID rq" and icon = "[]" and f = f and x = s] by (auto simp: clearServiceIcon_def GetServiceByID_def on_store_def split: option.split)
qed

lemma fetches_add:
  assumes s: "srv_inv (st s)"
  shows "adds_none (st s) (st (fetchServiceIcon fetch i s))" and "adds_none (st s) (st (fetchBookmarkFavicon fetch i s))"
    and "adds_none (st s) (st (fetchAndStoreDiscoveredFavicon fetch i target s))"
proof -
  obtain ok t where t: "FetchAndWriteFavicon fetch i s = (ok, t)" by fastforce
  obtain f where f: "st t = (st s)\<lparr>files := f\<rparr>" using FetchAndWriteFavicon_st [OF t] by blast
  have ti: "srv_inv (st t)" "adds_none (st s) (st t)" using s f by simp_all
  show "adds_none (st s) (st (fetchServiceIcon fetch i s))"
    using t ti(2) adds_none_trans [OF ti(2) adds_none_replace [OF ti(1)]]
    by (auto simp: fetchServiceIcon_def GetServiceByID_def newService_def alloc_def Let_def split: bool.split option.split)
  have b: "adds_none u (snd (UpdateBookmark i q (u\<lparr>bmHeap := h\<rparr>)))" for u q h
    by (rule adds_none_frame) simp_all
  show "adds_none (st s) (st (fetchBookmarkFavicon fetch i s))"
    using t ti(2) adds_none_trans [OF ti(2) b]
    by (auto simp: fetchBookmarkFavicon_def newBookmark_def alloc_def Let_def split: bool.split option.split)
  have "adds_none (st s) (UpdateDiscoveredIcon i icon ((st s)\<lparr>files := g\<rparr>))" for icon g
    using adds_none_UpdateDiscoveredIcon [of "(st s)\<lparr>files := g\<rparr>"] by simp
  then show "adds_none (st s) (st (fetchAndStoreDiscoveredFavicon fetch i target s))"
    by (auto simp: fetchAndStoreDiscoveredFavicon_def Let_def split: prod.split sum.split elim!: WriteIcon_splitE)
qed

lemma bookmark_handlers_add:
  "adds_none (st s) (st (fst (snd (createBookmark rand8 rq s))))" "adds_none (st s) (st (fst (snd (updateBookmark rq s))))"
  "adds_none (st s) (st (snd (deleteBookmark rq s)))"
proof -
  have i: "adds_none u (insertBookmark v u)" for u v
    by (rule adds_none_frame) (simp_all add: insertBookmark_eq)
  show "adds_none (st s) (st (fst (snd (createBookmark rand8 rq s))))" by (simp add: createBookmark_def Let_def i)
  have b: "adds_none u (snd (UpdateBookmark i q (u\<lparr>bmHeap := h\<rparr>)))" for u q h i
    by (rule adds_none_frame) simp_all
  show "adds_none (st s) (st (fst (snd (updateBookmark rq s))))"
    using b by (auto simp: updateBookmark_def newBookmark_def alloc_def Let_def split: prod.split) (metis snd_conv)+
  have "adds_none u (snd (DeleteBookmark i u))" for u i by (rule adds_none_frame) simp_all
  then show "adds_none (st s) (st (snd (deleteBookmark rq s)))"
    by (auto simp: deleteBookmark_def adds_none_WriteIcon split: prod.split bool.split) (metis snd_conv)+
qed

lemma discovery_handlers_add:
  assumes s: "srv_inv (st s)"
  shows "adds_none (st s) (st (snd (deleteDiscovered rq s)))" and "adds_none (st s) (st (snd (ignoreDiscovered now rq s)))"
    and "adds_none (st s) (st (snd (unignoreService now rq s)))"
proof -
  show "adds_none (st s) (st (snd (deleteDiscovered rq s)))" by (simp add: deleteDiscovered_def adds_none_removals)
  show "adds_none (st s) (st (snd (ignoreDiscovered now rq s)))"
    using adds_none_removals(2) [of "st s" "pathID rq" now]
    by (cases "IgnoreDiscovered (pathID rq) now (st s)") (simp add: ignoreDiscovered_def split: sum.split)
  let ?t = "snd (UnignoreService (pathID rq) (st s))"
  have "adds_none ?t (insertDiscovered (unignored ig now) ?t)" for ig
    by (rule adds_none_insertDiscovered [OF srv_inv_Unignore [OF s]]) (simp add: unignored_def)
  then have "adds_none (st s) (insertDiscovered (unignored ig now) ?t)" for ig
    using adds_none_trans [OF adds_none_removals(3)] by blast
  then show "adds_none (st s) (st (snd (unignoreService now rq s)))"
    using adds_none_removals(3) [of "st s" "pathID rq"]
    by (cases "UnignoreService (pathID rq) (st s)") (simp add: unignoreService_def split: sum.split)
qed

lemma settings_add:
  "adds_none (st s) (st (snd (addScanSubnet valid rq s)))" "adds_none (st s) (st (snd (removeScanSubnet rq s)))"
  "adds_none (st s) (st (snd (addDDNS http rq s)))" "adds_none (st s) (st (snd (removeDDNS http rq s)))"
  "adds_none (st s) (st (checkAndUpdate http ipify s))"
  "adds_none (st s) (st (snd (reorderHandler ReorderServices ids s)))"
  "adds_none (st s) (st (snd (reorderHandler ReorderBookmarks ids s)))"
proof -
  have k: "adds_none u (u\<lparr>DDNSDomains := x\<rparr>)" "adds_none u (u\<lparr>ScanSubnets := x\<rparr>)" "adds_none u (u\<lparr>PublicIP := p\<rparr>)" for u x p
    by (rule adds_none_frame; simp)+
  show "adds_none (st s) (st (snd (addScanSubnet valid rq s)))" "adds_none (st s) (st (snd (removeScanSubnet rq s)))"
    "adds_none (st s) (st (snd (addDDNS http rq s)))" "adds_none (st s) (st (snd (removeDDNS http rq s)))"
    "adds_none (st s) (st (checkAndUpdate http ipify s))"
    by (auto simp: addScanSubnet_def removeScanSubnet_def AddScanSubnet_def RemoveScanSubnet_def addDDNS_def removeDDNS_def
        AddDDNSDomain_def RemoveDDNSDomain_def checkAndUpdate_def SetPublicIP_def k Let_def split: prod.split sum.split option.split)
qed (simp_all add: reorderHandler_def adds_none_reorder split: option.split)

section \<open>The events of the Docker daemon\<close>

lemma knows_services: "svc_inv s \<Longrightarrow> v \<in> set (services s) \<longleftrightarrow> (\<exists>k. serviceByID s k = Some v)"
  by (auto simp: serviceByID_iff)

lemma discovered_frame: "Discovered t = Discovered s \<Longrightarrow> discHeap t = discHeap s \<Longrightarrow> discovered t = discovered s"
  by (simp add: discovered_def)

lemma discovered_insert:
  assumes "disc_inv s"
  shows "set (discovered (insertDiscovered v s)) \<subseteq> insert v (set (discovered s))"
proof -
  have "r < length (discHeap s)" if "r \<in> set (Discovered s)" for r using disc_invD(2) [OF assms that] by simp
  then show ?thesis
    by (auto simp: insertDiscovered_def newDiscovered_def AddDiscovered_def indexDiscovered_def alloc_def discovered_def
        nth_append Let_def split: if_splits)
qed

lemma discovered_reattach: "discovered (st (reattach i n target r s)) = discovered (st s)"
proof (rule discovered_frame)
  show "Discovered (st (reattach i n target r s)) = Discovered (st s)" "discHeap (st (reattach i n target r s)) = discHeap (st s)"
    by (simp_all add: reattach_def on_store_def newService_def alloc_def UpdateService_def indexService_def unindexService_def Let_def
        split: option.split)
qed

lemma knows_upsert:
  assumes s: "srv_inv (st s)" and i: "i \<noteq> []"
    and fr: "discoveredIdx (st s) (NewID rand8) = None" "ignoredIdx (st s) (NewID rand8) = None"
    and u: "upsertContainerWithLabels get rand8 now i name ports ls s = (s', f)"
    and k: "knows (st s') j" and ji: "j \<noteq> i"
  shows "knows (st s) j"
proof -
  note e = upsert_effect [OF s i fr u]
  note inv = srv_invD(2) [OF s] and inv' = srv_invD(2) [OF e [THEN conjunct1]]
  have sv: "\<exists>w \<in> set (services (st s)). sContainerID w = j" if v: "v \<in> set (services (st s'))" "sContainerID v = j" for v
  proof -
    obtain m where "serviceByID (st s') m = Some v" using knows_services [OF inv', THEN iffD1, OF v(1)] ..
    moreover have "serviceByID (st s') m = serviceByID (st s) m \<or> (\<exists>w n t. serviceByID (st s') m = Some (reattached i n t w))"
      using e by blast
    ultimately have "serviceByID (st s) m = Some v" using v(2) ji by (auto simp: reattached_def)
    then have "v \<in> set (services (st s))" using knows_services [OF inv, of v] by blast
    with v(2) show ?thesis by blast
  qed
  have dv: "d \<in> set (discovered (st s)) \<or> dContainerID d = i" if "d \<in> set (discovered (st s'))" for d
    using u
  proof (cases rule: upsert_cases)
    case (4 info w)
    have "s' = s\<lparr>world := w\<rparr> \<or>
        st s' = SaveLog (insertDiscovered (docker_entry (NewID rand8) i (ciName info) (ciTarget info) (ciSubdomain info) now) (st s))"
      using 4(4) by (auto simp: addDockerDiscovered_def on_store_def split: if_splits)
    moreover have "dContainerID (docker_entry (NewID rand8) i n t b now) = i" for n t b by (simp add: docker_entry_def)
    ultimately show ?thesis
      using that subsetD [OF discovered_insert [OF srv_invD(3) [OF s],
          of "docker_entry (NewID rand8) i (ciName info) (ciTarget info) (ciSubdomain info) now"], of d] by auto
  qed (use that in \<open>simp_all add: discovered_reattach\<close>)
  from k show ?thesis using sv dv ji by (auto simp: knows_def)
qed

lemma knows_detach:
  assumes s: "srv_inv (st s)" and i: "i \<noteq> []" and k: "knows (st (detachContainer i s)) j"
  shows "knows (st s) j \<and> j \<noteq> i"
proof -
  note e = detachContainer_effect [OF s i]
  note d = srv_invD [OF s] and d' = srv_invD [OF e(1)]
  have sv: "\<exists>w \<in> set (services (st s)). sContainerID w = j \<and> j \<noteq> i"
    if v: "v \<in> set (services (st (detachContainer i s)))" "sContainerID v = j" "j \<noteq> []" for v
  proof -
    obtain m where "serviceByID (st (detachContainer i s)) m = Some v" using knows_services [OF d'(2), THEN iffD1, OF v(1)] ..
    then have "map_option (detached i) (serviceByID (st s) m) = Some v" by (simp only: e(2))
    then obtain w where "serviceByID (st s) m = Some w" "v = detached i w" by (cases "serviceByID (st s) m") simp_all
    then have "w \<in> set (services (st s))" "sContainerID w = j \<and> j \<noteq> i"
      using v(2,3) knows_services [OF d(2), of w] by (auto simp: detached_def split: if_splits)
    then show ?thesis by blast
  qed
  have dv: "q \<in> set (discovered (st s)) \<and> dContainerID q \<noteq> i" if "q \<in> set (discovered (st (detachContainer i s)))" for q
  proof -
    have "discoveredByID (st (detachContainer i s)) (dID q) = Some q"
      using that by (simp add: discoveredByID_iff [OF d'(3)])
    then show ?thesis
      using e(3) [of "dID q"] by (auto simp: discoveredByID_iff [OF d(3)] split: option.splits if_splits)
  qed
  from k show ?thesis using sv dv by (auto simp: knows_def)
qed

lemma adds_none_detach: "srv_inv (st s) \<Longrightarrow> i \<noteq> [] \<Longrightarrow> adds_none (st s) (st (detachContainer i s))"
  using knows_detach by (auto simp: adds_none_def)

text \<open>Only the events of Docker's daemon make a container known.\<close>

fun from_daemon :: "event \<Rightarrow> bool" where
  "from_daemon (EvContainer rand8 now i name ports ls) \<longleftrightarrow> True"
| "from_daemon _ \<longleftrightarrow> False"

lemmas handlers_add = createService_adds updateService_adds deleteService_adds icon_handlers_add fetches_add
  bookmark_handlers_add discovery_handlers_add settings_add

lemma handle_adds:
  assumes "srv_inv (st s)" and "admissible ev (st s)" and "\<not> from_daemon ev"
  shows "adds_none (st s) (st (handle e ev s))"
  using assms by (cases ev) (simp_all add: handlers_add adds_none_scans adds_none_detach del: admissible.simps(1,2,3))

end
