(* ===== verification/Watch.thy ===== *)
theory Watch
  imports Containers
begin

text \<open>
  \<open>DockerWatch\<close> (\<open>internal/discovery/docker.go\<close>) beside the daemon that it watches: the
  containers that run, the subscription with its queue of events, and the server.  The
  watcher lists the containers once, subscribes, handles one event at a time, and
  subscribes anew ten seconds after an error of the stream; what happens while it is not
  subscribed it never hears of.
\<close>

section \<open>The watcher and the daemon\<close>

datatype message = Started string | Gone string string

fun gone_action :: "string \<Rightarrow> bool" where
  "gone_action a \<longleftrightarrow> a \<in> {''die'', ''stop'', ''destroy'', ''kill''}"

record 'w watch =
  wserver :: "'w Server"
  up :: "string set"
  subscribed :: bool
  queue :: "message list"

definition post :: "message \<Rightarrow> 'w watch \<Rightarrow> 'w watch" where
  "post m w = (if subscribed w then w\<lparr>queue := queue w @ [m]\<rparr> else w)"

text \<open>
  The loop of \<open>DockerWatch\<close> once it is subscribed; the list it reads before is in
  \<open>Loops.DockerWatch\<close>.  \<open>handle_start\<close> and \<open>handle_gone\<close> are the handling of the next
  event; \<open>broken\<close>, below, is an error on the stream, whose queue is lost; \<open>elsewhere\<close> is
  anything else that the program does meanwhile.
\<close>

inductive watch_step :: "'w env \<Rightarrow> 'w watch \<Rightarrow> 'w watch \<Rightarrow> bool" for e where
  container_up: "i \<noteq> [] \<Longrightarrow> watch_step e w (post (Started i) (w\<lparr>up := insert i (up w)\<rparr>))"
| container_down: "i \<noteq> [] \<Longrightarrow> gone_action a \<Longrightarrow> watch_step e w (post (Gone a i) (w\<lparr>up := up w - {i}\<rparr>))"
| handle_start: "queue w = Started i # q \<Longrightarrow> insp = None \<or> (\<exists>nm pm ls. insp = Some (i, nm, pm, ls)) \<Longrightarrow>
    fresh_entry rand8 (st (wserver w)) \<Longrightarrow>
    watch_step e w (w\<lparr>queue := q, wserver := handleDockerEvent (eGet e) rand8 now ''start'' i insp (wserver w)\<rparr>)"
| handle_gone: "queue w = Gone a i # q \<Longrightarrow>
    watch_step e w (w\<lparr>queue := q, wserver := handleDockerEvent (eGet e) rand8 now a i insp (wserver w)\<rparr>)"
| elsewhere: "\<not> from_daemon ev \<Longrightarrow> admissible ev (st (wserver w)) \<Longrightarrow>
    watch_step e w (w\<lparr>wserver := handle e ev (wserver w)\<rparr>)"

inductive reconnect_step :: "'w watch \<Rightarrow> 'w watch \<Rightarrow> bool" where
  broken: "subscribed w \<Longrightarrow> reconnect_step w (w\<lparr>subscribed := False, queue := []\<rparr>)"
| subscribe: "\<not> subscribed w \<Longrightarrow> reconnect_step w (w\<lparr>subscribed := True\<rparr>)"

inductive_cases watch_stepE: "watch_step e w w'"

abbreviation watch_run :: "'w env \<Rightarrow> 'w watch \<Rightarrow> 'w watch \<Rightarrow> bool" where
  "watch_run e \<equiv> (watch_step e)\<^sup>*\<^sup>*"

section \<open>While the stream holds\<close>

text \<open>
  Whether a container will be known once the queue is handled, at most: a start may make it
  known, the end of the container makes it unknown.
\<close>

fun after :: "string \<Rightarrow> message \<Rightarrow> bool \<Rightarrow> bool" where
  "after i (Started j) k \<longleftrightarrow> k \<or> j = i"
| "after i (Gone a j) k \<longleftrightarrow> k \<and> j \<noteq> i"

definition expected :: "'w watch \<Rightarrow> string \<Rightarrow> bool" where
  "expected w i = fold (after i) (queue w) (knows (st (wserver w)) i)"

fun proper :: "message \<Rightarrow> bool" where
  "proper (Started i) \<longleftrightarrow> i \<noteq> []"
| "proper (Gone a i) \<longleftrightarrow> i \<noteq> [] \<and> gone_action a"

definition watch_ok :: "'w watch \<Rightarrow> bool" where
  "watch_ok w \<longleftrightarrow> srv_inv (st (wserver w)) \<and> subscribed w \<and> list_all proper (queue w) \<and> (\<forall>i. expected w i \<longrightarrow> i \<in> up w)"

lemma after_mono: "(k \<longrightarrow> k') \<Longrightarrow> after i m k \<longrightarrow> after i m k'"
  by (cases m) auto

lemma fold_after_mono: "(k \<longrightarrow> k') \<Longrightarrow> fold (after i) ms k \<longrightarrow> fold (after i) ms k'"
proof (induction ms arbitrary: k k')
  case (Cons m ms)
  then show ?case using Cons.IH [OF after_mono [OF Cons.prems]] by simp
qed simp

lemma handle_start_effect:
  assumes s: "srv_inv (st s)" and i: "i \<noteq> []"
    and fr: "discoveredIdx (st s) (NewID rand8) = None" "ignoredIdx (st s) (NewID rand8) = None"
    and insp: "insp = None \<or> (\<exists>nm pm ls. insp = Some (i, nm, pm, ls))"
  shows "srv_inv (st (handleDockerEvent get rand8 now ''start'' i insp s)) \<and>
    (knows (st (handleDockerEvent get rand8 now ''start'' i insp s)) j \<longrightarrow> after j (Started i) (knows (st s) j))"
proof (cases "handleDockerEvent get rand8 now ''start'' i insp s = s")
  case True
  then show ?thesis using s by simp
next
  case False
  then obtain nm pm ls where u: "handleDockerEvent get rand8 now ''start'' i insp s =
      fst (upsertContainerWithLabels get rand8 now i (TrimPrefix nm ''/'') (portsFromNetwork pm) ls s)"
    using insp by (auto simp: handleDockerEvent_def Let_def split: if_splits)
  obtain s' f where r: "upsertContainerWithLabels get rand8 now i (TrimPrefix nm ''/'') (portsFromNetwork pm) ls s = (s', f)"
    by fastforce
  show ?thesis using upsert_effect [OF s i fr r] knows_upsert [OF s i fr r, of j] by (auto simp: u r)
qed

lemma handle_gone_effect:
  assumes s: "srv_inv (st s)" and p: "proper (Gone a i)"
  shows "srv_inv (st (handleDockerEvent get rand8 now a i insp s)) \<and>
    (knows (st (handleDockerEvent get rand8 now a i insp s)) j \<longrightarrow> after j (Gone a i) (knows (st s) j))"
proof -
  have e: "handleDockerEvent get rand8 now a i insp s = detachContainer i s"
    using p by (auto simp: handleDockerEvent_def)
  have i: "i \<noteq> []" using p by simp
  show ?thesis using detachContainer_effect(1) [OF s i] knows_detach [OF s i, of j] by (auto simp: e)
qed

lemma watch_ok_step:
  assumes w: "watch_ok w" and st: "watch_step e w w'"
  shows "watch_ok w'"
  using st
proof (cases rule: watch_step.cases)
  case (container_up i)
  with w show ?thesis by (auto simp: watch_ok_def post_def expected_def)
next
  case (container_down i a)
  with w show ?thesis by (auto simp: watch_ok_def post_def expected_def)
next
  case (handle_start i q insp rand8 now)
  let ?s' = "handleDockerEvent (eGet e) rand8 now ''start'' i insp (wserver w)"
  have i: "i \<noteq> []" "srv_inv (st (wserver w))" using w handle_start(2) by (simp_all add: watch_ok_def)
  have fr: "discoveredIdx (st (wserver w)) (NewID rand8) = None" "ignoredIdx (st (wserver w)) (NewID rand8) = None"
    using handle_start(4) by (simp_all add: fresh_entry_def)
  note k = handle_start_effect [OF i(2,1) fr handle_start(3), of "eGet e" now]
  have "expected w' j \<longrightarrow> expected w j" for j
    using fold_after_mono [of "knows (st ?s') j" "after j (Started i) (knows (st (wserver w)) j)" j q] k
    by (simp add: expected_def handle_start(1,2))
  then show ?thesis using w k handle_start(1,2) by (simp add: watch_ok_def)
next
  case (handle_gone a i q rand8 now insp)
  let ?s' = "handleDockerEvent (eGet e) rand8 now a i insp (wserver w)"
  have p: "proper (Gone a i)" "srv_inv (st (wserver w))" using w handle_gone(2) by (simp_all add: watch_ok_def)
  note k = handle_gone_effect [OF p(2,1), of "eGet e" rand8 now insp]
  have "expected w' j \<longrightarrow> expected w j" for j
    using fold_after_mono [of "knows (st ?s') j" "after j (Gone a i) (knows (st (wserver w)) j)" j q] k
    by (simp add: expected_def handle_gone(1,2))
  then show ?thesis using w k handle_gone(1,2) by (simp add: watch_ok_def)
next
  case (elsewhere ev)
  have i: "srv_inv (st (wserver w))" using w by (simp add: watch_ok_def)
  have "expected w' j \<longrightarrow> expected w j" for j
    using fold_after_mono [of "knows (st (handle e ev (wserver w))) j" "knows (st (wserver w)) j" j "queue w"]
      handle_adds [OF i elsewhere(3,2), of e] elsewhere(1)
    by (simp add: expected_def adds_none_def)
  then show ?thesis using w elsewhere(1) handle_keeps [OF i elsewhere(3), of e] by (simp add: watch_ok_def)
qed

interpretation watching: kept "watch_step e" watch_ok for e
  by unfold_locales (rule watch_ok_step)

text \<open>
  While the stream holds and whenever all events are handled, every container that a service
  or a discovered entry points to is running.
\<close>

lemma watch_known_running:
  assumes "watch_run e w w'" and "watch_ok w" and "queue w' = []" and "knows (st (wserver w')) i"
  shows "i \<in> up w'"
  using watching.always [OF assms(1,2)] assms(3,4) by (simp add: watch_ok_def expected_def)

text \<open>
  After an error of the stream nothing is listed again: a container that stops before the new
  subscription stays known, with no event left that would remove it.
\<close>

lemma missed_stop:
  assumes "subscribed w" and "knows (st (wserver w)) i"
  shows "\<exists>w1 w2 w3. reconnect_step w w1 \<and> watch_step e w1 w2 \<and> reconnect_step w2 w3 \<and>
    subscribed w3 \<and> queue w3 = [] \<and> i \<notin> up w3 \<and> knows (st (wserver w3)) i"
proof -
  let ?w1 = "w\<lparr>subscribed := False, queue := []\<rparr>"
  let ?w2 = "post (Gone ''die'' i) (?w1\<lparr>up := up w - {i}\<rparr>)"
  have i: "i \<noteq> []" using assms(2) by (simp add: knows_def)
  have "watch_step e ?w1 ?w2" using container_down [OF i, of "''die''" e ?w1] by simp
  moreover have "reconnect_step w ?w1" by (rule broken [OF assms(1)])
  moreover have "reconnect_step ?w2 (?w2\<lparr>subscribed := True\<rparr>)" by (rule subscribe) (simp add: post_def)
  ultimately show ?thesis using assms(2)
    by (intro exI [of _ ?w1] exI [of _ ?w2] exI [of _ "?w2\<lparr>subscribed := True\<rparr>"]) (simp add: post_def)
qed

text \<open>Any signal sent with \<open>docker kill\<close> is such an event, although the container may keep running.\<close>

lemma signal_detaches:
  assumes "srv_inv (st s)" and "i \<noteq> []"
  shows "\<not> knows (st (handleDockerEvent get rand8 now ''kill'' i insp s)) i"
  using knows_detach [OF assms, of i] by (auto simp: handleDockerEvent_def)

end
