(* ===== verification/Loops.thy ===== *)
theory Loops
  imports System HealthCheck Startup Watch
begin

text \<open>
  The goroutines that \<open>main\<close> starts: \<open>DockerWatch\<close>, \<open>ScheduledScan\<close>, \<open>StartHealthChecker\<close>,
  \<open>RenewLoop\<close> and \<open>Run\<close> of \<open>internal/ddns\<close>.  Each is a loop over what its \<open>select\<close> receives:
  a list of ticks or events that may end with the cancellation of the context.  What they do
  to the program is a run of the events of \<open>System\<close>.
\<close>

section \<open>Tickers\<close>

datatype 'a signal = Tick 'a | CtxDone

fun ticker :: "('a \<Rightarrow> 's \<Rightarrow> 's) \<Rightarrow> 'a signal list \<Rightarrow> 's \<Rightarrow> 's" where
  "ticker f [] s = s"
| "ticker f (Tick a # ts) s = ticker f ts (f a s)"
| "ticker f (CtxDone # ts) s = s"

fun ticks :: "'a signal list \<Rightarrow> 'a list" where
  "ticks [] = []"
| "ticks (Tick a # ts) = a # ticks ts"
| "ticks (CtxDone # ts) = []"

lemma ticker_fold: "ticker f ts s = fold f (ticks ts) s"
  by (induction f ts s rule: ticker.induct) simp_all

text \<open>\<open>Run\<close>: a check at the start and one at every tick.\<close>

definition ddns_Run :: "'w http \<Rightarrow> ('w \<Rightarrow> string option \<times> 'w) \<Rightarrow> unit signal list \<Rightarrow> 'w Server \<Rightarrow> 'w Server" where
  "ddns_Run http ipify ts s = ticker (\<lambda>_. checkAndUpdate http ipify) ts (checkAndUpdate http ipify s)"

text \<open>
  \<open>StartHealthChecker\<close>: a tick brings the answers, the order in which they end and the
  store at that time.
\<close>

type_synonym health_tick = "(string \<Rightarrow> string \<Rightarrow> bool) \<times> (string \<times> string) list \<times> store"

definition health_round_of :: "health_tick \<Rightarrow> health \<Rightarrow> health" where
  "health_round_of t h = (case t of (reach, order, s) \<Rightarrow> checkHealth reach order s h)"

definition StartHealthChecker :: "health_tick \<Rightarrow> health_tick signal list \<Rightarrow> health \<Rightarrow> health" where
  "StartHealthChecker first ts h = ticker health_round_of ts (health_round_of first h)"

text \<open>\<open>RenewLoop\<close> never ends; it has run for as many ticks as the list has.\<close>

definition RenewLoop :: "'w pki \<Rightarrow> time list \<Rightarrow> 'w CertManager \<Rightarrow> 'w CertManager" where
  "RenewLoop p nows m = fold (renew_tick p) nows m"

text \<open>
  \<open>ScheduledScan\<close>: \<open>None\<close> is the panic of \<open>time.NewTicker\<close> for an interval that is not
  positive.  A tick brings the flag \<open>scanning\<close>, the results of the light scan with its time, and
  the time at which it has ended.
\<close>

type_synonym scan_tick = "bool \<times> time \<times> (probeResult \<times> nat list) list \<times> time"

definition scan_turn :: "time \<Rightarrow> scan_tick \<Rightarrow> 'w Server \<times> time \<Rightarrow> 'w Server \<times> time" where
  "scan_turn interval t sn = (case (t, sn) of ((skip, now, results, done_at), (s, next_scan)) \<Rightarrow>
     (if \<not> skip then on_store (runLightScan now results) s else s, done_at + interval))"

definition ScheduledScan :: "time \<Rightarrow> time \<Rightarrow> scan_tick signal list \<Rightarrow> 'w Server \<Rightarrow> ('w Server \<times> time) option" where
  "ScheduledScan interval started_at ts s =
    (if interval \<le> 0 then None else Some (ticker (scan_turn interval) ts (s, started_at + interval)))"

section \<open>The Docker watcher\<close>

text \<open>
  What the \<open>select\<close> of \<open>DockerWatch\<close> receives: an event with what its handling needs, an
  error of the stream (\<open>True\<close> if the context ends before the ten seconds have passed), the end of
  the message channel or of the context.
\<close>

datatype docker_signal =
    DockerMessage "nat list" time string string
      "(string \<times> string \<times> ((string \<times> string) \<times> string list) list \<times> labels) option"
  | StreamError bool
  | MessagesClosed
  | WatchDone

fun docker_loop :: "'w get \<Rightarrow> docker_signal list \<Rightarrow> 'w Server \<Rightarrow> 'w Server" where
  "docker_loop get [] s = s"
| "docker_loop get (WatchDone # es) s = s"
| "docker_loop get (MessagesClosed # es) s = s"
| "docker_loop get (StreamError stop # es) s = (if stop then s else docker_loop get es s)"
| "docker_loop get (DockerMessage rand8 now action actor insp # es) s =
    docker_loop get es (handleDockerEvent get rand8 now action actor insp s)"

text \<open>No client or no answer to the ping ends it; the list of containers may fail.\<close>

definition DockerWatch ::
  "'w get \<Rightarrow> bool \<Rightarrow> bool \<Rightarrow> time \<Rightarrow> (container \<times> nat list) list option \<Rightarrow> docker_signal list \<Rightarrow> 'w Server \<Rightarrow> 'w Server" where
  "DockerWatch get client ping now listing es s =
    (if \<not> client \<or> \<not> ping then s
     else docker_loop get es (case listing of None \<Rightarrow> s | Some cs \<Rightarrow> syncContainers get now cs s))"

section \<open>The loops as runs of the program\<close>

lemma run_append: "run e (a @ b) s = run e b (run e a s)"
  by (induction a arbitrary: s) simp_all

lemma ddns_Run_events:
  "ddns_Run (eHTTP e) (eIPify e) ts s = run e (replicate (Suc (length (ticks ts))) EvCheckAddress) s"
proof -
  have "fold (\<lambda>_. checkAndUpdate (eHTTP e) (eIPify e)) us t = run e (replicate (length us) EvCheckAddress) t" for us :: "unit list" and t
    by (induction us arbitrary: t) simp_all
  then show ?thesis by (simp add: ddns_Run_def ticker_fold)
qed

definition scan_events :: "scan_tick list \<Rightarrow> event list" where
  "scan_events us = List.map_filter (\<lambda>(skip, now, rs, _). if skip then None else Some (EvLightScan now rs)) us"

lemma ScheduledScan_events:
  assumes "0 < interval"
  shows "map_option fst (ScheduledScan interval started_at ts s) = Some (run e (scan_events (ticks ts)) s)"
proof -
  have "fst (fold (scan_turn interval) us (t, n)) = run e (scan_events us) t" for us t n
  proof (induction us arbitrary: t n)
    case Nil
    then show ?case by (simp add: scan_events_def map_filter_simps)
  next
    case (Cons u us)
    obtain skip now rs da where u: "u = (skip, now, rs, da)" by (metis prod.exhaust)
    show ?case using Cons by (simp add: u scan_turn_def scan_events_def map_filter_simps)
  qed
  then show ?thesis using assms by (simp add: ScheduledScan_def ticker_fold)
qed

text \<open>The next scan shown is one interval after the last turn.\<close>

lemma ScheduledScan_next:
  "0 < interval \<Longrightarrow> map_option snd (ScheduledScan interval started_at ts s) =
    Some ((case ticks ts of [] \<Rightarrow> started_at | us \<Rightarrow> snd (snd (snd (last us)))) + interval)"
proof -
  have "snd (fold (scan_turn interval) us sn) = (case us of [] \<Rightarrow> snd sn | _ \<Rightarrow> snd (snd (snd (last us))) + interval)" for us sn
    by (induction us rule: rev_induct) (auto simp: scan_turn_def split: prod.splits list.splits)
  from this [of "ticks ts" "(s, started_at + interval)"]
  show "0 < interval \<Longrightarrow> ?thesis" by (simp add: ScheduledScan_def ticker_fold split: list.splits)
qed

text \<open>
  A configuration with \<open>SCAN_INTERVAL\<close> zero or negative is accepted and makes the goroutine
  panic, which ends the program.
\<close>

lemma interval_panic:
  assumes "getenv ''SCAN_INTERVAL'' \<noteq> []" and "parseDuration (getenv ''SCAN_INTERVAL'') = Some d" and "d \<le> 0"
    and "getenv ''SCAN_TIMEOUT_MS'' = []"
  shows "\<exists>c. Load getenv parseDuration = Inr c \<and> ScheduledScan (ScanInterval c) now ts s = None"
  using assms by (auto simp: Load_def ScheduledScan_def)

lemma RenewLoop_serves: "mcert m \<noteq> None \<Longrightarrow> mcert (RenewLoop p nows m) \<noteq> None"
  unfolding RenewLoop_def by (induction nows arbitrary: m) (simp_all add: renew_tick_serves del: not_None_eq)

text \<open>
  After any number of rounds the status is that of the last store that had services: an ID
  has one exactly if that store has a service with it that is not skipped.
\<close>

lemma StartHealthChecker_last:
  assumes "ticks ts = us @ [(reach, order, s)]" and "svc_inv s" and "mset order = mset (health_targets s)" and "services s \<noteq> []"
    and "v \<in> set (services s)"
  shows "StartHealthChecker first ts h (sID v) =
    (if sSkipHealth v then None else Some (if reach (sID v) (sTarget v) then healthUp else healthDown))"
  using checkHealth_result(1) [OF assms(2-5)] by (simp add: StartHealthChecker_def ticker_fold assms(1) health_round_of_def)

text \<open>When the last service is deleted the old status stays: the round returns before it is cleared.\<close>

lemma health_stale: "services s = [] \<Longrightarrow> checkHealth reach order s h = h"
  by (simp add: checkHealth_def services_def)

text \<open>Without a Docker socket nothing changes.\<close>

lemma DockerWatch_unavailable: "\<not> client \<or> \<not> ping \<Longrightarrow> DockerWatch get client ping now listing es s = s"
  by (simp add: DockerWatch_def)

end
