(* ===== verification/GoTime.thy ===== *)
theory GoTime
  imports GoStrings
begin

text \<open>
  What the code prints of times and percentages: \<open>time.Duration.String\<close> of Go's standard
  library, and the characters outside ASCII that the messages use.
\<close>

text \<open>
  \<open>time.Duration.String\<close>: hours, minutes and seconds with their fraction; below a second the
  largest unit of milliseconds, microseconds and nanoseconds that fits.
\<close>

primrec fmtFrac :: "nat \<Rightarrow> nat \<Rightarrow> bool \<Rightarrow> string \<Rightarrow> string \<times> nat" where
  "fmtFrac 0 v printing buf = (if printing then CHR ''.'' # buf else buf, v)"
| "fmtFrac (Suc prec) v printing buf =
    (let pr = printing \<or> v mod 10 \<noteq> 0
     in fmtFrac prec (v div 10) pr (if pr then digit_char (v mod 10) # buf else buf))"

definition with_frac :: "nat \<Rightarrow> nat \<Rightarrow> string \<Rightarrow> string" where
  "with_frac prec v unit_name = (case fmtFrac prec v False unit_name of (buf, w) \<Rightarrow> nat_digits w @ buf)"

definition Duration_String :: "time \<Rightarrow> string" where
  "Duration_String d =
    (let u = nat \<bar>d\<bar>;
         abs_string =
           (if u = 0 then ''0s''
            else if u < 1000 then nat_digits u @ ''ns''
            else if u < 1000000 then with_frac 3 u [CHR 0xC2, CHR 0xB5, CHR ''s'']
            else if u < 1000000000 then with_frac 6 u ''ms''
            else case fmtFrac 9 u False ''s'' of (buf, secs) \<Rightarrow>
              (let buf = nat_digits (secs mod 60) @ buf; mins = secs div 60
               in if mins = 0 then buf
                  else let buf = nat_digits (mins mod 60) @ ''m'' @ buf; hours = mins div 60
                       in if hours = 0 then buf else nat_digits hours @ ''h'' @ buf))
     in (if d < 0 then ''-'' else []) @ abs_string)"

lemma fmtFrac_numeral [simp]:
  "fmtFrac (numeral k) v printing buf =
    (let pr = printing \<or> v mod 10 \<noteq> 0
     in fmtFrac (pred_numeral k) (v div 10) pr (if pr then digit_char (v mod 10) # buf else buf))"
  unfolding numeral_eq_Suc [of k] by (rule fmtFrac.simps(2))

lemma Duration_String_day: "Duration_String (24 * 60 * 60 * 1000000000) = ''24h0m0s''"
  by (simp add: Duration_String_def nat_digits.simps digit_char_def char_of_def bit_0 Let_def)

lemma Duration_String_fraction: "Duration_String 90500000000 = ''1m30.5s''"
  by (simp add: Duration_String_def nat_digits.simps digit_char_def char_of_def bit_0 Let_def)

text \<open>UTF-8 for the characters of the messages that are not ASCII.\<close>

definition ellipsis :: string where
  "ellipsis = [CHR 0xE2, CHR 0x80, CHR 0xA6]"

definition times_sign :: string where
  "times_sign = [CHR 0xC3, CHR 0x97]"

definition arrow :: string where
  "arrow = [CHR 0xE2, CHR 0x86, CHR 0x92]"

definition em_dash :: string where
  "em_dash = [CHR 0xE2, CHR 0x80, CHR 0x94]"

end
