(* ===== verification/Pages.thy ===== *)
theory Pages
  imports Sorting Scan Tunnel Proxy GoTime
begin

text \<open>
  What the pages show (\<open>internal/web/templates.go\<close>, \<open>fragments.go\<close>,
  \<open>handle_discovery.go\<close>, and \<open>SortDiscoveredByIP\<close> of \<open>internal/util\<close>): the data that a
  handler gives to its template, and the functions that the templates call.  The rendering by
  \<open>html/template\<close> is not modelled.  \<open>sort.Slice\<close> is the parameter \<open>Slice\<close> (see
  \<open>Sorting\<close>), \<open>net.ParseIP\<close> the parameter \<open>parse_ip\<close>: the 16 or 4 bytes of an address.
\<close>

section \<open>Functions of the templates\<close>

definition serviceURL :: "string \<Rightarrow> string \<Rightarrow> string" where
  "serviceURL subdomain zone = ''https://'' @ subdomain @ ''.'' @ zone"

definition cardURL :: "Service \<Rightarrow> string \<Rightarrow> string" where
  "cardURL svc zone = (if sDirectOnly svc then sTarget svc else ''https://'' @ sSubdomain svc @ ''.'' @ zone)"

definition tagClass :: "string \<Rightarrow> string" where
  "tagClass source = (if source = SourceDocker then ''badge text-bg-info''
     else if source = SourceNetwork then ''badge text-bg-success'' else ''badge text-bg-secondary'')"

definition isTunneled :: "Service \<Rightarrow> bool" where
  "isTunneled svc \<longleftrightarrow> sTunnelRouteID svc \<noteq> []"

definition healthStatus :: "string \<Rightarrow> (string \<rightharpoonup> string) \<Rightarrow> string" where
  "healthStatus i health = (case health i of Some h \<Rightarrow> h | None \<Rightarrow> [])"

definition logClass :: "string \<Rightarrow> string" where
  "logClass line =
    (if Contains line ''[OPEN]'' then ''scan-log-line open''
     else if Contains line ''[TCP]'' then ''scan-log-line tcp''
     else if Contains line ''[HTTP]'' then ''scan-log-line http''
     else if Contains line ''[ARP]'' then ''scan-log-line arp''
     else if Contains line ''[SCAN]'' then ''scan-log-line scan''
     else if Contains line ''[ERR]'' then ''scan-log-line err''
     else ''scan-log-line'')"

text \<open>\<open>template.HTMLEscapeString\<close>: as \<open>html.EscapeString\<close>, and a NUL becomes U+FFFD.\<close>

definition HTMLEscapeString :: "string \<Rightarrow> string" where
  "HTMLEscapeString s = concat (map (\<lambda>c. if code c = 0 then [CHR 0xEF, CHR 0xBF, CHR 0xBD] else escape_char c) s)"

definition package_emoji :: string where
  "package_emoji = [CHR 0xF0, CHR 0x9F, CHR 0x93, CHR 0xA6]"

definition iconEl :: "string \<Rightarrow> string \<Rightarrow> string \<Rightarrow> string \<Rightarrow> string" where
  "iconEl i icon src cls =
    (let q = [CHR 0x22]; ph = TrimSuffix cls ''-icon'' @ ''-icon-placeholder''
     in if icon = IconFile then
          ''<img class='' @ q @ HTMLEscapeString cls @ q @ '' src='' @ q @ ''/api/icons/'' @ HTMLEscapeString i @ q @
          '' alt='' @ q @ q @ ''>''
        else if icon \<noteq> [] \<and> \<not> HasPrefix icon ''data:'' then
          ''<div class='' @ q @ HTMLEscapeString ph @ q @ ''>'' @ HTMLEscapeString icon @ ''</div>''
        else if HasPrefix icon ''data:'' then
          ''<img class='' @ q @ HTMLEscapeString cls @ q @ '' src='' @ q @ HTMLEscapeString icon @ q @ '' alt='' @ q @ q @ ''>''
        else if src \<noteq> [] \<and> i \<noteq> [] then
          ''<img class='' @ q @ HTMLEscapeString cls @ q @ '' src='' @ q @ HTMLEscapeString (''/api/favicon/'' @ i) @ q @
          '' alt='' @ q @ q @ '' loading='' @ q @ ''lazy'' @ q @ '' onerror='' @ q @ ''this.outerHTML='' @ [CHR 0x27] @
          ''<div class=&quot;'' @ HTMLEscapeString ph @ ''&quot;>'' @ package_emoji @ ''</div>'' @ [CHR 0x27] @ q @ ''>''
        else ''<div class='' @ q @ HTMLEscapeString ph @ q @ ''>'' @ package_emoji @ ''</div>'')"

text \<open>
  \<open>fmtMem\<close>: the quotient by 1024 is exact in a \<open>float64\<close> (below \<open>2^53\<close>), and \<open>%.1f\<close> rounds
  it to tenths, ties to even.
\<close>

definition faviconURL :: "string \<Rightarrow> string" where
  "faviconURL i = ''/api/favicon/'' @ i"

definition isDataIcon :: "string \<Rightarrow> bool" where
  "isDataIcon icon \<longleftrightarrow> HasPrefix icon ''data:''"

definition isFileIcon :: "string \<Rightarrow> bool" where
  "isFileIcon icon \<longleftrightarrow> icon = IconFile"

definition tenths :: "nat \<Rightarrow> nat" where
  "tenths mb = (let q = mb * 10 div 1024; r = mb * 10 mod 1024
     in if 2 * r > 1024 \<or> 2 * r = 1024 \<and> odd q then q + 1 else q)"

definition fmtMem :: "64 word \<Rightarrow> string" where
  "fmtMem mb = (if unat mb \<ge> 1024
     then nat_digits (tenths (unat mb) div 10) @ ''.'' @ nat_digits (tenths (unat mb) mod 10) @ '' GB''
     else nat_digits (unat mb) @ '' MB'')"

lemma tenths_near: "\<bar>1024 * int (tenths mb) - 10 * int mb\<bar> \<le> 512"
proof -
  have "1024 * (mb * 10 div 1024) + mb * 10 mod 1024 = mb * 10" by (rule mult_div_mod_eq)
  then have e: "10 * int mb = 1024 * int (mb * 10 div 1024) + int (mb * 10 mod 1024)" by linarith
  have "mb * 10 mod 1024 < 1024" by simp
  then show ?thesis unfolding tenths_def Let_def using e by (auto split: if_splits)
qed

lemma fmtMem_tie: "fmtMem 1280 = ''1.2 GB'' \<and> fmtMem 1792 = ''1.8 GB'' \<and> fmtMem 1023 = ''1023 MB''"
  by (simp add: fmtMem_def tenths_def nat_digits.simps digit_char_def char_of_def bit_0)

section \<open>Sorting and grouping\<close>

definition item_less :: "('a \<Rightarrow> int) \<Rightarrow> ('a \<Rightarrow> string) \<Rightarrow> 'a \<Rightarrow> 'a \<Rightarrow> bool" where
  "item_less order name a b = (if order a \<noteq> order b then order a < order b else ToLower (name a) < ToLower (name b))"

definition key_less :: "string \<Rightarrow> string \<Rightarrow> bool" where
  "key_less a b = (if a = [] then True else if b = [] then False else ToLower a < ToLower b)"

text \<open>One turn of the loop; a key that a map does not have holds no items.\<close>

definition group_step :: "('a \<Rightarrow> string) \<Rightarrow> 'a \<Rightarrow> string list \<times> (string \<Rightarrow> 'a list) \<Rightarrow> string list \<times> (string \<Rightarrow> 'a list)" where
  "group_step category item kg = (case kg of (keys, groups) \<Rightarrow>
     let cat = category item
     in (if cat \<in> set keys then keys else keys @ [cat], groups(cat := groups cat @ [item])))"

definition sortAndGroup ::
  "(('a \<Rightarrow> 'a \<Rightarrow> bool) \<Rightarrow> 'a list \<Rightarrow> 'a list) \<Rightarrow> 'a list \<Rightarrow> ('a \<Rightarrow> int) \<Rightarrow> ('a \<Rightarrow> string) \<Rightarrow> ('a \<Rightarrow> string) \<Rightarrow>
    string list \<times> (string \<Rightarrow> 'a list)" where
  "sortAndGroup Slice items order name category =
    (let sorted_items = Slice (item_less order name) items;
         (keys, groups) = fold (group_step category) sorted_items ([], \<lambda>_. [])
     in (SliceStable key_less keys, groups))"

record servicesGridData =
  Groups :: "(string \<times> Service list) list"
  gDomain :: string
  Health :: "string \<rightharpoonup> string"
  IsEmpty :: bool
  Searching :: bool

definition buildServicesGrid ::
  "((Service \<Rightarrow> Service \<Rightarrow> bool) \<Rightarrow> Service list \<Rightarrow> Service list) \<Rightarrow> Service list \<Rightarrow> string \<Rightarrow> (string \<rightharpoonup> string) \<Rightarrow>
    bool \<Rightarrow> servicesGridData" where
  "buildServicesGrid Slice svcs zone health searching =
    (case sortAndGroup Slice svcs sOrder sName sCategory of (keys, groups) \<Rightarrow>
       \<lparr>Groups = map (\<lambda>k. (k, groups k)) keys, gDomain = zone, Health = health, IsEmpty = (length svcs = 0),
        Searching = searching\<rparr>)"

definition buildBookmarksGrid ::
  "((Bookmark \<Rightarrow> Bookmark \<Rightarrow> bool) \<Rightarrow> Bookmark list \<Rightarrow> Bookmark list) \<Rightarrow> Bookmark list \<Rightarrow> (string \<times> Bookmark list) list" where
  "buildBookmarksGrid Slice bms =
    (case sortAndGroup Slice bms bOrder bName bCategory of (keys, groups) \<Rightarrow> map (\<lambda>k. (k, groups k)) keys)"

text \<open>The loops over the services, then the bookmarks; \<open>sort.Strings\<close> on distinct strings.\<close>

definition unique_step :: "('a \<Rightarrow> string) \<Rightarrow> 'a \<Rightarrow> string list \<Rightarrow> string list" where
  "unique_step category x cats = (if category x \<noteq> [] \<and> category x \<notin> set cats then cats @ [category x] else cats)"

definition getUniqueCategories :: "Service list \<Rightarrow> Bookmark list \<Rightarrow> string list" where
  "getUniqueCategories svcs bms = sort (fold (unique_step bCategory) bms (fold (unique_step sCategory) svcs []))"

section \<open>Fragments\<close>

definition filterByQuery :: "'a list \<Rightarrow> string \<Rightarrow> ('a \<Rightarrow> string) \<Rightarrow> 'a list" where
  "filterByQuery items q text_of = (if q = [] then items else filter (\<lambda>v. Contains (ToLower (text_of v)) q) items)"

definition fragServicesGrid ::
  "((Service \<Rightarrow> Service \<Rightarrow> bool) \<Rightarrow> Service list \<Rightarrow> Service list) \<Rightarrow> Config \<Rightarrow> (string \<rightharpoonup> string) \<Rightarrow> string \<Rightarrow> store \<Rightarrow>
    servicesGridData" where
  "fragServicesGrid Slice c health query s =
    (let q = ToLower query
     in buildServicesGrid Slice
          (filterByQuery (services s) q (\<lambda>v. sName v @ '' '' @ sSubdomain v @ '' '' @ sTarget v)) (Domain c) health (q \<noteq> []))"

definition fragBookmarksGrid ::
  "((Bookmark \<Rightarrow> Bookmark \<Rightarrow> bool) \<Rightarrow> Bookmark list \<Rightarrow> Bookmark list) \<Rightarrow> string \<Rightarrow> store \<Rightarrow> (string \<times> Bookmark list) list" where
  "fragBookmarksGrid Slice query s =
    buildBookmarksGrid Slice (filterByQuery (bookmarks s) (ToLower query) (\<lambda>b. bName b @ '' '' @ bURL b))"

definition fragServicesTable ::
  "((Service \<Rightarrow> Service \<Rightarrow> bool) \<Rightarrow> Service list \<Rightarrow> Service list) \<Rightarrow> store \<Rightarrow> Service list" where
  "fragServicesTable Slice s = Slice (\<lambda>a b. ToLower (sName a) < ToLower (sName b)) (services s)"

definition uniqueCategories :: "store \<Rightarrow> string list" where
  "uniqueCategories s = getUniqueCategories (services s) (bookmarks s)"

text \<open>The forms; \<open>None\<close> is the answer 404.\<close>

definition fragServiceFormEdit :: "string \<Rightarrow> 'w Server \<Rightarrow> (Service \<times> string list \<times> string \<times> bool) option" where
  "fragServiceFormEdit i s = (case GetServiceByID i (st s) of
      None \<Rightarrow> None
    | Some r \<Rightarrow> Some (svcHeap (st s) ! r, uniqueCategories (st s), Domain (cfg s), TunnelEnabled (cl s)))"

definition fragAssignForm :: "string \<Rightarrow> 'w Server \<Rightarrow> (DiscoveredService \<times> string list \<times> string \<times> bool) option" where
  "fragAssignForm i s = (case GetDiscoveredByID i (st s) of
      None \<Rightarrow> None
    | Some r \<Rightarrow> Some (discHeap (st s) ! r, uniqueCategories (st s), Domain (cfg s), TunnelEnabled (cl s)))"

definition fragBookmarkFormEdit :: "string \<Rightarrow> 'w Server \<Rightarrow> (Bookmark \<times> string list) option" where
  "fragBookmarkFormEdit i s = (case GetBookmarkByID i (st s) of
      None \<Rightarrow> None
    | Some r \<Rightarrow> Some (bmHeap (st s) ! r, uniqueCategories (st s)))"

text \<open>\<open>SortDiscoveredByIP\<close>: by the 4 bytes of an IPv4 address, else by the 16 bytes, then by port.\<close>

definition To4 :: "nat list \<Rightarrow> nat list option" where
  "To4 ip = (if length ip = 4 then Some ip
     else if length ip = 16 \<and> take 10 ip = replicate 10 0 \<and> ip ! 10 = 255 \<and> ip ! 11 = 255 then Some (drop 12 ip)
     else None)"

definition sort_bytes :: "(string \<Rightarrow> nat list option) \<Rightarrow> DiscoveredService \<Rightarrow> nat list" where
  "sort_bytes parse_ip d = (case parse_ip (dIP d) of
      None \<Rightarrow> []
    | Some ip \<Rightarrow> (case To4 ip of Some b \<Rightarrow> b | None \<Rightarrow> ip))"

definition SortDiscoveredByIP ::
  "((DiscoveredService \<Rightarrow> DiscoveredService \<Rightarrow> bool) \<Rightarrow> DiscoveredService list \<Rightarrow> DiscoveredService list) \<Rightarrow>
    (string \<Rightarrow> nat list option) \<Rightarrow> DiscoveredService list \<Rightarrow> DiscoveredService list" where
  "SortDiscoveredByIP Slice parse_ip svcs = Slice (\<lambda>i j.
     let a = sort_bytes parse_ip i; b = sort_bytes parse_ip j
     in if a \<noteq> b then a < b else dPort i < dPort j) svcs"

definition listDiscovered ::
  "((DiscoveredService \<Rightarrow> DiscoveredService \<Rightarrow> bool) \<Rightarrow> DiscoveredService list \<Rightarrow> DiscoveredService list) \<Rightarrow>
    (string \<Rightarrow> nat list option) \<Rightarrow> store \<Rightarrow> DiscoveredService list" where
  "listDiscovered Slice parse_ip s = SortDiscoveredByIP Slice parse_ip (discovered s)"

section \<open>Status\<close>

record statusResponse =
  stScanning :: bool
  stLastScan :: time
  stNextScan :: time
  stScanInterval :: string
  stPublicIP :: string
  stDomain :: string
  stServerIP :: string
  stTunnelAvailable :: bool
  stTunnelEnabled :: bool
  stTunnelID :: string
  stTunnelRunning :: bool
  stScanLog :: "string list"

text \<open>The scanner with its log, and the status of the tunnel manager; either may be missing.\<close>

definition buildStatusData ::
  "(Discoverer \<times> string list) option \<Rightarrow> TunnelStatus option \<Rightarrow> 'w Server \<Rightarrow> statusResponse" where
  "buildStatusData scanner tun s =
    (let (scan, lst, nxt) = (case scanner of Some d \<Rightarrow> ScanStatus (fst d) | None \<Rightarrow> (False, 0, 0));
         scanLog = (case scanner of Some d \<Rightarrow> snd d | None \<Rightarrow> []);
         (tid, run) = (case tun of
             Some t \<Rightarrow> (if tsTunnelID t \<noteq> [] \<and> 8 \<le> length (tsTunnelID t) then take 8 (tsTunnelID t) @ ellipsis else [],
                        tsRunning t)
           | None \<Rightarrow> (if TunnelEnabled (cl s) \<and> 8 \<le> length (CFTunnelID (cfg s)) then take 8 (CFTunnelID (cfg s)) @ ellipsis
                      else [], False))
     in \<lparr>stScanning = scan, stLastScan = lst, stNextScan = nxt,
         stScanInterval = Duration_String (ScanInterval (cfg s)), stPublicIP = GetPublicIP (st s), stDomain = Domain (cfg s),
         stServerIP = ServerIP (cfg s), stTunnelAvailable = TunnelAvailable (cl s), stTunnelEnabled = TunnelEnabled (cl s),
         stTunnelID = tid, stTunnelRunning = run, stScanLog = scanLog\<rparr>)"

definition buildTunnelFragData :: "TunnelStatus option \<Rightarrow> 'w Server \<Rightarrow> TunnelStatus option \<times> bool" where
  "buildTunnelFragData tun s =
    (tun, TunnelAvailable (cl s) \<or> TunnelEnabled (cl s) \<or> (case tun of Some t \<Rightarrow> tsTunnelID t \<noteq> [] | None \<Rightarrow> False))"

section \<open>What the grids show\<close>

lemma strict_weak_item: "strict_weak (item_less order name)"
  unfolding item_less_def by (rule strict_weak_keys)

text \<open>The keys in the order in which they come, each with its items in order.\<close>

lemma fold_group:
  "\<exists>keys. fold (group_step category) xs ([], \<lambda>_. []) = (keys, \<lambda>k. filter (\<lambda>x. category x = k) xs) \<and>
    distinct keys \<and> set keys = category ` set xs"
proof (induction xs rule: rev_induct)
  case (snoc x xs)
  then obtain keys where k: "fold (group_step category) xs ([], \<lambda>_. []) = (keys, \<lambda>k. filter (\<lambda>x. category x = k) xs)"
    "distinct keys" "set keys = category ` set xs" by blast
  let ?keys = "if category x \<in> set keys then keys else keys @ [category x]"
  have "fold (group_step category) (xs @ [x]) ([], \<lambda>_. []) = group_step category x (keys, \<lambda>k. filter (\<lambda>x. category x = k) xs)"
    using k(1) by simp
  also have "\<dots> = (?keys, \<lambda>k. filter (\<lambda>x. category x = k) (xs @ [x]))"
    by (auto simp: group_step_def Let_def)
  finally show ?case using k(2,3) by (intro exI [of _ ?keys]) auto
qed simp

text \<open>Two different keys compare by this order, in which the empty key is the least.\<close>

definition key_order :: "string \<Rightarrow> string \<Rightarrow> bool" where
  "key_order a b = (if (a \<noteq> []) \<noteq> (b \<noteq> []) then (a \<noteq> []) < (b \<noteq> []) else ToLower a < ToLower b)"

lemma strict_weak_key_order: "strict_weak key_order"
  unfolding key_order_def by (rule strict_weak_keys)

lemma key_less_order: "a \<noteq> b \<Longrightarrow> key_less a b = key_order a b"
  by (auto simp: key_less_def key_order_def ToLower_def)

lemma sorted_keys:
  assumes "distinct keys"
  shows "mset (SliceStable key_less keys) = mset keys" and "in_order key_order (SliceStable key_less keys)"
proof -
  have "SliceStable key_less keys = SliceStable key_order keys"
    by (rule SliceStable_cong [OF key_less_order assms])
  then show "mset (SliceStable key_less keys) = mset keys" "in_order key_order (SliceStable key_less keys)"
    using stable.mset_Slice stable.sorted_Slice [OF strict_weak_key_order] by simp_all
qed

lemma mset_groups:
  assumes "distinct keys"
  shows "mset (concat (map (\<lambda>k. filter (\<lambda>x. category x = k) xs) keys)) = filter_mset (\<lambda>x. category x \<in> set keys) (mset xs)"
  using assms
proof (induction keys)
  case (Cons k keys)
  have "filter_mset (\<lambda>x. category x \<in> set (k # keys)) M =
      filter_mset (\<lambda>x. category x = k) M + filter_mset (\<lambda>x. category x \<in> set keys) M" for M
    using Cons.prems by (intro multiset_eqI) auto
  with Cons show ?case by simp
qed simp

text \<open>
  The specification of a grouping: every item is in exactly one group, the one of its
  category; no group is empty or comes twice; the groups and the items in each are in order.
\<close>

definition grouping :: "('a \<Rightarrow> int) \<Rightarrow> ('a \<Rightarrow> string) \<Rightarrow> ('a \<Rightarrow> string) \<Rightarrow> 'a list \<Rightarrow> (string \<times> 'a list) list \<Rightarrow> bool" where
  "grouping order name category items gs \<longleftrightarrow>
     mset (concat (map snd gs)) = mset items \<and> distinct (map fst gs) \<and> in_order key_order (map fst gs) \<and>
     (\<forall>(k, xs) \<in> set gs. xs \<noteq> [] \<and> (\<forall>x \<in> set xs. category x = k) \<and> in_order (item_less order name) xs)"

lemma sortAndGroup_grouping:
  assumes S: "slice_sort Slice"
  shows "case sortAndGroup Slice items order name category of (keys, groups) \<Rightarrow>
    grouping order name category items (map (\<lambda>k. (k, groups k)) keys)"
proof -
  let ?l = "item_less order name" and ?cat = "\<lambda>k x. category x = k"
  let ?s = "Slice ?l items"
  note so = slice_sort.mset_Slice [OF S, of ?l items] slice_sort.set_Slice [OF S, of ?l items]
    slice_sort.group_Slice(1) [OF S strict_weak_item [of order name], where xs = items]
  obtain keys where k: "fold (group_step category) ?s ([], \<lambda>_. []) = (keys, \<lambda>k. filter (?cat k) ?s)"
    "distinct keys" "set keys = category ` set ?s"
    using fold_group [of category ?s] by blast
  note sk = sorted_keys [OF k(2)]
  let ?k = "SliceStable key_less keys"
  have d: "distinct ?k" "set ?k = category ` set items"
    using sk(1) k(2,3) so(2) mset_eq_setD [OF sk(1)] by (simp_all add: mset_eq_imp_distinct_iff [OF sk(1)])
  have "filter_mset (\<lambda>x. category x \<in> set ?k) (mset ?s) = mset ?s"
    using filter_all [of ?s "\<lambda>x. category x \<in> set ?k"] by (simp add: d(2) so(2) flip: mset_filter)
  then have "mset (concat (map (\<lambda>k. filter (?cat k) ?s) ?k)) = mset items"
    using mset_groups [OF d(1), of category ?s] so(1) by simp
  moreover have "filter (?cat k) ?s \<noteq> []" if "k \<in> set ?k" for k
    using that so(2) by (auto simp: d(2) filter_empty_conv)
  ultimately show ?thesis
    using d(1) sk(2) so(3) by (auto simp: sortAndGroup_def k(1) grouping_def comp_def)
qed

lemma buildServicesGrid_grouping:
  assumes "slice_sort Slice"
  shows "grouping sOrder sName sCategory svcs (Groups (buildServicesGrid Slice svcs zone health searching)) \<and>
    (IsEmpty (buildServicesGrid Slice svcs zone health searching) \<longleftrightarrow> svcs = [])"
  using sortAndGroup_grouping [OF assms, where items = svcs and order = sOrder and name = sName and category = sCategory] by (auto simp: buildServicesGrid_def split: prod.splits)

lemma buildBookmarksGrid_grouping:
  assumes "slice_sort Slice"
  shows "grouping bOrder bName bCategory bms (buildBookmarksGrid Slice bms)"
  using sortAndGroup_grouping [OF assms, where items = bms and order = bOrder and name = bName and category = bCategory] by (auto simp: buildBookmarksGrid_def split: prod.splits)

section \<open>Searches, categories, the discovered list\<close>

lemma filterByQuery_set: "v \<in> set (filterByQuery items q f) \<longleftrightarrow> v \<in> set items \<and> (q = [] \<or> Contains (ToLower (f v)) q)"
  by (auto simp: filterByQuery_def)

lemma fold_unique:
  "distinct acc \<Longrightarrow> [] \<notin> set acc \<Longrightarrow> distinct (fold (unique_step f) xs acc) \<and> [] \<notin> set (fold (unique_step f) xs acc) \<and>
    set (fold (unique_step f) xs acc) = set acc \<union> (f ` set xs - {[]})"
  by (induction xs arbitrary: acc) (auto simp: unique_step_def)

text \<open>The categories in use, each once, sorted, without the empty one.\<close>

lemma getUniqueCategories_spec:
  "distinct (getUniqueCategories svcs bms) \<and> sorted (getUniqueCategories svcs bms) \<and>
    set (getUniqueCategories svcs bms) = (sCategory ` set svcs \<union> bCategory ` set bms) - {[]}"
proof -
  let ?a = "fold (unique_step sCategory) svcs []"
  have a: "distinct ?a \<and> [] \<notin> set ?a \<and> set ?a = sCategory ` set svcs - {[]}"
    using fold_unique [of "[]" sCategory svcs] by simp
  then have "distinct (fold (unique_step bCategory) bms ?a)"
    "set (fold (unique_step bCategory) bms ?a) = (sCategory ` set svcs \<union> bCategory ` set bms) - {[]}"
    using fold_unique [of ?a bCategory bms] by auto
  then show ?thesis by (simp add: getUniqueCategories_def)
qed

lemma SortDiscoveredByIP_sorted:
  assumes "slice_sort Slice"
  shows "mset (SortDiscoveredByIP Slice parse_ip svcs) = mset svcs \<and>
    in_order (\<lambda>i j. if sort_bytes parse_ip i \<noteq> sort_bytes parse_ip j then sort_bytes parse_ip i < sort_bytes parse_ip j
      else dPort i < dPort j) (SortDiscoveredByIP Slice parse_ip svcs)"
  using slice_sort.mset_Slice [OF assms] slice_sort.sorted_Slice [OF assms strict_weak_keys [of "sort_bytes parse_ip" dPort]]
  by (simp add: SortDiscoveredByIP_def Let_def)

section \<open>Markup\<close>

text \<open>Escaped text has no character that ends an attribute or opens a tag.\<close>

lemma HTMLEscape_plain:
  assumes "c \<in> set (HTMLEscapeString s)"
  shows "c \<noteq> CHR ''<'' \<and> c \<noteq> CHR ''>'' \<and> c \<noteq> CHR 0x22 \<and> c \<noteq> CHR 0x27"
  using assms by (auto simp: HTMLEscapeString_def escape_char_def split: if_splits)

lemma HTMLEscape_count: "c \<in> {CHR ''<'', CHR ''>'', CHR 0x22, CHR 0x27} \<Longrightarrow> filter (\<lambda>x. x = c) (HTMLEscapeString s) = []"
  using HTMLEscape_plain [of c s] by (auto simp: filter_empty_conv)

text \<open>
  An icon is one element whatever its inputs are: what they contain adds no quote and no
  angle bracket, so the tags and attributes are those of the branch.
\<close>

definition marks :: "string \<Rightarrow> nat \<times> nat \<times> nat" where
  "marks s = (count_list s (CHR ''<''), count_list s (CHR ''>''), count_list s (CHR 0x22))"

lemma marks_append [simp]: "marks (a @ b) = (let (x, y, z) = marks a; (x', y', z') = marks b in (x + x', y + y', z + z'))"
  by (simp add: marks_def)

lemma marks_escape [simp]: "marks (HTMLEscapeString s) = (0, 0, 0)"
  using HTMLEscape_plain [of _ s] by (auto simp: marks_def count_list_0_iff)

lemma iconEl_markup: "marks (iconEl i icon src cls) \<in> {(1, 1, 6), (2, 2, 2), (3, 3, 10)}"
proof -
  have c: "marks ''<img class='' = (1, 0, 0)" "marks '' src='' = (0, 0, 0)" "marks ''/api/icons/'' = (0, 0, 0)"
    "marks '' alt='' = (0, 0, 0)" "marks ''>'' = (0, 1, 0)" "marks ''<div class='' = (1, 0, 0)"
    "marks ''</div>'' = (1, 1, 0)" "marks '' loading='' = (0, 0, 0)" "marks ''lazy'' = (0, 0, 0)"
    "marks '' onerror='' = (0, 0, 0)" "marks ''this.outerHTML='' = (0, 0, 0)" "marks ''<div class=&quot;'' = (1, 0, 0)"
    "marks ''&quot;>'' = (0, 1, 0)" "marks package_emoji = (0, 0, 0)" "marks [CHR 0x22] = (0, 0, 1)"
    "marks [CHR 0x27] = (0, 0, 0)"
    by (simp_all add: marks_def package_emoji_def)
  show ?thesis unfolding iconEl_def Let_def if_distrib [of marks]
    by (simp only: marks_append marks_escape c Let_def prod.case) simp
qed

end
