(* ===== verification/TtlCache.thy ===== *)
theory TtlCache
  imports StoreModel "HOL-Library.Multiset"
begin

text \<open>
  \<open>internal/web/ttlcache.go\<close>: the cache with a size cap and an expiry per entry that
  holds favicons.  The map is an association list with one entry for each key.  Go iterates a
  map in any order: \<open>iter n\<close> lists it for the \<open>n\<close>-th search of an eviction.
  The clock is an argument of each operation, once for each \<open>time.Now()\<close>.
\<close>

record 'v ttlEntry =
  tvalue :: 'v
  expires :: time

record 'v ttlCache =
  cm :: "(string \<times> 'v ttlEntry) list"
  ccap :: int

definition newTTLCache :: "int \<Rightarrow> 'v ttlCache" where
  "newTTLCache capacity = \<lparr>cm = [], ccap = capacity\<rparr>"

definition Get :: "time \<Rightarrow> string \<Rightarrow> 'v ttlCache \<Rightarrow> 'v option \<times> 'v ttlCache" where
  "Get now key c = (case map_of (cm c) key of
      None \<Rightarrow> (None, c)
    | Some e \<Rightarrow>
        if expires e < now then (None, c\<lparr>cm := AList.delete key (cm c)\<rparr>) else (Some (tvalue e), c))"

text \<open>The search for the entry that expires first; the empty key stands for none yet.\<close>

definition older :: "string \<times> 'v ttlEntry \<Rightarrow> string \<times> time \<Rightarrow> string \<times> time" where
  "older ke acc = (if fst acc = [] \<or> expires (snd ke) < snd acc then (fst ke, expires (snd ke)) else acc)"

definition oldest_of :: "(string \<times> 'v ttlEntry) list \<Rightarrow> string" where
  "oldest_of m = fst (fold older m ([], 0))"

definition evict_one ::
  "((string \<times> 'v ttlEntry) list \<Rightarrow> (string \<times> 'v ttlEntry) list) \<Rightarrow> (string \<times> 'v ttlEntry) list \<Rightarrow> (string \<times> 'v ttlEntry) list" where
  "evict_one it m = (let k = oldest_of (it m) in if k \<noteq> [] then AList.delete k m else m)"

definition evictLocked ::
  "(nat \<Rightarrow> (string \<times> 'v ttlEntry) list \<Rightarrow> (string \<times> 'v ttlEntry) list) \<Rightarrow> time \<Rightarrow> 'v ttlCache \<Rightarrow> 'v ttlCache" where
  "evictLocked iter now c =
    (let m = filter (\<lambda>ke. \<not> expires (snd ke) < now) (cm c)
     in if int (length m) < ccap c then c\<lparr>cm := m\<rparr>
        else c\<lparr>cm := fold (\<lambda>n. evict_one (iter n)) [0..<max 1 (length m div 4)] m\<rparr>)"

definition Set ::
  "(nat \<Rightarrow> (string \<times> 'v ttlEntry) list \<Rightarrow> (string \<times> 'v ttlEntry) list) \<Rightarrow> time \<Rightarrow> time \<Rightarrow>
    string \<Rightarrow> 'v \<Rightarrow> time \<Rightarrow> 'v ttlCache \<Rightarrow> 'v ttlCache" where
  "Set iter now now' key v ttl c =
    (let c = (if int (length (cm c)) \<ge> ccap c then evictLocked iter now c else c)
     in c\<lparr>cm := AList.update key \<lparr>tvalue = v, expires = now' + ttl\<rparr> (cm c)\<rparr>)"

text \<open>A cache in use: one entry for each key, none under the empty key, and not over the cap.\<close>

definition cache_ok :: "'v ttlCache \<Rightarrow> bool" where
  "cache_ok c \<longleftrightarrow> distinct (map fst (cm c)) \<and> [] \<notin> set (map fst (cm c)) \<and> int (length (cm c)) \<le> ccap c \<and> 1 \<le> ccap c"

text \<open>What the iteration of a map does: it lists the entries, each once.\<close>

definition iterates :: "(nat \<Rightarrow> (string \<times> 'v ttlEntry) list \<Rightarrow> (string \<times> 'v ttlEntry) list) \<Rightarrow> bool" where
  "iterates iter \<longleftrightarrow> (\<forall>n m. mset (iter n m) = mset m)"

section \<open>Eviction\<close>

lemma fold_older:
  assumes "[] \<notin> set (map fst m)" and "fst acc \<noteq> []"
  shows "fold older m acc = acc \<and> (\<forall>ke \<in> set m. snd acc \<le> expires (snd ke)) \<or>
    (\<exists>ke \<in> set m. fold older m acc = (fst ke, expires (snd ke)) \<and> expires (snd ke) < snd acc \<and>
      (\<forall>ke' \<in> set m. expires (snd ke) \<le> expires (snd ke')))"
  using assms
proof (induction m arbitrary: acc)
  case Nil
  then show ?case by simp
next
  case (Cons x m)
  have x: "fst x \<noteq> []" "[] \<notin> set (map fst m)" using Cons.prems(1) by auto
  show ?case
  proof (cases "expires (snd x) < snd acc")
    case True
    then have o: "older x acc = (fst x, expires (snd x))" by (simp add: older_def)
    from Cons.IH [OF x(2), of "older x acc"] x(1) True show ?thesis by (auto simp: o)
  next
    case False
    then have o: "older x acc = acc" using Cons.prems(2) by (simp add: older_def)
    from Cons.IH [OF x(2) Cons.prems(2)] False show ?thesis by (auto simp: o)
  qed
qed

lemma oldest_of_min:
  assumes "m \<noteq> []" and "[] \<notin> set (map fst m)"
  shows "\<exists>ke \<in> set m. oldest_of m = fst ke \<and> (\<forall>ke' \<in> set m. expires (snd ke) \<le> expires (snd ke'))"
proof -
  obtain x m' where m: "m = x # m'" using assms(1) by (cases m) auto
  have x: "fst x \<noteq> []" "[] \<notin> set (map fst m')" using assms(2) by (auto simp: m)
  have e: "oldest_of m = fst (fold older m' (fst x, expires (snd x)))" by (simp add: oldest_of_def m older_def)
  consider "fold older m' (fst x, expires (snd x)) = (fst x, expires (snd x))" "\<forall>ke \<in> set m'. expires (snd x) \<le> expires (snd ke)"
    | ke where "ke \<in> set m'" "fold older m' (fst x, expires (snd x)) = (fst ke, expires (snd ke))"
      "expires (snd ke) < expires (snd x)" "\<forall>ke' \<in> set m'. expires (snd ke) \<le> expires (snd ke')"
    using fold_older [OF x(2), of "(fst x, expires (snd x))"] x(1) by fastforce
  then show ?thesis
  proof cases
    case 1
    then have "oldest_of m = fst x" "\<forall>ke \<in> set m. expires (snd x) \<le> expires (snd ke)" unfolding e by (simp_all add: m)
    then show ?thesis by (intro bexI [of _ x]) (simp_all add: m)
  next
    case (2 ke)
    then have "oldest_of m = fst ke" "\<forall>ke' \<in> set m. expires (snd ke) \<le> expires (snd ke')" unfolding e by (simp_all add: m)
    then show ?thesis using 2(1) by (intro bexI [of _ ke]) (simp_all add: m)
  qed
qed

lemma delete_eq_filter: "AList.delete k m = filter (\<lambda>ke. fst ke \<noteq> k) m"
  by (auto simp: AList.delete_eq intro!: filter_cong)

text \<open>One eviction removes one entry, one that expires no later than those that stay.\<close>

lemma evict_one_effect:
  assumes it: "mset (it m) = mset m" and m: "m \<noteq> []" "[] \<notin> set (map fst m)" "distinct (map fst m)"
  obtains ke where "ke \<in> set m" "evict_one it m = filter (\<lambda>x. fst x \<noteq> fst ke) m"
    "length (evict_one it m) = length m - 1" "\<forall>ke' \<in> set m. expires (snd ke) \<le> expires (snd ke')"
proof -
  have s: "set (it m) = set m" using it by (metis set_mset_mset)
  have ne: "it m \<noteq> []" using it m(1) by auto
  have k: "[] \<notin> set (map fst (it m))" using m(2) by (simp add: s)
  obtain ke where ke: "ke \<in> set m" "oldest_of (it m) = fst ke" "\<forall>ke' \<in> set m. expires (snd ke) \<le> expires (snd ke')"
    using oldest_of_min [OF ne k] by (auto simp: s)
  have "fst ke \<in> set (map fst m)" using ke(1) by simp
  then have "fst ke \<noteq> []" using m(2) by metis
  then have e: "evict_one it m = filter (\<lambda>x. fst x \<noteq> fst ke) m" by (simp add: evict_one_def ke(2) delete_eq_filter)
  have "length (filter (\<lambda>x. fst x \<noteq> fst ke) m) = length m - 1"
    using ke(1) m(3)
  proof (induction m)
    case Nil
    then show ?case by simp
  next
    case (Cons y m)
    show ?case
    proof (cases "fst y = fst ke")
      case True
      then have "filter (\<lambda>x. fst x \<noteq> fst ke) m = m" using Cons.prems(2) by (intro filter_True) (auto intro: rev_image_eqI)
      with True show ?thesis by simp
    next
      case False
      then have "ke \<in> set m" using Cons.prems(1) by auto
      with False Cons show ?thesis by (cases m) auto
    qed
  qed
  with e ke show thesis by (intro that) auto
qed

lemma evict_many:
  assumes it: "\<forall>n m. mset (iter n m) = mset m" and m: "[] \<notin> set (map fst m)" "distinct (map fst m)" "length ns \<le> length m"
  shows "\<exists>keep. fold (\<lambda>n. evict_one (iter n)) ns m = filter keep m \<and>
    length (fold (\<lambda>n. evict_one (iter n)) ns m) = length m - length ns \<and>
    (\<forall>x \<in> set m. \<forall>y \<in> set m. \<not> keep x \<longrightarrow> keep y \<longrightarrow> expires (snd x) \<le> expires (snd y))"
  using m
proof (induction ns arbitrary: m)
  case Nil
  show ?case by (intro exI [of _ "\<lambda>_. True"]) simp
next
  case (Cons n ns)
  have ne: "m \<noteq> []" using Cons.prems(3) by auto
  have i: "mset (iter n m) = mset m" using it by simp
  obtain ke where ke: "ke \<in> set m" "evict_one (iter n) m = filter (\<lambda>x. fst x \<noteq> fst ke) m"
    "length (evict_one (iter n) m) = length m - 1" "\<forall>ke' \<in> set m. expires (snd ke) \<le> expires (snd ke')"
    using evict_one_effect [where it = "iter n" and m = m, OF i ne Cons.prems(1,2)] by blast
  let ?m = "evict_one (iter n) m"
  have "[] \<notin> set (map fst ?m)" "distinct (map fst ?m)" "length ns \<le> length ?m"
    using Cons.prems ke(2,3) by (auto simp: distinct_map_filter)
  from Cons.IH [OF this] obtain keep where k: "fold (\<lambda>n. evict_one (iter n)) ns ?m = filter keep ?m"
    "length (fold (\<lambda>n. evict_one (iter n)) ns ?m) = length ?m - length ns"
    "\<forall>x \<in> set ?m. \<forall>y \<in> set ?m. \<not> keep x \<longrightarrow> keep y \<longrightarrow> expires (snd x) \<le> expires (snd y)" by blast
  let ?keep = "\<lambda>x. fst x \<noteq> fst ke \<and> keep x"
  have "fold (\<lambda>n. evict_one (iter n)) (n # ns) m = filter ?keep m"
    using k(1) by (simp add: ke(2) conj_commute)
  moreover have "length (fold (\<lambda>n. evict_one (iter n)) (n # ns) m) = length m - length (n # ns)"
    using k(2) ke(3) by simp
  moreover have "expires (snd x) \<le> expires (snd y)" if "x \<in> set m" "y \<in> set m" "\<not> ?keep x" "?keep y" for x y
  proof (cases "fst x = fst ke")
    case True
    then have "x = ke" using that(1) ke(1) Cons.prems(2) by (auto simp: distinct_map inj_on_def)
    then show ?thesis using ke(4) that(2) by simp
  next
    case False
    then have "x \<in> set ?m" "y \<in> set ?m" "\<not> keep x" "keep y" using that by (simp_all add: ke(2))
    then show ?thesis using k(3) by blast
  qed
  ultimately show ?case by blast
qed

text \<open>
  A full cache: expired entries go; if that frees nothing, a quarter goes (one at least),
  and those that go expire no later than those that stay.
\<close>

lemma evictLocked_effect:
  assumes it: "iterates iter" and c: "cache_ok c"
  shows "\<exists>keep. cm (evictLocked iter now c) = filter keep (cm c) \<and> ccap (evictLocked iter now c) = ccap c \<and>
    int (length (cm (evictLocked iter now c))) < ccap c \<and>
    (\<forall>x \<in> set (cm c). \<forall>y \<in> set (cm c). \<not> keep x \<longrightarrow> keep y \<longrightarrow>
      expires (snd x) < now \<or> expires (snd x) \<le> expires (snd y)) \<and>
    (\<forall>y \<in> set (cm c). keep y \<longrightarrow> now \<le> expires (snd y))"
proof -
  let ?live = "\<lambda>ke. \<not> expires (snd ke) < now"
  let ?m = "filter ?live (cm c)"
  have ok: "distinct (map fst (cm c))" "[] \<notin> set (map fst (cm c))" "int (length (cm c)) \<le> ccap c" "1 \<le> ccap c"
    using c by (simp_all add: cache_ok_def)
  have ml: "length ?m \<le> length (cm c)" by simp
  show ?thesis
  proof (cases "int (length ?m) < ccap c")
    case True
    then have "cm (evictLocked iter now c) = ?m" "ccap (evictLocked iter now c) = ccap c"
      by (simp_all add: evictLocked_def Let_def)
    with True show ?thesis by (intro exI [of _ ?live]) auto
  next
    case False
    let ?ns = "[0..<max 1 (length ?m div 4)]"
    have len: "1 \<le> length ?m" using False ok(4) by linarith
    then have n: "length ?ns \<le> length ?m" by auto
    have k0: "[] \<notin> set (map fst ?m)" "distinct (map fst ?m)" using ok(1,2) by (auto simp: distinct_map_filter)
    obtain keep where k: "fold (\<lambda>n. evict_one (iter n)) ?ns ?m = filter keep ?m"
      "length (fold (\<lambda>n. evict_one (iter n)) ?ns ?m) = length ?m - length ?ns"
      "\<forall>x \<in> set ?m. \<forall>y \<in> set ?m. \<not> keep x \<longrightarrow> keep y \<longrightarrow> expires (snd x) \<le> expires (snd y)"
      using evict_many [OF it [unfolded iterates_def] k0 n] by blast
    have e: "cm (evictLocked iter now c) = fold (\<lambda>n. evict_one (iter n)) ?ns ?m" "ccap (evictLocked iter now c) = ccap c"
      using False by (simp_all add: evictLocked_def Let_def)
    let ?keep = "\<lambda>x. ?live x \<and> keep x"
    have "cm (evictLocked iter now c) = filter ?keep (cm c)" using k(1) e(1) by (simp add: conj_commute)
    moreover have "int (length (cm (evictLocked iter now c))) < ccap c"
    proof -
      have "length (fold (\<lambda>n. evict_one (iter n)) ?ns ?m) < length ?m" using k(2) len by auto
      then show ?thesis unfolding e(1) using ml ok(3) by linarith
    qed
    moreover have "expires (snd x) < now \<or> expires (snd x) \<le> expires (snd y)"
      if "x \<in> set (cm c)" "y \<in> set (cm c)" "\<not> ?keep x" "?keep y" for x y
    proof (rule disjCI)
      assume n: "\<not> expires (snd x) \<le> expires (snd y)"
      have "y \<in> set ?m" "keep y" using that by simp_all
      with k(3) n have "x \<notin> set ?m \<or> keep x" by blast
      with that show "expires (snd x) < now" by auto
    qed
    ultimately show ?thesis using e(2) by (intro exI [of _ ?keep] conjI) (auto simp: not_less)
  qed
qed

text \<open>The cache never grows over its cap, and keeps one entry for each key.\<close>

lemma length_update_le: "length (AList.update k v m) \<le> Suc (length m)"
  by (induction m) auto

lemma Set_ok:
  assumes it: "iterates iter" and c: "cache_ok c" and k: "key \<noteq> []"
  shows "cache_ok (Set iter now now' key v ttl c)" and "ccap (Set iter now now' key v ttl c) = ccap c"
proof -
  let ?c = "if int (length (cm c)) \<ge> ccap c then evictLocked iter now c else c"
  obtain keep where e: "cm (evictLocked iter now c) = filter keep (cm c)" "ccap (evictLocked iter now c) = ccap c"
    "int (length (cm (evictLocked iter now c))) < ccap c"
    using evictLocked_effect [OF it c, of now] by blast
  have l: "int (length (cm ?c)) < ccap c" using e(3) by simp
  have d: "distinct (map fst (cm ?c))" "[] \<notin> set (map fst (cm ?c))" "ccap ?c = ccap c"
    using c e(1,2) by (auto simp: cache_ok_def distinct_map_filter)
  have s: "Set iter now now' key v ttl c = ?c\<lparr>cm := AList.update key \<lparr>tvalue = v, expires = now' + ttl\<rparr> (cm ?c)\<rparr>"
    by (simp add: Set_def Let_def)
  show "ccap (Set iter now now' key v ttl c) = ccap c" using d(3) by (simp add: s)
  have "int (length (AList.update key \<lparr>tvalue = v, expires = now' + ttl\<rparr> (cm ?c))) \<le> ccap c"
    using length_update_le [of key "\<lparr>tvalue = v, expires = now' + ttl\<rparr>" "cm ?c"] l by linarith
  moreover have "distinct (map fst (AList.update key \<lparr>tvalue = v, expires = now' + ttl\<rparr> (cm ?c)))"
    using d(1) by (rule AList.distinct_update)
  moreover have "[] \<notin> set (map fst (AList.update key \<lparr>tvalue = v, expires = now' + ttl\<rparr> (cm ?c)))"
    using d(2) k by (auto simp: AList.dom_update dest!: AList.dom_update [THEN equalityD1, THEN subsetD])
  ultimately show "cache_ok (Set iter now now' key v ttl c)"
    using c d(3) by (simp add: s cache_ok_def)
qed

text \<open>What was stored is found until it expires.\<close>

lemma Get_Set:
  "fst (Get t key (Set iter now now' key v ttl c)) = (if now' + ttl < t then None else Some v)"
  by (simp add: Get_def Set_def Let_def AList.update_Some_unfold AList.update_conv')

lemma Get_Set_other:
  assumes "int (length (cm c)) < ccap c" and "key' \<noteq> key"
  shows "fst (Get t key' (Set iter now now' key v ttl c)) = fst (Get t key' c)"
  using assms by (simp add: Get_def Set_def Let_def AList.update_conv' split: option.split)

end
