(* ===== verification/Icons.thy ===== *)
theory Icons
  imports Server TtlCache
begin

text \<open>
  The icons that the web interface serves (\<open>internal/web/static.go\<close>): the type of an
  image, \<open>getIcon\<close>, \<open>getFavicon\<close> with its cache in memory and on disk, and
  \<open>WarmFavicons\<close> of \<open>server.go\<close>.  The download is the parameter \<open>fetch\<close>, the
  clock \<open>ck\<close> gives the time of each look at it in a request, \<open>iter\<close> the order in which a map
  is iterated, \<open>sha\<close> the SHA-256 sum.
\<close>

section \<open>The type of an image\<close>

text \<open>The image types of \<open>http.DetectContentType\<close>; it gives no other type below \<open>image/\<close>.\<close>

definition image_type :: "string \<Rightarrow> string option" where
  "image_type d =
    (if HasPrefix d [CHR 0x00, CHR 0x00, CHR 0x01, CHR 0x00] \<or> HasPrefix d [CHR 0x00, CHR 0x00, CHR 0x02, CHR 0x00]
     then Some ''image/x-icon''
     else if HasPrefix d ''BM'' then Some ''image/bmp''
     else if HasPrefix d ''GIF87a'' \<or> HasPrefix d ''GIF89a'' then Some ''image/gif''
     else if HasPrefix d ''RIFF'' \<and> HasPrefix (drop 8 d) ''WEBPVP'' then Some ''image/webp''
     else if HasPrefix d [CHR 0x89, CHR ''P'', CHR ''N'', CHR ''G'', CHR 0x0D, CHR 0x0A, CHR 0x1A, CHR 0x0A]
     then Some ''image/png''
     else if HasPrefix d [CHR 0xFF, CHR 0xD8, CHR 0xFF] then Some ''image/jpeg''
     else None)"

definition detectIconContentType :: "string \<Rightarrow> string" where
  "detectIconContentType data =
    (let trimmed = TrimSpace data
     in if HasPrefix trimmed ''<svg'' then ''image/svg+xml''
        else if HasPrefix trimmed ''<?xml'' \<and> Contains (take (min 512 (length trimmed)) trimmed) ''<svg''
        then ''image/svg+xml''
        else case image_type data of Some ct \<Rightarrow> ct | None \<Rightarrow> ''application/octet-stream'')"

definition isValidIconID :: "string \<Rightarrow> bool" where
  "isValidIconID i \<longleftrightarrow> i \<noteq> [] \<and> length i \<le> 64 \<and>
    list_all (\<lambda>c. \<not> ((code c < 48 \<or> 57 < code c) \<and> (code c < 97 \<or> 102 < code c) \<and> (code c < 65 \<or> 70 < code c))) i"

section \<open>Serving icons\<close>

datatype icon_reply = IconNotFound | NotModified | Icon string string string string

text \<open>An icon with its type, \<open>Cache-Control\<close>, \<open>ETag\<close> and bytes.\<close>

definition getIcon :: "(string \<Rightarrow> nat list) \<Rightarrow> string \<Rightarrow> string \<Rightarrow> store \<Rightarrow> icon_reply" where
  "getIcon sha i ifNoneMatch s =
    (if \<not> isValidIconID i then IconNotFound
     else case ReadIcon i s of
       Inl _ \<Rightarrow> IconNotFound
     | Inr data \<Rightarrow>
         let etag = [CHR 0x22] @ EncodeToString (take 16 (sha data)) @ [CHR 0x22]
         in if ifNoneMatch = etag then NotModified
            else Icon (detectIconContentType data) ''public, max-age=3600, must-revalidate'' etag data)"

text \<open>Bytes \<open>[]\<close> stand for nil, a fetch that failed.\<close>

record faviconEntry =
  fdata :: string
  contentType :: string

record 'w web =
  base :: "'w Server"
  faviconCache :: "faviconEntry ttlCache"

type_synonym iteration = "nat \<Rightarrow> (string \<times> faviconEntry ttlEntry) list \<Rightarrow> (string \<times> faviconEntry ttlEntry) list"

definition new_web :: "'w Server \<Rightarrow> 'w web" where
  "new_web s = \<lparr>base = s, faviconCache = newTTLCache 100\<rparr>"

abbreviation minute :: time where "minute \<equiv> 60 * 1000000000"

definition remember :: "iteration \<Rightarrow> (nat \<Rightarrow> time) \<Rightarrow> string \<Rightarrow> string \<Rightarrow> 'w web \<Rightarrow> 'w web" where
  "remember iter ck i data s =
    s\<lparr>faviconCache := Set iter (ck 1) (ck 2) i
      (if data = [] then \<lparr>fdata = [], contentType = []\<rparr> else \<lparr>fdata = data, contentType = detectIconContentType data\<rparr>)
      (if data = [] then 15 * minute else 60 * minute) (faviconCache s)\<rparr>"

definition favicon_reply :: "faviconEntry \<Rightarrow> icon_reply" where
  "favicon_reply e = (if fdata e = [] then IconNotFound else Icon (contentType e) ''public, max-age=3600'' [] (fdata e))"

definition getFavicon :: "iteration \<Rightarrow> (nat \<Rightarrow> time) \<Rightarrow> 'w fetch \<Rightarrow> string \<Rightarrow> 'w web \<Rightarrow> icon_reply \<times> 'w web" where
  "getFavicon iter ck fetch i s =
    (if \<not> isValidIconID i then (IconNotFound, s)
     else case Get (ck 0) i (faviconCache s) of
       (Some e, c) \<Rightarrow> (favicon_reply e, s\<lparr>faviconCache := c\<rparr>)
     | (None, c) \<Rightarrow>
         let s = s\<lparr>faviconCache := c\<rparr>; target = GetTarget i (st (base s))
         in if target = [] then (IconNotFound, remember iter ck i [] s)
            else let disk = (case ReadIcon i (st (base s)) of Inr data \<Rightarrow> data | Inl _ \<Rightarrow> [])
              in if disk \<noteq> [] then
                   (Icon (detectIconContentType disk) ''public, max-age=3600'' [] disk, remember iter ck i disk s)
                 else let (data, w) = fetch target (world (base s)); s = s\<lparr>base := (base s)\<lparr>world := w\<rparr>\<rparr>
                   in if data = [] then (IconNotFound, remember iter ck i [] s)
                      else let s = remember iter ck i data s;
                               s = s\<lparr>base := (base s)\<lparr>st := snd (WriteIcon i data (st (base s)))\<rparr>\<rparr>
                        in (Icon (detectIconContentType data) ''public, max-age=3600'' [] data, s))"

section \<open>Warming the cache\<close>

text \<open>
  The loop of \<open>WarmFavicons\<close> and the fetches that it starts: the entries left, the fetches
  that run, and the state.  At most ten run at a time; they end in any order.
\<close>

definition warm_entries :: "store \<Rightarrow> (string \<times> string) list" where
  "warm_entries s =
    map (\<lambda>v. (sID v, sTarget v)) (filter (\<lambda>v. sIcon v = [] \<and> sTarget v \<noteq> []) 
      (map ((!) (svcHeap s)) (GetAllServices s))) @
    map (\<lambda>b. (bID b, bURL b)) (filter (\<lambda>b. bIcon b = [] \<and> bURL b \<noteq> [])
      (map ((!) (bmHeap s)) (GetAllBookmarks s)))"

definition warm_cached :: "iteration \<Rightarrow> (nat \<Rightarrow> time) \<Rightarrow> string \<Rightarrow> 'w web \<Rightarrow> bool \<times> 'w web" where
  "warm_cached iter ck i s = (case Get (ck 0) i (faviconCache s) of
      (Some _, c) \<Rightarrow> (True, s\<lparr>faviconCache := c\<rparr>)
    | (None, c) \<Rightarrow>
        let s = s\<lparr>faviconCache := c\<rparr>; disk = (case ReadIcon i (st (base s)) of Inr data \<Rightarrow> data | Inl _ \<Rightarrow> [])
        in if disk \<noteq> [] then (True, remember iter ck i disk s) else (False, s))"

definition warm_fetched :: "iteration \<Rightarrow> (nat \<Rightarrow> time) \<Rightarrow> string \<Rightarrow> string \<Rightarrow> 'w web \<Rightarrow> 'w web" where
  "warm_fetched iter ck i data s =
    (if data = [] then s
     else let s = remember iter ck i data s
       in s\<lparr>base := (base s)\<lparr>st := snd (WriteIcon i data (st (base s)))\<rparr>\<rparr>)"

inductive warm_step :: "'w fetch \<Rightarrow>
   (string \<times> string) list \<times> (string \<times> string) list \<times> 'w web \<Rightarrow>
   (string \<times> string) list \<times> (string \<times> string) list \<times> 'w web \<Rightarrow> bool" for fetch where
  warm_hit: "warm_cached iter ck i s = (True, s') \<Longrightarrow> iterates iter \<Longrightarrow>
    warm_step fetch ((i, target) # todo, running, s) (todo, running, s')"
| warm_go: "warm_cached iter ck i s = (False, s') \<Longrightarrow> iterates iter \<Longrightarrow> length running < 10 \<Longrightarrow>
    warm_step fetch ((i, target) # todo, running, s) (todo, (i, target) # running, s')"
| warm_done: "fetch target (world (base s)) = (data, w) \<Longrightarrow> iterates iter \<Longrightarrow>
    warm_step fetch (todo, a @ (i, target) # b, s)
      (todo, a @ b, warm_fetched iter ck i data (s\<lparr>base := (base s)\<lparr>world := w\<rparr>\<rparr>))"
| warm_cancel: "todo \<noteq> [] \<Longrightarrow> warm_step fetch (todo, running, s) ([], running, s)"

inductive_cases warm_stepE: "warm_step fetch a b"

inductive warm_run :: "'w fetch \<Rightarrow> nat \<Rightarrow>
   (string \<times> string) list \<times> (string \<times> string) list \<times> 'w web \<Rightarrow>
   (string \<times> string) list \<times> (string \<times> string) list \<times> 'w web \<Rightarrow> bool" for fetch where
  warm_refl: "warm_run fetch 0 a a"
| warm_more: "warm_run fetch n a b \<Longrightarrow> warm_step fetch b c \<Longrightarrow> warm_run fetch (Suc n) a c"

section \<open>Types and names\<close>

definition icon_types :: "string list" where
  "icon_types = [''image/svg+xml'', ''image/x-icon'', ''image/bmp'', ''image/gif'', ''image/webp'', ''image/png'',
     ''image/jpeg'', ''application/octet-stream'']"

lemma detectIconContentType_types: "detectIconContentType data \<in> set icon_types"
  by (simp add: detectIconContentType_def image_type_def icon_types_def Let_def)

lemma valid_icon_id: "isValidIconID i \<Longrightarrow> icon_id i \<and> file_name i"
proof -
  assume v: "isValidIconID i"
  have c: "c \<noteq> CHR ''/'' \<and> c \<noteq> CHR 0x5C \<and> c \<noteq> CHR ''.''" if "c \<in> set i" for c
    using v that by (auto simp: isValidIconID_def list_all_iff)
  have "\<not> Contains i ''..''"
  proof
    assume "Contains i ''..''"
    then have "CHR ''.'' \<in> set i" by (auto simp: Contains_iff)
    with c show False by blast
  qed
  moreover have "CHR ''/'' \<notin> set i" "CHR 0x5C \<notin> set i" using c by blast+
  moreover have "i \<noteq> ''.''" using c by fastforce
  ultimately show ?thesis using v icon_id_file_name [of i] by (auto simp: icon_id_def isValidIconID_def)
qed

section \<open>Serving a favicon\<close>

lemma Get_ccap [simp]: "ccap (snd (Get t k c)) = ccap c"
  by (simp add: Get_def split: option.split)

lemma Get_ok: "cache_ok c \<Longrightarrow> cache_ok (snd (Get t k c))"
proof -
  assume c: "cache_ok c"
  have "length (filter P (cm c)) \<le> length (cm c)" for P by simp
  then have "int (length (filter P (cm c))) \<le> ccap c" for P using c by (smt (verit) cache_ok_def of_nat_mono)
  then show ?thesis using c
    by (auto simp: Get_def cache_ok_def delete_eq_filter distinct_map_filter split: option.split)
qed

lemma Get_cases:
  obtains e where "map_of (cm c) k = Some e" "\<not> expires e < t" "Get t k c = (Some (tvalue e), c)"
  | c' where "Get t k c = (None, c')" "\<forall>e. map_of (cm c) k = Some e \<longrightarrow> expires e < t"
  by (cases "map_of (cm c) k") (auto simp: Get_def split: if_splits)

lemma remember_entry:
  "map_of (cm (faviconCache (remember iter ck i data s))) i =
    Some \<lparr>tvalue = (if data = [] then \<lparr>fdata = [], contentType = []\<rparr>
        else \<lparr>fdata = data, contentType = detectIconContentType data\<rparr>),
      expires = ck 2 + (if data = [] then 15 * minute else 60 * minute)\<rparr>"
  by (simp add: remember_def Set_def Let_def AList.update_conv')

lemma remember_base [simp]: "base (remember iter ck i data s) = base s"
  by (simp add: remember_def)

lemma remember_ok:
  "iterates iter \<Longrightarrow> cache_ok (faviconCache s) \<Longrightarrow> i \<noteq> [] \<Longrightarrow> cache_ok (faviconCache (remember iter ck i data s)) \<and>
    ccap (faviconCache (remember iter ck i data s)) = ccap (faviconCache s)"
  by (simp add: remember_def Set_ok)

text \<open>What a request that is not answered from memory answers and remembers.\<close>

definition found :: "'w fetch \<Rightarrow> string \<Rightarrow> 'w web \<Rightarrow> string" where
  "found fetch i s =
    (if GetTarget i (st (base s)) = [] then []
     else case ReadIcon i (st (base s)) of
       Inr (c # cs) \<Rightarrow> c # cs
     | _ \<Rightarrow> fst (fetch (GetTarget i (st (base s))) (world (base s))))"

lemma getFavicon_miss:
  assumes "isValidIconID i" and g: "Get (ck 0) i (faviconCache s) = (None, c)"
  shows "fst (getFavicon iter ck fetch i s) =
      favicon_reply (if found fetch i s = [] then \<lparr>fdata = [], contentType = []\<rparr>
        else \<lparr>fdata = found fetch i s, contentType = detectIconContentType (found fetch i s)\<rparr>)"
    and "faviconCache (snd (getFavicon iter ck fetch i s)) =
      faviconCache (remember iter ck i (found fetch i s) (s\<lparr>faviconCache := c\<rparr>))"
  using assms(1) unfolding getFavicon_def g found_def
  by (auto simp: favicon_reply_def Let_def remember_def split: sum.split list.split prod.split)

text \<open>The answer to a valid ID is the entry that the cache then holds.\<close>

lemma getFavicon_entry:
  assumes "isValidIconID i"
  shows "\<exists>e. map_of (cm (faviconCache (snd (getFavicon iter ck fetch i s)))) i = Some e \<and>
    fst (getFavicon iter ck fetch i s) = favicon_reply (tvalue e) \<and>
    (map_of (cm (faviconCache s)) i = Some e \<and> ck 0 \<le> expires e \<or>
     expires e = ck 2 + (if fdata (tvalue e) = [] then 15 * minute else 60 * minute))"
proof (rule Get_cases [of "faviconCache s" i "ck 0"])
  fix e assume "map_of (cm (faviconCache s)) i = Some e" "\<not> expires e < ck 0"
    "Get (ck 0) i (faviconCache s) = (Some (tvalue e), faviconCache s)"
  then show ?thesis using assms by (simp add: getFavicon_def)
next
  fix c assume "Get (ck 0) i (faviconCache s) = (None, c)"
  note m = getFavicon_miss [of i ck s c iter fetch, OF assms this]
  show ?thesis unfolding m remember_entry by simp
qed

text \<open>Until it expires, every request for the ID has that answer, whatever has become of the entity.\<close>

lemma getFavicon_again:
  assumes "map_of (cm (faviconCache s)) i = Some e" and "ck 0 \<le> expires e" and "isValidIconID i"
  shows "getFavicon iter ck fetch i s = (favicon_reply (tvalue e), s)"
  using assms by (simp add: getFavicon_def Get_def)

lemma getFavicon_invalid: "\<not> isValidIconID i \<Longrightarrow> getFavicon iter ck fetch i s = (IconNotFound, s)"
  by (simp add: getFavicon_def)

text \<open>A file that an earlier fetch has left is the answer, whatever the target is now.\<close>

lemma getFavicon_disk:
  assumes "isValidIconID i" and "fst (Get (ck 0) i (faviconCache s)) = None" and "GetTarget i (st (base s)) \<noteq> []"
    and "ReadIcon i (st (base s)) = Inr d" and "d \<noteq> []"
  shows "fst (getFavicon iter ck fetch i s) = Icon (detectIconContentType d) ''public, max-age=3600'' [] d"
proof -
  obtain c where g: "Get (ck 0) i (faviconCache s) = (None, c)" using assms(2) by (metis prod.collapse)
  have "found fetch i s = d" using assms(3,4,5) by (cases d) (simp_all add: found_def)
  then show ?thesis using assms(5) unfolding getFavicon_miss(1) [of i ck s c iter fetch, OF assms(1) g] by (simp add: favicon_reply_def)
qed

lemma getFavicon_cache_ok:
  assumes "iterates iter" and "cache_ok (faviconCache s)"
  shows "cache_ok (faviconCache (snd (getFavicon iter ck fetch i s))) \<and>
    ccap (faviconCache (snd (getFavicon iter ck fetch i s))) = ccap (faviconCache s)"
proof (cases "isValidIconID i")
  case v: True
  then have i: "i \<noteq> []" by (simp add: isValidIconID_def)
  show ?thesis
  proof (rule Get_cases [of "faviconCache s" i "ck 0"])
    fix c assume g: "Get (ck 0) i (faviconCache s) = (None, c)"
    have "cache_ok c" "ccap c = ccap (faviconCache s)"
      using Get_ok [OF assms(2), of "ck 0" i] Get_ccap [of "ck 0" i "faviconCache s"] unfolding g by simp_all
    then show ?thesis
      using remember_ok [OF assms(1), of "s\<lparr>faviconCache := c\<rparr>" i ck "found fetch i s"] i
      unfolding getFavicon_miss(2) [of i ck s c iter fetch, OF v g] by simp
  qed (use v assms(2) in \<open>simp add: getFavicon_def\<close>)
qed (use assms(2) in \<open>simp add: getFavicon_invalid\<close>)

text \<open>A request changes nothing but the cache, the world and the icon files.\<close>

lemma WriteIcon_files: "\<exists>f. snd (WriteIcon i d t) = t\<lparr>files := f\<rparr>"
  by (rule files_cases)

lemma files_self: "\<exists>f. t = t\<lparr>files := f\<rparr>" for t :: store
  by (intro exI [of _ "files t"]) simp

lemma getFavicon_frame:
  "\<exists>f. st (base (snd (getFavicon iter ck fetch i s))) = (st (base s))\<lparr>files := f\<rparr>"
  by (auto simp: getFavicon_def Let_def files_self WriteIcon_files split: option.split prod.split sum.split)

section \<open>The warm-up\<close>

definition warm_ok :: "nat \<Rightarrow> (string \<times> string) list \<times> (string \<times> string) list \<times> 'w web \<Rightarrow> bool" where
  "warm_ok n c = (case c of (todo, running, s) \<Rightarrow>
     2 * length todo + length running \<le> n \<and> length running \<le> 10 \<and> cache_ok (faviconCache s) \<and>
     [] \<notin> fst ` set todo \<and> [] \<notin> fst ` set running)"

lemma warm_cached_ok:
  assumes "warm_cached iter ck i s = (b, s')" and "iterates iter" and "cache_ok (faviconCache s)" and "i \<noteq> []"
  shows "cache_ok (faviconCache s')" and "base s' = base s"
proof -
  show "base s' = base s"
    using assms(1) by (auto simp: warm_cached_def Let_def split: prod.splits option.splits if_splits)
  show "cache_ok (faviconCache s')"
  proof (rule Get_cases [of "faviconCache s" i "ck 0"])
    fix c assume g: "Get (ck 0) i (faviconCache s) = (None, c)"
    have "cache_ok c" using Get_ok [OF assms(3), of "ck 0" i] unfolding g by simp
    then show ?thesis
      using assms(1) remember_ok [OF assms(2), of "s\<lparr>faviconCache := c\<rparr>" i ck] assms(4)
      by (auto simp: warm_cached_def g Let_def split: if_splits)
  qed (use assms(1,3) in \<open>simp add: warm_cached_def\<close>)
qed

lemma warm_fetched_ok:
  assumes "iterates iter" and "cache_ok (faviconCache s)" and "i \<noteq> []"
  shows "cache_ok (faviconCache (warm_fetched iter ck i data s))"
    and "\<exists>f. st (base (warm_fetched iter ck i data s)) = (st (base s))\<lparr>files := f\<rparr>"
proof -
  show "cache_ok (faviconCache (warm_fetched iter ck i data s))"
    using remember_ok [OF assms, of ck data] assms(2) by (simp add: warm_fetched_def Let_def)
  show "\<exists>f. st (base (warm_fetched iter ck i data s)) = (st (base s))\<lparr>files := f\<rparr>"
    by (simp add: warm_fetched_def Let_def WriteIcon_files files_self)
qed

lemma warm_step_ok:
  assumes "warm_step fetch c d" and "warm_ok (Suc n) c"
  shows "warm_ok n d"
  using assms(1)
proof cases
  case (warm_hit iter ck i s s' target todo running)
  then show ?thesis using assms(2) warm_cached_ok [of iter ck i s True s'] by (auto simp: warm_ok_def)
next
  case (warm_go iter ck i s s' running target todo)
  then show ?thesis using assms(2) warm_cached_ok [of iter ck i s False s'] by (auto simp: warm_ok_def)
next
  case (warm_done target s data w iter todo a i b ck)
  then show ?thesis
    using assms(2) warm_fetched_ok(1) [of iter "s\<lparr>base := (base s)\<lparr>world := w\<rparr>\<rparr>" i ck data] by (auto simp: warm_ok_def)
next
  case (warm_cancel todo running s)
  then show ?thesis using assms(2) by (cases todo) (auto simp: warm_ok_def)
qed

text \<open>The warm-up ends: a step is possible until nothing is left, and each uses up the measure.\<close>

lemma warm_progress:
  assumes "iterates (iter :: iteration)" and "length running \<le> 10" and "todo \<noteq> [] \<or> running \<noteq> []"
  shows "\<exists>d. warm_step fetch (todo, running, s) d"
proof (cases running)
  case (Cons r rs)
  obtain i target where "r = (i, target)" by fastforce
  then show ?thesis
    using warm_done [of fetch target s _ _ iter todo "[]" i rs] assms(1) Cons by (metis append_Nil prod.collapse)
next
  case Nil
  then obtain i target todo' where t: "todo = (i, target) # todo'" using assms(3) by (cases todo) auto
  obtain b s' where c: "warm_cached iter (\<lambda>_. 0) i s = (b, s')" by fastforce
  show ?thesis
  proof (cases b)
    case True
    then have "warm_step fetch (todo, running, s) (todo', running, s')"
      using warm_hit [of iter _ i s s'] c t assms(1) by simp
    then show ?thesis ..
  next
    case False
    then have "warm_step fetch (todo, running, s) (todo', (i, target) # running, s')"
      using warm_go [of iter _ i s s' running] c t assms(1) Nil by simp
    then show ?thesis ..
  qed
qed

lemma warm_run_ok: "warm_run fetch k c d \<Longrightarrow> warm_ok n c \<Longrightarrow> k \<le> n \<and> warm_ok (n - k) d"
proof (induction rule: warm_run.induct)
  case (warm_more k a b c)
  then have b: "k \<le> n" "warm_ok (n - k) b" by simp_all
  moreover have "n - k \<noteq> 0"
  proof
    assume "n - k = 0"
    with b(2) have "fst b = []" "fst (snd b) = []" by (cases b; auto simp: warm_ok_def)+
    with warm_more.hyps(2) show False by cases auto
  qed
  ultimately show ?case using warm_step_ok [OF warm_more.hyps(2), of "n - Suc k"] by (simp add: Suc_diff_Suc)
qed simp

text \<open>It changes nothing but the cache, the world and the icon files.\<close>

lemma warm_step_frame:
  assumes "warm_step fetch c d"
  shows "\<exists>f. st (base (snd (snd d))) = (st (base (snd (snd c))))\<lparr>files := f\<rparr>"
  using assms
proof cases
  case (warm_hit iter ck i s s' target todo running)
  then have "base s' = base s" by (auto simp: warm_cached_def Let_def split: prod.splits option.splits if_splits)
  then show ?thesis using warm_hit files_self by simp
next
  case (warm_go iter ck i s s' running target todo)
  then have "base s' = base s" by (auto simp: warm_cached_def Let_def split: prod.splits option.splits if_splits)
  then show ?thesis using warm_go files_self by simp
next
  case (warm_done target s data w iter todo a i b ck)
  then show ?thesis using files_self WriteIcon_files by (simp add: warm_fetched_def Let_def)
next
  case (warm_cancel todo running s)
  then show ?thesis using files_self by simp
qed

lemma warm_run_frame:
  "warm_run fetch k c d \<Longrightarrow> \<exists>f. st (base (snd (snd d))) = (st (base (snd (snd c))))\<lparr>files := f\<rparr>"
proof (induction rule: warm_run.induct)
  case (warm_refl a)
  show ?case by (intro exI [of _ "files (st (base (snd (snd a))))"]) simp
next
  case (warm_more n a b c)
  then show ?case using warm_step_frame [OF warm_more.hyps(2)] by fastforce
qed

end
