(* ===== verification/Sysinfo.thy ===== *)
theory Sysinfo
  imports GoStrings Prelude "HOL-Library.Word" Complex_Main
begin

text \<open>
  \<open>internal/sysinfo/sysinfo.go\<close>: memory and disk usage of the host, with 64-bit words that
  wrap as in Go.  \<open>/proc/meminfo\<close> is its lines (\<open>None\<close> when it cannot be opened),
  \<open>statfs\<close> the answer of \<open>Statfs\<close> for a path: blocks, available blocks and block size.
  Percentages are exact quotients, not the nearest \<open>float64\<close>.
\<close>

record Stats =
  MemUsedMB :: "64 word"
  MemTotalMB :: "64 word"
  MemPercent :: rat
  DiskUsedGB :: "64 word"
  DiskTotalGB :: "64 word"
  DiskPercent :: rat

definition parseMemLine :: "string \<Rightarrow> 64 word result" where
  "parseMemLine line =
    (case Fields line of
       _ # f # _ \<Rightarrow> (case ParseUint f 64 of
           Some kb \<Rightarrow> Inr (of_nat kb * 1024)
         | None \<Rightarrow> Inl ''parse /proc/meminfo value'')
     | _ \<Rightarrow> Inl ''unexpected /proc/meminfo line'')"

fun scan_meminfo :: "64 word \<Rightarrow> 64 word \<Rightarrow> string list \<Rightarrow> (64 word \<times> 64 word) result" where
  "scan_meminfo tot available [] = Inl ''memTotal/memAvailable not found in /proc/meminfo''"
| "scan_meminfo tot available (line # ls) =
    (let t = (if HasPrefix line ''MemTotal:'' then parseMemLine line else Inr tot);
         a = (if \<not> HasPrefix line ''MemTotal:'' \<and> HasPrefix line ''MemAvailable:'' then parseMemLine line
              else Inr available)
     in case (t, a) of
          (Inr tot, Inr available) \<Rightarrow>
            if 0 < tot \<and> 0 < available then Inr (tot, available) else scan_meminfo tot available ls
        | (Inl e, _) \<Rightarrow> Inl e
        | (_, Inl e) \<Rightarrow> Inl e)"

definition readMemInfo :: "string list option \<Rightarrow> (64 word \<times> 64 word) result" where
  "readMemInfo meminfo = (case meminfo of
      None \<Rightarrow> Inl ''open /proc/meminfo''
    | Some ls \<Rightarrow> scan_meminfo 0 0 ls)"

type_synonym statfs = "string \<Rightarrow> (64 word \<times> 64 word \<times> 64 word) option"

definition diskUsage :: "statfs \<Rightarrow> string \<Rightarrow> (64 word \<times> 64 word) option" where
  "diskUsage statfs path = (case statfs path of
      None \<Rightarrow> None
    | Some (blocks, bavail, bsize) \<Rightarrow>
        let tot = blocks * bsize; avail = bavail * bsize in Some (tot - avail, tot))"

definition percent :: "64 word \<Rightarrow> 64 word \<Rightarrow> rat" where
  "percent used tot = (if 0 < tot then of_nat (unat used) / of_nat (unat tot) * 100 else 0)"

definition sample :: "string list option \<Rightarrow> statfs \<Rightarrow> Stats result" where
  "sample meminfo statfs = (case readMemInfo meminfo of
      Inl e \<Rightarrow> Inl e
    | Inr (memTotal, memAvail) \<Rightarrow>
        let memUsed = memTotal - memAvail;
            (used, tot) = (case diskUsage statfs ''/data'' of
                Some d \<Rightarrow> d
              | None \<Rightarrow> (case diskUsage statfs ''/'' of Some d \<Rightarrow> d | None \<Rightarrow> (0, 0)))
        in Inr \<lparr>MemUsedMB = memUsed div (1024 * 1024), MemTotalMB = memTotal div (1024 * 1024),
             MemPercent = percent memUsed memTotal,
             DiskUsedGB = used div (1024 * 1024 * 1024), DiskTotalGB = tot div (1024 * 1024 * 1024),
             DiskPercent = percent used tot\<rparr>)"

text \<open>The cache: the last snapshot with its time.  \<open>now\<close> is read before, \<open>now'\<close> after the sampling.\<close>

definition Get_stats ::
  "time \<Rightarrow> time \<Rightarrow> Stats result \<Rightarrow> (Stats \<times> time) option \<Rightarrow> Stats result \<times> (Stats \<times> time) option" where
  "Get_stats now now' smp cached =
    (let refresh = (case smp of Inl e \<Rightarrow> (Inl e, cached) | Inr s \<Rightarrow> (Inr s, Some (s, now')))
     in case cached of
          Some (s, cachedAt) \<Rightarrow> if now - cachedAt < 60 * 1000000000 then (Inr s, cached) else refresh
        | None \<Rightarrow> refresh)"

section \<open>Bounds\<close>

lemma ratio_bound:
  assumes "n \<le> m" and "0 < m"
  shows "of_nat n / of_nat m * 100 \<le> (100 :: rat)"
proof -
  have "of_nat n / of_nat m \<le> (1 :: rat)" using assms by (simp add: divide_le_eq)
  from mult_right_mono [OF this, of 100] show ?thesis by simp
qed

lemma percent_bound: "unat used \<le> unat tot \<Longrightarrow> 0 \<le> percent used tot \<and> percent used tot \<le> 100"
proof (cases "0 < tot")
  case True
  assume le: "unat used \<le> unat tot"
  have p: "0 < unat tot" using True by (simp add: word_less_nat_alt)
  show ?thesis
    using ratio_bound [OF le p] True by (simp only: percent_def if_True) (simp del: of_nat_unat)
qed (simp add: percent_def)

lemma difference_bound: "avail \<le> (tot :: 64 word) \<Longrightarrow> unat (tot - avail) \<le> unat tot"
  by (simp add: unat_sub word_le_nat_alt)

text \<open>
  With no more memory available than there is, and the same for the disk, nothing wraps: what
  is used is within the total and the percentages within 100.
\<close>

lemma sample_bounds:
  assumes "sample meminfo statfs = Inr st"
    and "\<And>t a. readMemInfo meminfo = Inr (t, a) \<Longrightarrow> a \<le> t"
    and "\<And>p b a z. statfs p = Some (b, a, z) \<Longrightarrow> a * z \<le> b * z"
  shows "MemUsedMB st \<le> MemTotalMB st" and "DiskUsedGB st \<le> DiskTotalGB st"
    and "0 \<le> MemPercent st \<and> MemPercent st \<le> 100" and "0 \<le> DiskPercent st \<and> DiskPercent st \<le> 100"
proof -
  obtain t a where m: "readMemInfo meminfo = Inr (t, a)"
    using assms(1) by (auto simp: sample_def split: sum.splits)
  have le: "unat (t - a) \<le> unat t" using difference_bound assms(2) [OF m] by blast
  have d: "unat u \<le> unat v" if "diskUsage statfs p = Some (u, v)" for p u v
    using that assms(3) difference_bound by (auto simp: diskUsage_def Let_def split: option.splits)
  obtain used tot where u: "(case diskUsage statfs ''/data'' of
                Some d \<Rightarrow> d
              | None \<Rightarrow> (case diskUsage statfs ''/'' of Some d \<Rightarrow> d | None \<Rightarrow> (0, 0))) = (used, tot)"
    by fastforce
  have le': "unat used \<le> unat tot" using u d by (auto split: option.splits)
  have div_le: "x div k \<le> y div k" if "unat x \<le> unat y" for x y k :: "64 word"
    using that by (simp add: word_le_nat_alt unat_div div_le_mono)
  have st: "st = \<lparr>MemUsedMB = (t - a) div (1024 * 1024), MemTotalMB = t div (1024 * 1024),
             MemPercent = percent (t - a) t,
             DiskUsedGB = used div (1024 * 1024 * 1024), DiskTotalGB = tot div (1024 * 1024 * 1024),
             DiskPercent = percent used tot\<rparr>"
    using assms(1) unfolding sample_def m by (simp add: u Let_def)
  show "MemUsedMB st \<le> MemTotalMB st" "DiskUsedGB st \<le> DiskTotalGB st"
    unfolding st using div_le [OF le] div_le [OF le'] by simp_all
  show "0 \<le> MemPercent st \<and> MemPercent st \<le> 100" "0 \<le> DiskPercent st \<and> DiskPercent st \<le> 100"
    unfolding st using percent_bound [OF le] percent_bound [OF le'] by simp_all
qed

text \<open>A snapshot is at most a minute old, and a fresh one is taken only when it is older.\<close>

lemma Get_stats_fresh:
  assumes "Get_stats now now' smp cached = (Inr st, c)" and "now \<le> now'"
  shows "\<exists>since. c = Some (st, since) \<and> (c = cached \<and> now - since < 60 * 1000000000 \<or> smp = Inr st \<and> since = now')"
  using assms by (auto simp: Get_stats_def Let_def split: option.splits sum.splits if_splits)

end
