(* ===== verification/Fragments.thy ===== *)
theory Fragments
  imports Pages Icons HealthCheck Sysinfo System
begin

text \<open>
  The rest of \<open>internal/web\<close> that only reads: the fragments of \<open>fragments.go\<close>, the JSON
  listings of the handlers, the two pages and the status of the health checks.  A handler
  gives the data of its template or of its JSON, a \<open>view\<close>; the rendering is not modelled.
\<close>

section \<open>The state of the web server\<close>

text \<open>
  The server with its favicon cache, the health of the services, the scanner with its log, the
  tunnel manager with its running flag, the cached system information and the version; scanner
  and manager may be missing.
\<close>

record 'w site =
  siWeb :: "'w web"
  siHealth :: health
  siScanner :: "(Discoverer \<times> string list) option"
  siTunnel :: "bool option"
  siStats :: "(Stats \<times> time) option"
  siVersion :: string

abbreviation srv_of :: "'w site \<Rightarrow> 'w Server" where
  "srv_of s \<equiv> base (siWeb s)"

definition set_srv :: "'w Server \<Rightarrow> 'w site \<Rightarrow> 'w site" where
  "set_srv x s = s\<lparr>siWeb := (siWeb s)\<lparr>base := x\<rparr>\<rparr>"

definition tunnel_status :: "'w site \<Rightarrow> TunnelStatus option" where
  "tunnel_status s = map_option (\<lambda>r. Status \<lparr>srv = srv_of s, running = r\<rparr>) (siTunnel s)"

text \<open>\<open>sort.Slice\<close> for services, bookmarks and entries, and \<open>net.ParseIP\<close>.\<close>

record libs =
  sliceS :: "(Service \<Rightarrow> Service \<Rightarrow> bool) \<Rightarrow> Service list \<Rightarrow> Service list"
  sliceB :: "(Bookmark \<Rightarrow> Bookmark \<Rightarrow> bool) \<Rightarrow> Bookmark list \<Rightarrow> Bookmark list"
  sliceD :: "(DiscoveredService \<Rightarrow> DiscoveredService \<Rightarrow> bool) \<Rightarrow> DiscoveredService list \<Rightarrow> DiscoveredService list"
  parseIP :: "string \<Rightarrow> nat list option"

section \<open>Answers\<close>

datatype view =
    VGrid servicesGridData
  | VBookmarkGrid "(string \<times> Bookmark list) list"
  | VIndex string servicesGridData "(string \<times> Bookmark list) list"
  | VManage string
  | VServices "Service list"
  | VServicesTable "Service list" string
  | VServiceForm "Service option" "string list" string bool
  | VBookmarks "Bookmark list"
  | VBookmarkForm "Bookmark option" "string list"
  | VDiscovered "DiscoveredService list"
  | VAssignForm DiscoveredService "string list" string bool
  | VIgnored "IgnoredService list"
  | VStatus statusResponse
  | VTunnel "TunnelStatus option"
  | VTunnelStatus TunnelStatus
  | VSubnets "string list"
  | VDDNS "string list" string
  | VStats Stats
  | VHealth health

text \<open>
  A status with the events of its header; a template, with whether the header opens the modal;
  JSON; an icon; an embedded file; the answer of \<open>fragTunnel\<close> that deletes the placeholder.
\<close>

datatype answer =
    Answer response
  | Html bool view
  | JSON view
  | IconAnswer icon_reply
  | StaticAnswer string
  | DeletePlaceholder

definition not_found :: answer where
  "not_found = Answer \<lparr>status = 404, message = ''404 page not found'', events = []\<rparr>"

section \<open>Fragments\<close>

definition healthSnapshot :: "'w site \<Rightarrow> health" where
  "healthSnapshot s = siHealth s"

definition index_page :: "libs \<Rightarrow> 'w site \<Rightarrow> answer" where
  "index_page l s = Html False (VIndex (siVersion s)
     (buildServicesGrid (sliceS l) (services (st (srv_of s))) (Domain (cfg (srv_of s))) (healthSnapshot s) False)
     (buildBookmarksGrid (sliceB l) (bookmarks (st (srv_of s)))))"

definition fragSysinfo :: "time \<Rightarrow> time \<Rightarrow> Stats result \<Rightarrow> 'w site \<Rightarrow> answer \<times> 'w site" where
  "fragSysinfo now now' smp s = (case Get_stats now now' smp (siStats s) of
      (Inl e, c) \<Rightarrow> (Answer \<lparr>status = 204, message = [], events = []\<rparr>, s\<lparr>siStats := c\<rparr>)
    | (Inr x, c) \<Rightarrow> (Html False (VStats x), s\<lparr>siStats := c\<rparr>))"

definition getSysinfo :: "time \<Rightarrow> time \<Rightarrow> Stats result \<Rightarrow> 'w site \<Rightarrow> answer \<times> 'w site" where
  "getSysinfo now now' smp s = (case Get_stats now now' smp (siStats s) of
      (Inl e, c) \<Rightarrow> (Answer (apiError 500 e), s\<lparr>siStats := c\<rparr>)
    | (Inr x, c) \<Rightarrow> (JSON (VStats x), s\<lparr>siStats := c\<rparr>))"

definition status_data :: "'w site \<Rightarrow> statusResponse" where
  "status_data s = buildStatusData (siScanner s) (tunnel_status s) (srv_of s)"

definition fragStatus :: "'w site \<Rightarrow> answer" where
  "fragStatus s = Html False (VStatus (status_data s))"

definition getStatus :: "'w site \<Rightarrow> answer" where
  "getStatus s = JSON (VStatus (status_data s))"

definition fragTunnel :: "'w site \<Rightarrow> answer" where
  "fragTunnel s = (case buildTunnelFragData (tunnel_status s) (srv_of s) of
      (t, available) \<Rightarrow> if \<not> available then DeletePlaceholder else Html False (VTunnel t))"

definition fragSubnets :: "'w site \<Rightarrow> answer" where
  "fragSubnets s = Html False (VSubnets (GetScanSubnets (st (srv_of s))))"

definition listScanSubnets :: "'w site \<Rightarrow> answer" where
  "listScanSubnets s = JSON (VSubnets (GetScanSubnets (st (srv_of s))))"

definition fragServiceFormAdd :: "'w site \<Rightarrow> answer" where
  "fragServiceFormAdd s =
    Html True (VServiceForm None (uniqueCategories (st (srv_of s))) (Domain (cfg (srv_of s))) (TunnelEnabled (cl (srv_of s))))"

definition fragDiscovered :: "libs \<Rightarrow> 'w site \<Rightarrow> answer" where
  "fragDiscovered l s = Html False (VDiscovered (SortDiscoveredByIP (sliceD l) (parseIP l) (discovered (st (srv_of s)))))"

definition fragIgnored :: "'w site \<Rightarrow> answer" where
  "fragIgnored s = Html False (VIgnored (GetIgnored (st (srv_of s))))"

definition listIgnored :: "'w site \<Rightarrow> answer" where
  "listIgnored s = JSON (VIgnored (GetIgnored (st (srv_of s))))"

definition fragBookmarksTable :: "'w site \<Rightarrow> answer" where
  "fragBookmarksTable s = Html False (VBookmarks (bookmarks (st (srv_of s))))"

definition listBookmarks :: "'w site \<Rightarrow> answer" where
  "listBookmarks s = JSON (VBookmarks (bookmarks (st (srv_of s))))"

definition fragBookmarkFormAdd :: "'w site \<Rightarrow> answer" where
  "fragBookmarkFormAdd s = Html True (VBookmarkForm None (uniqueCategories (st (srv_of s))))"

definition fragDDNS :: "'w site \<Rightarrow> answer" where
  "fragDDNS s = Html False (VDDNS (GetDDNSDomains (st (srv_of s))) (GetPublicIP (st (srv_of s))))"

definition listDDNS :: "'w site \<Rightarrow> answer" where
  "listDDNS s = JSON (VDDNS (GetDDNSDomains (st (srv_of s))) (GetPublicIP (st (srv_of s))))"

definition listServices :: "'w site \<Rightarrow> answer" where
  "listServices s = JSON (VServices (services (st (srv_of s))))"

definition getHealth :: "'w site \<Rightarrow> answer" where
  "getHealth s = JSON (VHealth (healthSnapshot s))"

text \<open>\<open>triggerScan\<close>: the scan starts unless one is running, and the answer shows the new status.\<close>

definition triggerScan :: "'w site \<Rightarrow> answer \<times> 'w site" where
  "triggerScan s =
    (let s = s\<lparr>siScanner := map_option (\<lambda>d. (ScanNow (fst d), snd d)) (siScanner s)\<rparr> in (fragStatus s, s))"

lemma triggerScan_scanning:
  assumes "siScanner s = Some d"
  shows "\<exists>x. fst (triggerScan s) = Html False (VStatus x) \<and> stScanning x"
  using assms by (simp add: triggerScan_def fragStatus_def status_data_def buildStatusData_def ScanStatus_def ScanNow_def Let_def
      split: prod.split)

text \<open>The fragment of the tunnel shows only when there are credentials, or a tunnel.\<close>

lemma fragTunnel_hidden:
  "fragTunnel s = DeletePlaceholder \<longleftrightarrow> \<not> TunnelAvailable (cl (srv_of s)) \<and> \<not> TunnelEnabled (cl (srv_of s)) \<and>
    (siTunnel s = None \<or> GetTunnel (st (srv_of s)) = None \<or> (\<exists>t. GetTunnel (st (srv_of s)) = Some t \<and> tiTunnelID t = []))"
  by (auto simp: fragTunnel_def buildTunnelFragData_def tunnel_status_def Status_def split: option.splits)

end
