(* ===== verification/Routes.thy ===== *)
theory Routes
  imports Fragments
begin

text \<open>
  \<open>routes\<close> of \<open>internal/web/server.go\<close>: the patterns and their handlers, the choice that
  \<open>net/http\<close>'s \<open>ServeMux\<close> makes among them, and one function for every request that reaches the
  web interface.
\<close>

section \<open>Patterns\<close>

text \<open>A literal segment, a named one such as \<open>{id}\<close>, \<open>{$}\<close> and the rest after a final slash.\<close>

datatype seg = Lit string | Wild | EndSlash | Rest

datatype endpoint =
    StaticFiles | Index | Manage
  | FragServices | FragBookmarks | FragSysinfo | FragStatus | FragTunnel | FragSubnets | FragServicesTable
  | FragServiceFormAdd | FragServiceFormEdit | FragDiscovered | FragIgnored | FragAssignForm | FragBookmarksTable
  | FragBookmarkFormAdd | FragBookmarkFormEdit | FragDDNS
  | ListServices | CreateService | UpdateServiceEP | DeleteServiceEP
  | ListDiscovered | DeleteDiscovered | TriggerScan | GetStatus
  | ListScanSubnets | AddScanSubnetEP | RemoveScanSubnetEP | ListDDNS | AddDDNS | RemoveDDNS
  | GetFavicon | ReorderServicesEP | GetIcon | UploadServiceIcon | PullServiceFavicon | ClearServiceIcon
  | IgnoreDiscoveredEP | ListIgnored | UnignoreServiceEP | GetHealth | GetSysinfo
  | ListBookmarks | CreateBookmark | UpdateBookmarkEP | DeleteBookmarkEP | ReorderBookmarksEP
  | GetTunnelEP | CreateTunnelEP | DeleteTunnelEP

definition frag :: "string \<Rightarrow> endpoint \<Rightarrow> string \<times> seg list \<times> endpoint" where
  "frag name e = (''GET'', [Lit ''fragments'', Lit name], e)"

definition routes :: "(string \<times> seg list \<times> endpoint) list" where
  "routes =
    [(''GET'', [Rest], StaticFiles),
     (''GET'', [EndSlash], Index),
     (''GET'', [Lit ''manage''], Manage),
     frag ''services'' FragServices,
     frag ''bookmarks'' FragBookmarks,
     frag ''sysinfo'' FragSysinfo,
     frag ''status'' FragStatus,
     frag ''tunnel'' FragTunnel,
     frag ''subnets'' FragSubnets,
     frag ''services-table'' FragServicesTable,
     frag ''service-form'' FragServiceFormAdd,
     (''GET'', [Lit ''fragments'', Lit ''service-form'', Wild], FragServiceFormEdit),
     frag ''discovered'' FragDiscovered,
     frag ''ignored'' FragIgnored,
     (''GET'', [Lit ''fragments'', Lit ''assign-form'', Wild], FragAssignForm),
     frag ''bookmarks-table'' FragBookmarksTable,
     frag ''bookmark-form'' FragBookmarkFormAdd,
     (''GET'', [Lit ''fragments'', Lit ''bookmark-form'', Wild], FragBookmarkFormEdit),
     frag ''ddns'' FragDDNS,
     (''GET'', [Lit ''api'', Lit ''services''], ListServices),
     (''POST'', [Lit ''api'', Lit ''services''], CreateService),
     (''PUT'', [Lit ''api'', Lit ''services'', Wild], UpdateServiceEP),
     (''DELETE'', [Lit ''api'', Lit ''services'', Wild], DeleteServiceEP),
     (''GET'', [Lit ''api'', Lit ''discovered''], ListDiscovered),
     (''DELETE'', [Lit ''api'', Lit ''discovered'', Wild], DeleteDiscovered),
     (''POST'', [Lit ''api'', Lit ''scan''], TriggerScan),
     (''GET'', [Lit ''api'', Lit ''status''], GetStatus),
     (''GET'', [Lit ''api'', Lit ''scan'', Lit ''subnets''], ListScanSubnets),
     (''POST'', [Lit ''api'', Lit ''scan'', Lit ''subnets''], AddScanSubnetEP),
     (''DELETE'', [Lit ''api'', Lit ''scan'', Lit ''subnets''], RemoveScanSubnetEP),
     (''GET'', [Lit ''api'', Lit ''ddns''], ListDDNS),
     (''POST'', [Lit ''api'', Lit ''ddns''], AddDDNS),
     (''DELETE'', [Lit ''api'', Lit ''ddns'', Wild], RemoveDDNS),
     (''GET'', [Lit ''api'', Lit ''favicon'', Wild], GetFavicon),
     (''POST'', [Lit ''api'', Lit ''services'', Lit ''reorder''], ReorderServicesEP),
     (''GET'', [Lit ''api'', Lit ''icons'', Wild], GetIcon),
     (''POST'', [Lit ''api'', Lit ''services'', Wild, Lit ''icon''], UploadServiceIcon),
     (''POST'', [Lit ''api'', Lit ''services'', Wild, Lit ''favicon''], PullServiceFavicon),
     (''DELETE'', [Lit ''api'', Lit ''services'', Wild, Lit ''icon''], ClearServiceIcon),
     (''POST'', [Lit ''api'', Lit ''discovered'', Wild, Lit ''ignore''], IgnoreDiscoveredEP),
     (''GET'', [Lit ''api'', Lit ''ignored''], ListIgnored),
     (''DELETE'', [Lit ''api'', Lit ''ignored'', Wild], UnignoreServiceEP),
     (''GET'', [Lit ''api'', Lit ''health''], GetHealth),
     (''GET'', [Lit ''api'', Lit ''sysinfo''], GetSysinfo),
     (''GET'', [Lit ''api'', Lit ''bookmarks''], ListBookmarks),
     (''POST'', [Lit ''api'', Lit ''bookmarks''], CreateBookmark),
     (''PUT'', [Lit ''api'', Lit ''bookmarks'', Wild], UpdateBookmarkEP),
     (''DELETE'', [Lit ''api'', Lit ''bookmarks'', Wild], DeleteBookmarkEP),
     (''POST'', [Lit ''api'', Lit ''bookmarks'', Lit ''reorder''], ReorderBookmarksEP),
     (''GET'', [Lit ''api'', Lit ''tunnel''], GetTunnelEP),
     (''POST'', [Lit ''api'', Lit ''tunnel''], CreateTunnelEP),
     (''DELETE'', [Lit ''api'', Lit ''tunnel''], DeleteTunnelEP)]"

section \<open>The choice of a handler\<close>

text \<open>
  The segments of a path, each unescaped; a path that ends in a slash has an empty last one.
  A wildcard takes one segment that is not empty.
\<close>

definition hex_value :: "char \<Rightarrow> nat option" where
  "hex_value c = (if is_digit c then Some (code c - 48)
     else if 97 \<le> code c \<and> code c \<le> 102 then Some (code c - 87)
     else if 65 \<le> code c \<and> code c \<le> 70 then Some (code c - 55) else None)"

fun unescape :: "string \<Rightarrow> string option" where
  "unescape [] = Some []"
| "unescape (c # s) =
    (if c = CHR ''%'' then
       (case s of a # b # r \<Rightarrow> (case (hex_value a, hex_value b) of
           (Some m, Some n) \<Rightarrow> map_option ((#) (char_of (16 * m + n))) (unescape r)
         | _ \<Rightarrow> None)
       | _ \<Rightarrow> None)
     else map_option ((#) c) (unescape s))"

definition path_segment :: "string \<Rightarrow> string" where
  "path_segment s = (case unescape s of Some t \<Rightarrow> t | None \<Rightarrow> s)"

definition path_segs :: "string \<Rightarrow> string list" where
  "path_segs p = map path_segment (tl (SplitByte p (CHR ''/'')))"

fun match_segs :: "seg list \<Rightarrow> string list \<Rightarrow> string list option" where
  "match_segs [] [] = Some []"
| "match_segs [EndSlash] [x] = (if x = [] then Some [] else None)"
| "match_segs [Rest] (x # xs) = Some []"
| "match_segs (Lit a # ps) (x # xs) = (if a = x then match_segs ps xs else None)"
| "match_segs (Wild # ps) (x # xs) = (if x \<noteq> [] then map_option ((#) x) (match_segs ps xs) else None)"
| "match_segs _ _ = None"

text \<open>The tree is walked with literals before wildcards and wildcards before the rest.\<close>

fun precedes :: "seg list \<Rightarrow> seg list \<Rightarrow> bool" where
  "precedes (Lit a # ps) (Lit b # qs) \<longleftrightarrow> precedes ps qs"
| "precedes (Lit a # ps) (q # qs) \<longleftrightarrow> True"
| "precedes (Wild # ps) (Wild # qs) \<longleftrightarrow> precedes ps qs"
| "precedes (Wild # ps) (Rest # qs) \<longleftrightarrow> True"
| "precedes (EndSlash # ps) (q # qs) \<longleftrightarrow> q \<noteq> EndSlash"
| "precedes _ _ \<longleftrightarrow> False"

text \<open>A pattern for GET also serves HEAD.\<close>

definition serves_method :: "string \<Rightarrow> string \<Rightarrow> bool" where
  "serves_method m pattern_m \<longleftrightarrow> m = pattern_m \<or> m = ''HEAD'' \<and> pattern_m = ''GET''"

definition matching :: "string \<Rightarrow> string list \<Rightarrow> (string \<times> seg list \<times> endpoint) list" where
  "matching m xs = filter (\<lambda>(pm, ps, _). serves_method m pm \<and> match_segs ps xs \<noteq> None) routes"

definition best_route ::
  "(string \<times> seg list \<times> endpoint) list \<Rightarrow> (string \<times> seg list \<times> endpoint) option" where
  "best_route rs = (case rs of [] \<Rightarrow> None
     | r # rs \<Rightarrow> Some (fold (\<lambda>q b. if precedes (fst (snd q)) (fst (snd b)) then q else b) rs r))"

datatype routed = Handler endpoint "string list" | MethodNotAllowed | NoRoute | RedirectTo string

text \<open>
  \<open>cleanPath\<close>, and the redirect to the cleaned path.  No pattern but the root ends in a slash,
  so a path is never redirected to the same one with a slash.
\<close>

definition cleanPath :: "string \<Rightarrow> string" where
  "cleanPath p =
    (if p = [] then ''/''
     else let p = (if HasPrefix p ''/'' then p else CHR ''/'' # p); np = Clean p
          in if last p = CHR ''/'' \<and> np \<noteq> ''/'' then np @ ''/'' else np)"

definition find_route :: "string \<Rightarrow> string \<Rightarrow> routed" where
  "find_route m urlPath =
    (if cleanPath urlPath \<noteq> urlPath then RedirectTo (cleanPath urlPath)
     else let xs = path_segs urlPath
          in case best_route (matching m xs) of
               Some (_, ps, e) \<Rightarrow> Handler e (the (match_segs ps xs))
             | None \<Rightarrow> if \<exists>(_, ps, _) \<in> set routes. match_segs ps xs \<noteq> None then MethodNotAllowed else NoRoute)"

section \<open>A pattern and the paths it matches\<close>

text \<open>The path of a route with values for its wildcards.\<close>

fun fill :: "seg list \<Rightarrow> string list \<Rightarrow> string list" where
  "fill (Lit a # ps) vs = a # fill ps vs"
| "fill (Wild # ps) (v # vs) = v # fill ps vs"
| "fill (EndSlash # ps) vs = [[]]"
| "fill _ _ = []"

definition wilds :: "seg list \<Rightarrow> nat" where
  "wilds ps = length (filter (\<lambda>p. p = Wild) ps)"

fun plain_pattern :: "seg list \<Rightarrow> bool" where
  "plain_pattern [] \<longleftrightarrow> True"
| "plain_pattern [EndSlash] \<longleftrightarrow> True"
| "plain_pattern (Lit a # ps) \<longleftrightarrow> plain_pattern ps"
| "plain_pattern (Wild # ps) \<longleftrightarrow> plain_pattern ps"
| "plain_pattern _ \<longleftrightarrow> False"

lemma match_fill:
  "plain_pattern ps \<Longrightarrow> length vs = wilds ps \<Longrightarrow> [] \<notin> set vs \<Longrightarrow> match_segs ps (fill ps vs) = Some vs"
proof (induction ps vs rule: fill.induct)
  case (2 ps v vs)
  then show ?case by (auto simp: wilds_def)
qed (auto simp: wilds_def elim: plain_pattern.elims)

text \<open>Two patterns that can match one path.\<close>

fun overlap :: "seg list \<Rightarrow> seg list \<Rightarrow> bool" where
  "overlap [Rest] _ \<longleftrightarrow> True"
| "overlap _ [Rest] \<longleftrightarrow> True"
| "overlap [] [] \<longleftrightarrow> True"
| "overlap [EndSlash] [EndSlash] \<longleftrightarrow> True"
| "overlap (Lit a # ps) (Lit b # qs) \<longleftrightarrow> a = b \<and> overlap ps qs"
| "overlap (Lit a # ps) (Wild # qs) \<longleftrightarrow> overlap ps qs"
| "overlap (Wild # ps) (Lit a # qs) \<longleftrightarrow> overlap ps qs"
| "overlap (Wild # ps) (Wild # qs) \<longleftrightarrow> overlap ps qs"
| "overlap [EndSlash] (Lit a # ps) \<longleftrightarrow> a = []"
| "overlap (Lit a # ps) [EndSlash] \<longleftrightarrow> a = []"
| "overlap _ _ \<longleftrightarrow> False"

lemma match_overlap: "match_segs ps xs \<noteq> None \<Longrightarrow> match_segs qs xs \<noteq> None \<Longrightarrow> overlap ps qs"
proof (induction ps xs arbitrary: qs rule: match_segs.induct)
  case 1
  then show ?case by (cases qs rule: list.exhaust) (auto elim: match_segs.elims)
next
  case (2 x)
  then show ?case by (cases "(qs, [x])" rule: match_segs.cases) (auto split: if_splits)
next
  case (3 x xs)
  then show ?case by simp
next
  case (4 a ps x xs)
  then show ?case by (cases "(qs, x # xs)" rule: match_segs.cases) (auto split: if_splits)
next
  case (5 ps x xs)
  then show ?case by (cases "(qs, x # xs)" rule: match_segs.cases) (auto split: if_splits)
qed simp_all

text \<open>No two patterns of the table, the one of the files apart, can match one request.\<close>

fun apart :: "(string \<times> seg list \<times> endpoint) list \<Rightarrow> bool" where
  "apart [] \<longleftrightarrow> True"
| "apart (r # rs) \<longleftrightarrow>
    list_all (\<lambda>q. \<not> (fst r = fst q \<and> overlap (fst (snd r)) (fst (snd q)) \<and> overlap (fst (snd q)) (fst (snd r)))) rs \<and> apart rs"

lemma apart_routes: "apart (tl routes)"
  by code_simp

lemma routes_plain: "list_all (\<lambda>r. plain_pattern (fst (snd r)) \<and> fst (snd r) \<noteq> [] \<and> fst r \<noteq> ''HEAD'') (tl routes)"
  by code_simp

lemma routes_distinct: "distinct (map (\<lambda>r. snd (snd r)) (tl routes))"
  by code_simp

lemma apart_unique:
  assumes "apart rs" and "r \<in> set rs" and "q \<in> set rs" and "fst r = fst q"
    and "overlap (fst (snd r)) (fst (snd q))" and "overlap (fst (snd q)) (fst (snd r))"
  shows "r = q"
  using assms by (induction rs) (auto simp: list_all_iff)

lemma serves_method_one: "serves_method m a \<Longrightarrow> serves_method m b \<Longrightarrow> a \<noteq> ''HEAD'' \<Longrightarrow> b \<noteq> ''HEAD'' \<Longrightarrow> a = b"
  by (auto simp: serves_method_def)

lemma routes_Cons: "routes = (''GET'', [Rest], StaticFiles) # tl routes"
  by (simp add: routes_def)

lemma filter_only: "distinct xs \<Longrightarrow> r \<in> set xs \<Longrightarrow> (\<And>y. y \<in> set xs \<Longrightarrow> P y \<longleftrightarrow> y = r) \<Longrightarrow> filter P xs = [r]"
proof (induction xs)
  case (Cons x xs)
  show ?case
  proof (cases "x = r")
    case True
    then have "\<not> P y" if "y \<in> set xs" for y using Cons.prems that by auto
    then show ?thesis using True Cons.prems(3) [of x] by (simp add: filter_empty_conv)
  next
    case False
    then show ?thesis using Cons by auto
  qed
qed simp

lemma precedes_Rest: "plain_pattern ps \<Longrightarrow> ps \<noteq> [] \<Longrightarrow> precedes ps [Rest]"
  by (cases ps rule: plain_pattern.cases) simp_all

text \<open>The route that matches a request, other than the one of the files, is the one that serves it.\<close>

lemma best_route_unique:
  assumes r: "(pm, ps, e) \<in> set (tl routes)" and m: "serves_method m pm" and xs: "match_segs ps xs \<noteq> None"
  shows "best_route (matching m xs) = Some (pm, ps, e)"
proof -
  let ?P = "\<lambda>(pm, ps, _). serves_method m pm \<and> match_segs ps xs \<noteq> None"
  have wf: "plain_pattern ps'" "ps' \<noteq> []" "pm' \<noteq> ''HEAD''" if "(pm', ps', e') \<in> set (tl routes)" for pm' ps' e'
    using routes_plain that by (auto simp: list_all_iff)
  have "?P y \<longleftrightarrow> y = (pm, ps, e)" if y: "y \<in> set (tl routes)" for y
  proof
    obtain pm' ps' e' where yy: "y = (pm', ps', e')" by (metis prod.exhaust)
    assume P: "?P y"
    have "pm = pm'" using serves_method_one [OF m _ wf(3) [OF r] wf(3) [OF y [unfolded yy]]] P yy by simp
    moreover have "overlap ps ps'" "overlap ps' ps" using match_overlap [of ps xs ps'] match_overlap [of ps' xs ps] xs P yy by auto
    ultimately show "y = (pm, ps, e)" using apart_unique [OF apart_routes y r] yy by simp
  qed (use m xs in simp)
  moreover have "distinct (tl routes)" using routes_distinct by (simp add: distinct_map)
  ultimately have f: "filter ?P (tl routes) = [(pm, ps, e)]" by (intro filter_only [OF _ r])
  have "matching m xs = (if ?P (''GET'', [Rest], StaticFiles) then [(''GET'', [Rest], StaticFiles), (pm, ps, e)] else [(pm, ps, e)])"
    unfolding matching_def by (subst routes_Cons, simp only: filter.simps f)
  moreover have "precedes ps [Rest]" using wf [OF r] by (intro precedes_Rest)
  ultimately show ?thesis by (simp add: best_route_def)
qed

text \<open>
  Every handler is reached under each of its paths, and gets the values that stand in the
  path; a path is here what comes out of splitting and unescaping.
\<close>

lemma route_reached:
  assumes "(pm, ps, e) \<in> set (tl routes)" and "serves_method m pm" and "length vs = wilds ps" and "[] \<notin> set vs"
    and "cleanPath urlPath = urlPath" and "path_segs urlPath = fill ps vs"
  shows "find_route m urlPath = Handler e vs"
proof -
  have "plain_pattern ps" using routes_plain assms(1) by (auto simp: list_all_iff)
  then have f: "match_segs ps (fill ps vs) = Some vs" using assms(3,4) by (rule match_fill)
  then show ?thesis using best_route_unique [OF assms(1,2), of "fill ps vs"] assms(5,6) by (simp add: find_route_def)
qed

text \<open>From the text of a path: segments that are file names without a percent sign.\<close>

definition plain_seg :: "string \<Rightarrow> bool" where
  "plain_seg s \<longleftrightarrow> file_name s \<and> CHR ''%'' \<notin> set s"

lemma unescape_plain: "CHR ''%'' \<notin> set s \<Longrightarrow> unescape s = Some s"
  by (induction s) auto

lemma plain_path:
  assumes "segs \<noteq> []" and "list_all plain_seg segs"
  shows "cleanPath (CHR ''/'' # JoinSlash segs) = CHR ''/'' # JoinSlash segs" and "path_segs (CHR ''/'' # JoinSlash segs) = segs"
proof -
  let ?p = "CHR ''/'' # JoinSlash segs"
  have st: "list_all plain_seg xs \<Longrightarrow> clean_stack True xs" for xs by (induction xs) (auto simp: plain_seg_def file_name_def)
  have c: "clean_stack True (rev segs)" using assms(2) by (intro st) (simp add: list_all_iff)
  have p: "?p = render_path True (rev segs)" by (simp add: render_path_def)
  have "path_stack ?p = rev segs" using path_stack_render(1) [OF c] assms(1) by (simp add: p)
  then have np: "Clean ?p = ?p" by (simp add: Clean_def HasPrefix_def p [symmetric])
  obtain xs x where x: "segs = xs @ [x]" using assms(1) by (meson rev_exhaust)
  then have "x \<noteq> []" "CHR ''/'' \<notin> set x" using assms(2) by (simp_all add: plain_seg_def file_name_def)
  moreover have "JoinSlash segs = (if xs = [] then x else JoinSlash xs @ ''/'' @ x)" by (simp add: x JoinSlash_snoc)
  ultimately have "last ?p \<noteq> CHR ''/''" by (auto dest: last_in_set)
  then show "cleanPath ?p = ?p" by (simp add: cleanPath_def np HasPrefix_def Let_def)
  have "SplitByte (JoinSlash segs) CHR ''/'' = segs"
    using assms by (intro SplitByte_JoinSlash) (auto simp: list_all_iff plain_seg_def file_name_def)
  moreover have "map path_segment segs = segs"
    using assms(2) by (intro map_idI) (auto simp: list_all_iff path_segment_def unescape_plain plain_seg_def file_name_def)
  ultimately show "path_segs ?p = segs" by (simp add: path_segs_def)
qed

fun plain_lits :: "seg list \<Rightarrow> bool" where
  "plain_lits [] \<longleftrightarrow> True"
| "plain_lits (Lit a # ps) \<longleftrightarrow> plain_seg a \<and> plain_lits ps"
| "plain_lits (Wild # ps) \<longleftrightarrow> plain_lits ps"
| "plain_lits _ \<longleftrightarrow> False"

lemma fill_plain: "plain_lits ps \<Longrightarrow> length vs = wilds ps \<Longrightarrow> list_all plain_seg vs \<Longrightarrow> list_all plain_seg (fill ps vs)"
proof (induction ps vs rule: fill.induct)
  case (2 ps v vs)
  then show ?case by (auto simp: wilds_def)
qed (auto simp: wilds_def elim: plain_lits.elims)

lemma routes_lits: "list_all (\<lambda>r. snd (snd r) = Index \<or> plain_lits (fst (snd r))) (tl routes)"
  by code_simp

lemma routed:
  assumes "(pm, ps, e) \<in> set (tl routes)" and "e \<noteq> Index" and "serves_method m pm" and "length vs = wilds ps"
    and "list_all plain_seg vs"
  shows "find_route m (CHR ''/'' # JoinSlash (fill ps vs)) = Handler e vs"
proof -
  have l: "plain_lits ps" "ps \<noteq> []" using routes_lits routes_plain assms(1,2) by (auto simp: list_all_iff)
  then have f: "list_all plain_seg (fill ps vs)" using assms(4,5) by (intro fill_plain)
  have "fill ps vs \<noteq> []" using l assms(4) by (cases ps rule: plain_lits.cases; cases vs) (auto simp: wilds_def)
  note p = plain_path [OF this f]
  have "[] \<notin> set vs" using assms(5) by (auto simp: list_all_iff plain_seg_def file_name_def)
  then show ?thesis using route_reached [OF assms(1,3,4) _ p] by blast
qed

lemma index_routed: "find_route ''GET'' ''/'' = Handler Index []"
  by code_simp

end
