(* ===== verification/Site.thy ===== *)
theory Site
  imports Routes
begin

text \<open>
  A request to the web interface from its method and path to its answer: the route is chosen,
  and the handler runs on the state of the site.  Every request that writes is an event of
  \<open>System\<close>, those for the tunnel apart; no GET changes the store, but for icon files.
\<close>

section \<open>Requests\<close>

text \<open>
  Form, upload and path values are those of \<open>http_req\<close>; beside them the search text \<open>q\<close>, the
  JSON list \<open>ids\<close> and the header \<open>If-None-Match\<close>.
\<close>

record web_request =
  wqMethod :: string
  wqPath :: string
  wqForm :: http_req
  wqQuery :: string
  wqIDs :: "string list option"
  wqNoneMatch :: string

text \<open>
  What a handler draws from its surroundings: random bytes, the time, the secret of a new tunnel,
  the order and clock of the cache, the hash, the sample of \<open>/proc\<close>.
\<close>

record ambient =
  amRand8 :: "nat list"
  amNow :: time
  amNow2 :: time
  amSecret :: string
  amIter :: iteration
  amClock :: "nat \<Rightarrow> time"
  amSha :: "string \<Rightarrow> nat list"
  amSample :: "Stats result"

definition with_id :: "web_request \<Rightarrow> string list \<Rightarrow> http_req" where
  "with_id q args = (wqForm q)\<lparr>pathID := (case args of [] \<Rightarrow> [] | v # _ \<Rightarrow> v)\<rparr>"

definition path_value :: "string list \<Rightarrow> string" where
  "path_value args = (case args of [] \<Rightarrow> [] | v # _ \<Rightarrow> v)"

definition shows_page :: "answer \<Rightarrow> 'w site \<Rightarrow> answer \<times> 'w site \<times> task list" where
  "shows_page a s = (a, s, [])"

definition writes :: "response \<times> 'w Server \<Rightarrow> 'w site \<Rightarrow> answer \<times> 'w site \<times> task list" where
  "writes r s = (Answer (fst r), set_srv (snd r) s, [])"

definition writes_tasks :: "response \<times> 'w Server \<times> task list \<Rightarrow> 'w site \<Rightarrow> answer \<times> 'w site \<times> task list" where
  "writes_tasks r s = (Answer (fst r), set_srv (fst (snd r)) s, snd (snd r))"

definition or_404 :: "view option \<Rightarrow> answer" where
  "or_404 v = (case v of None \<Rightarrow> not_found | Some x \<Rightarrow> Html True x)"

definition with_manager ::
  "int \<Rightarrow> ('w Manager \<Rightarrow> response \<times> 'w Manager) \<Rightarrow> 'w site \<Rightarrow> answer \<times> 'w site \<times> task list" where
  "with_manager missing f s = (case siTunnel s of
      None \<Rightarrow> (Answer (errorResponse missing ''tunnel manager not available''), s, [])
    | Some r \<Rightarrow> (case f \<lparr>srv = srv_of s, running = r\<rparr> of
        (resp, m) \<Rightarrow> (Answer resp, (set_srv (srv m) s)\<lparr>siTunnel := Some (running m)\<rparr>, [])))"

definition tunnel_answer :: "'w site \<Rightarrow> answer" where
  "tunnel_answer s = (case siTunnel s of
      None \<Rightarrow> Answer (apiError 404 ''tunnel manager not available'')
    | Some r \<Rightarrow> (case getTunnel \<lparr>srv = srv_of s, running = r\<rparr> of Inl resp \<Rightarrow> Answer resp | Inr t \<Rightarrow> JSON (VTunnelStatus t)))"

section \<open>The handlers\<close>

primrec serve :: "'w env \<Rightarrow> libs \<Rightarrow> ambient \<Rightarrow> endpoint \<Rightarrow> web_request \<Rightarrow> string list \<Rightarrow> 'w site \<Rightarrow>
    answer \<times> 'w site \<times> task list" where
  "serve e l a StaticFiles q args s = shows_page (StaticAnswer (wqPath q)) s"
| "serve e l a Index q args s = shows_page (index_page l s) s"
| "serve e l a Manage q args s = shows_page (Html False (VManage (siVersion s))) s"
| "serve e l a FragServices q args s =
    shows_page (Html False (VGrid (fragServicesGrid (sliceS l) (cfg (srv_of s)) (healthSnapshot s) (wqQuery q) (st (srv_of s))))) s"
| "serve e l a FragBookmarks q args s =
    shows_page (Html False (VBookmarkGrid (fragBookmarksGrid (sliceB l) (wqQuery q) (st (srv_of s))))) s"
| "serve e l a FragSysinfo q args s = (case fragSysinfo (amNow a) (amNow2 a) (amSample a) s of (r, s) \<Rightarrow> (r, s, []))"
| "serve e l a FragStatus q args s = shows_page (fragStatus s) s"
| "serve e l a FragTunnel q args s = shows_page (fragTunnel s) s"
| "serve e l a FragSubnets q args s = shows_page (fragSubnets s) s"
| "serve e l a FragServicesTable q args s =
    shows_page (Html False (VServicesTable (fragServicesTable (sliceS l) (st (srv_of s))) (Domain (cfg (srv_of s))))) s"
| "serve e l a FragServiceFormAdd q args s = shows_page (fragServiceFormAdd s) s"
| "serve e l a FragServiceFormEdit q args s = shows_page (or_404 (map_option (\<lambda>(v, cats, zone, tun). VServiceForm (Some v) cats zone tun)
     (fragServiceFormEdit (path_value args) (srv_of s)))) s"
| "serve e l a FragDiscovered q args s = shows_page (fragDiscovered l s) s"
| "serve e l a FragIgnored q args s = shows_page (fragIgnored s) s"
| "serve e l a FragAssignForm q args s = shows_page (or_404 (map_option (\<lambda>(d, cats, zone, tun). VAssignForm d cats zone tun)
     (fragAssignForm (path_value args) (srv_of s)))) s"
| "serve e l a FragBookmarksTable q args s = shows_page (fragBookmarksTable s) s"
| "serve e l a FragBookmarkFormAdd q args s = shows_page (fragBookmarkFormAdd s) s"
| "serve e l a FragBookmarkFormEdit q args s = shows_page (or_404 (map_option (\<lambda>(b, cats). VBookmarkForm (Some b) cats)
     (fragBookmarkFormEdit (path_value args) (srv_of s)))) s"
| "serve e l a FragDDNS q args s = shows_page (fragDDNS s) s"
| "serve e l a ListServices q args s = shows_page (listServices s) s"
| "serve e l a CreateService q args s =
    writes_tasks (createService (eHTTP e) (amRand8 a) (amNow a) (with_id q args) (srv_of s)) s"
| "serve e l a UpdateServiceEP q args s = writes (updateService (eHTTP e) (with_id q args) (srv_of s)) s"
| "serve e l a DeleteServiceEP q args s =
    writes (deleteService (eHTTP e) (amRand8 a) (amNow a) (with_id q args) (srv_of s)) s"
| "serve e l a ListDiscovered q args s =
    shows_page (JSON (VDiscovered (listDiscovered (sliceD l) (parseIP l) (st (srv_of s))))) s"
| "serve e l a DeleteDiscovered q args s = writes (deleteDiscovered (with_id q args) (srv_of s)) s"
| "serve e l a TriggerScan q args s = (case triggerScan s of (r, s) \<Rightarrow> (r, s, []))"
| "serve e l a GetStatus q args s = shows_page (getStatus s) s"
| "serve e l a ListScanSubnets q args s = shows_page (listScanSubnets s) s"
| "serve e l a AddScanSubnetEP q args s = writes (addScanSubnet (eCIDR e) (with_id q args) (srv_of s)) s"
| "serve e l a RemoveScanSubnetEP q args s = writes (removeScanSubnet (with_id q args) (srv_of s)) s"
| "serve e l a ListDDNS q args s = shows_page (listDDNS s) s"
| "serve e l a AddDDNS q args s = writes (addDDNS (eHTTP e) (with_id q args) (srv_of s)) s"
| "serve e l a RemoveDDNS q args s = writes (removeDDNS (eHTTP e) (with_id q args) (srv_of s)) s"
| "serve e l a GetFavicon q args s = (case getFavicon (amIter a) (amClock a) (eFetch e) (path_value args) (siWeb s) of
     (i, w) \<Rightarrow> (IconAnswer i, s\<lparr>siWeb := w\<rparr>, []))"
| "serve e l a ReorderServicesEP q args s = writes (reorderHandler ReorderServices (wqIDs q) (srv_of s)) s"
| "serve e l a GetIcon q args s =
    shows_page (IconAnswer (getIcon (amSha a) (path_value args) (wqNoneMatch q) (st (srv_of s)))) s"
| "serve e l a UploadServiceIcon q args s = writes (uploadServiceIcon (with_id q args) (srv_of s)) s"
| "serve e l a PullServiceFavicon q args s = writes (pullServiceFavicon (eFetch e) (with_id q args) (srv_of s)) s"
| "serve e l a ClearServiceIcon q args s = writes (clearServiceIcon (with_id q args) (srv_of s)) s"
| "serve e l a IgnoreDiscoveredEP q args s = writes (ignoreDiscovered (amNow a) (with_id q args) (srv_of s)) s"
| "serve e l a ListIgnored q args s = shows_page (listIgnored s) s"
| "serve e l a UnignoreServiceEP q args s = writes (unignoreService (amNow a) (with_id q args) (srv_of s)) s"
| "serve e l a GetHealth q args s = shows_page (getHealth s) s"
| "serve e l a GetSysinfo q args s = (case getSysinfo (amNow a) (amNow2 a) (amSample a) s of (r, s) \<Rightarrow> (r, s, []))"
| "serve e l a ListBookmarks q args s = shows_page (listBookmarks s) s"
| "serve e l a CreateBookmark q args s = writes_tasks (createBookmark (amRand8 a) (with_id q args) (srv_of s)) s"
| "serve e l a UpdateBookmarkEP q args s = writes_tasks (updateBookmark (with_id q args) (srv_of s)) s"
| "serve e l a DeleteBookmarkEP q args s = writes (deleteBookmark (with_id q args) (srv_of s)) s"
| "serve e l a ReorderBookmarksEP q args s = writes (reorderHandler ReorderBookmarks (wqIDs q) (srv_of s)) s"
| "serve e l a GetTunnelEP q args s = shows_page (tunnel_answer s) s"
| "serve e l a CreateTunnelEP q args s = with_manager 503 (createTunnel (eHTTP e) (eLaunch e) (amSecret a) (amNow a)) s"
| "serve e l a DeleteTunnelEP q args s = with_manager 404 (deleteTunnel (eHTTP e)) s"

definition serve_request :: "'w env \<Rightarrow> libs \<Rightarrow> ambient \<Rightarrow> web_request \<Rightarrow> 'w site \<Rightarrow> answer \<times> 'w site \<times> task list" where
  "serve_request e l a q s = (case find_route (wqMethod q) (wqPath q) of
      Handler ep args \<Rightarrow> serve e l a ep q args s
    | MethodNotAllowed \<Rightarrow> shows_page (Answer \<lparr>status = 405, message = ''Method Not Allowed'', events = []\<rparr>) s
    | NoRoute \<Rightarrow> shows_page not_found s
    | RedirectTo p \<Rightarrow> shows_page (Answer \<lparr>status = 301, message = p, events = []\<rparr>) s)"

section \<open>Reading and writing\<close>

text \<open>The event of \<open>System\<close> that a writing handler is.\<close>

definition event_of :: "ambient \<Rightarrow> endpoint \<Rightarrow> web_request \<Rightarrow> string list \<Rightarrow> event option" where
  "event_of a ep q args = (let rq = with_id q args in case ep of
      CreateService \<Rightarrow> Some (EvCreateService (amRand8 a) (amNow a) rq)
    | UpdateServiceEP \<Rightarrow> Some (EvUpdateService rq)
    | DeleteServiceEP \<Rightarrow> Some (EvDeleteService (amRand8 a) (amNow a) rq)
    | DeleteDiscovered \<Rightarrow> Some (EvDeleteDiscovered rq)
    | AddScanSubnetEP \<Rightarrow> Some (EvAddSubnet rq)
    | RemoveScanSubnetEP \<Rightarrow> Some (EvRemoveSubnet rq)
    | AddDDNS \<Rightarrow> Some (EvAddDDNS rq)
    | RemoveDDNS \<Rightarrow> Some (EvRemoveDDNS rq)
    | ReorderServicesEP \<Rightarrow> Some (EvReorderServices (wqIDs q))
    | ReorderBookmarksEP \<Rightarrow> Some (EvReorderBookmarks (wqIDs q))
    | UploadServiceIcon \<Rightarrow> Some (EvUploadIcon rq)
    | PullServiceFavicon \<Rightarrow> Some (EvPullIcon rq)
    | ClearServiceIcon \<Rightarrow> Some (EvClearIcon rq)
    | IgnoreDiscoveredEP \<Rightarrow> Some (EvIgnore (amNow a) rq)
    | UnignoreServiceEP \<Rightarrow> Some (EvUnignore (amNow a) rq)
    | CreateBookmark \<Rightarrow> Some (EvCreateBookmark (amRand8 a) rq)
    | UpdateBookmarkEP \<Rightarrow> Some (EvUpdateBookmark rq)
    | DeleteBookmarkEP \<Rightarrow> Some (EvDeleteBookmark rq)
    | _ \<Rightarrow> None)"

lemma srv_of_set [simp]: "srv_of (set_srv x s) = x"
  by (simp add: set_srv_def)

lemma serve_event:
  "event_of a ep q args = Some ev \<Longrightarrow> srv_of (fst (snd (serve e l a ep q args s))) = handle e ev (srv_of s)"
  by (cases ep) (auto simp: event_of_def Let_def writes_def writes_tasks_def)

text \<open>What a reading handler may change of the server: icon files, and what its fetch does outside.\<close>

definition reads_only :: "'w Server \<Rightarrow> 'w Server \<Rightarrow> bool" where
  "reads_only x y \<longleftrightarrow> (\<exists>f. st y = (st x)\<lparr>files := f\<rparr>) \<and> cfg y = cfg x \<and> cl y = cl x"

lemma reads_only_refl [simp]: "reads_only x x"
  by (auto simp: reads_only_def intro: exI [of _ "files (st x)"])

lemma getFavicon_reads: "reads_only (base w) (base (snd (getFavicon iter ck fetch i w)))"
proof -
  have "cfg (base (snd (getFavicon iter ck fetch i w))) = cfg (base w)" "cl (base (snd (getFavicon iter ck fetch i w))) = cl (base w)"
    by (simp_all add: getFavicon_def remember_def Let_def split: option.split prod.split)
  then show ?thesis using getFavicon_frame unfolding reads_only_def by blast
qed

lemma serve_reads:
  assumes "event_of a ep q args = None" and "ep \<noteq> CreateTunnelEP" and "ep \<noteq> DeleteTunnelEP"
  shows "reads_only (srv_of s) (srv_of (fst (snd (serve e l a ep q args s))))"
proof (cases "ep = GetFavicon")
  case True
  then show ?thesis
    using getFavicon_reads [of "siWeb s" "amIter a" "amClock a" "eFetch e" "path_value args"] by (simp add: case_prod_beta)
next
  case False
  with assms show ?thesis
    by (cases ep) (auto simp: event_of_def Let_def shows_page_def fragSysinfo_def getSysinfo_def triggerScan_def
        split: prod.split sum.split)
qed

text \<open>A route for GET leads to a handler that reads.\<close>

lemma best_route_in:
  assumes "best_route rs = Some r"
  shows "r \<in> set rs"
proof (cases rs)
  case (Cons x xs)
  have "fold (\<lambda>q b. if precedes (fst (snd q)) (fst (snd b)) then q else b) xs x \<in> set (x # xs)"
    by (induction xs arbitrary: x) (simp_all del: split_paired_All, blast)
  with assms Cons show ?thesis by (simp add: best_route_def)
qed (use assms in \<open>simp add: best_route_def\<close>)

lemma find_route_in:
  "find_route m urlPath = Handler ep args \<Longrightarrow> \<exists>pm ps. (pm, ps, ep) \<in> set routes \<and> serves_method m pm"
  by (auto simp: find_route_def matching_def Let_def dest!: best_route_in split: if_splits option.splits) blast+

definition get_handlers :: "endpoint list" where
  "get_handlers = map (\<lambda>r. snd (snd r)) (filter (\<lambda>r. fst r = ''GET'') routes)"

lemma get_handlers_read:
  "ep \<in> set get_handlers \<Longrightarrow> event_of a ep q args = None \<and> ep \<noteq> CreateTunnelEP \<and> ep \<noteq> DeleteTunnelEP"
  by (auto simp: get_handlers_def routes_def frag_def event_of_def)

lemma get_reads:
  assumes "wqMethod q = ''GET'' \<or> wqMethod q = ''HEAD''"
  shows "reads_only (srv_of s) (srv_of (fst (snd (serve_request e l a q s))))"
proof (cases "find_route (wqMethod q) (wqPath q)")
  case (Handler ep args)
  then obtain pm ps where r: "(pm, ps, ep) \<in> set routes" "serves_method (wqMethod q) pm" using find_route_in by blast
  then have "pm = ''GET''" using assms by (auto simp: serves_method_def routes_def frag_def)
  then have "ep \<in> set get_handlers" using r(1) by (force simp: get_handlers_def)
  then show ?thesis using serve_reads [of a ep q args] get_handlers_read [of ep a q args] by (simp add: serve_request_def Handler)
qed (simp_all add: serve_request_def shows_page_def)

section \<open>The invariant through requests\<close>

lemma srv_inv_Tunnel [simp]: "srv_inv (s\<lparr>Tunnel := t\<rparr>) = srv_inv s"
proof -
  have "discovered (s\<lparr>Tunnel := t\<rparr>) = discovered s" "services (s\<lparr>Tunnel := t\<rparr>) = services s"
    by (simp_all add: discovered_def services_def GetAllServices_def)
  then show ?thesis by (simp add: srv_inv_def store_inv_def svc_inv_def disc_inv_def ign_inv_def bm_inv_def)
qed

lemma srv_inv_SaveLog' [simp]: "srv_inv (SaveLog s) = srv_inv s"
  using SaveLog_cases [of s] by auto

lemma Create_keeps: "srv_inv (st (srv m)) \<Longrightarrow> srv_inv (st (srv (snd (Create http launch secret now m))))"
  by (auto simp: Create_def startProcess_def SetTunnel_def Let_def split: prod.split sum.split if_splits)

lemma Delete_keeps: "srv_inv (st (srv m)) \<Longrightarrow> srv_inv (st (srv (snd (Delete http m))))"
  by (auto simp: Delete_def Stop_def ClearTunnel_def Let_def split: option.split prod.split sum.split if_splits)

lemma tunnel_handlers_keep:
  assumes "srv_inv (st (srv_of s))"
  shows "srv_inv (st (srv_of (fst (snd (with_manager n (createTunnel http launch secret now) s)))))"
    and "srv_inv (st (srv_of (fst (snd (with_manager n (deleteTunnel http) s)))))"
proof -
  have c: "srv_inv (st (srv (snd (createTunnel http launch secret now m))))" if "srv_inv (st (srv m))" for m
    using Create_keeps [OF that, of http launch secret now] that by (auto simp: createTunnel_def split: prod.split sum.split)
  have d: "srv_inv (st (srv (snd (deleteTunnel http m))))" if "srv_inv (st (srv m))" for m
    using Delete_keeps [OF that, of http] by (auto simp: deleteTunnel_def split: prod.split sum.split)
  show "srv_inv (st (srv_of (fst (snd (with_manager n (createTunnel http launch secret now) s)))))"
    using assms c [of "\<lparr>srv = srv_of s, running = r\<rparr>" for r]
    by (auto simp: with_manager_def set_srv_def case_prod_beta split: option.split)
  show "srv_inv (st (srv_of (fst (snd (with_manager n (deleteTunnel http) s)))))"
    using assms d [of "\<lparr>srv = srv_of s, running = r\<rparr>" for r]
    by (auto simp: with_manager_def set_srv_def case_prod_beta split: option.split)
qed

definition request_admissible :: "ambient \<Rightarrow> web_request \<Rightarrow> store \<Rightarrow> bool" where
  "request_admissible a q t \<longleftrightarrow> (case find_route (wqMethod q) (wqPath q) of
      Handler ep args \<Rightarrow> (case event_of a ep q args of Some ev \<Rightarrow> admissible ev t | None \<Rightarrow> True)
    | _ \<Rightarrow> True)"

lemma reads_only_inv: "reads_only x y \<Longrightarrow> srv_inv (st y) = srv_inv (st x)"
  by (auto simp: reads_only_def)

lemma request_keeps:
  assumes i: "srv_inv (st (srv_of s))" and a: "request_admissible a q (st (srv_of s))"
  shows "srv_inv (st (srv_of (fst (snd (serve_request e l a q s)))))"
proof (cases "find_route (wqMethod q) (wqPath q)")
  case (Handler ep args)
  show ?thesis
  proof (cases "event_of a ep q args")
    case None
    show ?thesis
    proof (cases "ep = CreateTunnelEP \<or> ep = DeleteTunnelEP")
      case True
      then show ?thesis using tunnel_handlers_keep [OF i] by (auto simp: serve_request_def Handler)
    next
      case False
      then show ?thesis using reads_only_inv [OF serve_reads [OF None, of s e l]] i by (simp add: serve_request_def Handler)
    qed
  next
    case (Some ev)
    then have "admissible ev (st (srv_of s))" using a by (simp add: request_admissible_def Handler)
    from handle_keeps [OF i this, of e] show ?thesis by (simp add: serve_request_def Handler serve_event [OF Some])
  qed
qed (use i in \<open>simp_all add: serve_request_def shows_page_def\<close>)

text \<open>Any sequence of requests.\<close>

fun serve_requests :: "'w env \<Rightarrow> libs \<Rightarrow> (ambient \<times> web_request) list \<Rightarrow> 'w site \<Rightarrow> 'w site" where
  "serve_requests e l [] s = s"
| "serve_requests e l (aq # qs) s = serve_requests e l qs (fst (snd (serve_request e l (fst aq) (snd aq) s)))"

fun requests_admissible :: "'w env \<Rightarrow> libs \<Rightarrow> (ambient \<times> web_request) list \<Rightarrow> 'w site \<Rightarrow> bool" where
  "requests_admissible e l [] s \<longleftrightarrow> True"
| "requests_admissible e l (aq # qs) s \<longleftrightarrow> request_admissible (fst aq) (snd aq) (st (srv_of s)) \<and>
    requests_admissible e l qs (fst (snd (serve_request e l (fst aq) (snd aq) s)))"

lemma serve_requests_keep:
  "srv_inv (st (srv_of s)) \<Longrightarrow> requests_admissible e l qs s \<Longrightarrow> srv_inv (st (srv_of (serve_requests e l qs s)))"
  by (induction qs arbitrary: s) (simp_all add: request_keeps)

end
