(* ===== verification/Lifecycle.thy ===== *)
theory Lifecycle
  imports Restart Loops Site
begin

text \<open>
  The life of the program: what \<open>main\<close> (\<open>main.go\<close>) makes of a start, the steps of everything
  that runs afterwards side by side (the goroutines, the requests that come in over HTTPS, the
  fetches of icons, the two kinds of scans result by result, the shutdown after a signal, and an
  end at any moment), and the next start.

  A step is atomic: a handler, a background task or the storing of one result of a scan.
  \<open>Persist\<close> looks into the writing of the file.
\<close>

section \<open>The state\<close>

datatype phase = Provisioning | Serving | Stopping | Saving | Exited | Killed

text \<open>
  The site and the certificates; the fetches that are under way; the cache that is being warmed;
  the full scan with its assigned targets, its ignored addresses and its count; the light scan
  with its targets; the proxy.
\<close>

record ('w, 'u) program =
  prPhase :: phase
  prSite :: "'w site"
  prTasks :: "event list"
  prWarm :: "((string \<times> string) list \<times> (string \<times> string) list) option"
  prFull :: "(string list \<times> string list \<times> nat) option"
  prLight :: "string list option"
  prCerts :: "'w CertManager"
  prHandler :: "'u Handler"

abbreviation server_of :: "('w, 'u) program \<Rightarrow> 'w Server" where
  "server_of p \<equiv> srv_of (prSite p)"

abbreviation store_of :: "('w, 'u) program \<Rightarrow> store" where
  "store_of p \<equiv> st (server_of p)"

definition set_server :: "'w Server \<Rightarrow> ('w, 'u) program \<Rightarrow> ('w, 'u) program" where
  "set_server x p = p\<lparr>prSite := set_srv x (prSite p)\<rparr>"

definition set_store :: "store \<Rightarrow> ('w, 'u) program \<Rightarrow> ('w, 'u) program" where
  "set_store t p = set_server ((server_of p)\<lparr>st := t\<rparr>) p"

definition not_ended :: "('w, 'u) program \<Rightarrow> bool" where
  "not_ended p \<longleftrightarrow> prPhase p \<noteq> Exited \<and> prPhase p \<noteq> Killed"

text \<open>What \<open>main\<close> builds of the store, the tunnel manager and the certificate manager of \<open>boot\<close>.\<close>

definition assemble :: "string \<Rightarrow> 'w Manager \<Rightarrow> 'w CertManager \<Rightarrow> ('w, 'u) program" where
  "assemble version m certs =
    \<lparr>prPhase = Provisioning,
     prSite = \<lparr>siWeb = new_web (srv m), siHealth = Map.empty, siScanner = Some (idle, []), siTunnel = Some (running m),
       siStats = None, siVersion = version\<rparr>,
     prTasks = [], prWarm = None, prFull = None, prLight = None, prCerts = certs, prHandler = new_handler (cfg (srv m))\<rparr>"

fun task_event :: "task \<Rightarrow> event" where
  "task_event (FetchServiceIcon i) = EvFetchServiceIcon i"
| "task_event (FetchBookmarkIcon i) = EvFetchBookmarkIcon i"

fun icon_task :: "(string \<times> string) option \<Rightarrow> event list" where
  "icon_task None = []"
| "icon_task (Some (i, target)) = [EvContainerIcon i target]"

fun fetches_icon :: "event \<Rightarrow> bool" where
  "fetches_icon (EvFetchServiceIcon i) \<longleftrightarrow> True"
| "fetches_icon (EvFetchBookmarkIcon i) \<longleftrightarrow> True"
| "fetches_icon (EvContainerIcon i t) \<longleftrightarrow> True"
| "fetches_icon ev \<longleftrightarrow> False"

definition set_scanner :: "Discoverer \<Rightarrow> string list \<Rightarrow> ('w, 'u) program \<Rightarrow> ('w, 'u) program" where
  "set_scanner d lines p = p\<lparr>prSite := (prSite p)\<lparr>siScanner := Some (d, lines)\<rparr>\<rparr>"

section \<open>The steps\<close>

text \<open>
  The goroutines: the address check of DDNS, the events of containers, the fetches that handlers
  and containers have started, a round of health checks, the warming of the cache, the renewal of
  the certificate, the end of \<open>cloudflared\<close> or its start by the watcher.  Anything may
  change in the world outside.
\<close>

inductive background :: "'w env \<Rightarrow> 'w pki \<Rightarrow> ('w, 'u) program \<Rightarrow> ('w, 'u) program \<Rightarrow> bool" for e pk where
  check_address: "background e pk p (set_server (checkAndUpdate (eHTTP e) (eIPify e) (server_of p)) p)"
| container: "i \<noteq> [] \<Longrightarrow> fresh_entry rand8 (store_of p) \<Longrightarrow>
    upsertContainerWithLabels (eGet e) rand8 now i name ports ls (server_of p) = (s', f) \<Longrightarrow>
    background e pk p ((set_server s' p)\<lparr>prTasks := prTasks p @ icon_task f\<rparr>)"
| container_gone: "i \<noteq> [] \<Longrightarrow> background e pk p (set_server (detachContainer i (server_of p)) p)"
| fetched: "prTasks p = a @ ev # b \<Longrightarrow>
    background e pk p ((set_server (handle e ev (server_of p)) p)\<lparr>prTasks := a @ b\<rparr>)"
| health: "mset order = mset (health_targets (store_of p)) \<Longrightarrow>
    background e pk p (p\<lparr>prSite := (prSite p)\<lparr>siHealth := checkHealth reach order (store_of p) (siHealth (prSite p))\<rparr>\<rparr>)"
| warm_start: "prWarm p = None \<Longrightarrow> background e pk p (p\<lparr>prWarm := Some (warm_entries (store_of p), [])\<rparr>)"
| warm: "prWarm p = Some (todo, going) \<Longrightarrow> warm_step (eFetch e) (todo, going, siWeb (prSite p)) (todo', going', w') \<Longrightarrow>
    background e pk p (p\<lparr>prWarm := Some (todo', going'), prSite := (prSite p)\<lparr>siWeb := w'\<rparr>\<rparr>)"
| renewal: "prPhase p \<noteq> Provisioning \<Longrightarrow> background e pk p (p\<lparr>prCerts := renew_tick pk now (prCerts p)\<rparr>)"
| cloudflared: "siTunnel (prSite p) = Some r \<Longrightarrow> background e pk p (p\<lparr>prSite := (prSite p)\<lparr>siTunnel := Some r'\<rparr>\<rparr>)"
| outside: "background e pk p (set_server ((server_of p)\<lparr>world := w\<rparr>) p)"

text \<open>
  The scans, result by result.  A full scan runs when the flag is set (\<open>ScanNow\<close>); the lines that it
  writes to its log are left open.
\<close>

inductive scan :: "('w, 'u) program \<Rightarrow> ('w, 'u) program \<Rightarrow> bool" where
  full_start: "siScanner (prSite p) = Some (d, lines) \<Longrightarrow> 0 < fulls d \<Longrightarrow> prFull p = None \<Longrightarrow>
    scan p (set_scanner d lines' (set_store (ClearNetworkDiscovered (store_of p)) p)\<lparr>prFull :=
      Some (assignedTargets (store_of p), map (\<lambda>ig. iIP ig @ '':'' @ Itoa (iPort ig)) (GetIgnored (store_of p)), 0)\<rparr>)"
| full_result: "siScanner (prSite p) = Some (d, lines) \<Longrightarrow> prFull p = Some (targets, ignoredSet, n) \<Longrightarrow>
    fresh_entry rand8 (store_of p) \<Longrightarrow> full_step ignoredSet targets now (r, rand8) (n, store_of p) = (n', t) \<Longrightarrow>
    scan p (set_scanner d lines' (set_store t p)\<lparr>prFull := Some (targets, ignoredSet, n')\<rparr>)"
| full_end: "siScanner (prSite p) = Some (d, lines) \<Longrightarrow> prFull p \<noteq> None \<Longrightarrow>
    scan p (set_scanner (d\<lparr>lastScan := now, scanning := False, fulls := fulls d - 1\<rparr>) lines'
      (set_store (SaveLog (SetLastScan now (store_of p))) p)\<lparr>prFull := None\<rparr>)"
| light_start: "siScanner (prSite p) = Some (d, lines) \<Longrightarrow> \<not> scanning d \<Longrightarrow> prLight p = None \<Longrightarrow>
    scan p (set_scanner (d\<lparr>lights := 1\<rparr>) lines p\<lparr>prLight := Some (assignedTargets (store_of p))\<rparr>)"
| light_skip: "siScanner (prSite p) = Some (d, lines) \<Longrightarrow> scanning d \<Longrightarrow> prLight p = None \<Longrightarrow>
    scan p (set_scanner (d\<lparr>nextScan := now + ScanInterval (cfg (server_of p))\<rparr>) lines p)"
| light_result: "prLight p = Some targets \<Longrightarrow> fresh_entry rand8 (store_of p) \<Longrightarrow>
    scan p (set_store (light_step targets now (r, rand8) (store_of p)) p)"
| light_end: "siScanner (prSite p) = Some (d, lines) \<Longrightarrow> prLight p \<noteq> None \<Longrightarrow>
    scan p (set_scanner (d\<lparr>lights := lights d - 1, nextScan := now + ScanInterval (cfg (server_of p))\<rparr>) lines
      (set_store (SaveLog (store_of p)) p)\<lparr>prLight := None\<rparr>)"

text \<open>
  A request over HTTPS, after a handshake that was given a certificate: to the web interface, or
  to a service or an error page.  The two records are two views of one request.
\<close>

inductive https :: "'w env \<Rightarrow> libs \<Rightarrow> (string \<Rightarrow> 'u URL option) \<Rightarrow> ('w, 'u) program \<Rightarrow> ('w, 'u) program \<Rightarrow> bool" for e l parse where
  to_web: "GetCertificate (prCerts p) = Inr cert \<Longrightarrow> ServeHTTP parse (store_of p) rq (prHandler p) = (ToWeb, h) \<Longrightarrow>
    request_admissible a q (store_of p) \<Longrightarrow> serve_request e l a q (prSite p) = (reply, s', ts) \<Longrightarrow>
    https e l parse p (p\<lparr>prSite := s', prHandler := h, prTasks := prTasks p @ map task_event ts\<rparr>)"
| to_service: "GetCertificate (prCerts p) = Inr cert \<Longrightarrow> ServeHTTP parse (store_of p) rq (prHandler p) = (out, h) \<Longrightarrow>
    out \<noteq> ToWeb \<Longrightarrow> https e l parse p (p\<lparr>prHandler := h\<rparr>)"

text \<open>
  \<open>main\<close> itself: the certificate, then the server on port 443; after a signal the tunnel
  is stopped and the store saved.  A signal before the servers are up, an error of the listener,
  a panic or the loss of power end the program at once.
\<close>

inductive main_moves :: "'w pki \<Rightarrow> ('w, 'u) program \<Rightarrow> ('w, 'u) program \<Rightarrow> bool" for pk where
  provisioned: "prPhase p = Provisioning \<Longrightarrow>
    main_moves pk p (p\<lparr>prCerts := snd (EnsureCert pk now (prCerts p)), prPhase := Serving\<rparr>)"
| signalled: "prPhase p = Serving \<Longrightarrow> main_moves pk p (p\<lparr>prPhase := Stopping\<rparr>)"
| tunnel_stopped: "prPhase p = Stopping \<Longrightarrow> siTunnel (prSite p) = Some r \<Longrightarrow>
    main_moves pk p (p\<lparr>prSite := (prSite p)\<lparr>siTunnel := Some (running (Stop \<lparr>srv = server_of p, running = r\<rparr>))\<rparr>,
      prPhase := Saving\<rparr>)"
| saved_last: "prPhase p = Saving \<Longrightarrow> main_moves pk p ((set_store (SaveLog (store_of p)) p)\<lparr>prPhase := Exited\<rparr>)"
| killed: "not_ended p \<Longrightarrow> main_moves pk p (p\<lparr>prPhase := Killed\<rparr>)"

inductive step :: "'w env \<Rightarrow> libs \<Rightarrow> 'w pki \<Rightarrow> (string \<Rightarrow> 'u URL option) \<Rightarrow> ('w, 'u) program \<Rightarrow> ('w, 'u) program \<Rightarrow> bool"
  for e l pk parse where
  in_background: "not_ended p \<Longrightarrow> background e pk p q \<Longrightarrow> step e l pk parse p q"
| in_scan: "not_ended p \<Longrightarrow> scan p q \<Longrightarrow> step e l pk parse p q"
| in_https: "not_ended p \<Longrightarrow> prPhase p \<noteq> Provisioning \<Longrightarrow> https e l parse p q \<Longrightarrow> step e l pk parse p q"
| in_main: "main_moves pk p q \<Longrightarrow> step e l pk parse p q"

text \<open>
  A first start finds no file, or the file of a store that was in order; the next one what the
  program has left, whether it has ended or was killed.
\<close>

definition sound_disk :: "data_dir \<Rightarrow> bool" where
  "sound_disk d \<longleftrightarrow> (\<exists>conf s. ddConfig d = Inr conf \<and> srv_inv s \<and> content conf = snapshot s)"

inductive lives :: "'w env \<Rightarrow> libs \<Rightarrow> 'w pki \<Rightarrow> (string \<Rightarrow> 'u URL option) \<Rightarrow> ('w, 'u) program \<Rightarrow> bool" for e l pk parse where
  born: "sound_disk d \<Longrightarrow> boot getenv parseDuration d (eHTTP e) (eLaunch e) w = Inr (m, certs) \<Longrightarrow>
    can_save (st (srv m)) \<Longrightarrow> lives e l pk parse (assemble version m certs)"
| moved: "lives e l pk parse p \<Longrightarrow> step e l pk parse p q \<Longrightarrow> lives e l pk parse q"
| reborn: "lives e l pk parse p \<Longrightarrow> \<not> not_ended p \<Longrightarrow> ddConfig d = Inr (saved (store_of p)) \<Longrightarrow>
    boot getenv parseDuration d (eHTTP e) (eLaunch e) w = Inr (m, certs) \<Longrightarrow>
    can_save (st (srv m)) \<Longrightarrow> lives e l pk parse (assemble version m certs)"

section \<open>What every step keeps\<close>

text \<open>The proxy's handler is the one of the start after the requests so far.\<close>

definition has_served :: "(string \<Rightarrow> 'u URL option) \<Rightarrow> 'u Handler \<Rightarrow> bool" where
  "has_served parse h \<longleftrightarrow> (\<exists>past. h = serve_all parse past (new_handler (hcfg h)))"

lemma serve_all_snoc: "serve_all parse (past @ [(s, rq)]) h = snd (ServeHTTP parse s rq (serve_all parse past h))"
  by (induction parse past h rule: serve_all.induct) simp_all

lemma has_served_new: "has_served parse (new_handler c)"
  unfolding has_served_def by (rule exI [of _ "[]"]) (simp add: new_handler_hosts)

lemma has_served_step: "has_served parse h \<Longrightarrow> has_served parse (snd (ServeHTTP parse s rq h))"
  unfolding has_served_def ServeHTTP_handler by (metis serve_all_snoc)

definition sound :: "(string \<Rightarrow> 'u URL option) \<Rightarrow> ('w, 'u) program \<Rightarrow> bool" where
  "sound parse p \<longleftrightarrow> srv_inv (store_of p) \<and> can_save (store_of p) \<and> agrees_but (store_of p) \<and>
    (prFull p = None \<and> prLight p = None \<or> prPhase p = Exited \<longrightarrow> agrees (store_of p)) \<and>
    has_served parse (prHandler p) \<and> list_all fetches_icon (prTasks p)"

lemma server_of_set [simp]:
  "server_of (set_server x p) = x" "store_of (set_store t p) = t" "prHandler (set_server x p) = prHandler p"
  "prTasks (set_server x p) = prTasks p" "prFull (set_server x p) = prFull p" "prLight (set_server x p) = prLight p"
  "prPhase (set_server x p) = prPhase p" "prHandler (set_store t p) = prHandler p" "prTasks (set_store t p) = prTasks p"
  "prFull (set_store t p) = prFull p" "prLight (set_store t p) = prLight p" "prPhase (set_store t p) = prPhase p"
  "prCerts (set_server x p) = prCerts p" "prCerts (set_store t p) = prCerts p"
  by (simp_all add: set_server_def set_store_def)

lemma set_scanner_fields [simp]:
  "server_of (set_scanner d lines p) = server_of p" "prHandler (set_scanner d lines p) = prHandler p"
  "prTasks (set_scanner d lines p) = prTasks p" "prFull (set_scanner d lines p) = prFull p"
  "prLight (set_scanner d lines p) = prLight p" "prPhase (set_scanner d lines p) = prPhase p"
  "prCerts (set_scanner d lines p) = prCerts p"
  by (simp_all add: set_scanner_def)

text \<open>A step that ends with a saved store, or with the data as they were.\<close>

definition settles :: "store \<Rightarrow> store \<Rightarrow> bool" where
  "settles s t \<longleftrightarrow> srv_inv t \<and> ends s t"

lemma settles_files: "srv_inv s \<Longrightarrow> settles s (s\<lparr>files := f\<rparr>)"
  by (simp add: settles_def)

lemma settles_refl: "srv_inv s \<Longrightarrow> settles s s"
  by (simp add: settles_def)

lemma settles_handle: "srv_inv (st s) \<Longrightarrow> admissible ev (st s) \<Longrightarrow> settles (st s) (st (handle e ev s))"
  by (simp add: settles_def handle_keeps handle_ends)

lemma sound_settles:
  assumes p: "sound parse p" "not_ended p" and t: "settles (store_of p) (store_of q)"
    and same: "prFull q = prFull p" "prLight q = prLight p" "prPhase q \<noteq> Exited"
    and q: "has_served parse (prHandler q)" "list_all fetches_icon (prTasks q)"
  shows "sound parse q"
proof -
  have s: "srv_inv (store_of q)" "ends (store_of p) (store_of q)" using t by (simp_all add: settles_def)
  have c: "can_save (store_of p)" "agrees_but (store_of p)" using p(1) by (simp_all add: sound_def)
  show ?thesis
    using p(1) s(1) ends_agrees [OF s(2) c(1)] c(2) same q by (auto simp: sound_def)
qed

text \<open>The handlers of the tunnel store what they do.\<close>

lemma place_Tunnel [simp]: "place (SetTunnel i s) = place s" "place (ClearTunnel s) = place s"
  by (simp_all add: place_def SetTunnel_def ClearTunnel_def)

lemma Create_ends: "ends (st (srv m)) (st (srv (snd (Create http launch secret now m))))"
  by (auto simp: Create_def startProcess_def Let_def split: prod.split sum.split if_splits)

lemma Delete_ends: "ends (st (srv m)) (st (srv (snd (Delete http m))))"
  by (auto simp: Delete_def Stop_def Let_def split: option.split prod.split sum.split if_splits)

lemma tunnel_handlers_end:
  "ends (st (srv_of s)) (st (srv_of (fst (snd (with_manager n (createTunnel http launch secret now) s)))))"
  "ends (st (srv_of s)) (st (srv_of (fst (snd (with_manager n (deleteTunnel http) s)))))"
proof -
  have c: "ends (st (srv m)) (st (srv (snd (createTunnel http launch secret now m))))" for m
    using Create_ends [of m http launch secret now] by (auto simp: createTunnel_def split: prod.split sum.split)
  have d: "ends (st (srv m)) (st (srv (snd (deleteTunnel http m))))" for m
    using Delete_ends [of m http] by (auto simp: deleteTunnel_def split: prod.split sum.split)
  show "ends (st (srv_of s)) (st (srv_of (fst (snd (with_manager n (createTunnel http launch secret now) s)))))"
    using c [of "\<lparr>srv = srv_of s, running = r\<rparr>" for r]
    by (auto simp: with_manager_def set_srv_def case_prod_beta split: option.split)
  show "ends (st (srv_of s)) (st (srv_of (fst (snd (with_manager n (deleteTunnel http) s)))))"
    using d [of "\<lparr>srv = srv_of s, running = r\<rparr>" for r]
    by (auto simp: with_manager_def set_srv_def case_prod_beta split: option.split)
qed

lemma settles_request:
  assumes i: "srv_inv (st (srv_of s))" and a: "request_admissible a q (st (srv_of s))"
  shows "settles (st (srv_of s)) (st (srv_of (fst (snd (serve_request e l a q s)))))"
proof -
  have "ends (st (srv_of s)) (st (srv_of (fst (snd (serve_request e l a q s)))))"
  proof (cases "find_route (wqMethod q) (wqPath q)")
    case (Handler ep args)
    show ?thesis
    proof (cases "event_of a ep q args")
      case None
      show ?thesis
      proof (cases "ep = CreateTunnelEP \<or> ep = DeleteTunnelEP")
        case True
        then show ?thesis using tunnel_handlers_end by (auto simp: serve_request_def Handler)
      next
        case False
        then show ?thesis using serve_reads [OF None, of s e l] by (auto simp: reads_only_def serve_request_def Handler)
      qed
    next
      case (Some ev)
      then show ?thesis using handle_ends [OF i, of e ev] by (simp add: serve_request_def Handler serve_event [OF Some])
    qed
  qed (simp_all add: serve_request_def shows_page_def)
  then show ?thesis using request_keeps [OF i a] by (simp add: settles_def)
qed

text \<open>The background.\<close>

lemma fetches_icon_admissible: "fetches_icon ev \<Longrightarrow> admissible ev s"
  by (cases ev) simp_all

lemma fetches_icon_tasks [simp]: "list_all fetches_icon (icon_task f)" "fetches_icon (task_event t)"
  by (cases f rule: icon_task.cases; simp) (cases t; simp)

lemma soundD:
  assumes "sound parse p"
  shows "srv_inv (store_of p)" "can_save (store_of p)" "agrees_but (store_of p)" "has_served parse (prHandler p)"
    "list_all fetches_icon (prTasks p)"
  using assms by (simp_all add: sound_def)

lemma background_sound:
  assumes p: "sound parse p" "not_ended p" and b: "background e pk p q"
  shows "sound parse q"
proof -
  note d = soundD [OF p(1)]
  have a: "prPhase p \<noteq> Exited" using p(2) by (simp add: not_ended_def)
  note k = sound_settles [OF p] and h = settles_handle [OF d(1)]
  show ?thesis using b
  proof cases
    case check_address
    show ?thesis by (rule k) (use h [of EvCheckAddress e] d a in \<open>simp_all add: check_address\<close>)
  next
    case (container i rand8 now name ports ls s' f)
    show ?thesis
      by (rule k) (use h [of "EvContainer rand8 now i name ports ls" e] d a container in \<open>simp_all add: list_all_append\<close>)
  next
    case (container_gone i)
    show ?thesis by (rule k) (use h [of "EvContainerGone i" e] d a container_gone in simp_all)
  next
    case (fetched a' ev b')
    then have ev: "fetches_icon ev" "list_all fetches_icon (a' @ b')" using d(5) by simp_all
    show ?thesis
      by (rule k) (use h [OF fetches_icon_admissible [OF ev(1)], of e] ev d a in \<open>simp_all add: fetched(1)\<close>)
  next
    case (health order reach)
    show ?thesis by (rule k) (use d a settles_refl [OF d(1)] in \<open>simp_all add: health(1)\<close>)
  next
    case warm_start
    show ?thesis by (rule k) (use d a settles_refl [OF d(1)] in \<open>simp_all add: warm_start(1)\<close>)
  next
    case (warm todo going todo' going' w')
    obtain f where "st (base w') = (store_of p)\<lparr>files := f\<rparr>" using warm_step_frame [OF warm(3)] by auto
    then show ?thesis by (intro k) (use d a settles_files [OF d(1)] in \<open>simp_all add: warm(1)\<close>)
  next
    case (renewal now)
    show ?thesis by (rule k) (use d a settles_refl [OF d(1)] in \<open>simp_all add: renewal(1)\<close>)
  next
    case (cloudflared r r')
    show ?thesis by (rule k) (use d a settles_refl [OF d(1)] in \<open>simp_all add: cloudflared(1)\<close>)
  next
    case (outside w)
    show ?thesis by (rule k) (use d a settles_refl [OF d(1)] in \<open>simp_all add: outside\<close>)
  qed
qed

text \<open>The scans: while one runs, the file may lack what it has found so far.\<close>

lemma sound_scanning:
  assumes p: "sound parse p" "not_ended p" and t: "srv_inv (store_of q)" "scan_moves (store_of p) (store_of q)"
    and same: "prFull q \<noteq> None \<or> prLight q \<noteq> None" "prPhase q = prPhase p" "prHandler q = prHandler p" "prTasks q = prTasks p"
  shows "sound parse q"
proof -
  have "can_save (store_of q)" using soundD(2) [OF p(1)] t(2) by (simp add: scan_moves_def can_save_def)
  then show ?thesis
    using p same t(1) scan_moves_agrees [OF t(2)] by (auto simp: sound_def not_ended_def)
qed

lemma sound_saved:
  assumes p: "sound parse p" and q: "store_of q = SaveLog t" "srv_inv t" "place t = place (store_of p)"
    "prHandler q = prHandler p" "prTasks q = prTasks p"
  shows "sound parse q"
proof -
  have c: "can_save t" using soundD(2) [OF p] q(3) by (simp add: can_save_def)
  then show ?thesis
    using p q SaveLog_agrees [OF c] agrees_agrees_but [of "SaveLog t"] by (simp add: sound_def)
qed

lemma srv_inv_SetLastScan [simp]: "srv_inv (SetLastScan x s) = srv_inv s"
  using SetLastScan_keeps(1) [of s x s] SetLastScan_keeps(1) [of "SetLastScan x s" x s] by (auto simp: scan_keeps_def)

lemma place_SetLastScan [simp]: "place (SetLastScan x s) = place s"
  by (simp add: SetLastScan_def)

lemma fresh_upsert:
  "srv_inv s \<Longrightarrow> fresh_entry rand8 s \<Longrightarrow> srv_inv (upsertProbeResult rand8 now r s)"
  using upsertProbeResult_effect(1) by (simp add: fresh_entry_def)

lemma scan_sound:
  assumes p: "sound parse p" "not_ended p" and b: "scan p q"
  shows "sound parse q"
proof -
  note d = soundD [OF p(1)]
  show ?thesis using b
  proof cases
    case (full_start d log log')
    show ?thesis
      by (rule sound_scanning [OF p])
        (use ClearNetwork_effect(1) [OF d(1)] scan_moves_clear in \<open>simp_all add: full_start(1) scan_keeps_def\<close>)
  next
    case (full_result d' log targets ignoredSet n rand8 now r n' t log')
    let ?u = "upsertProbeResult rand8 now r (store_of p)"
    note u = fresh_upsert [OF d(1) full_result(4), of now r]
    have "t = store_of p \<or> t = ?u \<or> t = SaveLog ?u"
      using full_result(5) by (auto simp: full_step_def Let_def split: if_splits)
    then consider "t = store_of p" | "t = ?u" | "t = SaveLog ?u" by blast
    then show ?thesis
    proof cases
      case 1
      show ?thesis by (rule sound_scanning [OF p]) (use d 1 in \<open>simp_all add: full_result(1) scan_moves_def\<close>)
    next
      case 2
      show ?thesis by (rule sound_scanning [OF p]) (use u 2 scan_moves_upsert in \<open>simp_all add: full_result(1)\<close>)
    next
      case 3
      show ?thesis by (rule sound_saved [OF p(1), where t = ?u]) (use u 3 in \<open>simp_all add: full_result(1)\<close>)
    qed
  next
    case (full_end d' log now log')
    show ?thesis
      by (rule sound_saved [OF p(1), where t = "SetLastScan now (store_of p)"]) (use d in \<open>simp_all add: full_end(1)\<close>)
  next
    case (light_start d' log)
    show ?thesis by (rule sound_scanning [OF p]) (use d in \<open>simp_all add: light_start(1) scan_moves_def\<close>)
  next
    case (light_skip d' log now)
    then show ?thesis using p(1) by (simp add: sound_def)
  next
    case (light_result targets rand8 now r)
    let ?t = "light_step targets now (r, rand8) (store_of p)"
    have "srv_inv ?t \<and> scan_moves (store_of p) ?t"
      using d(1) fresh_upsert [OF d(1) light_result(3), of now r] scan_moves_upsert
      by (simp add: light_step_def) (simp add: scan_moves_def)
    then show ?thesis by (intro sound_scanning [OF p]) (simp_all add: light_result(1,2))
  next
    case (light_end d' log now)
    show ?thesis by (rule sound_saved [OF p(1), where t = "store_of p"]) (use d in \<open>simp_all add: light_end(1)\<close>)
  qed
qed

text \<open>Requests.\<close>

lemma https_sound:
  assumes p: "sound parse p" "not_ended p" and b: "https e l parse p q"
  shows "sound parse q"
proof -
  note d = soundD [OF p(1)]
  have a: "prPhase p \<noteq> Exited" using p(2) by (simp add: not_ended_def)
  show ?thesis using b
  proof cases
    case (to_web cert rq h a' q' reply s' ts)
    have "settles (store_of p) (st (srv_of s'))" using settles_request [OF d(1) to_web(4), of e l] to_web(5) by simp
    moreover have "has_served parse h" using has_served_step [OF d(4), of "store_of p" rq] to_web(3) by simp
    ultimately show ?thesis
      by (intro sound_settles [OF p]) (use d a in \<open>simp_all add: to_web(1) list_all_append list.pred_map comp_def list.pred_True\<close>)
  next
    case (to_service cert rq out h)
    have "has_served parse h" using has_served_step [OF d(4), of "store_of p" rq] to_service(3) by simp
    then show ?thesis
      by (intro sound_settles [OF p]) (use d a settles_refl [OF d(1)] in \<open>simp_all add: to_service(1)\<close>)
  qed
qed

lemma main_sound:
  assumes p: "sound parse p" and b: "main_moves pk p q"
  shows "sound parse q"
  using b
proof cases
  case saved_last
  show ?thesis by (rule sound_saved [OF p, where t = "store_of p"]) (use soundD [OF p] in \<open>simp_all add: saved_last(1)\<close>)
qed (use p in \<open>auto simp: sound_def\<close>)

lemma step_sound: "step e l pk parse p q \<Longrightarrow> sound parse p \<Longrightarrow> sound parse q"
  by (induction rule: step.induct) (auto intro: background_sound scan_sound https_sound main_sound)

interpretation living: kept "step e l pk parse" "sound parse" for e l pk parse
  by unfold_locales (rule step_sound)

section \<open>From one start to the next\<close>

lemma boot_store:
  assumes "boot getenv parseDuration d http launch w = Inr (m, certs)" and "ddConfig d = Inr conf"
  shows "\<exists>dir. st (srv m) = New dir (ddWritable d) (ddFiles d) conf"
  using boot_ok [OF assms(1)] assms(2) by auto

lemma assemble_fields [simp]:
  "server_of (assemble version m certs) = srv m" "prPhase (assemble version m certs) = Provisioning"
  "prFull (assemble version m certs) = None" "prLight (assemble version m certs) = None"
  "prTasks (assemble version m certs) = []" "prHandler (assemble version m certs) = new_handler (cfg (srv m))"
  "prCerts (assemble version m certs) = certs"
  by (simp_all add: assemble_def new_web_def)

lemma start_sound:
  assumes s: "srv_inv s" "content conf = snapshot s" and d: "ddConfig d = Inr conf"
    and b: "boot getenv parseDuration d http launch w = Inr (m, certs)" and w: "can_save (st (srv m))"
  shows "sound parse (assemble version m certs)"
proof -
  obtain dir where n: "st (srv m) = New dir (ddWritable d) (ddFiles d) conf" using boot_store [OF b d] by blast
  note r = New_restores [OF s, of dir "ddWritable d" "ddFiles d", folded n, OF w]
  show ?thesis using r w agrees_agrees_but [OF r(1,2)] by (simp add: sound_def has_served_new)
qed

lemma lives_sound: "lives e l pk parse p \<Longrightarrow> sound parse p"
proof (induction rule: lives.induct)
  case (born d getenv parseDuration w m certs version)
  obtain conf s where s: "ddConfig d = Inr conf" "srv_inv s" "content conf = snapshot s"
    using born(1) by (auto simp: sound_disk_def)
  show ?case by (rule start_sound [OF s(2,3,1) born(2,3)])
next
  case (moved p q)
  then show ?case by (blast intro: living.keep)
next
  case (reborn p d getenv parseDuration w m certs version)
  obtain t where t: "srv_inv t" "content (saved (store_of p)) = snapshot t"
    using soundD(3) [OF reborn.IH] by (auto simp: agrees_but_def)
  show ?case by (rule start_sound [OF t reborn(3,4,5)])
qed

text \<open>
  Whenever the program ends, cleanly, by a signal before its servers are up, by an error or a
  loss of power, the next start has every service, bookmark, ignored entry, subnet, DDNS domain
  and the tunnel; the discovered entries too, unless a scan was cut short.
\<close>

lemma restored_after:
  assumes "restored t u" and "unscanned (snapshot t) = unscanned (snapshot s)"
  shows "restored s u"
  using assms unscanned_same [OF assms(2)] by (simp add: restored_def)

lemma next_start:
  assumes l: "lives e l pk parse p" and d: "ddConfig d = Inr (saved (store_of p))"
    and b: "boot getenv parseDuration d http launch w = Inr (m, certs)" and w: "can_save (st (srv m))"
  shows "srv_inv (st (srv m))" and "restored (store_of p) (st (srv m))"
    and "prFull p = None \<and> prLight p = None \<or> prPhase p = Exited \<Longrightarrow>
      list_all2 same_entry (discovered (store_of p)) (discovered (st (srv m)))"
proof -
  note s = lives_sound [OF l]
  obtain dir where n: "st (srv m) = New dir (ddWritable d) (ddFiles d) (saved (store_of p))"
    using boot_store [OF b d] by blast
  obtain t where t: "srv_inv t" "content (saved (store_of p)) = snapshot t" "unscanned (snapshot t) = unscanned (snapshot (store_of p))"
    using soundD(3) [OF s] by (auto simp: agrees_but_def)
  note r = New_restores [OF t(1,2), of dir "ddWritable d" "ddFiles d", folded n, OF w]
  show "srv_inv (st (srv m))" by (rule r(1))
  show "restored (store_of p) (st (srv m))" by (rule restored_after [OF r(3) t(3)])
  assume "prFull p = None \<and> prLight p = None \<or> prPhase p = Exited"
  then have "content (saved (store_of p)) = snapshot (store_of p)" using s by (simp add: sound_def agrees_def)
  from New_restores(4) [OF soundD(1) [OF s] this, of dir "ddWritable d" "ddFiles d", folded n, OF w]
  show "list_all2 same_entry (discovered (store_of p)) (discovered (st (srv m)))" .
qed

text \<open>At any moment of its life the program serves every service at its name.\<close>

lemma reached_in_life:
  assumes l: "lives e l pk parse p" and v: "v \<in> set (services (store_of p))" "sSubdomain v \<noteq> ''lantern''"
    and u: "parse (sTarget v) = Some u"
    and host: "strip_port (rqHost rq) = sSubdomain v @ ''.'' @ Domain (hcfg (prHandler p))"
  shows "fst (ServeHTTP parse (store_of p) rq (prHandler p)) = Proxied (buildProxy (sSubdomain v) u)"
proof -
  note d = soundD [OF lives_sound [OF l]]
  obtain past where h: "prHandler p = serve_all parse past (new_handler (hcfg (prHandler p)))"
    using d(4) by (auto simp: has_served_def)
  show ?thesis by (subst h) (rule service_reached [where parse = parse and c = "hcfg (prHandler p)" and s = "store_of p" and v = v, OF d(1) v u host])
qed

text \<open>Once there is a certificate every later handshake is given one.\<close>

lemma certificate_stays:
  assumes "step e l pk parse p q" and "prPhase p \<noteq> Provisioning" and "mcert (prCerts p) \<noteq> None"
  shows "mcert (prCerts q) \<noteq> None \<and> prPhase q \<noteq> Provisioning"
  using assms(1)
proof cases
  case in_background
  from in_background(2) show ?thesis using assms(2,3) by cases (simp_all add: renew_tick_serves del: not_None_eq)
next
  case in_scan
  from in_scan(2) show ?thesis using assms(2,3) by cases simp_all
next
  case in_https
  from in_https(3) show ?thesis using assms(2,3) by cases simp_all
next
  case in_main
  from in_main show ?thesis using assms(2,3) by cases (simp_all add: set_store_def set_server_def)
qed

interpretation certified: kept "step e l pk parse" "\<lambda>p. prPhase p \<noteq> Provisioning \<and> mcert (prCerts p) \<noteq> None" for e l pk parse
  by unfold_locales (use certificate_stays in blast)

lemma handshakes_served:
  assumes "(step e l pk parse)\<^sup>*\<^sup>* p q" and "prPhase p \<noteq> Provisioning" and "GetCertificate (prCerts p) = Inr c"
  shows "\<exists>c'. GetCertificate (prCerts q) = Inr c'"
proof -
  have "mcert (prCerts p) \<noteq> None" using assms(3) by (auto simp: GetCertificate_def split: option.splits)
  then have "mcert (prCerts q) \<noteq> None" using certified.always [OF assms(1)] assms(2) by blast
  then show ?thesis by (auto simp: GetCertificate_def)
qed

lemma provisioned_serves:
  assumes "prPhase p = Provisioning" and "fst (EnsureCert pk now (prCerts p)) = Inr u"
  shows "\<exists>q. step e l pk parse p q \<and> prPhase q = Serving \<and> mcert (prCerts q) \<noteq> None"
  using in_main [OF provisioned [OF assms(1)]] EnsureCert_ok [OF assms(2)]
  by (metis program.select_convs(1,7) program.surjective program.update_convs(1,7))

text \<open>After a signal \<open>main\<close> ends by itself, whatever else happens.\<close>

lemma shutdown_ends:
  assumes "prPhase p = Stopping" and "siTunnel (prSite p) \<noteq> None"
  shows "\<exists>q r. main_moves pk p q \<and> main_moves pk q r \<and> prPhase r = Exited \<and> siTunnel (prSite r) = Some False"
proof -
  obtain b where b: "siTunnel (prSite p) = Some b" using assms(2) by blast
  let ?q = "p\<lparr>prSite := (prSite p)\<lparr>siTunnel := Some (running (Stop \<lparr>srv = server_of p, running = b\<rparr>))\<rparr>, prPhase := Saving\<rparr>"
  have "main_moves pk p ?q" by (rule tunnel_stopped [OF assms(1) b])
  moreover have "main_moves pk ?q ((set_store (SaveLog (store_of ?q)) ?q)\<lparr>prPhase := Exited\<rparr>)" by (rule saved_last) simp
  ultimately show ?thesis
    by (intro exI [of _ ?q] exI [of _ "(set_store (SaveLog (store_of ?q)) ?q)\<lparr>prPhase := Exited\<rparr>"])
      (simp add: Stop_def set_store_def set_server_def set_srv_def)
qed

end
