(* ===== verification/ErrorPage.thy ===== *)
theory ErrorPage
  imports Proxy Pages
begin

text \<open>
  The page that the proxy shows on an error (\<open>errorHTML\<close> and \<open>errorPage\<close> of
  \<open>internal/proxy/proxy.go\<close>) as text, and the markup in it: whatever the host name of the request,
  the name of a service or the message of an error contains, no element is added to the page.
\<close>

section \<open>The text of the page\<close>

definition nl :: string where
  "nl = [CHR 0x0A]"

definition page_head :: string where
  \<open>page_head =
    ''<!DOCTYPE html>'' @ nl @
    ''<html lang="en">'' @ nl @
    ''<head>'' @ nl @
    ''<meta charset="UTF-8">'' @ nl @
    ''<meta name="viewport" content="width=device-width,initial-scale=1">'' @ nl @
    ''<title>''\<close>

definition layout_css :: string where
  \<open>layout_css =
    ''*{box-sizing:border-box;margin:0;padding:0}'' @ nl @
    ''body{background:#0f0f1a;color:#e2e8f0;font-family:system-ui,sans-serif;display:flex;align-items:center;justify-content:center;min-height:100vh;padding:2rem}'' @ nl @
    ''.card{background:#1a1a2e;border:1px solid #2d2d4e;border-radius:12px;padding:3rem;max-width:480px;text-align:center}'' @ nl\<close>

definition text_css :: string where
  \<open>text_css =
    ''.icon{font-size:3rem;margin-bottom:1rem}'' @ nl @
    ''h1{font-size:1.5rem;margin-bottom:.75rem;color:#ef4444}'' @ nl @
    ''p{color:#94a3b8;line-height:1.6}'' @ nl @
    ''a{color:#7c3aed;text-decoration:none}a:hover{text-decoration:underline}'' @ nl @
    ''.back{margin-top:2rem}'' @ nl @
    ''.btn{display:inline-block;padding:.5rem 1.25rem;background:#7c3aed;color:#fff;border-radius:6px;text-decoration:none;font-size:.875rem}'' @ nl @
    ''.btn:hover{background:#6d28d9;text-decoration:none}'' @ nl\<close>

definition page_head_end :: string where
  \<open>page_head_end =
    '' '' @ [CHR 0xE2, CHR 0x80, CHR 0x94] @ '' Lantern</title>'' @ nl @
    ''<style>'' @ nl\<close>

definition page_body :: string where
  \<open>page_body =
    ''</style>'' @ nl @
    ''</head>'' @ nl @
    ''<body>'' @ nl @
    ''<div class="card">'' @ nl @
    ''  <div class="icon">'' @ [CHR 0xF0, CHR 0x9F, CHR 0x9A, CHR 0xAB] @ ''</div>'' @ nl @
    ''  <h1>''\<close>

definition page_title_end :: string where
  \<open>page_title_end =
    ''</h1>'' @ nl @
    ''  <p>''\<close>

definition page_link :: string where
  \<open>page_link =
    ''</p>'' @ nl @
    ''  <div class="back"><a class="btn" href="https://lantern.''\<close>

definition page_end :: string where
  \<open>page_end =
    ''">'' @ [CHR 0xE2, CHR 0x86, CHR 0x90] @ '' Back to Lantern</a></div>'' @ nl @
    ''</div>'' @ nl @
    ''</body>'' @ nl @
    ''</html>''\<close>

text \<open>The constant with its four places: the title twice, the message and the domain.\<close>

definition errorHTML :: "string \<Rightarrow> string \<Rightarrow> string \<Rightarrow> string \<Rightarrow> string" where
  "errorHTML title1 title2 msg domain =
    page_head @ title1 @ page_head_end @ layout_css @ text_css @ page_body @ title2 @ page_title_end @
    msg @ page_link @ domain @ page_end"

definition error_text :: "error_page \<Rightarrow> string" where
  "error_text p = errorHTML (epTitle p) (epTitle p) (epMsg p) (epDomain p)"

section \<open>Its markup\<close>

lemma marks_page_head: "marks page_head = (6, 6, 8)"
  by code_simp

lemma marks_css: "marks layout_css = (0, 0, 0)" "marks text_css = (0, 0, 0)"
  by code_simp+

lemma marks_page_head_end: "marks page_head_end = (2, 2, 0)"
  by code_simp

lemma marks_page_body: "marks page_body = (7, 7, 4)"
  by code_simp

lemma marks_page_title_end: "marks page_title_end = (2, 2, 0)"
  by code_simp

lemma marks_page_link: "marks page_link = (3, 2, 5)"
  by code_simp

lemma marks_page_end: "marks page_end = (5, 6, 1)"
  by code_simp

lemma marks_title: "marks (epTitle (errorPage c sc msg)) = (0, 0, 0)"
  by (simp add: errorPage_def marks_def)

lemma marks_EscapeString [simp]: "marks (EscapeString s) = (0, 0, 0)"
proof -
  have "c \<notin> set (EscapeString s)" if "c \<in> {CHR ''<'', CHR ''>'', CHR 0x22}" for c
    using that by (auto simp: EscapeString_def escape_char_def)
  then show ?thesis by (simp add: marks_def count_list_0_iff)
qed

text \<open>The page has its own markup, that of the message and what the configured domain brings.\<close>

lemma marks_error_text:
  "marks (error_text (errorPage c sc msg)) =
    (let (x, y, z) = marks msg; (x', y', z') = marks (Domain c) in (25 + x + x', 25 + y + y', 18 + z + z'))"
  unfolding error_text_def errorHTML_def marks_append marks_title
  by (simp add: marks_page_head marks_page_head_end marks_css marks_page_body marks_page_title_end marks_page_link marks_page_end errorPage_def split: prod.split)

text \<open>A host without a service, and a service that does not answer: one element \<open>strong\<close>, or it and a line break with \<open>small\<close>.\<close>

lemma not_found_markup:
  assumes "marks (Domain c) = (0, 0, 0)"
  shows "marks (error_text (errorPage c 404 (''No service assigned to <strong>'' @ EscapeString sub @ ''.'' @
    EscapeString (Domain c) @ ''</strong>''))) = (27, 27, 18)"
proof -
  have "marks ''No service assigned to <strong>'' = (1, 1, 0)" "marks ''.'' = (0, 0, 0)" "marks ''</strong>'' = (1, 1, 0)"
    by code_simp+
  then show ?thesis by (simp only: marks_error_text assms marks_append marks_EscapeString) simp
qed

lemma unreachable_markup:
  assumes "marks (Domain c) = (0, 0, 0)"
  shows "marks (error_text (ErrorHandler c s rp err)) = (30, 30, 18)"
proof -
  have "marks ''Could not reach <strong>'' = (1, 1, 0)" "marks ''</strong>.<br><small>'' = (3, 3, 0)" "marks ''</small>'' = (1, 1, 0)"
    by code_simp+
  then show ?thesis by (simp only: ErrorHandler_def Let_def marks_error_text assms marks_append marks_EscapeString) simp
qed

text \<open>Every error page that a handler shows, whatever it has served before.\<close>

lemma served_error_markup:
  assumes "marks (Domain c) = (0, 0, 0)"
    and "fst (ServeHTTP parse s rq (serve_all parse past (new_handler c))) = Failed pg"
  shows "marks (error_text pg) \<in> {(27, 27, 18), (25, 25, 18)}"
proof -
  have e: "answer parse c s (strip_port (rqHost rq)) = Failed pg" using assms(2) by (simp add: serve_all_answer)
  then consider sub where "pg = errorPage c 404 (''No service assigned to <strong>'' @ EscapeString sub @ ''.'' @
      EscapeString (Domain c) @ ''</strong>'')" | "pg = errorPage c 502 ''Invalid target URL for this service.''"
    by (auto simp: answer_def Let_def split: if_splits option.splits)
  then show ?thesis
  proof cases
    case 1
    then show ?thesis by (simp only: not_found_markup [OF assms(1)]) simp
  next
    case 2
    have "marks ''Invalid target URL for this service.'' = (0, 0, 0)" by code_simp
    then show ?thesis by (simp only: 2 marks_error_text assms(1)) simp
  qed
qed

end
