(* ===== verification/Persist.thy ===== *)
theory Persist
  imports StoreModel
begin

text \<open>
  \<open>Save\<close> under concurrency (\<open>internal/store/store.go\<close>), as a step relation on its
  atomic parts: the snapshot under the read lock, the wait for \<open>saveMu\<close>, the write of
  \<open>config.json.tmp\<close> (which a crash can cut short), the rename.  Between any two steps
  other requests may change the store, and the process may stop.

  \<open>versions\<close> records the states the store has had since the start, the latest first: the
  data of a ghost history that the code does not keep.
\<close>

datatype 'd file_content = Partial | Complete 'd

datatype 'd pc = Idle | Marshalled 'd | Locked 'd | Written 'd

record 'd disk =
  mem :: 'd
  versions :: "'d list"
  tmpFile :: "'d file_content option"
  cfgFile :: "'d file_content option"
  saveMu :: "nat option"
  pc :: "nat \<Rightarrow> 'd pc"

inductive save_step :: "'d disk \<Rightarrow> 'd disk \<Rightarrow> bool" where
  mutate: "save_step s (s\<lparr>mem := d, versions := d # versions s\<rparr>)"
| marshal: "pc s t = Idle \<Longrightarrow> save_step s (s\<lparr>pc := (pc s)(t := Marshalled (mem s))\<rparr>)"
| lock: "pc s t = Marshalled d \<Longrightarrow> saveMu s = None \<Longrightarrow>
    save_step s (s\<lparr>saveMu := Some t, pc := (pc s)(t := Locked d)\<rparr>)"
| write_part: "pc s t = Locked d \<Longrightarrow> save_step s (s\<lparr>tmpFile := Some Partial\<rparr>)"
| write_err: "pc s t = Locked d \<Longrightarrow> f = tmpFile s \<or> f = Some Partial \<Longrightarrow>
    save_step s (s\<lparr>tmpFile := f, saveMu := None, pc := (pc s)(t := Idle)\<rparr>)"
| write_all: "pc s t = Locked d \<Longrightarrow>
    save_step s (s\<lparr>tmpFile := Some (Complete d), pc := (pc s)(t := Written d)\<rparr>)"
| rename: "pc s t = Written d \<Longrightarrow>
    save_step s (s\<lparr>cfgFile := tmpFile s, tmpFile := None, saveMu := None, pc := (pc s)(t := Idle)\<rparr>)"
| rename_err: "pc s t = Written d \<Longrightarrow> save_step s (s\<lparr>saveMu := None, pc := (pc s)(t := Idle)\<rparr>)"

inductive_cases save_stepE: "save_step s s'"

abbreviation save_run :: "'d disk \<Rightarrow> 'd disk \<Rightarrow> bool" where
  "save_run \<equiv> save_step\<^sup>*\<^sup>*"

lemmas save_first = converse_rtranclp_into_rtranclp [where r = save_step]
lemmas save_none = rtranclp.rtrancl_refl [where r = save_step]

text \<open>
  A store just started, without a \<open>config.json\<close> or from one: its data, no save under way,
  possibly a temporary file that a crash left behind.
\<close>

definition started :: "bool \<Rightarrow> 'd file_content option \<Rightarrow> 'd \<Rightarrow> 'd disk" where
  "started loaded leftover d = \<lparr>mem = d, versions = [d], tmpFile = leftover,
     cfgFile = (if loaded then Some (Complete d) else None), saveMu = None, pc = (\<lambda>_. Idle)\<rparr>"

text \<open>
  The lock is held by exactly the thread between locking and renaming; while it has
  written, the temporary file is its complete snapshot.  Every snapshot is a version.
\<close>

definition in_save :: "'d pc \<Rightarrow> bool" where
  "in_save p \<longleftrightarrow> (\<exists>d. p = Locked d \<or> p = Written d)"

definition save_inv :: "'d disk \<Rightarrow> bool" where
  "save_inv s \<longleftrightarrow>
     mem s \<in> set (versions s) \<and>
     (\<forall>t. in_save (pc s t) \<longleftrightarrow> saveMu s = Some t) \<and>
     (\<forall>t d. pc s t = Marshalled d \<or> pc s t = Locked d \<or> pc s t = Written d \<longrightarrow> d \<in> set (versions s)) \<and>
     (\<forall>t d. pc s t = Written d \<longrightarrow> tmpFile s = Some (Complete d)) \<and>
     (cfgFile s = None \<or> (\<exists>d \<in> set (versions s). cfgFile s = Some (Complete d)))"

lemma save_inv_started: "save_inv (started l f d)"
  by (simp add: save_inv_def started_def in_save_def)

lemma in_save_simps [simp]: "\<not> in_save Idle" "\<not> in_save (Marshalled d)" "in_save (Locked d)" "in_save (Written d)"
  by (simp_all add: in_save_def)

lemma save_invD:
  assumes "save_inv s"
  shows "mem s \<in> set (versions s)" and "in_save (pc s t) \<longleftrightarrow> saveMu s = Some t"
    and "pc s t = Marshalled d \<Longrightarrow> d \<in> set (versions s)" and "pc s t = Locked d \<Longrightarrow> d \<in> set (versions s)"
    and "pc s t = Written d \<Longrightarrow> d \<in> set (versions s)"
    and "pc s t = Written d \<Longrightarrow> tmpFile s = Some (Complete d)"
    and "cfgFile s = None \<or> (\<exists>d \<in> set (versions s). cfgFile s = Some (Complete d))"
  using assms by (auto simp: save_inv_def)

text \<open>Only one thread is past the lock.\<close>

lemma save_inv_alone: "save_inv s \<Longrightarrow> in_save (pc s t) \<Longrightarrow> u \<noteq> t \<Longrightarrow> \<not> in_save (pc s u)"
  using save_invD(2) by (metis option.inject)

lemma save_inv_step: "save_step s s' \<Longrightarrow> save_inv s \<Longrightarrow> save_inv s'"
proof (induction rule: save_step.induct)
  case (mutate s d)
  then show ?case by (auto simp: save_inv_def)
next
  case (marshal s t)
  then show ?case using save_invD(2) [OF marshal(2), of t] by (auto simp: save_inv_def)
next
  case (lock s t d)
  then show ?case by (auto simp: save_inv_def)
next
  case (write_part s t d)
  have "pc s u \<noteq> Written e" for u e
    using save_inv_alone [OF write_part(2), of t u] write_part(1) by (cases "u = t") auto
  then show ?case using write_part by (auto simp: save_inv_def)
next
  case (write_err s t d f)
  have "\<not> in_save (pc s u)" if "u \<noteq> t" for u
    using save_inv_alone [OF write_err(3), of t u] write_err(1) that by auto
  then show ?case using write_err by (auto simp: save_inv_def in_save_def)
next
  case (write_all s t d)
  have "\<not> in_save (pc s u)" if "u \<noteq> t" for u
    using save_inv_alone [OF write_all(2), of t u] write_all(1) that by auto
  then show ?case using write_all save_invD(2) [OF write_all(2), of t] by (auto simp: save_inv_def in_save_def)
next
  case (rename s t d)
  have "\<not> in_save (pc s u)" if "u \<noteq> t" for u
    using save_inv_alone [OF rename(2), of t u] rename(1) that by auto
  then show ?case using rename by (auto simp: save_inv_def in_save_def)
next
  case (rename_err s t d)
  have "\<not> in_save (pc s u)" if "u \<noteq> t" for u
    using save_inv_alone [OF rename_err(2), of t u] rename_err(1) that by auto
  then show ?case using rename_err by (auto simp: save_inv_def in_save_def)
qed

interpretation saving: kept save_step save_inv
  by unfold_locales (rule save_inv_step)

text \<open>A save that is not disturbed puts the current data on disk.\<close>

lemma save_completes:
  assumes "pc s t = Idle" and "saveMu s = None"
  shows "\<exists>s'. save_run s s' \<and> cfgFile s' = Some (Complete (mem s)) \<and> mem s' = mem s \<and> pc s' t = Idle \<and> saveMu s' = None"
proof -
  let ?a = "s\<lparr>pc := (pc s)(t := Marshalled (mem s))\<rparr>"
  let ?b = "?a\<lparr>saveMu := Some t, pc := (pc ?a)(t := Locked (mem s))\<rparr>"
  let ?c = "?b\<lparr>tmpFile := Some (Complete (mem s)), pc := (pc ?b)(t := Written (mem s))\<rparr>"
  let ?d = "?c\<lparr>cfgFile := tmpFile ?c, tmpFile := None, saveMu := None, pc := (pc ?c)(t := Idle)\<rparr>"
  have 1: "save_step s ?a" by (rule marshal [OF assms(1)])
  have 2: "save_step ?a ?b" by (rule lock) (simp_all add: assms)
  have 3: "save_step ?b ?c" by (rule write_all) simp
  have 4: "save_step ?c ?d" by (rule rename [where d = "mem s"]) simp
  have "save_run s ?d"
    by (rule save_first [OF 1 save_first [OF 2 save_first [OF 3 save_first [OF 4 save_none]]]])
  moreover have "cfgFile ?d = Some (Complete (mem s)) \<and> mem ?d = mem s \<and> pc ?d t = Idle \<and> saveMu ?d = None"
    by simp
  ultimately show ?thesis by blast
qed

text \<open>
  The snapshot is taken before the lock: a request that saved the older state can rename
  last, and then the newer state, already on disk, is lost from it.
\<close>

lemma stale_save:
  "\<exists>s1 s2. save_run (started l f a) s1 \<and> cfgFile s1 = Some (Complete b) \<and> mem s1 = b \<and>
     save_run s1 s2 \<and> cfgFile s2 = Some (Complete a) \<and> mem s2 = b \<and> (\<forall>t. pc s2 t = Idle)"
proof -
  let ?s0 = "started l f a"
  let ?s1 = "?s0\<lparr>pc := (pc ?s0)(0 := Marshalled (mem ?s0))\<rparr>"
  let ?s2 = "?s1\<lparr>mem := b, versions := b # versions ?s1\<rparr>"
  let ?s3 = "?s2\<lparr>pc := (pc ?s2)(1 := Marshalled (mem ?s2))\<rparr>"
  let ?s4 = "?s3\<lparr>saveMu := Some 1, pc := (pc ?s3)(1 := Locked b)\<rparr>"
  let ?s5 = "?s4\<lparr>tmpFile := Some (Complete b), pc := (pc ?s4)(1 := Written b)\<rparr>"
  let ?s6 = "?s5\<lparr>cfgFile := tmpFile ?s5, tmpFile := None, saveMu := None, pc := (pc ?s5)(1 := Idle)\<rparr>"
  let ?s7 = "?s6\<lparr>saveMu := Some 0, pc := (pc ?s6)(0 := Locked a)\<rparr>"
  let ?s8 = "?s7\<lparr>tmpFile := Some (Complete a), pc := (pc ?s7)(0 := Written a)\<rparr>"
  let ?s9 = "?s8\<lparr>cfgFile := tmpFile ?s8, tmpFile := None, saveMu := None, pc := (pc ?s8)(0 := Idle)\<rparr>"
  have 1: "save_step ?s0 ?s1" by (rule marshal) (simp add: started_def)
  have 2: "save_step ?s1 ?s2" by (rule mutate)
  have 3: "save_step ?s2 ?s3" by (rule marshal) (simp add: started_def)
  have 4: "save_step ?s3 ?s4" by (rule lock) (simp_all add: started_def)
  have 5: "save_step ?s4 ?s5" by (rule write_all) simp
  have 6: "save_step ?s5 ?s6" by (rule rename [where d = b]) simp
  have 7: "save_step ?s6 ?s7" by (rule lock) (simp_all add: started_def)
  have 8: "save_step ?s7 ?s8" by (rule write_all) simp
  have 9: "save_step ?s8 ?s9" by (rule rename [where d = a]) simp
  have "save_run ?s0 ?s6" by (rule save_first [OF 1 save_first [OF 2 save_first [OF 3
      save_first [OF 4 save_first [OF 5 save_first [OF 6 save_none]]]]]])
  moreover have "save_run ?s6 ?s9" by (rule save_first [OF 7 save_first [OF 8 save_first [OF 9 save_none]]])
  moreover have "cfgFile ?s6 = Some (Complete b)" "mem ?s6 = b" "cfgFile ?s9 = Some (Complete a)" "mem ?s9 = b"
    by simp_all
  moreover have "\<forall>t. pc ?s9 t = Idle" by (simp add: started_def)
  ultimately show ?thesis by blast
qed

end
