(* ===== verification/Arp.thy ===== *)
theory Arp
  imports Scan
begin

text \<open>
  \<open>internal/discovery/arp_linux.go\<close>: the sweep by ARP that narrows the hosts of a full
  scan.  Addresses are 32-bit words, frames lists of bytes.  \<open>parse4\<close> reads an address
  (\<open>ParseIP\<close> and \<open>To4\<close>); \<open>sock\<close> says whether the raw socket could be opened, and
  \<open>frames\<close> what it received until the timeout.
\<close>

section \<open>Interfaces\<close>

record net_interface =
  niUp :: bool
  niLoopback :: bool
  niIndex :: int
  niHardwareAddr :: "8 word list"
  niAddrs :: "(32 word \<times> 32 word) option list"

record ifaceInfo =
  fiIndex :: int
  fiIP :: "32 word"
  fiMask :: "32 word"
  fiMAC :: "8 word list"

text \<open>An address that is no IPv4 \<open>IPNet\<close> is \<open>None\<close>.\<close>

definition buildIfaceInfos :: "net_interface list \<Rightarrow> ifaceInfo list" where
  "buildIfaceInfos ifaces = concat (map (\<lambda>i.
     if \<not> niUp i \<or> niLoopback i \<or> length (niHardwareAddr i) < 6 then []
     else List.map_filter (map_option (\<lambda>(ip, m).
       \<lparr>fiIndex = niIndex i, fiIP = ip, fiMask = m, fiMAC = niHardwareAddr i\<rparr>)) (niAddrs i)) ifaces)"

definition same_net :: "32 word \<Rightarrow> 32 word \<Rightarrow> 32 word \<Rightarrow> bool" where
  "same_net m a b \<longleftrightarrow> a AND m = b AND m"

definition mask24 :: "32 word" where
  "mask24 = 0xFFFFFF00"

definition findIfaceForIP :: "ifaceInfo list \<Rightarrow> 32 word \<Rightarrow> ifaceInfo option" where
  "findIfaceForIP infos target = (case find (\<lambda>i. same_net (fiMask i) (fiIP i) target) infos of
      Some i \<Rightarrow> Some i
    | None \<Rightarrow> find (\<lambda>i. same_net mask24 (fiIP i) target) infos)"

section \<open>Frames\<close>

definition arpHtons :: "16 word \<Rightarrow> 16 word" where
  "arpHtons v = push_bit 8 v OR drop_bit 8 v"

text \<open>The six bytes of the sender's address are those of \<open>srcMAC\<close>, padded with the zeros of the buffer.\<close>

definition mac_bytes :: "8 word list \<Rightarrow> 8 word list" where
  "mac_bytes m = take 6 m @ replicate (6 - length m) 0"

definition buildARPRequest :: "8 word list \<Rightarrow> 32 word \<Rightarrow> 32 word \<Rightarrow> 8 word list" where
  "buildARPRequest srcMAC srcIP dstIP =
    replicate 6 0xFF @ mac_bytes srcMAC @ [0x08, 0x06, 0x00, 0x01, 0x08, 0x00, 6, 4, 0x00, 0x01] @
    mac_bytes srcMAC @ As4 srcIP @ replicate 6 0 @ As4 dstIP"

text \<open>The sender of a reply; \<open>None\<close> for a frame that is no ARP reply.\<close>

definition arp_sender :: "8 word list \<Rightarrow> string option" where
  "arp_sender f =
    (if f ! 12 \<noteq> 0x08 \<or> f ! 13 \<noteq> 0x06 then None
     else if f ! 20 \<noteq> 0x00 \<or> f ! 21 \<noteq> 0x02 then None
     else Some (dotted (AddrFrom4 (take 4 (drop 28 f)))))"

text \<open>The loop over the frames, each cut to the 60 bytes of the buffer; a short one ends it.\<close>

fun arp_replies :: "string list \<Rightarrow> 8 word list list \<Rightarrow> string list" where
  "arp_replies targets [] = []"
| "arp_replies targets (f # fs) =
    (if length (take 60 f) < 42 then []
     else case arp_sender (take 60 f) of
       Some ip \<Rightarrow> if ip \<in> set targets then ip # arp_replies targets fs else arp_replies targets fs
     | None \<Rightarrow> arp_replies targets fs)"

section \<open>The sweep\<close>

text \<open>The addresses that a request is sent for, with the frame.\<close>

definition arp_requests :: "(string \<Rightarrow> 32 word option) \<Rightarrow> ifaceInfo list \<Rightarrow> string list \<Rightarrow> (string \<times> 8 word list) list" where
  "arp_requests parse4 infos ips = List.map_filter (\<lambda>ip. case parse4 ip of
      None \<Rightarrow> None
    | Some w \<Rightarrow> map_option (\<lambda>src. (ip, buildARPRequest (fiMAC src) (fiIP src) w)) (findIfaceForIP infos w)) ips"

definition arpSweep ::
  "(string \<Rightarrow> 32 word option) \<Rightarrow> net_interface list \<Rightarrow> bool \<Rightarrow> 8 word list list \<Rightarrow> string list \<Rightarrow> string list option" where
  "arpSweep parse4 ifaces sock frames ips =
    (let infos = buildIfaceInfos ifaces
     in if infos = [] \<or> \<not> sock then None
        else let targets = map fst (arp_requests parse4 infos ips)
             in if targets = [] then None else Some (arp_replies targets frames))"

text \<open>The hosts of the port sweep after it (\<open>scanNetwork\<close>).\<close>

definition swept_hosts ::
  "(string \<Rightarrow> 32 word option) \<Rightarrow> net_interface list \<Rightarrow> bool \<Rightarrow> 8 word list list \<Rightarrow> string list \<Rightarrow> string list" where
  "swept_hosts parse4 ifaces sock frames ips =
    arp_narrow (case arpSweep parse4 ifaces sock frames ips of Some live \<Rightarrow> live | None \<Rightarrow> []) ips"

section \<open>Frames, again\<close>

lemma arpHtons_involution: "arpHtons (arpHtons v) = v"
proof (rule bit_word_eqI)
  fix n assume n: "n < LENGTH(16)"
  then show "bit (arpHtons (arpHtons v)) n = bit v n"
    by (auto simp: arpHtons_def bit_or_iff bit_push_bit_iff bit_drop_bit_eq dest: bit_imp_le_length)
qed

lemma mac_bytes_length [simp]: "length (mac_bytes m) = 6"
  by (simp add: mac_bytes_def)

lemma buildARPRequest_length: "length (buildARPRequest m s d) = 42"
  by (simp add: buildARPRequest_def)

text \<open>A request that is heard again is no reply.\<close>

lemma request_no_reply: "arp_sender (buildARPRequest m s d) = None"
  by (simp add: arp_sender_def buildARPRequest_def nth_append)

text \<open>A frame whose sender address is \<open>w\<close> is read as the text of \<open>w\<close>.\<close>

lemma AddrFrom4_As4: "AddrFrom4 (As4 w) = w"
proof (rule bit_word_eqI)
  fix n assume "n < LENGTH(32)"
  then show "bit (AddrFrom4 (As4 w)) n = bit w n" by (simp add: bit_AddrFrom4 bit_As4)
qed

lemma reply_sender:
  assumes "length pre = 12" and "length mid = 6" and "length mac = 6"
  shows "arp_sender (pre @ [0x08, 0x06] @ mid @ [0x00, 0x02] @ mac @ As4 w @ rest) = Some (dotted w)"
  using assms by (simp add: arp_sender_def nth_append AddrFrom4_As4)

section \<open>What the sweep reports\<close>

lemma arp_replies_targets: "set (arp_replies targets fs) \<subseteq> set targets"
  by (induction fs) (auto split: option.split)

lemma arp_requests_local:
  "ip \<in> set (map fst (arp_requests parse4 infos ips)) \<longleftrightarrow>
    ip \<in> set ips \<and> (\<exists>w. parse4 ip = Some w \<and> findIfaceForIP infos w \<noteq> None)"
  by (force simp: arp_requests_def List.map_filter_def split: option.splits)

lemma findIfaceForIP_local:
  "findIfaceForIP infos w = Some i \<Longrightarrow> i \<in> set infos \<and> (same_net (fiMask i) (fiIP i) w \<or> same_net mask24 (fiIP i) w)"
  by (auto simp: findIfaceForIP_def find_Some_iff split: option.splits)

text \<open>A host that answers is one that was asked: in the list, and on a local network.\<close>

lemma arpSweep_live:
  assumes "arpSweep parse4 ifaces sock frames ips = Some live" and "ip \<in> set live"
  shows "ip \<in> set ips \<and> (\<exists>w i. parse4 ip = Some w \<and> i \<in> set (buildIfaceInfos ifaces) \<and>
    (same_net (fiMask i) (fiIP i) w \<or> same_net mask24 (fiIP i) w))"
proof -
  let ?infos = "buildIfaceInfos ifaces"
  from assms have "ip \<in> set (map fst (arp_requests parse4 ?infos ips))"
    using arp_replies_targets by (fastforce simp: arpSweep_def Let_def split: if_splits)
  then obtain w where "ip \<in> set ips" "parse4 ip = Some w" "findIfaceForIP ?infos w \<noteq> None"
    unfolding arp_requests_local by blast
  then show ?thesis using findIfaceForIP_local by fastforce
qed

text \<open>
  As soon as one host answers, an address on no local network is left out of the port sweep,
  though it cannot answer ARP: a subnet behind a router is scanned only when no host of a
  local one is in the scan.
\<close>

lemma remote_dropped:
  assumes "arpSweep parse4 ifaces sock frames ips = Some live" and "live \<noteq> []"
    and "\<And>w. parse4 ip = Some w \<Longrightarrow> findIfaceForIP (buildIfaceInfos ifaces) w = None"
  shows "ip \<notin> set (swept_hosts parse4 ifaces sock frames ips)"
proof
  assume "ip \<in> set (swept_hosts parse4 ifaces sock frames ips)"
  then have "ip \<in> set live" using assms(1,2) by (simp add: swept_hosts_def arp_narrow_def)
  then have "ip \<in> set (map fst (arp_requests parse4 (buildIfaceInfos ifaces) ips))"
    using assms(1) arp_replies_targets by (fastforce simp: arpSweep_def Let_def split: if_splits)
  with assms(3) show False unfolding arp_requests_local by fastforce
qed

text \<open>Without an answer, every host is swept.\<close>

lemma no_answer_all:
  "arpSweep parse4 ifaces sock frames ips \<in> {None, Some []} \<Longrightarrow> swept_hosts parse4 ifaces sock frames ips = ips"
  by (auto simp: swept_hosts_def arp_narrow_def)

end
