(* ===== verification/Regexp.thy ===== *)
theory Regexp
  imports GoStrings
begin

text \<open>
  The regular expressions of package \<open>regexp\<close> that the code uses: classes, sequences,
  alternatives, greedy \<open>+\<close> and \<open>*\<close>, groups.  \<open>matches\<close> lists the ways to match at the
  start of the text in the order of preference (leftmost first, longer repetitions first), each
  with the rest and the groups; \<open>FindStringSubmatch\<close> takes the first of the first position
  that has one.  The classes used match no proper part of a multi-byte character, so bytes
  stand for characters.
\<close>

datatype re = Cls "char \<Rightarrow> bool" | Eps | Cat re re | Alt re re | Many re | Grp re

text \<open>A repetition must consume; the groups of the latest turn are kept.\<close>

function matches :: "re \<Rightarrow> string \<Rightarrow> (string \<times> string list) list" where
  "matches (Cls P) s = (case s of [] \<Rightarrow> [] | c # t \<Rightarrow> if P c then [(t, [])] else [])"
| "matches Eps s = [(s, [])]"
| "matches (Cat a b) s = concat (map (\<lambda>(t, g). map (\<lambda>(u, h). (u, g @ h)) (matches b t)) (matches a s))"
| "matches (Alt a b) s = matches a s @ matches b s"
| "matches (Many a) s =
     concat (map (\<lambda>(t, g). if length t < length s then matches (Many a) t else []) (matches a s)) @ [(s, [])]"
| "matches (Grp a) s = map (\<lambda>(t, g). (t, take (length s - length t) s # g)) (matches a s)"
  by pat_completeness auto
termination
  by (relation "measures [\<lambda>(r, s). size r, \<lambda>(r, s). length s]") auto

fun FindStringSubmatch :: "re \<Rightarrow> string \<Rightarrow> string list option" where
  "FindStringSubmatch r s = (case matches r s of
      (t, g) # _ \<Rightarrow> Some (take (length s - length t) s # g)
    | [] \<Rightarrow> (case s of [] \<Rightarrow> None | _ # t \<Rightarrow> FindStringSubmatch r t))"

declare matches.simps(5) [simp del] FindStringSubmatch.simps [simp del]

section \<open>Building blocks\<close>

text \<open>A literal with \<open>(?i)\<close>: a \<open>k\<close> is also the Kelvin sign, an \<open>s\<close> the long s.\<close>

fun lit :: "string \<Rightarrow> re" where
  "lit [] = Eps"
| "lit (c # s) = Cat (Cls (\<lambda>x. x = c)) (lit s)"

definition fold_char :: "char \<Rightarrow> re" where
  "fold_char c =
    (let a = Cls (\<lambda>x. lower_char x = lower_char c)
     in if lower_char c = CHR ''k'' then Alt a (lit [CHR 0xE2, CHR 0x84, CHR 0xAA])
        else if lower_char c = CHR ''s'' then Alt a (lit [CHR 0xC5, CHR 0xBF])
        else a)"

definition ilit :: "string \<Rightarrow> re" where
  "ilit s = foldr (\<lambda>c r. Cat (fold_char c) r) s Eps"

definition Plus :: "re \<Rightarrow> re" where
  "Plus r = Cat r (Many r)"

definition none_of :: "string \<Rightarrow> re" where
  "none_of cs = Cls (\<lambda>c. c \<notin> set cs)"

definition one_of :: "string \<Rightarrow> re" where
  "one_of cs = Cls (\<lambda>c. c \<in> set cs)"

definition seq :: "re list \<Rightarrow> re" where
  "seq rs = foldr Cat rs Eps"

section \<open>What a match is\<close>

text \<open>Every match consumes a prefix, and every group is a substring of what it consumes.\<close>

lemma matches_prefix: "(t, g) \<in> set (matches r s) \<Longrightarrow> \<exists>p. s = p @ t \<and> (\<forall>x \<in> set g. \<exists>a b. p = a @ x @ b)"
proof (induction r s arbitrary: t g rule: matches.induct)
  case (1 P s)
  then show ?case by (cases s) (auto split: if_splits intro: exI [of _ "[_]"])
next
  case (3 a b s)
  then obtain u h k where u: "(u, h) \<in> set (matches a s)" "(t, k) \<in> set (matches b u)" "g = h @ k" by auto
  from "3.IH"(1) [OF u(1)] obtain p where p: "s = p @ u" "\<forall>x \<in> set h. \<exists>a b. p = a @ x @ b" by blast
  from "3.IH"(2) [OF u(1) refl u(2)] obtain q where q: "u = q @ t" "\<forall>x \<in> set k. \<exists>a b. q = a @ x @ b" by blast
  have "\<exists>a b. p @ q = a @ x @ b" if "x \<in> set g" for x
  proof -
    from that u(3) consider "x \<in> set h" | "x \<in> set k" by auto
    then show ?thesis
    proof cases
      case 1
      then obtain y z where "p = y @ x @ z" using p(2) by blast
      then show ?thesis by (intro exI [of _ y] exI [of _ "z @ q"]) simp
    next
      case 2
      then obtain y z where "q = y @ x @ z" using q(2) by blast
      then show ?thesis by (intro exI [of _ "p @ y"] exI [of _ z]) simp
    qed
  qed
  then show ?case using p(1) q(1) by (intro exI [of _ "p @ q"]) simp
next
  case (5 a s)
  then consider "t = s" "g = []" | u h where "(u, h) \<in> set (matches a s)" "length u < length s" "(t, g) \<in> set (matches (Many a) u)"
    unfolding matches.simps(5) [of a s] by (auto split: if_splits)
  then show ?case
  proof cases
    case 2
    from "5.IH"(1) [OF 2(1)] obtain p where p: "s = p @ u" by blast
    from "5.IH"(2) [OF 2(1) refl 2(2,3)] obtain q where q: "u = q @ t" "\<forall>x \<in> set g. \<exists>a b. q = a @ x @ b" by blast
    have "\<exists>y z. p @ q = y @ x @ z" if xg: "x \<in> set g" for x
    proof -
      obtain y z where "q = y @ x @ z" using q(2) xg by blast
      then show ?thesis by (intro exI [of _ "p @ y"] exI [of _ z]) simp
    qed
    then show ?thesis using p q(1) by (intro exI [of _ "p @ q"]) simp
  qed simp
next
  case (6 a s)
  then obtain h where h: "(t, h) \<in> set (matches a s)" "g = take (length s - length t) s # h" by auto
  from "6.IH" [OF h(1)] obtain p where p: "s = p @ t" "\<forall>x \<in> set h. \<exists>a b. p = a @ x @ b" by blast
  have "\<exists>a b. p = a @ x @ b" if "x \<in> set g" for x
  proof (cases "x = p")
    case True
    then show ?thesis by (intro exI [of _ "[]"]) simp
  next
    case False
    then show ?thesis using that h(2) p by simp
  qed
  then show ?case using p(1) by blast
next
  case (2 s)
  then show ?case by simp
next
  case (4 a b s)
  then consider "(t, g) \<in> set (matches a s)" | "(t, g) \<in> set (matches b s)" by auto
  then show ?case
  proof cases
    case 1
    then show ?thesis by (rule "4.IH"(1))
  next
    case 2
    then show ?thesis by (rule "4.IH"(2))
  qed
qed

lemma matches_sub:
  assumes "matches r s = (t, h) # ms" and "x \<in> set (take (length s - length t) s # h)"
  shows "\<exists>a b. s = a @ x @ b"
proof -
  from matches_prefix [of t h r s] assms(1) obtain p where p: "s = p @ t" "\<forall>x \<in> set h. \<exists>a b. p = a @ x @ b"
    by auto
  then consider "x = p" | a b where "p = a @ x @ b" using assms(2) by auto
  then show ?thesis
  proof cases
    case 1
    then show ?thesis using p(1) by (intro exI [of _ "[]"] exI [of _ t]) simp
  next
    case (2 a b)
    then show ?thesis using p(1) by (intro exI [of _ a] exI [of _ "b @ t"]) simp
  qed
qed

lemma FindStringSubmatch_sub:
  "FindStringSubmatch r s = Some g \<Longrightarrow> x \<in> set g \<Longrightarrow> \<exists>a b. s = a @ x @ b"
proof (induction r s rule: FindStringSubmatch.induct)
  case (1 r s)
  show ?case
  proof (cases "matches r s")
    case Nil
    have "FindStringSubmatch r s = (case s of [] \<Rightarrow> None | _ # t \<Rightarrow> FindStringSubmatch r t)"
      by (subst FindStringSubmatch.simps) (simp add: Nil)
    with "1.prems"(1) obtain c t where s: "s = c # t" "FindStringSubmatch r t = Some g" by (cases s) auto
    from "1.IH" [OF Nil s(1,2) "1.prems"(2)] obtain a b where "t = a @ x @ b" by blast
    then show ?thesis by (intro exI [of _ "c # a"] exI [of _ b]) (simp add: s(1))
  next
    case (Cons th ms)
    obtain t h where th: "th = (t, h)" by fastforce
    then have "g = take (length s - length t) s # h"
      using "1.prems"(1) Cons by (simp add: FindStringSubmatch.simps [of r s])
    then show ?thesis using matches_sub [of r s t h ms x] Cons th "1.prems"(2) by simp
  qed
qed

end
