(* ===== verification/Favicon.thy ===== *)
theory Favicon
  imports Regexp Scan Proxy
begin

text \<open>
  \<open>internal/util/favicon.go\<close>: finding and downloading the favicon of a page, and the guard
  against requests to the machine itself or to cloud metadata.

  The network is the parameter \<open>n\<close>: the parser and printer of \<open>net/url\<close>, \<open>ParseIP\<close>,
  the resolver, and one exchange over a connection to an address.  The client follows
  redirects itself (\<open>follow\<close>) and notes every address that it connects to.
\<close>

section \<open>Blocked addresses\<close>

text \<open>An IPv4 address, or one of 16 bytes; \<open>To4\<close> takes an IPv4 address out of either form.\<close>

datatype IP = V4 "32 word" | V6 "128 word"

fun ip_To4 :: "IP \<Rightarrow> 32 word option" where
  "ip_To4 (V4 w) = Some w"
| "ip_To4 (V6 w) = (if drop_bit 32 w = 0xFFFF then Some (ucast w) else None)"

datatype IPNet = Net4 "32 word" nat | Net6 "128 word" nat

fun IPNet_Contains :: "IPNet \<Rightarrow> IP \<Rightarrow> bool" where
  "IPNet_Contains (Net4 a bits) ip = (case ip_To4 ip of
      Some w \<Rightarrow> drop_bit (32 - bits) w = drop_bit (32 - bits) a
    | None \<Rightarrow> False)"
| "IPNet_Contains (Net6 a bits) ip = (case ip_To4 ip of
      Some _ \<Rightarrow> False
    | None \<Rightarrow> (case ip of V6 w \<Rightarrow> drop_bit (128 - bits) w = drop_bit (128 - bits) a | V4 _ \<Rightarrow> False))"

definition blockedCIDRs :: "IPNet list" where
  "blockedCIDRs = [Net4 0x7F000000 8, Net6 1 128, Net4 0xA9FE0000 16,
     Net6 0xFE800000000000000000000000000000 10, Net4 0 8, Net6 0 128]"

definition isBlockedIP :: "IP \<Rightarrow> bool" where
  "isBlockedIP ip \<longleftrightarrow> list_ex (\<lambda>cidr. IPNet_Contains cidr ip) blockedCIDRs"

section \<open>The network\<close>

datatype 'u hop = Fails | Response int string | Redirect "'u URL"

record ('u, 'w) net =
  nParse :: "string \<Rightarrow> 'u URL option"
  nString :: "'u URL \<Rightarrow> string"
  nResolveReference :: "'u URL \<Rightarrow> 'u URL \<Rightarrow> 'u URL"
  nParseIP :: "string \<Rightarrow> IP option"
  nLookupHost :: "string \<Rightarrow> 'w \<Rightarrow> string list option \<times> 'w"
  nExchange :: "string \<Rightarrow> 'u URL \<Rightarrow> 'w \<Rightarrow> 'u hop \<times> 'w"

text \<open>\<open>URL.Hostname\<close> and \<open>URL.Port\<close>.\<close>

definition split_url_host :: "string \<Rightarrow> string \<times> string" where
  "split_url_host h =
    (let (host, port) = (case LastIndexByte h (CHR '':'') of
           Some i \<Rightarrow> if list_all is_digit (drop (i + 1) h) then (take i h, drop (i + 1) h) else (h, [])
         | None \<Rightarrow> (h, []))
     in (if HasPrefix host ''['' \<and> HasSuffix host '']'' then butlast (drop 1 host) else host, port))"

text \<open>The address that the transport asks for: the port of the URL or that of the scheme.\<close>

definition canonicalAddr :: "'u URL \<Rightarrow> string" where
  "canonicalAddr u = (case split_url_host (UHost u) of (host, port) \<Rightarrow>
     JoinHostPort host (if port \<noteq> [] then port else if Scheme u = ''https'' then ''443'' else ''80''))"

definition SplitHostPort :: "string \<Rightarrow> (string \<times> string) option" where
  "SplitHostPort hp = (case SplitHost hp of
      None \<Rightarrow> None
    | Some host \<Rightarrow> (case LastIndexByte hp (CHR '':'') of Some i \<Rightarrow> Some (host, drop (i + 1) hp) | None \<Rightarrow> None))"

definition web_scheme :: "string \<Rightarrow> bool" where
  "web_scheme s \<longleftrightarrow> s = ''http'' \<or> s = ''https''"

text \<open>The loop over the addresses of a host, in both guards.\<close>

definition resolves_blocked :: "('u, 'w) net \<Rightarrow> string list \<Rightarrow> bool" where
  "resolves_blocked n addrs \<longleftrightarrow> list_ex (\<lambda>a. case nParseIP n a of Some ip \<Rightarrow> isBlockedIP ip | None \<Rightarrow> False) addrs"

definition validateFaviconURL :: "('u, 'w) net \<Rightarrow> string \<Rightarrow> 'w \<Rightarrow> string result \<times> 'w" where
  "validateFaviconURL n rawURL w = (case nParse n rawURL of
      None \<Rightarrow> (Inl ''parse'', w)
    | Some u \<Rightarrow>
        if \<not> web_scheme (Scheme u) then (Inl ''favicon: disallowed scheme'', w)
        else case nLookupHost n (fst (split_url_host (UHost u))) w of
          (None, w) \<Rightarrow> (Inl ''lookup'', w)
        | (Some addrs, w) \<Rightarrow>
            if resolves_blocked n addrs then (Inl ''favicon: host resolves to blocked IP'', w)
            else (Inr (nString n u), w))"

text \<open>The address, and with its port the string, that is dialled.  A lookup that succeeds gives an address.\<close>

definition safeDialContext :: "('u, 'w) net \<Rightarrow> string \<Rightarrow> 'w \<Rightarrow> (string \<times> string) result \<times> 'w" where
  "safeDialContext n addr w = (case SplitHostPort addr of
      None \<Rightarrow> (Inl ''address'', w)
    | Some (host, port) \<Rightarrow> (case nLookupHost n host w of
        (None, w) \<Rightarrow> (Inl ''lookup'', w)
      | (Some addrs, w) \<Rightarrow>
          if resolves_blocked n addrs then (Inl ''favicon: host resolves to blocked IP'', w)
          else (case addrs of a # _ \<Rightarrow> (Inr (a, port), w) | [] \<Rightarrow> (Inl ''no address'', w))))"

text \<open>
  \<open>faviconClient.Do\<close>: at most \<open>left\<close> more requests.  The result comes with the addresses
  that were connected to.
\<close>

fun follow :: "('u, 'w) net \<Rightarrow> nat \<Rightarrow> 'u URL \<Rightarrow> 'w \<Rightarrow> (int \<times> string) option \<times> string list \<times> 'w" where
  "follow n 0 u w = (None, [], w)"
| "follow n (Suc left) u w = (case safeDialContext n (canonicalAddr u) w of
      (Inl _, w) \<Rightarrow> (None, [], w)
    | (Inr (a, port), w) \<Rightarrow> (case nExchange n (JoinHostPort a port) u w of
        (Fails, w) \<Rightarrow> (None, [a], w)
      | (Response scode body, w) \<Rightarrow> (Some (scode, body), [a], w)
      | (Redirect v, w) \<Rightarrow>
          if left = 0 \<or> \<not> web_scheme (Scheme v) then (None, [a], w)
          else case follow n left v w of (r, as, w) \<Rightarrow> (r, a # as, w)))"

definition client_Do :: "('u, 'w) net \<Rightarrow> string \<Rightarrow> 'w \<Rightarrow> (int \<times> string) option \<times> string list \<times> 'w" where
  "client_Do n safeURL w = (case nParse n safeURL of None \<Rightarrow> (None, [], w) | Some u \<Rightarrow> follow n 5 u w)"

section \<open>The link to the icon\<close>

definition quote :: re where "quote = one_of [CHR 0x22, CHR 0x27]"

definition noquote :: re where "noquote = none_of [CHR 0x22, CHR 0x27]"

definition gap :: re where "gap = Plus (none_of ''>'')"

definition href :: re where
  "href = seq [ilit ''href='', quote, Grp (Plus noquote), quote]"

definition rel_icon :: re where
  "rel_icon = seq [ilit ''rel='', quote, Many noquote, ilit ''icon'', Many noquote, quote]"

definition rel_apple :: re where
  "rel_apple = seq [ilit ''rel='', quote, ilit ''apple-touch-icon'', quote]"

definition reFaviconHref :: re where "reFaviconHref = seq [ilit ''<link'', gap, rel_icon, gap, href]"

definition reFaviconHref2 :: re where "reFaviconHref2 = seq [ilit ''<link'', gap, href, gap, rel_icon]"

definition reAppleTouchIcon :: re where "reAppleTouchIcon = seq [ilit ''<link'', gap, rel_apple, gap, href]"

definition reAppleTouchIcon2 :: re where "reAppleTouchIcon2 = seq [ilit ''<link'', gap, href, gap, rel_apple]"

text \<open>\<open>None\<close>: the panic on the scheme of a base that does not parse.\<close>

definition resolveRef :: "('u, 'w) net \<Rightarrow> string \<Rightarrow> string \<Rightarrow> string option" where
  "resolveRef n ref base =
    (if HasPrefix ref ''//'' then (case nParse n base of None \<Rightarrow> None | Some bu \<Rightarrow> Some (Scheme bu @ '':'' @ ref))
     else if HasPrefix ref ''http://'' \<or> HasPrefix ref ''https://'' then Some ref
     else case nParse n base of
       None \<Rightarrow> Some ref
     | Some bu \<Rightarrow> (case nParse n ref of
         None \<Rightarrow> Some ref
       | Some rl \<Rightarrow> Some (nString n (nResolveReference n bu rl))))"

fun first_group :: "re list \<Rightarrow> string \<Rightarrow> string option" where
  "first_group [] html = None"
| "first_group (r # rs) html = (case FindStringSubmatch r html of
      Some (_ # x # _) \<Rightarrow> Some x
    | _ \<Rightarrow> first_group rs html)"

definition extractFaviconURL :: "('u, 'w) net \<Rightarrow> string \<Rightarrow> string \<Rightarrow> string option" where
  "extractFaviconURL n html baseURL =
    (case first_group [reAppleTouchIcon, reAppleTouchIcon2, reFaviconHref, reFaviconHref2] html of
       Some m \<Rightarrow> resolveRef n m baseURL
     | None \<Rightarrow> resolveRef n ''/favicon.ico'' baseURL)"

section \<open>Fetching\<close>

text \<open>The bytes, none for a failure, and the addresses that were connected to.\<close>

definition fetchFaviconBytes :: "('u, 'w) net \<Rightarrow> string \<Rightarrow> 'w \<Rightarrow> string \<times> string list \<times> 'w" where
  "fetchFaviconBytes n faviconURL w = (case validateFaviconURL n faviconURL w of
      (Inl _, w) \<Rightarrow> ([], [], w)
    | (Inr safeURL, w) \<Rightarrow> (case client_Do n safeURL w of
        (Some (scode, body), as, w) \<Rightarrow> (if scode = 200 then take (64 * 1024) body else [], as, w)
      | (None, as, w) \<Rightarrow> ([], as, w)))"

definition FetchFaviconFromHTML :: "('u, 'w) net \<Rightarrow> string \<Rightarrow> string \<Rightarrow> 'w \<Rightarrow> (string \<times> string list \<times> 'w) option" where
  "FetchFaviconFromHTML n html baseURL w =
    map_option (\<lambda>u. fetchFaviconBytes n u w) (extractFaviconURL n html baseURL)"

definition FetchFaviconForTarget :: "('u, 'w) net \<Rightarrow> string \<Rightarrow> 'w \<Rightarrow> (string \<times> string list \<times> 'w) option" where
  "FetchFaviconForTarget n targetURL w = (case validateFaviconURL n targetURL w of
      (Inl _, w) \<Rightarrow> Some ([], [], w)
    | (Inr safeURL, w) \<Rightarrow> (case client_Do n safeURL w of
        (None, as, w) \<Rightarrow> Some ([], as, w)
      | (Some (scode, body), as, w) \<Rightarrow>
          map_option (\<lambda>(d, bs, w). (d, as @ bs, w)) (FetchFaviconFromHTML n (take (64 * 1024) body) targetURL w)))"

section \<open>What is blocked\<close>

text \<open>Loopback, this network and link-local addresses, in either form.\<close>

lemma isBlockedIP_V4: "isBlockedIP (V4 w) \<longleftrightarrow> drop_bit 24 w = 127 \<or> drop_bit 24 w = 0 \<or> drop_bit 16 w = 0xA9FE"
  by (auto simp: isBlockedIP_def blockedCIDRs_def)

lemma isBlockedIP_V6:
  "isBlockedIP (V6 w) \<longleftrightarrow> (if drop_bit 32 w = 0xFFFF then isBlockedIP (V4 (ucast w))
     else w = 0 \<or> w = 1 \<or> drop_bit 118 w = 0x3FA)"
  by (auto simp: isBlockedIP_def blockedCIDRs_def)

section \<open>What is connected to\<close>

definition unblocked :: "('u, 'w) net \<Rightarrow> string \<Rightarrow> bool" where
  "unblocked n a \<longleftrightarrow> (case nParseIP n a of Some ip \<Rightarrow> \<not> isBlockedIP ip | None \<Rightarrow> True)"

lemma resolves_blocked_iff: "resolves_blocked n addrs \<longleftrightarrow> (\<exists>a \<in> set addrs. \<not> unblocked n a)"
  by (auto simp: resolves_blocked_def unblocked_def list_ex_iff split: option.splits)

lemma safeDialContext_unblocked: "safeDialContext n addr w = (Inr (a, port), w') \<Longrightarrow> unblocked n a"
  by (auto simp: safeDialContext_def resolves_blocked_iff split: option.splits prod.splits if_splits list.splits)

lemma follow_safe: "follow n left u w = (r, as, w') \<Longrightarrow> (\<forall>a \<in> set as. unblocked n a) \<and> length as \<le> left"
proof (induction n left u w arbitrary: r as w' rule: follow.induct)
  case (2 n left u w)
  show ?case
  proof (cases "safeDialContext n (canonicalAddr u) w")
    case (Pair d w1)
    show ?thesis
    proof (cases d)
      case (Inr ap)
      obtain a port where ap: "ap = (a, port)" by fastforce
      have ub: "unblocked n a"
        by (rule safeDialContext_unblocked [of n "canonicalAddr u" w a port w1]) (simp add: Pair Inr ap)
      obtain h w2 where h: "nExchange n (JoinHostPort a port) u w1 = (h, w2)" by fastforce
      show ?thesis
      proof (cases "\<exists>v. h = Redirect v \<and> left \<noteq> 0 \<and> web_scheme (Scheme v)")
        case True
        then obtain v where v: "h = Redirect v" "left \<noteq> 0" "web_scheme (Scheme v)" by blast
        obtain r2 bs w3 where f: "follow n left v w2 = (r2, bs, w3)" by (cases "follow n left v w2") auto
        have "\<not> (left = 0 \<or> \<not> web_scheme (Scheme v))" using v(2,3) by simp
        from "2.IH" [OF Pair [symmetric] Inr ap [symmetric] h [symmetric] v(1) this f]
        have "(\<forall>b \<in> set bs. unblocked n b) \<and> length bs \<le> left" .
        moreover have "as = a # bs" using "2.prems" Pair Inr ap h v f by simp
        ultimately show ?thesis using ub by simp
      next
        case False
        then have "as = [a]" using "2.prems" Pair Inr ap h by (cases h) auto
        then show ?thesis using ub by simp
      qed
    qed (use "2.prems" Pair in simp)
  qed
qed simp

lemma client_Do_safe: "client_Do n u w = (r, as, w') \<Longrightarrow> (\<forall>a \<in> set as. unblocked n a) \<and> length as \<le> 5"
  using follow_safe [of n 5 _ w r as w'] by (auto simp: client_Do_def split: option.splits)

lemma fetchFaviconBytes_safe:
  "fetchFaviconBytes n u w = (d, as, w') \<Longrightarrow> (\<forall>a \<in> set as. unblocked n a) \<and> length as \<le> 5 \<and> length d \<le> 64 * 1024"
proof -
  assume f: "fetchFaviconBytes n u w = (d, as, w')"
  obtain v w1 where v: "validateFaviconURL n u w = (v, w1)" by fastforce
  show ?thesis
  proof (cases v)
    case (Inr safe)
    obtain r bs w2 where c: "client_Do n safe w1 = (r, bs, w2)" by (cases "client_Do n safe w1") auto
    have "as = bs" "length d \<le> 64 * 1024"
      using f by (auto simp: fetchFaviconBytes_def v Inr c split: option.splits prod.splits if_splits)
    then show ?thesis using client_Do_safe [OF c] by simp
  qed (use f in \<open>simp add: fetchFaviconBytes_def v\<close>)
qed

text \<open>
  A fetch never panics, downloads at most 64 KB, makes at most ten connections, and each of
  them, redirects included, is to an address that the guard has passed.
\<close>

lemma validate_parses: "validateFaviconURL n u w = (Inr safe, w') \<Longrightarrow> nParse n u \<noteq> None"
  by (auto simp: validateFaviconURL_def split: option.splits)

lemma resolveRef_total: "nParse n base \<noteq> None \<Longrightarrow> resolveRef n ref base \<noteq> None"
  by (auto simp: resolveRef_def split: option.split)

lemma extract_total:
  assumes "nParse n base \<noteq> None"
  shows "extractFaviconURL n html base \<noteq> None"
  unfolding extractFaviconURL_def
  by (cases "first_group [reAppleTouchIcon, reAppleTouchIcon2, reFaviconHref, reFaviconHref2] html")
    (simp_all only: option.case resolveRef_total [OF assms] not_False_eq_True)

lemma FetchFaviconForTarget_safe:
  "\<exists>d as w'. FetchFaviconForTarget n t w = Some (d, as, w') \<and> (\<forall>a \<in> set as. unblocked n a) \<and> length as \<le> 10 \<and>
    length d \<le> 64 * 1024"
proof -
  obtain v w1 where v: "validateFaviconURL n t w = (v, w1)" by fastforce
  show ?thesis
  proof (cases v)
    case (Inr safe)
    obtain r as w2 where c: "client_Do n safe w1 = (r, as, w2)" by (cases "client_Do n safe w1") auto
    note cs = client_Do_safe [OF c]
    show ?thesis
    proof (cases r)
      case (Some sb)
      obtain scode body where sb: "sb = (scode, body)" by fastforce
      obtain u where u: "extractFaviconURL n (take (64 * 1024) body) t = Some u"
        using extract_total [OF validate_parses [of n t w safe w1]] v Inr by fastforce
      obtain d bs w3 where f: "fetchFaviconBytes n u w2 = (d, bs, w3)" by (cases "fetchFaviconBytes n u w2") auto
      have "FetchFaviconForTarget n t w = Some (d, as @ bs, w3)"
        by (simp only: FetchFaviconForTarget_def v Inr c Some sb FetchFaviconFromHTML_def u f
            prod.case sum.case option.case option.map)
      moreover have "(\<forall>a \<in> set (as @ bs). unblocked n a) \<and> length (as @ bs) \<le> 10" "length d \<le> 64 * 1024"
        using cs fetchFaviconBytes_safe [OF f] by auto
      ultimately show ?thesis by blast
    next
      case None
      then have "FetchFaviconForTarget n t w = Some ([], as, w2)" by (simp add: FetchFaviconForTarget_def v Inr c)
      then show ?thesis using cs by auto
    qed
  qed (simp add: FetchFaviconForTarget_def v)
qed

text \<open>
  The guard reads the address with \<open>ParseIP\<close>; one that it does not read, as an IPv6 address
  with a zone (\<open>fe80::1%eth0\<close>), is dialled unchecked.
\<close>

lemma zone_dialled:
  assumes "SplitHostPort addr = Some (host, port)" and "nLookupHost n host w = (Some [a], w')" and "nParseIP n a = None"
  shows "safeDialContext n addr w = (Inr (a, port), w')"
  using assms by (simp add: safeDialContext_def resolves_blocked_def)

text \<open>The link that is found is part of the page.\<close>

lemma first_group_sub: "first_group rs html = Some x \<Longrightarrow> \<exists>a b. html = a @ x @ b"
proof (induction rs html rule: first_group.induct)
  case (2 r rs html)
  show ?case
  proof (cases "\<exists>m y g. FindStringSubmatch r html = Some (m # y # g)")
    case True
    then obtain m y g where f: "FindStringSubmatch r html = Some (m # y # g)" by blast
    then have "y = x" using "2.prems" by simp
    then show ?thesis using FindStringSubmatch_sub [OF f, of x] by simp
  next
    case False
    then have rest: "first_group rs html = Some x" using "2.prems" by (auto split: option.splits list.splits)
    consider "FindStringSubmatch r html = None" | "FindStringSubmatch r html = Some []"
      | m where "FindStringSubmatch r html = Some [m]"
      using False by (metis list.exhaust option.exhaust)
    then show ?thesis by cases (use "2.IH" rest in auto)
  qed
qed simp

end
