(* ===== verification/Multicast.thy ===== *)
theory Multicast
  imports Favicon
begin

text \<open>
  The three discoveries by multicast (\<open>internal/discovery/ssdp.go\<close>, \<open>wsdiscovery.go\<close>,
  \<open>mdns.go\<close>, and \<open>resolveURLToPort\<close> of \<open>network.go\<close>).  What arrives until the deadline is a list of
  datagrams; a socket that cannot be opened or written to is \<open>None\<close>.  The parser of URLs
  and the resolver are those of \<open>Favicon\<close>; the decoding of XML and of DNS messages are
  parameters.
\<close>

definition resolveURLToPort :: "('u, 'w) net \<Rightarrow> string \<Rightarrow> 'w \<Rightarrow> openPort option \<times> 'w" where
  "resolveURLToPort n rawURL w = (case nParse n rawURL of
      None \<Rightarrow> (None, w)
    | Some u \<Rightarrow>
        let (host, p) = split_url_host (UHost u);
            port = (if p \<noteq> [] then (case Atoi p of (k, True) \<Rightarrow> k | (_, False) \<Rightarrow> 80)
                    else if EqualFold (Scheme u) ''https'' then 443 else 80)
        in if host = [] then (None, w)
           else if nParseIP n host \<noteq> None then (Some (host, port), w)
           else (case nLookupHost n host w of
               (Some (a # _), w) \<Rightarrow> (Some (a, port), w)
             | (_, w) \<Rightarrow> (None, w)))"

section \<open>SSDP\<close>

text \<open>
  The reply is read with \<open>textproto\<close>: lines end in LF or CRLF; a header line that begins
  with a space continues the one before; reading stops at an empty or malformed line.
\<close>

definition text_lines :: "string \<Rightarrow> string list" where
  "text_lines s =
    (let ls = SplitByte s (CHR 0x0A)
     in map (\<lambda>l. if HasSuffix l [CHR 0x0D] then butlast l else l) (butlast ls) @ (if last ls = [] then [] else [last ls]))"

definition blank :: "char \<Rightarrow> bool" where
  "blank c \<longleftrightarrow> c = CHR '' '' \<or> c = CHR 0x09"

fun continued :: "string \<Rightarrow> string list \<Rightarrow> string \<times> string list" where
  "continued kv [] = (kv, [])"
| "continued kv (l # ls) =
    (if l \<noteq> [] \<and> blank (hd l) then continued (kv @ '' '' @ trim_by blank l) ls else (kv, l # ls))"

lemma continued_length: "length (snd (continued kv ls)) \<le> length ls"
  by (induction kv ls rule: continued.induct) auto

definition field_byte :: "char \<Rightarrow> bool" where
  "field_byte c \<longleftrightarrow> is_digit c \<or> is_lower c \<or> is_upper c \<or> c \<in> set ''!#$%&*+-.^_|~'' \<or> c = CHR 0x27 \<or> c = CHR 0x60"

definition value_byte :: "char \<Rightarrow> bool" where
  "value_byte c \<longleftrightarrow> 0x80 \<le> code c \<or> 0x20 \<le> code c \<and> code c < 0x7F \<or> code c = 9"

definition header_line :: "string \<Rightarrow> (string \<times> string) option" where
  "header_line kv = (case Cut kv '':'' of (k, v, ok) \<Rightarrow>
     if \<not> ok \<or> k = [] \<or> \<not> list_all (\<lambda>c. field_byte c \<or> c = CHR '' '') k \<or> \<not> list_all value_byte v then None
     else Some (k, dropWhile blank v))"

function header_lines :: "string list \<Rightarrow> (string \<times> string) list" where
  "header_lines [] = []"
| "header_lines (l # ls) =
    (if l = [] then []
     else case continued (trim_by blank l) ls of (kv, rest) \<Rightarrow>
       (case header_line kv of None \<Rightarrow> [] | Some h \<Rightarrow> h # header_lines rest))"
  by pat_completeness auto
termination
proof (relation "measure length")
  fix l :: string and ls kv rest h
  assume "(kv, rest) = continued (trim_by blank l) ls"
  then have "length rest \<le> length ls" using continued_length [of "trim_by blank l" ls] by (metis snd_conv)
  then show "(rest, l # ls) \<in> measure length" by simp
qed simp

definition ReadMIMEHeader :: "string list \<Rightarrow> (string \<times> string) list" where
  "ReadMIMEHeader ls = (case ls of
      l # _ \<Rightarrow> if l \<noteq> [] \<and> blank (hd l) then [] else header_lines ls
    | [] \<Rightarrow> [])"

definition header_get :: "(string \<times> string) list \<Rightarrow> string \<Rightarrow> string" where
  "header_get h key = (case find (\<lambda>(k, _). EqualFold k key) h of Some (_, v) \<Rightarrow> v | None \<Rightarrow> [])"

definition parseSSDPLocation :: "string \<Rightarrow> string" where
  "parseSSDPLocation bytes = (case text_lines bytes of
      [] \<Rightarrow> []
    | line # ls \<Rightarrow> if Contains line ''200 OK'' then header_get (ReadMIMEHeader ls) ''Location'' else [])"

fun ssdp_loop :: "('u, 'w) net \<Rightarrow> string list \<Rightarrow> string list \<Rightarrow> 'w \<Rightarrow> openPort list \<times> 'w" where
  "ssdp_loop n seen [] w = ([], w)"
| "ssdp_loop n seen (d # ds) w =
    (let loc = parseSSDPLocation (take 4096 d)
     in if loc = [] \<or> loc \<in> set seen then ssdp_loop n seen ds w
        else case resolveURLToPort n loc w of (p, w) \<Rightarrow>
          (case ssdp_loop n (loc # seen) ds w of (ps, w) \<Rightarrow> ((case p of Some p \<Rightarrow> p # ps | None \<Rightarrow> ps), w)))"

definition discoverSSDP :: "('u, 'w) net \<Rightarrow> string list option \<Rightarrow> 'w \<Rightarrow> openPort list \<times> 'w" where
  "discoverSSDP n replies w = (case replies of None \<Rightarrow> ([], w) | Some ds \<Rightarrow> ssdp_loop n [] ds w)"

section \<open>WS-Discovery\<close>

text \<open>\<open>xaddrs\<close>: the \<open>XAddrs\<close> of the matches in an envelope, \<open>None\<close> for XML that does not parse.\<close>

definition wsd_addr :: "('u, 'w) net \<Rightarrow> string \<Rightarrow> openPort list \<times> 'w \<Rightarrow> openPort list \<times> 'w" where
  "wsd_addr n addr acc = (case resolveURLToPort n addr (snd acc) of
      (None, w) \<Rightarrow> (fst acc, w)
    | (Some p, w) \<Rightarrow> (if port_key p \<in> port_key ` set (fst acc) then fst acc else fst acc @ [p], w))"

definition wsd_datagram ::
  "('u, 'w) net \<Rightarrow> (string \<Rightarrow> string list option) \<Rightarrow> string \<Rightarrow> openPort list \<times> 'w \<Rightarrow> openPort list \<times> 'w" where
  "wsd_datagram n xaddrs d acc = (case xaddrs (take 65536 d) of
      None \<Rightarrow> acc
    | Some xs \<Rightarrow> fold (wsd_addr n) (concat (map Fields xs)) acc)"

definition discoverWSDiscovery ::
  "('u, 'w) net \<Rightarrow> (string \<Rightarrow> string list option) \<Rightarrow> string list option \<Rightarrow> 'w \<Rightarrow> openPort list \<times> 'w" where
  "discoverWSDiscovery n xaddrs replies w = (case replies of
      None \<Rightarrow> ([], w)
    | Some ds \<Rightarrow> fold (wsd_datagram n xaddrs) ds ([], w))"

definition wsdMessageID :: "nat list \<Rightarrow> string" where
  "wsdMessageID b = ''uuid:'' @ EncodeToString (take 4 b) @ ''-'' @ EncodeToString (take 2 (drop 4 b)) @ ''-'' @
     EncodeToString (take 2 (drop 6 b)) @ ''-'' @ EncodeToString (take 2 (drop 8 b)) @ ''-'' @
     EncodeToString (take 6 (drop 10 b))"

section \<open>mDNS\<close>

datatype RR = PTR string string | SRV string string nat | ARR string string | OtherRR

definition mdnsServicesMeta :: string where
  "mdnsServicesMeta = ''_services._dns-sd._udp.local.''"

definition mdnsKnownServices :: "string list" where
  "mdnsKnownServices = [''_http._tcp.local.'', ''_https._tcp.local.'', ''_plex._tcp.local.'',
     ''_home-assistant._tcp.local.'', ''_esphomelib._tcp.local.'', ''_workstation._tcp.local.'',
     ''_googlecast._tcp.local.'', ''_companion-link._tcp.local.'']"

text \<open>
  The state of the loop: the types already queried, the queries sent (those that \<open>packs\<close>),
  and the two maps as association lists.
\<close>

record mdns =
  queriedTypes :: "string list"
  queries :: "string list"
  srvMap :: "(string \<times> string \<times> nat) list"
  aMap :: "(string \<times> string) list"

definition sendQuery :: "(string \<Rightarrow> bool) \<Rightarrow> string \<Rightarrow> mdns \<Rightarrow> mdns" where
  "sendQuery packs t m =
    (if t \<in> set (queriedTypes m) then m
     else let m = m\<lparr>queriedTypes := t # queriedTypes m\<rparr>
          in if packs t then m\<lparr>queries := queries m @ [t]\<rparr> else m)"

definition mdns_start :: "(string \<Rightarrow> bool) \<Rightarrow> mdns" where
  "mdns_start packs = fold (sendQuery packs) mdnsKnownServices
     (sendQuery packs mdnsServicesMeta \<lparr>queriedTypes = [], queries = [], srvMap = [], aMap = []\<rparr>)"

fun mdns_record :: "(string \<Rightarrow> bool) \<Rightarrow> RR \<Rightarrow> mdns \<Rightarrow> mdns" where
  "mdns_record packs (PTR name ptr) m =
    (if EqualFold name mdnsServicesMeta then sendQuery packs (ToLower ptr) m else m)"
| "mdns_record packs (SRV name target port) m =
    m\<lparr>srvMap := AList.update (ToLower name) (ToLower target, port) (srvMap m)\<rparr>"
| "mdns_record packs (ARR name addr) m = m\<lparr>aMap := AList.update (ToLower name) addr (aMap m)\<rparr>"
| "mdns_record packs OtherRR m = m"

text \<open>
  A message is unpacked to its response flag and the records of its sections; \<open>None\<close> when
  that fails.
\<close>

definition mdns_message ::
  "(string \<Rightarrow> bool) \<Rightarrow> (string \<Rightarrow> (bool \<times> RR list) option) \<Rightarrow> string \<Rightarrow> mdns \<Rightarrow> mdns" where
  "mdns_message packs unpack d m = (case unpack (take 65536 d) of
      Some (True, rrs) \<Rightarrow> fold (mdns_record packs) rrs m
    | _ \<Rightarrow> m)"

fun correlate :: "('u, 'w) net \<Rightarrow> (string \<times> string) list \<Rightarrow> openPort list \<Rightarrow> (string \<times> nat) list \<Rightarrow> 'w \<Rightarrow> openPort list \<times> 'w" where
  "correlate n amap ports [] w = (ports, w)"
| "correlate n amap ports ((host, port) # srvs) w =
    (case (case map_of amap host of
            Some ip \<Rightarrow> (Some ip, w)
          | None \<Rightarrow> (case nLookupHost n (TrimSuffix host ''.'') w of
              (Some (a # _), w) \<Rightarrow> (Some a, w)
            | (_, w) \<Rightarrow> (None, w))) of
       (None, w) \<Rightarrow> correlate n amap ports srvs w
     | (Some ip, w) \<Rightarrow>
         correlate n amap
           (if port_key (ip, int port) \<in> port_key ` set ports then ports else ports @ [(ip, int port)]) srvs w)"

text \<open>\<open>order\<close> lists the values of \<open>srvMap\<close> in the order of its iteration.\<close>

definition discoverMDNS ::
  "('u, 'w) net \<Rightarrow> (string \<Rightarrow> bool) \<Rightarrow> (string \<Rightarrow> (bool \<times> RR list) option) \<Rightarrow>
    ((string \<times> string \<times> nat) list \<Rightarrow> (string \<times> string \<times> nat) list) \<Rightarrow> string list option \<Rightarrow> 'w \<Rightarrow> openPort list \<times> 'w" where
  "discoverMDNS n packs unpack order replies w = (case replies of
      None \<Rightarrow> ([], w)
    | Some ds \<Rightarrow>
        let m = fold (mdns_message packs unpack) ds (mdns_start packs)
        in correlate n (aMap m) [] (map snd (order (srvMap m))) w)"

section \<open>What is found\<close>

text \<open>WS-Discovery and mDNS report no address twice.\<close>

lemma wsd_addr_distinct: "distinct (map port_key (fst acc)) \<Longrightarrow> distinct (map port_key (fst (wsd_addr n a acc)))"
  by (auto simp: wsd_addr_def split: prod.split option.split)

lemma fold_distinct:
  assumes "\<And>x acc. distinct (map port_key (fst acc)) \<Longrightarrow> distinct (map port_key (fst (f x acc)))"
  shows "distinct (map port_key (fst acc)) \<Longrightarrow> distinct (map port_key (fst (fold f xs acc)))"
  by (induction xs arbitrary: acc) (simp_all add: assms)

lemma wsd_datagram_distinct:
  "distinct (map port_key (fst acc)) \<Longrightarrow> distinct (map port_key (fst (wsd_datagram n xaddrs d acc)))"
  unfolding wsd_datagram_def
  by (cases "xaddrs (take 65536 d)") (simp_all only: option.case fold_distinct [OF wsd_addr_distinct])

lemma discoverWSDiscovery_distinct: "distinct (map port_key (fst (discoverWSDiscovery n xaddrs replies w)))"
  unfolding discoverWSDiscovery_def
  by (cases replies) (simp_all add: fold_distinct [OF wsd_datagram_distinct])

lemma correlate_distinct:
  "distinct (map port_key ports) \<Longrightarrow> distinct (map port_key (fst (correlate n amap ports srvs w)))"
  by (induction n amap ports srvs w rule: correlate.induct) (auto split: option.split prod.split list.split)

lemma discoverMDNS_distinct: "distinct (map port_key (fst (discoverMDNS n packs unpack order replies w)))"
  by (cases replies) (simp_all add: discoverMDNS_def correlate_distinct Let_def)

text \<open>No service type is queried twice, whatever the network answers.\<close>

definition mdns_ok :: "mdns \<Rightarrow> bool" where
  "mdns_ok m \<longleftrightarrow> distinct (queries m) \<and> set (queries m) \<subseteq> set (queriedTypes m)"

lemma sendQuery_ok: "mdns_ok m \<Longrightarrow> mdns_ok (sendQuery packs t m)"
  by (auto simp: mdns_ok_def sendQuery_def Let_def)

lemma fold_ok: "(\<And>x m. mdns_ok m \<Longrightarrow> mdns_ok (f x m)) \<Longrightarrow> mdns_ok m \<Longrightarrow> mdns_ok (fold f xs m)"
  by (induction xs arbitrary: m) simp_all

lemma mdns_start_ok: "mdns_ok (mdns_start packs)"
proof -
  have "mdns_ok \<lparr>queriedTypes = [], queries = [], srvMap = [], aMap = []\<rparr>" by (simp add: mdns_ok_def)
  from fold_ok [of "sendQuery packs", OF sendQuery_ok sendQuery_ok [OF this]] show ?thesis
    unfolding mdns_start_def .
qed

lemma mdns_record_ok: "mdns_ok m \<Longrightarrow> mdns_ok (mdns_record packs r m)"
  by (cases r) (simp_all add: sendQuery_ok, simp_all add: mdns_ok_def)

lemma mdns_message_ok: "mdns_ok m \<Longrightarrow> mdns_ok (mdns_message packs unpack d m)"
  by (auto simp: mdns_message_def intro: fold_ok mdns_record_ok split: option.split prod.split bool.split)

lemma mdns_run_ok: "mdns_ok (fold (mdns_message packs unpack) ds (mdns_start packs))"
  by (rule fold_ok [OF mdns_message_ok mdns_start_ok])

text \<open>SSDP tells replies apart by their location: two on one device report its port twice.\<close>

lemma ssdp_twice:
  assumes "parseSSDPLocation (take 4096 d) = l" and "parseSSDPLocation (take 4096 e) = l'" and "l \<noteq> []" and "l' \<noteq> []" and "l \<noteq> l'"
    and "resolveURLToPort n l w = (Some p, w1)" and "resolveURLToPort n l' w1 = (Some p, w2)"
  shows "discoverSSDP n (Some [d, e]) w = ([p, p], w2)"
  using assms by (simp add: discoverSSDP_def)

text \<open>Each location is resolved once.\<close>

lemma ssdp_loop_length:
  "length (fst (ssdp_loop n seen ds w)) \<le> card ((\<lambda>d. parseSSDPLocation (take 4096 d)) ` set ds - set seen)"
proof (induction n seen ds w rule: ssdp_loop.induct)
  case (2 n seen d ds w)
  let ?loc = "\<lambda>d. parseSSDPLocation (take 4096 d)"
  have fin: "finite (?loc ` set ds - S)" for S by simp
  show ?case
  proof (cases "?loc d = [] \<or> ?loc d \<in> set seen")
    case True
    have "?loc ` set ds - set seen \<subseteq> ?loc ` set (d # ds) - set seen" by auto
    then have "card (?loc ` set ds - set seen) \<le> card (?loc ` set (d # ds) - set seen)" by (simp add: card_mono)
    with "2.IH"(1) [OF refl True] True show ?thesis by (simp add: Let_def)
  next
    case False
    obtain p w1 where p: "resolveURLToPort n (?loc d) w = (p, w1)" by fastforce
    obtain ps w2 where ps: "ssdp_loop n (?loc d # seen) ds w1 = (ps, w2)" by fastforce
    have "length ps \<le> card (?loc ` set ds - set (?loc d # seen))"
      using "2.IH"(2) [OF refl False p [symmetric]] ps by simp
    moreover have "?loc ` set (d # ds) - set seen = insert (?loc d) (?loc ` set ds - set (?loc d # seen))"
      using False by auto
    then have "card (?loc ` set (d # ds) - set seen) = Suc (card (?loc ` set ds - set (?loc d # seen)))" by simp
    moreover have "length (fst (ssdp_loop n seen (d # ds) w)) \<le> Suc (length ps)"
      using False p ps by (simp add: Let_def split: option.split)
    ultimately show ?thesis by linarith
  qed
qed simp

end
