(* ===== verification/Network.thy ===== *)
theory Network
  imports Scan Arp Multicast GoTime
begin

text \<open>
  \<open>tcpSweep\<close> and \<open>scanNetwork\<close> of \<open>internal/discovery/network.go\<close>: the hosts and ports of
  a scan, the sweep, and the four paths that feed one probe for each address.

  The goroutines of the sweep end in any order, which is an argument; the workers and paths
  of \<open>scanNetwork\<close> are a step relation over the open ports that wait, the keys that are
  taken, the probes under way and the results on the channel.
\<close>

section \<open>Hosts and ports of the sweep\<close>

text \<open>
  \<open>net.ParseCIDR\<close> is the parameter \<open>parseCIDR\<close>: \<open>None\<close> for an error, \<open>Some None\<close> for an
  IPv6 network.  Without configured subnets, the local one is taken.
\<close>

definition scan_nets :: "(string \<Rightarrow> prefix option option) \<Rightarrow> iface list \<Rightarrow> string list \<Rightarrow> prefix option list option" where
  "scan_nets parseCIDR ifaces cidrs =
    (if cidrs = [] then map_option (\<lambda>subnet. [Some subnet]) (getLocalSubnet ifaces)
     else let nets = List.map_filter parseCIDR cidrs in if nets = [] then None else Some nets)"

text \<open>\<open>None\<close> when the loop over the addresses of a network does not end.\<close>

definition scan_hosts :: "prefix option list \<Rightarrow> string list option" where
  "scan_hosts nets = map_option (\<lambda>hosts. sweep_hosts [] (concat hosts)) (those (map generateIPs nets))"

definition allPortsList :: "int list" where
  "allPortsList = map int [1..<65536]"

section \<open>The sweep\<close>

datatype dial = Connected | DialError string | Canceled

record sweep =
  swOpen :: "openPort list"
  countOpen :: int
  countTimeouts :: int
  countRefused :: int
  countOther :: int
  swDone :: int
  swLog :: "string list"

definition counts :: "sweep \<Rightarrow> string" where
  "counts s = ''open:'' @ Itoa (countOpen s) @ '' refused:'' @ Itoa (countRefused s) @ '' timeout:'' @ Itoa (countTimeouts s) @
     '' other:'' @ Itoa (countOther s)"

text \<open>The percentage after a dial; a line at every quarter but the last.\<close>

definition progress :: "int \<Rightarrow> sweep \<Rightarrow> sweep" where
  "progress combos s =
    (if combos > 0 then
       let n = swDone s + 1;
           prev = (n - 1) * 100 div combos;
           curr = n * 100 div combos
       in s\<lparr>swDone := n,
            swLog := (if curr div 25 > prev div 25 \<and> curr < 100
              then swLog s @ [''[TCP] '' @ Itoa (curr div 25 * 25) @ ''% ('' @ Itoa n @ ''/'' @ Itoa combos @ '') '' @ em_dash @ '' '' @ counts s]
              else swLog s)\<rparr>
     else s)"

definition dial_step :: "(string \<Rightarrow> int \<Rightarrow> dial) \<Rightarrow> int \<Rightarrow> openPort \<Rightarrow> sweep \<Rightarrow> sweep" where
  "dial_step dial combos p s = (case dial (fst p) (snd p) of
      Canceled \<Rightarrow> s
    | Connected \<Rightarrow> progress combos (s\<lparr>countOpen := countOpen s + 1, swOpen := swOpen s @ [p]\<rparr>)
    | DialError err \<Rightarrow> progress combos
        (if Contains err ''i/o timeout'' \<or> Contains err ''timeout'' then s\<lparr>countTimeouts := countTimeouts s + 1\<rparr>
         else if Contains err ''connection refused'' then s\<lparr>countRefused := countRefused s + 1\<rparr>
         else s\<lparr>countOther := countOther s + 1,
            swLog := swLog s @ [''[ERR] '' @ fst p @ '':'' @ Itoa (snd p) @ '' '' @ arrow @ '' '' @ err]\<rparr>))"

definition comma_list :: "string list \<Rightarrow> string" where
  "comma_list ws = (case ws of [] \<Rightarrow> [] | w # ws \<Rightarrow> w @ concat (map (\<lambda>v. '', '' @ v) ws))"

definition hosts_line :: "string list \<Rightarrow> string" where
  "hosts_line ips = (if length ips \<le> 30 then ''[TCP] Hosts: '' @ comma_list ips
     else ''[TCP] Hosts: '' @ hd ips @ '' '' @ ellipsis @ '' '' @ last ips @ '' ('' @ Itoa (int (length ips)) @ '' total)'')"

text \<open>
  \<open>order\<close> is the order in which the dials end, each host with each port once; \<open>elapsed\<close>
  the duration in the last line.  A dial with its counters and its line is one step.
\<close>

definition dial_order :: "openPort list \<Rightarrow> string list \<Rightarrow> int list \<Rightarrow> bool" where
  "dial_order order ips ports \<longleftrightarrow> mset order = mset (List.product ips ports)"

definition tcpSweep ::
  "(string \<Rightarrow> int \<Rightarrow> dial) \<Rightarrow> openPort list \<Rightarrow> time \<Rightarrow> string \<Rightarrow> string list \<Rightarrow> int list \<Rightarrow> openPort list \<times> string list" where
  "tcpSweep dial order timeout elapsed ips ports =
    (let hosts = int (length ips); ps = int (length ports);
         start = [''[TCP] Starting sweep: '' @ Itoa hosts @ '' hosts '' @ times_sign @ '' '' @ Itoa ps @ '' ports = '' @
              Itoa (hosts * ps) @ '' combinations'',
            ''[TCP] Timeout: '' @ Duration_String timeout @ ''/conn, 1024 concurrent workers'']
     in if ips = [] then ([], start @ [''[TCP] ERROR: no hosts to scan '' @ em_dash @ '' check subnet config''])
        else
          let combos = hosts * ps;
              s = fold (dial_step dial combos) order \<lparr>swOpen = [], countOpen = 0, countTimeouts = 0, countRefused = 0,
                countOther = 0, swDone = 0, swLog = start @ [hosts_line ips]\<rparr>
          in (swOpen s, swLog s @ [''[TCP] Done in '' @ elapsed @ '': '' @ Itoa (countOpen s) @ '' open, '' @
                Itoa (countRefused s) @ '' refused, '' @ Itoa (countTimeouts s) @ '' timeout, '' @
                Itoa (countOther s) @ '' other'']))"

section \<open>From the subnets to the open ports\<close>

text \<open>
  What the sweep of a full scan meets: parsers, interfaces, the raw socket with the frames it
  returns, the dials with the order in which they end, and whether the context ends meanwhile.
\<close>

record surroundings =
  suParseCIDR :: "string \<Rightarrow> prefix option option"
  suSubnetIfaces :: "iface list"
  suParse4 :: "string \<Rightarrow> 32 word option"
  suIfaces :: "net_interface list"
  suSocket :: bool
  suFrames :: "8 word list list"
  suDial :: "string \<Rightarrow> int \<Rightarrow> dial"
  suOrder :: "string list \<Rightarrow> openPort list"
  suElapsed :: string
  suCanceled :: bool

definition live_hosts :: "surroundings \<Rightarrow> string list \<Rightarrow> string list" where
  "live_hosts e = swept_hosts (suParse4 e) (suIfaces e) (suSocket e) (suFrames e)"

text \<open>
  The first path of \<open>scanNetwork\<close>, up to the ports that it gives to its workers: \<open>None\<close> when the
  hosts of a subnet never end.  Its lines in the log, those of the sweep apart, are left out.
\<close>

definition tcp_path :: "surroundings \<Rightarrow> time \<Rightarrow> string list \<Rightarrow> openPort list option" where
  "tcp_path e timeout cidrs = (case scan_nets (suParseCIDR e) (suSubnetIfaces e) cidrs of
      None \<Rightarrow> Some []
    | Some nets \<Rightarrow> map_option (\<lambda>hosts.
        let ips = live_hosts e hosts;
            found = fst (tcpSweep (suDial e) (suOrder e ips) timeout (suElapsed e) ips allPortsList)
        in if found = [] \<or> suCanceled e then [] else found) (scan_hosts nets))"

section \<open>The probes of a scan\<close>

text \<open>
  Ports that a path has found and not yet given to \<open>probeOnce\<close>, the keys of \<open>probedPorts\<close>,
  the probes under way and the results on the channel; whether the context was cancelled.
\<close>

record net_scan =
  waiting :: "openPort list"
  taken :: "string list"
  probing :: "openPort list"
  sent_results :: "probeResult list"
  cancelled :: bool

definition scan_start :: "openPort list \<Rightarrow> net_scan" where
  "scan_start found = \<lparr>waiting = found, taken = [], probing = [], sent_results = [], cancelled = False\<rparr>"

text \<open>
  A worker or path takes a port, and \<open>LoadOrStore\<close> decides (\<open>claim\<close>, \<open>skip\<close>); a probe ends
  with a result or without (\<open>result\<close>, \<open>no_result\<close>).  After a cancellation the ports that wait are left
  (\<open>leave\<close>) and a probe may end without its result.  \<open>answers\<close> are the possible outcomes of a probe.
\<close>

inductive net_step :: "(openPort \<Rightarrow> probeResult option \<Rightarrow> bool) \<Rightarrow> net_scan \<Rightarrow> net_scan \<Rightarrow> bool" for answers where
  claim: "waiting s = a @ p # b \<Longrightarrow> port_key p \<notin> set (taken s) \<Longrightarrow>
    net_step answers s (s\<lparr>waiting := a @ b, taken := port_key p # taken s, probing := p # probing s\<rparr>)"
| skip: "waiting s = a @ p # b \<Longrightarrow> port_key p \<in> set (taken s) \<Longrightarrow>
    net_step answers s (s\<lparr>waiting := a @ b\<rparr>)"
| result: "probing s = a @ p # b \<Longrightarrow> answers p (Some r) \<Longrightarrow>
    net_step answers s (s\<lparr>probing := a @ b, sent_results := sent_results s @ [r]\<rparr>)"
| no_result: "probing s = a @ p # b \<Longrightarrow> answers p None \<or> cancelled s \<Longrightarrow>
    net_step answers s (s\<lparr>probing := a @ b\<rparr>)"
| cancel: "\<not> cancelled s \<Longrightarrow> net_step answers s (s\<lparr>cancelled := True\<rparr>)"
| leave: "cancelled s \<Longrightarrow> waiting s \<noteq> [] \<Longrightarrow> net_step answers s (s\<lparr>waiting := []\<rparr>)"

inductive_cases net_stepE: "net_step answers s t"

inductive net_run :: "(openPort \<Rightarrow> probeResult option \<Rightarrow> bool) \<Rightarrow> nat \<Rightarrow> net_scan \<Rightarrow> net_scan \<Rightarrow> bool" for answers where
  net_refl: "net_run answers 0 s s"
| net_more: "net_run answers n s t \<Longrightarrow> net_step answers t u \<Longrightarrow> net_run answers (Suc n) s u"

text \<open>The channel is closed when all paths have returned.\<close>

definition scan_over :: "net_scan \<Rightarrow> bool" where
  "scan_over s \<longleftrightarrow> waiting s = [] \<and> probing s = []"

text \<open>The open ports of all paths: the sweep of a full scan, mDNS, SSDP and WS-Discovery.\<close>

definition found_ports ::
  "bool \<Rightarrow> openPort list \<Rightarrow> openPort list \<Rightarrow> openPort list \<Rightarrow> openPort list \<Rightarrow> openPort list" where
  "found_ports withTCP tcp mdns ssdp wsd = (if withTCP then tcp else []) @ mdns @ ssdp @ wsd"

section \<open>What the sweep finds and logs\<close>

definition port_open :: "(string \<Rightarrow> int \<Rightarrow> dial) \<Rightarrow> openPort \<Rightarrow> bool" where
  "port_open dial p \<longleftrightarrow> dial (fst p) (snd p) = Connected"

lemma progress_fields [simp]:
  "swOpen (progress combos s) = swOpen s" "countOpen (progress combos s) = countOpen s"
  "countTimeouts (progress combos s) = countTimeouts s" "countRefused (progress combos s) = countRefused s"
  "countOther (progress combos s) = countOther s"
  by (simp_all add: progress_def Let_def)

lemma swDone_progress: "0 < combos \<Longrightarrow> swDone (progress combos s) = swDone s + 1"
  by (simp add: progress_def Let_def)

lemma sweep_open: "swOpen (fold (dial_step dial combos) order s) = swOpen s @ filter (port_open dial) order"
  by (induction order arbitrary: s) (auto simp: dial_step_def port_open_def split: dial.split)

text \<open>The four counters add up to the dials that were made, and the first counts the open ports.\<close>

lemma sweep_counts:
  assumes "0 < combos"
  shows "let t = fold (dial_step dial combos) order s in
    countOpen t - countOpen s = int (length (filter (port_open dial) order)) \<and>
    (countOpen t + countTimeouts t + countRefused t + countOther t) -
      (countOpen s + countTimeouts s + countRefused s + countOther s) = swDone t - swDone s \<and>
    swDone t - swDone s = int (length (filter (\<lambda>p. dial (fst p) (snd p) \<noteq> Canceled) order))"
proof (induction order arbitrary: s)
  case Nil
  then show ?case by simp
next
  case (Cons p order)
  have "swDone (dial_step dial combos p s) = swDone s + (if dial (fst p) (snd p) = Canceled then 0 else 1)"
    "countOpen (dial_step dial combos p s) = countOpen s + (if port_open dial p then 1 else 0)"
    "countOpen (dial_step dial combos p s) + countTimeouts (dial_step dial combos p s) + countRefused (dial_step dial combos p s) +
       countOther (dial_step dial combos p s) =
     countOpen s + countTimeouts s + countRefused s + countOther s + (if dial (fst p) (snd p) = Canceled then 0 else 1)"
    using assms by (auto simp: dial_step_def port_open_def swDone_progress split: dial.split)
  then show ?case using Cons.IH [of "dial_step dial combos p s"] by (auto simp: Let_def port_open_def)
qed

text \<open>Whatever the number of dials, the sweep writes at most three lines of progress.\<close>

definition tcp_lines :: "string list \<Rightarrow> nat" where
  "tcp_lines log = length (filter (\<lambda>l. HasPrefix l ''[TCP]'') log)"

definition quarters :: "int \<Rightarrow> int \<Rightarrow> int" where
  "quarters combos n = min 3 (n * 100 div combos div 25)"

lemma quarters_mono: "0 < combos \<Longrightarrow> m \<le> n \<Longrightarrow> quarters combos m \<le> quarters combos n"
  unfolding quarters_def by (intro min.mono zdiv_mono1) simp_all

lemma tcp_lines_simps [simp]:
  "tcp_lines [] = 0" "tcp_lines (l # ls) = (if HasPrefix l ''[TCP]'' then 1 else 0) + tcp_lines ls"
  "tcp_lines (a @ b) = tcp_lines a + tcp_lines b"
  "HasPrefix (CHR ''['' # CHR ''T'' # CHR ''C'' # CHR ''P'' # CHR '']'' # l) ''[TCP]''"
  "\<not> HasPrefix (CHR ''['' # CHR ''E'' # l) ''[TCP]''"
  by (simp_all add: tcp_lines_def HasPrefix_def)

lemma sweep_lines:
  assumes t: "0 < combos"
  shows "int (tcp_lines (swLog (fold (dial_step dial combos) order s))) + quarters combos (swDone s) \<le>
    int (tcp_lines (swLog s)) + quarters combos (swDone (fold (dial_step dial combos) order s))"
proof (induction order arbitrary: s)
  case Nil
  then show ?case by simp
next
  case (Cons p order)
  have pr: "int (tcp_lines (swLog (progress combos u))) + quarters combos (swDone u) \<le>
      int (tcp_lines (swLog u)) + quarters combos (swDone (progress combos u))" for u
  proof -
    let ?n = "swDone u + 1"
    let ?curr = "?n * 100 div combos" and ?prev = "swDone u * 100 div combos"
    have m: "quarters combos (swDone u) \<le> quarters combos ?n" by (rule quarters_mono [OF t]) simp
    show ?thesis
    proof (cases "?curr div 25 > ?prev div 25 \<and> ?curr < 100")
      case True
      then have "quarters combos (swDone u) + 1 \<le> quarters combos ?n" unfolding quarters_def by linarith
      with True t show ?thesis by (simp add: progress_def Let_def)
    next
      case False
      then have "swLog (progress combos u) = swLog u" "swDone (progress combos u) = ?n"
        using t by (auto simp: progress_def Let_def)
      with m show ?thesis by simp
    qed
  qed
  have "int (tcp_lines (swLog (dial_step dial combos p s))) + quarters combos (swDone s) \<le>
      int (tcp_lines (swLog s)) + quarters combos (swDone (dial_step dial combos p s))"
  proof (cases "dial (fst p) (snd p)")
    case Connected
    then show ?thesis using pr [of "s\<lparr>countOpen := countOpen s + 1, swOpen := swOpen s @ [p]\<rparr>"] by (simp add: dial_step_def)
  next
    case (DialError err)
    define u where "u = (if Contains err ''i/o timeout'' \<or> Contains err ''timeout'' then s\<lparr>countTimeouts := countTimeouts s + 1\<rparr>
         else if Contains err ''connection refused'' then s\<lparr>countRefused := countRefused s + 1\<rparr>
         else s\<lparr>countOther := countOther s + 1,
            swLog := swLog s @ [''[ERR] '' @ fst p @ '':'' @ Itoa (snd p) @ '' '' @ arrow @ '' '' @ err]\<rparr>)"
    have "dial_step dial combos p s = progress combos u" using DialError by (simp add: dial_step_def u_def)
    moreover have "tcp_lines (swLog u) = tcp_lines (swLog s)" "swDone u = swDone s" by (simp_all add: u_def)
    ultimately show ?thesis using pr [of u] by simp
  next
    case Canceled
    then show ?thesis by (simp add: dial_step_def)
  qed
  with Cons.IH [of "dial_step dial combos p s"] show ?case by simp
qed

text \<open>The sweep: the pairs that accept a connection, each once, and at most seven lines of its own.\<close>

lemma tcpSweep_open:
  assumes "dial_order order ips ports"
  shows "mset (fst (tcpSweep dial order timeout elapsed ips ports)) = mset (filter (port_open dial) (List.product ips ports))"
proof -
  have "mset (filter (port_open dial) order) = mset (filter (port_open dial) (List.product ips ports))"
    using assms by (simp add: dial_order_def mset_filter)
  then show ?thesis by (simp add: tcpSweep_def Let_def sweep_open)
qed

lemma tcpSweep_fst: "ips \<noteq> [] \<Longrightarrow> fst (tcpSweep dial order timeout elapsed ips ports) = filter (port_open dial) order"
  by (simp add: tcpSweep_def Let_def sweep_open)

lemma tcpSweep_lines: "tcp_lines (snd (tcpSweep dial order timeout elapsed ips ports)) \<le> 7"
proof (cases "ips = []")
  case True
  then show ?thesis by (simp add: tcpSweep_def Let_def)
next
  case False
  let ?c = "int (length ips) * int (length ports)"
  define s where "s = \<lparr>swOpen = [], countOpen = 0, countTimeouts = 0, countRefused = 0, countOther = 0, swDone = 0,
     swLog = [''[TCP] Starting sweep: '' @ Itoa (int (length ips)) @ '' hosts '' @ times_sign @ '' '' @ Itoa (int (length ports)) @
       '' ports = '' @ Itoa ?c @ '' combinations'',
       ''[TCP] Timeout: '' @ Duration_String timeout @ ''/conn, 1024 concurrent workers'', hosts_line ips]\<rparr>"
  have hl: "HasPrefix (hosts_line ips) ''[TCP]''" by (simp add: hosts_line_def HasPrefix_def)
  have s0: "tcp_lines (swLog s) = 3" "swDone s = 0" using hl by (simp_all add: s_def)
  let ?t = "fold (dial_step dial ?c) order s"
  have "tcp_lines (swLog ?t) \<le> 6"
  proof (cases "0 < ?c")
    case True
    have "quarters ?c (swDone ?t) \<le> 3" "quarters ?c 0 = 0" by (simp_all add: quarters_def)
    with sweep_lines [OF True, of dial order s] s0 show ?thesis by simp
  next
    case False
    have "tcp_lines (swLog (fold (dial_step dial ?c) order u)) = tcp_lines (swLog u)" for u
      using False
    proof (induction order arbitrary: u)
      case (Cons p order)
      have "tcp_lines (swLog (dial_step dial ?c p u)) = tcp_lines (swLog u)"
        using False by (simp add: dial_step_def progress_def split: dial.split)
      with Cons show ?case by simp
    qed simp
    then show ?thesis using s0 by simp
  qed
  then show ?thesis using False by (simp add: tcpSweep_def Let_def s_def)
qed

section \<open>Every port is probed once\<close>

text \<open>
  The ports that were probed with what came out, in the order in which the probes ended;
  after a cancellation a probe may have come to nothing.
\<close>

definition outcome :: "(openPort \<Rightarrow> probeResult option \<Rightarrow> bool) \<Rightarrow> bool \<Rightarrow> openPort \<Rightarrow> probeResult option \<Rightarrow> bool" where
  "outcome answers c p r \<longleftrightarrow> answers p r \<or> c \<and> r = None"

definition probed_to :: "(openPort \<Rightarrow> probeResult option \<Rightarrow> bool) \<Rightarrow> openPort list \<Rightarrow> net_scan \<Rightarrow>
    openPort list \<Rightarrow> probeResult option list \<Rightarrow> bool" where
  "probed_to answers found s ps rs \<longleftrightarrow>
    list_all2 (outcome answers (cancelled s)) ps rs \<and> sent_results s = List.map_filter id rs \<and>
    distinct (ps @ probing s) \<and> set (taken s) = port_key ` set (ps @ probing s) \<and>
    set (ps @ probing s) \<union> set (waiting s) \<subseteq> set found \<and>
    (cancelled s \<or> set found = set (ps @ probing s) \<union> set (waiting s))"

lemma map_filter_append: "List.map_filter f (xs @ ys) = List.map_filter f xs @ List.map_filter f ys"
  by (simp add: List.map_filter_def)

lemma set_map_filter_id: "set (List.map_filter id xs) = {x. Some x \<in> set xs}"
  by (induction xs) (auto simp: map_filter_simps split: option.splits)

lemma inj_port_key: "inj port_key"
  by (rule injI) (rule port_key_inj)

lemma probed_to_step:
  assumes i: "probed_to answers found s ps rs" and st: "net_step answers s t"
  shows "\<exists>ps rs. probed_to answers found t ps rs"
  using st
proof (cases rule: net_step.cases)
  case (claim a p b)
  have "p \<notin> set (ps @ probing s)" using i claim(3) by (auto simp: probed_to_def)
  with i claim show ?thesis by (intro exI [of _ ps] exI [of _ rs]) (auto simp: probed_to_def)
next
  case (skip a p b)
  have "p \<in> set (ps @ probing s)"
    using i skip(3) inj_image_mem_iff [OF inj_port_key, of p] by (metis probed_to_def)
  with i skip show ?thesis by (intro exI [of _ ps] exI [of _ rs]) (auto simp: probed_to_def)
next
  case (result a p b r)
  with i have "probed_to answers found t (ps @ [p]) (rs @ [Some r])"
    by (auto simp: probed_to_def outcome_def map_filter_append map_filter_simps intro!: list_all2_appendI)
  then show ?thesis by blast
next
  case (no_result a p b)
  with i have "probed_to answers found t (ps @ [p]) (rs @ [None])"
    by (auto simp: probed_to_def outcome_def map_filter_append map_filter_simps intro!: list_all2_appendI)
  then show ?thesis by blast
next
  case cancel
  have "list_all2 (outcome answers True) ps rs"
    using i by (auto simp: probed_to_def outcome_def elim!: list_all2_mono)
  with i cancel show ?thesis by (intro exI [of _ ps] exI [of _ rs]) (auto simp: probed_to_def)
next
  case leave
  with i show ?thesis by (intro exI [of _ ps] exI [of _ rs]) (auto simp: probed_to_def)
qed

lemma probed_to_run:
  "net_run answers n (scan_start found) s \<Longrightarrow> \<exists>ps rs. probed_to answers found s ps rs"
proof (induction n "scan_start found" s rule: net_run.induct)
  case net_refl
  have "probed_to answers found (scan_start found) [] []"
    by (simp add: probed_to_def scan_start_def map_filter_simps)
  then show ?case by blast
next
  case (net_more n t u)
  then show ?case using probed_to_step by blast
qed

text \<open>
  A scan that was not cancelled: whatever the interleaving, each port that a path found was
  probed exactly once, and the channel carried the results of those probes and no others.
\<close>

lemma scan_outcome:
  assumes "net_run answers n (scan_start found) s" and "scan_over s" and "\<not> cancelled s"
  shows "\<exists>ps rs. distinct ps \<and> set ps = set found \<and> list_all2 answers ps rs \<and> sent_results s = List.map_filter id rs"
proof -
  obtain ps rs where "probed_to answers found s ps rs" using probed_to_run [OF assms(1)] by blast
  moreover have "outcome answers False = answers" by (simp add: outcome_def fun_eq_iff)
  ultimately show ?thesis using assms(2,3) by (intro exI [of _ ps] exI [of _ rs]) (simp add: probed_to_def scan_over_def)
qed

text \<open>It ends: no run is longer than twice the ports found and a cancellation, and none is stuck before.\<close>

definition net_size :: "net_scan \<Rightarrow> nat" where
  "net_size s = 2 * length (waiting s) + length (probing s) + (if cancelled s then 0 else 1)"

lemma net_step_size: "net_step answers s t \<Longrightarrow> net_size t < net_size s"
  by (erule net_stepE) (auto simp: net_size_def)

lemma net_run_size: "net_run answers n s t \<Longrightarrow> n + net_size t \<le> net_size s"
proof (induction rule: net_run.induct)
  case (net_more n s t u)
  then show ?case using net_step_size [OF net_more.hyps(2)] by simp
qed simp

lemma net_progress:
  assumes "\<And>p. \<exists>r. answers p r" and "\<not> scan_over s"
  shows "\<exists>t. net_step answers s t \<and> cancelled t = cancelled s"
proof (cases "waiting s")
  case (Cons p b)
  then have w: "waiting s = [] @ p # b" by simp
  show ?thesis
  proof (cases "port_key p \<in> set (taken s)")
    case True
    show ?thesis by (rule exI, rule conjI, rule skip [where answers = answers, OF w True]) simp
  next
    case False
    show ?thesis by (rule exI, rule conjI, rule claim [where answers = answers, OF w False]) simp
  qed
next
  case Nil
  with assms(2) obtain p b where "probing s = p # b" by (auto simp: scan_over_def neq_Nil_conv)
  then have w: "probing s = [] @ p # b" by simp
  obtain r where r: "answers p r" using assms(1) by blast
  show ?thesis
  proof (cases r)
    case None
    with r have n: "answers p None \<or> cancelled s" by simp
    show ?thesis by (rule exI, rule conjI, rule no_result [where answers = answers, OF w n]) simp
  next
    case (Some x)
    with r have n: "answers p (Some x)" by simp
    show ?thesis by (rule exI, rule conjI, rule result [where answers = answers, OF w n]) simp
  qed
qed

lemma scan_ends:
  assumes "\<And>p. \<exists>r. answers p r" and "\<not> cancelled s"
  shows "\<exists>n t. net_run answers n s t \<and> scan_over t \<and> \<not> cancelled t"
  using assms(2)
proof (induction "net_size s" arbitrary: s rule: less_induct)
  case less
  show ?case
  proof (cases "scan_over s")
    case True
    then show ?thesis using less.prems net_run.net_refl by blast
  next
    case False
    obtain t where t: "net_step answers s t" "cancelled t = cancelled s" using net_progress [where answers = answers, OF assms(1) False] by blast
    then obtain n u where u: "net_run answers n t u" "scan_over u" "\<not> cancelled u"
      using less.hyps [OF net_step_size [OF t(1)]] less.prems by auto
    have "net_run answers (Suc n) s u" using u(1) t(1)
      by (induction n t u rule: net_run.induct) (auto intro: net_run.intros)
    with u(2,3) show ?thesis by blast
  qed
qed

section \<open>From the network to the list of discovered services\<close>

definition port_answers ::
  "'w pages \<Rightarrow> (string \<Rightarrow> 'w \<Rightarrow> string list \<times> 'w) \<Rightarrow> (string \<Rightarrow> string \<Rightarrow> 'w \<Rightarrow> string \<times> 'w) \<Rightarrow>
    openPort \<Rightarrow> probeResult option \<Rightarrow> bool" where
  "port_answers page rdns favicon p r \<longleftrightarrow> (\<exists>w. fst (probeHTTP page rdns favicon (fst p) (snd p) w) = r)"

lemma port_answers_total: "\<exists>r. port_answers page rdns favicon p r"
  unfolding port_answers_def by blast

lemma tryProbe_addr: "fst (tryProbe page rdns favicon ip port scheme w) = Some r \<Longrightarrow> result_addr r = (ip, port)"
  by (auto simp: tryProbe_def result_addr_def Let_def split: prod.splits option.splits if_splits)

text \<open>A page with any status but 400 and 404 makes a result.\<close>

lemma tryProbe_answer:
  assumes "page (probe_url scheme ip port) w = (Some resp, w')" and "pgStatus resp \<notin> {400, 404}"
  shows "\<exists>r. fst (tryProbe page rdns favicon ip port scheme w) = Some r \<and> rURL r = probe_url scheme ip port"
  using assms by (auto simp: tryProbe_def Let_def split: prod.split list.split)

lemma probeHTTP_answer:
  assumes "page (probe_url (port_scheme port) ip port) w = (Some resp, w')" and "pgStatus resp \<notin> {400, 404}"
  shows "\<exists>r. fst (probeHTTP page rdns favicon ip port w) = Some r \<and> rURL r = probe_url (port_scheme port) ip port"
proof -
  obtain r where "fst (tryProbe page rdns favicon ip port (port_scheme port) w) = Some r" "rURL r = probe_url (port_scheme port) ip port"
    using tryProbe_answer [of page "port_scheme port" ip port w resp w' rdns favicon] assms by blast
  then show ?thesis by (cases "tryProbe page rdns favicon ip port (port_scheme port) w") (auto simp: probeHTTP_def Let_def)
qed

lemma probeHTTP_addr:
  assumes "fst (probeHTTP page rdns favicon ip port w) = Some r"
  shows "result_addr r = (ip, port)"
proof -
  obtain x w1 where t: "tryProbe page rdns favicon ip port (port_scheme port) w = (x, w1)" by fastforce
  show ?thesis
  proof (cases x)
    case None
    then show ?thesis using assms t by (simp add: probeHTTP_def Let_def tryProbe_addr)
  next
    case (Some y)
    then show ?thesis using assms t tryProbe_addr [of page rdns favicon ip port "port_scheme port" w r]
      by (simp add: probeHTTP_def Let_def)
  qed
qed

lemma port_answers_addr: "port_answers page rdns favicon p (Some r) \<Longrightarrow> result_addr r = p"
  by (auto simp: port_answers_def dest: probeHTTP_addr)

definition offered :: "store \<Rightarrow> probeResult \<Rightarrow> bool" where
  "offered s = accepted (map (\<lambda>ig. iIP ig @ '':'' @ Itoa (iPort ig)) (Ignored s)) (assignedTargets s)"

lemma full_scan_found:
  fixes now done_at :: time
  assumes s: "srv_inv s" and r: "net_run (port_answers page rdns favicon) n (scan_start found) d"
    and d: "scan_over d" "\<not> cancelled d" and rs: "map fst rs = sent_results d" "fresh_ids rs s"
  defines "t \<equiv> runScan now done_at rs s"
  shows "distinct (net_addr t)"
    and "p \<in> set (net_addr t) \<Longrightarrow> p \<in> set found \<and> (\<exists>x. port_answers page rdns favicon p (Some x) \<and> offered s x)"
    and "p \<in> set found \<Longrightarrow> (\<And>a. port_answers page rdns favicon p a \<Longrightarrow> \<exists>x. a = Some x \<and> offered s x) \<Longrightarrow>
      p \<in> set (net_addr t)"
proof -
  obtain ps as where o: "distinct ps" "set ps = set found" "list_all2 (port_answers page rdns favicon) ps as"
    "sent_results d = List.map_filter id as" using scan_outcome [OF r d] by blast
  have t: "net_addr t = fold add_addr (map result_addr (filter (offered s) (List.map_filter id as))) []"
    using runScan_effect(2) [OF s rs(2), of now done_at] by (simp add: t_def offered_def rs(1) o(4))
  show "distinct (net_addr t)" by (simp add: t set_fold_add_addr)
  have st: "set (net_addr t) = result_addr ` {x. Some x \<in> set as \<and> offered s x}"
    by (auto simp: t set_fold_add_addr set_map_filter_id)
  { assume "p \<in> set (net_addr t)"
    then obtain x where x: "p = result_addr x" "Some x \<in> set as" "offered s x" by (auto simp: st)
    then obtain q where "q \<in> set ps" "port_answers page rdns favicon q (Some x)"
      using o(3) by (metis in_set_conv_nth list_all2_conv_all_nth)
    with x o(2) port_answers_addr show "p \<in> set found \<and> (\<exists>x. port_answers page rdns favicon p (Some x) \<and> offered s x)"
      by metis }
  { assume p: "p \<in> set found" and a: "\<And>a. port_answers page rdns favicon p a \<Longrightarrow> \<exists>x. a = Some x \<and> offered s x"
    obtain a where "a \<in> set as" "port_answers page rdns favicon p a"
      using p o(2,3) by (metis in_set_conv_nth list_all2_conv_all_nth)
    with a obtain x where "Some x \<in> set as" "offered s x" "port_answers page rdns favicon p (Some x)" by blast
    then show "p \<in> set (net_addr t)" unfolding st using port_answers_addr by (metis (mono_tags, lifting) imageI mem_Collect_eq) }
qed

lemma set_allPortsList: "set allPortsList = {1..65535}"
proof -
  have "int ` {1..<65536} = {1..<65536}" using image_int_atLeastLessThan [of 1 65536] by simp
  then show ?thesis by (auto simp: allPortsList_def)
qed

text \<open>The ports of the sweep, from the configured subnets.\<close>

definition swept :: "surroundings \<Rightarrow> string list \<Rightarrow> string \<Rightarrow> bool" where
  "swept e cidrs ip \<longleftrightarrow> (case scan_nets (suParseCIDR e) (suSubnetIfaces e) cidrs of
      None \<Rightarrow> False
    | Some nets \<Rightarrow> (case scan_hosts nets of None \<Rightarrow> False | Some hosts \<Rightarrow> ip \<in> set (live_hosts e hosts)))"

lemma tcp_path_ports:
  assumes "tcp_path e timeout cidrs = Some tcp" and "\<And>ips. dial_order (suOrder e ips) ips allPortsList" and "\<not> suCanceled e"
  shows "(ip, port) \<in> set tcp \<longleftrightarrow> swept e cidrs ip \<and> 1 \<le> port \<and> port \<le> 65535 \<and> suDial e ip port = Connected"
proof (cases "scan_nets (suParseCIDR e) (suSubnetIfaces e) cidrs")
  case None
  with assms(1) show ?thesis by (simp add: tcp_path_def swept_def)
next
  case (Some nets)
  with assms(1) obtain hosts where h: "scan_hosts nets = Some hosts" by (auto simp: tcp_path_def)
  have t: "tcp = fst (tcpSweep (suDial e) (suOrder e (live_hosts e hosts)) timeout (suElapsed e) (live_hosts e hosts) allPortsList)"
    using assms(1,3) by (auto simp: tcp_path_def Some h Let_def split: if_splits)
  have "(ip, port) \<in> set tcp \<longleftrightarrow> ip \<in> set (live_hosts e hosts) \<and> port \<in> set allPortsList \<and> suDial e ip port = Connected"
    using arg_cong [OF tcpSweep_open [OF assms(2), where dial = "suDial e" and timeout = timeout and elapsed = "suElapsed e"], of set_mset]
    unfolding t by (simp only: set_mset_mset set_filter set_product mem_Collect_eq mem_Sigma_iff port_open_def fst_conv snd_conv) blast
  then show ?thesis by (simp add: swept_def Some h set_allPortsList)
qed

lemma scan_hosts_set:
  assumes "scan_hosts nets = Some hosts"
  shows "distinct hosts" and "ip \<in> set hosts \<longleftrightarrow> (\<exists>net \<in> set nets. \<exists>ips. generateIPs net = Some ips \<and> ip \<in> set ips)"
proof -
  have h: "those (map generateIPs nets) = Some hs \<Longrightarrow>
      ip \<in> set (concat hs) \<longleftrightarrow> (\<exists>net \<in> set nets. \<exists>ips. generateIPs net = Some ips \<and> ip \<in> set ips)" for hs
  proof (induction nets arbitrary: hs)
    case (Cons net nets)
    then show ?case by (cases "generateIPs net") (auto split: option.splits)
  qed simp
  from assms obtain hs where hs: "those (map generateIPs nets) = Some hs" "hosts = sweep_hosts [] (concat hs)"
    by (auto simp: scan_hosts_def)
  then show "distinct hosts" "ip \<in> set hosts \<longleftrightarrow> (\<exists>net \<in> set nets. \<exists>ips. generateIPs net = Some ips \<and> ip \<in> set ips)"
    using h [OF hs(1)] sweep_hosts_once [of "[]" "concat hs"] by simp_all
qed

text \<open>One subnet on which \<open>generateIPs\<close> does not end keeps the scan from ever starting its sweep.\<close>

lemma those_None: "None \<in> set xs \<Longrightarrow> those xs = None"
  by (induction xs) (auto split: option.split)

lemma scan_hosts_stuck: "Some (- 1, 32) \<in> set nets \<Longrightarrow> scan_hosts nets = None"
proof -
  assume "Some (- 1, 32) \<in> set nets"
  then have "None \<in> set (map generateIPs nets)" using generateIPs_diverges by (metis image_eqI set_map)
  then show ?thesis by (simp add: scan_hosts_def those_None)
qed

end
