(* ===== verification/Examples.thy ===== *)
theory Examples
  imports Lifecycle ErrorPage Persist Compression Network
begin

text \<open>
  Concrete inputs: a configuration, two stores, requests and a Cloudflare account.  They
  model no code; the instances of the properties are evaluated on them.
\<close>

definition ex_cfg :: Config where
  "ex_cfg = \<lparr>Domain = ''ex.org'', CFAPIToken = ''t'', CFZoneID = ''z'', CFTunnelID = ''u'', CFAccountID = ''a'',
     ServerIP = ''10.0.0.1'', DataDir = ''/data'', ScanInterval = 3600, ScanTimeout = 5\<rparr>"

text \<open>A client that is not configured, and a network that nothing answers on.\<close>

definition off_client :: Client where
  "off_client = new_client [] [] [] []"

definition off_http :: "unit http" where
  "off_http rq w = (Unreachable, w)"

definition on_client :: Client where
  "on_client = new_client ''t'' ''z'' ''u'' ''a''"

lemma off_client_simps [simp]: "noop off_client" "TunnelEnabled off_client = False"
  by (simp_all add: off_client_def new_client_def TunnelEnabled_def)

lemma on_client_simps [simp]: "\<not> noop on_client" "TunnelEnabled on_client" "zoneID on_client = ''z''"
  "tunnelID on_client = ''u''"
  by (simp_all add: on_client_def new_client_def TunnelEnabled_def)

definition store0 :: store where
  "store0 = empty_store ''/data'' (\<lambda>_. True)"

lemma store0_simps [simp]:
  "Services store0 = []" "svcHeap store0 = []" "idIdx store0 = Map.empty" "containerIDIdx store0 = Map.empty"
  "containerNameIdx store0 = Map.empty" "Discovered store0 = []" "discHeap store0 = []"
  "discoveredIdx store0 = Map.empty" "discoveredContainerIdx store0 = Map.empty" "ignoredIdx store0 = Map.empty"
  "ignoredIPPortIdx store0 = Map.empty"
  "Ignored store0 = []" "Bookmarks store0 = []" "bookmarkIdx store0 = Map.empty" "bmHeap store0 = []"
  "Tunnel store0 = None" "PublicIP store0 = []" "DDNSDomains store0 = []"
  by (simp_all add: store0_def empty_store_def)

lemma store0_inv [simp]: "srv_inv store0" "svc_inv store0" "disc_inv store0" "store_inv store0"
  by (simp_all add: store0_def)

text \<open>A store with one service, made for a container.\<close>

definition wiki :: Service where
  "wiki = \<lparr>sID = ''s1'', sName = ''Wiki'', sSubdomain = ''wiki'', sTarget = ''http://10.0.0.5:80'', sIcon = [],
     sCategory = [], sOrder = 1, sSource = SourceDocker, sContainerID = ''c1'', sContainerName = ''wiki'',
     sDNSRecordID = [], sTunnelRouteID = [], sSkipHealth = False, sDirectOnly = False, sCreatedAt = 0\<rparr>"

definition blog :: Service where
  "blog = wiki\<lparr>sID := ''s2'', sName := ''Blog'', sSubdomain := ''blog'', sContainerID := [], sContainerName := []\<rparr>"

lemma wiki_simps [simp]:
  "sID wiki = ''s1''" "sName wiki = ''Wiki''" "sSubdomain wiki = ''wiki''" "sTarget wiki = ''http://10.0.0.5:80''"
  "sSource wiki = SourceDocker" "sContainerID wiki = ''c1''" "sContainerName wiki = ''wiki''"
  "\<not> sDirectOnly wiki" "sDNSRecordID wiki = []" "sTunnelRouteID wiki = []" "sIcon wiki = []" "sOrder wiki = 1"
  by (simp_all add: wiki_def)

lemma blog_simps [simp]:
  "sID blog = ''s2''" "sSubdomain blog = ''blog''" "sContainerID blog = []" "sContainerName blog = []"
  "sSource blog = SourceDocker" "\<not> sDirectOnly blog" "sTarget blog = ''http://10.0.0.5:80''"
  by (simp_all add: blog_def)

definition store1 :: store where
  "store1 = insertService wiki store0"

definition store2 :: store where
  "store2 = insertService blog store1"

lemma labels: "dns_label ''wiki''" "dns_label ''blog''"
  by (simp_all add: dns_label_def label_char_def is_lower_def is_digit_def)

lemma store1_eq: "store1 = store0\<lparr>svcHeap := [wiki], Services := [(''wiki'', 0)], idIdx := [''s1'' \<mapsto> 0],
    containerIDIdx := [''c1'' \<mapsto> 0], containerNameIdx := [''wiki'' \<mapsto> 0]\<rparr>"
  by (simp add: store1_def insertService_def newService_def alloc_def AddService_def indexService_def Let_def
      SourceDocker_def)

lemma store1_simps [simp]:
  "Services store1 = [(''wiki'', 0)]" "svcHeap store1 = [wiki]" "idIdx store1 = [''s1'' \<mapsto> 0]"
  "containerIDIdx store1 = [''c1'' \<mapsto> 0]" "containerNameIdx store1 = [''wiki'' \<mapsto> 0]"
  "discoveredIdx store1 = Map.empty" "ignoredIdx store1 = Map.empty" "bookmarkIdx store1 = Map.empty"
  "discoveredContainerIdx store1 = Map.empty" "Discovered store1 = []" "Ignored store1 = []" "Bookmarks store1 = []"
  "bmHeap store1 = []" "discHeap store1 = []" "Tunnel store1 = None" "DDNSDomains store1 = []"
  "ignoredIPPortIdx store1 = Map.empty"
  by (simp_all add: store1_eq)

lemma store1_inv [simp]: "srv_inv store1"
  unfolding store1_def
  by (rule srv_inv_insert) (simp_all add: svc_free_def wf_service_def sub_ok_def labels)

lemma store2_simps [simp]:
  "Services store2 = [(''wiki'', 0), (''blog'', 1)]" "svcHeap store2 = [wiki, blog]"
  "idIdx store2 = [''s1'' \<mapsto> 0, ''s2'' \<mapsto> 1]" "Ignored store2 = []"
  by (simp_all add: store2_def insertService_def newService_def alloc_def AddService_def indexService_def Let_def
      SourceDocker_def)

lemma store2_inv [simp]: "srv_inv store2"
  unfolding store2_def
  by (rule srv_inv_insert) (simp_all add: svc_free_def wf_service_def sub_ok_def labels)

lemma store1_byID [simp]: "serviceByID store1 = [''s1'' \<mapsto> wiki]"
  by (auto simp: serviceByID_def GetServiceByID_def fun_eq_iff)

definition server :: "store \<Rightarrow> unit Server" where
  "server s = \<lparr>cfg = ex_cfg, st = s, cl = off_client, world = ()\<rparr>"

lemma server_simps [simp]: "st (server s) = s" "cl (server s) = off_client" "cfg (server s) = ex_cfg"
  by (simp_all add: server_def)

text \<open>A form from the pairs of its fields.\<close>

definition form_of :: "(string \<times> string) list \<Rightarrow> string \<Rightarrow> string" where
  "form_of kvs k = (case map_of kvs k of Some v \<Rightarrow> v | None \<Rightarrow> [])"

definition req :: "string \<Rightarrow> (string \<times> string) list \<Rightarrow> http_req" where
  "req i kvs = \<lparr>formOk = True, form = form_of kvs, upload = None, pathID = i\<rparr>"

lemma req_simps [simp]: "formOk (req i kvs)" "form (req i kvs) = form_of kvs" "pathID (req i kvs) = i"
  "upload (req i kvs) = None"
  by (simp_all add: req_def)

definition rnd :: "nat list" where "rnd = [1, 2, 3, 4, 5, 6, 7, 8]"

lemma NewID_rnd [simp]: "NewID rnd = ''0102030405060708''"
  by code_simp

text \<open>A zone with one A record and a tunnel with two rules.\<close>

definition zone1 :: "zrec list \<times> ingressRule list" where
  "zone1 = ([\<lparr>zID = ''r1'', zType = ''A'', zName = ''wiki.ex.org'', zContent = ''10.0.0.1''\<rparr>],
     [\<lparr>Hostname = ''old.ex.org'', IService = ''http://10.0.0.9''\<rparr>, \<lparr>Hostname = [], IService = ''http_status:404''\<rparr>])"

section \<open>Requests\<close>

definition create_blog :: http_req where
  "create_blog = req [] [(''subdomain'', ''Blog''), (''target'', ''http://10.0.0.6'')]"

definition blog_draft :: draft where
  "blog_draft = \<lparr>wTarget = ''http://10.0.0.6'', wName = [], wSource = SourceManual, wContainerID = [],
     wContainerName = [], wIcon = []\<rparr>"

lemma Sanitise_values [simp]: "SanitiseSubdomain ''Blog'' = ''blog''" "SanitiseSubdomain ''wiki'' = ''wiki''"
  "SanitiseSubdomain ''kb'' = ''kb''"
  by (code_simp+)

lemma create_blog_accepts: "create_accepts create_blog store1 blog_draft"
  by (simp add: create_accepts_def create_blog_def form_of_def draft_of_def GetServiceBySubdomain_def
      ParseFormBool_def blog_draft_def)

text \<open>Renaming the service, taking a name that is in use, and deleting it.\<close>

definition rename_wiki :: http_req where
  "rename_wiki = req ''s1'' [(''subdomain'', ''kb''), (''name'', ''Wiki'')]"

definition create_again :: http_req where
  "create_again = req [] [(''subdomain'', ''wiki''), (''target'', ''http://10.0.0.6'')]"

lemma create_again_rejected: "\<not> create_accepts create_again store1 w"
  by (simp add: create_accepts_def create_again_def form_of_def ParseFormBool_def GetServiceBySubdomain_def)

text \<open>DNS states: the record of the zone under its name, and what it should become.\<close>

definition wiki_dns :: dnsState where
  "wiki_dns = \<lparr>nSubdomain = ''wiki'', nTarget = ''http://10.0.0.5:80'', nDirectOnly = False, nTunnel = False,
     nDNSRecordID = ''r1'', nTunnelRouteID = []\<rparr>"

lemma wiki_dns_matches: "dns_matches ex_cfg on_client wiki_dns (fst zone1)"
  by (simp add: dns_matches_def wiki_dns_def mode_def hostname_def ex_cfg_def zone1_def of_name_def)

lemma zone1_ok: "zone_ok (fst zone1)"
  by (simp add: zone_ok_def zone1_def)

section \<open>The proxy\<close>

definition ex_parse :: "string \<Rightarrow> string URL option" where
  "ex_parse t = (if HasPrefix t ''http://'' then Some \<lparr>Scheme = ''http'', UHost = TrimPrefix t ''http://'', URest = []\<rparr> else None)"

definition ex_get :: "string \<Rightarrow> request_in" where
  "ex_get host = \<lparr>rqHost = host, rqRemoteAddr = ''10.0.0.7:5000'', rqTLS = False, rqHeader = Map.empty\<rparr>"

definition wiki_url :: "string URL" where
  "wiki_url = \<lparr>Scheme = ''http'', UHost = ''10.0.0.5:80'', URest = []\<rparr>"

lemma ex_parse_wiki [simp]: "ex_parse ''http://10.0.0.5:80'' = Some wiki_url"
  by (simp add: ex_parse_def wiki_url_def HasPrefix_def TrimPrefix_def)

lemma ex_host: "strip_port ''wiki.ex.org:443'' = ''wiki'' @ ''.'' @ Domain ex_cfg"
  by (simp add: strip_port_def ex_cfg_def)

section \<open>Files\<close>

lemma store0_dir: "clean_dir (iconDir store0)"
  by (simp add: store0_def empty_store_def clean_dir_Join)

lemma write_icon_store0: "fst (WriteIcon ''s1'' d store0) = Inr ()"
proof -
  have "safeIconPath store0 ''s1'' = Inr (iconDir store0 @ ''/'' @ ''s1'')"
    by (rule safeIconPath_file [OF store0_dir]) (simp_all add: icon_id_def Contains_def HasPrefix_def)
  moreover have "writable store0 = (\<lambda>_. True)" by (simp add: store0_def empty_store_def)
  ultimately show ?thesis by (simp add: WriteIcon_ok)
qed

section \<open>Discovery\<close>

definition ex_probe :: probeResult where
  "ex_probe = \<lparr>rIP = ''10.0.0.8'', rPort = 80, rURL = ''http://10.0.0.8:80'', rTitle = ''Grafana'', rIcon = [],
     rIconBytes = [], rServiceName = ''Grafana'', rConfidence = 90\<rparr>"

lemma Itoa_values: "Itoa 80 = ''80''" "Itoa 192 = ''192''" "Itoa 168 = ''168''" "Itoa 1 = ''1''" "Itoa 2 = ''2''"
  by code_simp+

lemma ex_targets: "assignedTargets store1 = [''http://10.0.0.5:80'', ''http://10.0.0.5:80'']"
  by (simp add: assignedTargets_def GetAllServices_def TrimRight_def trim_right_by_def)

lemma ex_probe_new: "\<not> isAssignedTarget (assignedTargets store1) ex_probe"
  by (simp add: isAssignedTarget_def ex_targets ex_probe_def JoinHostPort_def Itoa_values)

lemma ex_probe_fresh: "fresh_ids [(ex_probe, rnd)] store1"
  by (simp add: fresh_ids_def)

text \<open>A container with a \<open>lantern.url\<close> label: nothing is asked of the network.\<close>

definition url_labels :: labels where
  "url_labels = [(''lantern.url'', ''http://10.0.0.1:90'')]"

lemma resolve_url: "resolveContainer g ex_cfg ''wiki'' [] url_labels w =
    (Some \<lparr>ciName = ''wiki'', ciSubdomain = ''wiki'', ciTarget = ''http://10.0.0.1:90''\<rparr>, w)"
  by (simp add: resolveContainer_def url_labels_def label_def container_subdomain_def Let_def)

lemma url_label: "label url_labels ''lantern.enable'' = []"
  by (simp add: label_def url_labels_def)

lemma wiki_preserved: "preserveScheme ''http://10.0.0.5:80'' ''http://10.0.0.1:90'' = ''http://10.0.0.1:90''"
  using preserveScheme_eq [of "''http''" "''http''" "''10.0.0.5:80''" "''10.0.0.1:90''"] by simp

section \<open>DDNS and the tunnel\<close>

definition ddns_server :: "(zrec list \<times> ingressRule list) Server" where
  "ddns_server = \<lparr>cfg = ex_cfg, st = AddDDNSDomain ''wiki.ex.org'' store0, cl = on_client, world = zone1\<rparr>"

lemma ddns_server_simps [simp]: "cl ddns_server = on_client" "world ddns_server = zone1"
  "DDNSDomains (st ddns_server) = [''wiki.ex.org'']" "PublicIP (st ddns_server) = []"
  by (simp_all add: ddns_server_def AddDDNSDomain_def addUnique_def)

definition ex_ipify :: "'w \<Rightarrow> string option \<times> 'w" where
  "ex_ipify w = (Some ''192.0.2.1'', w)"

lemma ex_publicIP [simp]: "getPublicIP ex_ipify w = (Some ''192.0.2.1'', w)"
  by (simp add: getPublicIP_def ex_ipify_def TrimSpace_def trim_by_def trim_right_by_def is_space_def)

definition started_procs :: procs where
  "started_procs = no_procs\<lparr>isRunning := True, cmd := Some 0, cancelFn := Some 0, alive := {0},
     watchers := (watchers no_procs)(0 := AtTop), next_no := 1\<rparr>"

lemma started_procs_run: "proc_run no_procs started_procs"
  by (rule proc_first [OF _ proc_none])
    (use start_ok [of no_procs 0] in \<open>simp add: started_procs_def no_procs_def\<close>)

section \<open>Collisions\<close>

text \<open>The services of \<open>store2\<close> and an object that gives the first the name of the second.\<close>

definition store2_clash :: store where
  "store2_clash = store2\<lparr>svcHeap := [wiki, blog, wiki\<lparr>sSubdomain := ''blog''\<rparr>]\<rparr>"

lemma store2_clash_simps [simp]: "Services store2_clash = [(''wiki'', 0), (''blog'', 1)]"
  "svcHeap store2_clash = [wiki, blog, wiki\<lparr>sSubdomain := ''blog''\<rparr>]" "idIdx store2_clash = [''s1'' \<mapsto> 0, ''s2'' \<mapsto> 1]"
  by (simp_all add: store2_clash_def)

lemma store2_clash_inv: "svc_inv store2_clash"
  using svc_inv_new [of store2 "wiki\<lparr>sSubdomain := ''blog''\<rparr>"] srv_invD(2) [OF store2_inv] by (simp add: store2_clash_def)

section \<open>A cache at its cap\<close>

definition full_cache :: "nat ttlCache" where
  "full_cache = \<lparr>cm = [(''a'', \<lparr>tvalue = 1, expires = 30\<rparr>), (''b'', \<lparr>tvalue = 2, expires = 20\<rparr>)], ccap = 2\<rparr>"

lemma full_cache_ok: "cache_ok full_cache"
  by (simp add: cache_ok_def full_cache_def)

lemma iterates_id: "iterates (\<lambda>_ m. m)"
  by (simp add: iterates_def)

section \<open>Runs\<close>

definition ex_env :: "unit env" where
  "ex_env = \<lparr>eHTTP = off_http, eFetch = (\<lambda>_ w. ([], w)), eGet = (\<lambda>_ w. (None, w)), eIPify = (\<lambda>w. (None, w)),
     eLaunch = (\<lambda>_ w. (True, w)), eCIDR = (\<lambda>_. True)\<rparr>"

text \<open>The service is deleted, then its container stops and the services are reordered.\<close>

definition ex_events :: "event list" where
  "ex_events = [EvDeleteService rnd 0 (req ''s1'' []), EvContainerGone ''c1'', EvReorderServices (Some [''s1''])]"

lemma ex_run_admissible:
  "discoveredIdx s ''0102030405060708'' = None \<Longrightarrow> ignoredIdx s ''0102030405060708'' = None \<Longrightarrow>
    run_admissible ex_env ex_events (server s)"
  by (simp add: ex_events_def fresh_entry_def)

definition saved_store1 :: store where
  "saved_store1 = store1\<lparr>saved := Some (snapshot store1)\<rparr>"

lemma saved_store1: "srv_inv saved_store1" "can_save saved_store1" "durable saved_store1"
  "discoveredIdx saved_store1 = Map.empty" "ignoredIdx saved_store1 = Map.empty"
  by (simp_all add: saved_store1_def can_save_def durable_def place_def) (simp_all add: store1_eq store0_def empty_store_def)

lemma services_store1: "services store1 = [wiki]"
  by (simp add: services_def GetAllServices_def)

lemma discovered_store1: "discovered store1 = []"
  by (simp add: discovered_def store1_eq store0_def empty_store_def)

lemma ex_get_host [simp]: "rqHost (ex_get h) = h"
  by (simp add: ex_get_def)

section \<open>Icons, compression\<close>

lemma ex_valid_icon: "isValidIconID ''51''"
  by (simp add: isValidIconID_def)

lemma ex_favicon: "getFavicon iter ck fetch ''51'' (new_web (server store0)) =
    (IconNotFound, remember iter ck ''51'' [] (new_web (server store0)))"
  by (simp add: getFavicon_def ex_valid_icon Get_def new_web_def newTTLCache_def GetTarget_def)

lemma ex_undoes: "undoes tl ((#) (CHR ''z''))"
  by (simp add: undoes_def)

lemma ex_plain_404: "reply_code (send_header 200 (fold plain_act (orderly hs (Some 404) bs) fresh_writer)) = 404"
  by (simp add: plain_orderly plain_reply_def reply_code_def)

section \<open>Certificates and the start\<close>

definition ex_pki :: "unit pki" where
  "ex_pki = \<lparr>X509KeyPair = (\<lambda>c k. Some [c]), ParseCertificate = (\<lambda>d. Some (90 * day)),
     SelfSigned = (\<lambda>ds t w. (if t = 90 * day then Some [''self''] else None, w)), DecodeECKey = Some, EncodeECKey = (\<lambda>k. k),
     GenerateKey = (\<lambda>w. (Some ''key'', w)), MarshalResource = resCertificate, UnmarshalResource = (\<lambda>_. None),
     UnmarshalRegistration = Some, MarshalRegistration = (\<lambda>r. r), NewClient = (\<lambda>_ _ w. (True, w)),
     Register = (\<lambda>_ w. (Some ''reg'', w)), Obtain = (\<lambda>_ _ w. (None, w)), RenewWithOptions = (\<lambda>_ _ w. (None, w))\<rparr>"

definition ex_res :: Resource where
  "ex_res = \<lparr>resCertificate = ''cert'', resPrivateKey = ''key'', resRest = []\<rparr>"

definition ex_manager :: "unit CertManager" where
  "ex_manager = \<lparr>mcfg = ex_cfg, mcert = None, mdisk = Map.empty, canWrite = (\<lambda>_. True), mworld = ()\<rparr>"

lemma ex_saveCert: "saveCert ex_pki ex_res ex_manager = (Inr (), snd (saveCert ex_pki ex_res ex_manager))"
  by (simp add: saveCert_def write_file_def ex_manager_def ex_pki_def Let_def)

lemma ex_leaf: "leaf_of ex_pki chain = Some t \<Longrightarrow> t = 90 * day"
  by (simp add: leaf_of_def ex_pki_def split: list.splits)

lemma ex_self_leaf: "SelfSigned ex_pki ds t w = (Some chain, w') \<Longrightarrow> leaf_of ex_pki chain = Some t"
  by (auto simp: leaf_of_def ex_pki_def split: if_splits)

lemma ex_selfSigned: "useSelfSigned ex_pki 0 ex_manager = (Inr (), snd (useSelfSigned ex_pki 0 ex_manager))"
  by (simp add: useSelfSigned_def ex_pki_def)

definition ex_data_dir :: data_dir where
  "ex_data_dir = \<lparr>ddMkdir = (\<lambda>_. True), ddConfig = Inr None, ddFiles = Map.empty, ddWritable = (\<lambda>_. True)\<rparr>"

lemma ex_boot: "\<exists>m certs. boot (\<lambda>_. []) (\<lambda>_. None) ex_data_dir off_http (\<lambda>_ w. (True, w)) () = Inr (m, certs)"
  by (simp add: boot_def Load_def open_store_def ex_data_dir_def new_manager_def Let_def)

lemma ex_no_tunnel:
  assumes "boot (\<lambda>_. []) (\<lambda>_. None) ex_data_dir off_http (\<lambda>_ w. (True, w)) () = Inr (m, certs)"
  shows "GetTunnel (st (srv m)) = None"
proof -
  have "st (srv m) = New ''/data'' (\<lambda>_. True) Map.empty None"
    using boot_ok [OF assms] by (auto simp: Load_def getEnv_def ex_data_dir_def)
  then show ?thesis
    using migrateIcons_eq [of "load ((empty_store ''/data'' (\<lambda>_. True))\<lparr>files := Map.empty, saved := None\<rparr>)"]
    by (auto simp: New_def GetTunnel_def load_def empty_store_def)
qed

section \<open>ARP\<close>

lemma ex_Itoa: "Itoa 10 = ''10''" "Itoa 0 = ''0''" "Itoa 7 = ''7''" "Itoa 9 = ''9''"
  by code_simp+

definition ex_iface :: net_interface where
  "ex_iface = \<lparr>niUp = True, niLoopback = False, niIndex = 2, niHardwareAddr = [2, 0, 0, 0, 0, 1],
     niAddrs = [Some (0x0A000005, 0xFFFFFF00)]\<rparr>"

definition ex_parse4 :: "string \<Rightarrow> 32 word option" where
  "ex_parse4 s = (if s = ''10.0.0.7'' then Some 0x0A000007 else if s = ''10.9.0.1'' then Some 0x0A090001 else None)"

text \<open>The reply of 10.0.0.7.\<close>

definition ex_reply :: "8 word list" where
  "ex_reply = replicate 12 0 @ [0x08, 0x06] @ replicate 6 0 @ [0x00, 0x02] @ replicate 6 0 @ As4 0x0A000007 @ replicate 10 0"

lemma ex_sender: "arp_sender ex_reply = Some ''10.0.0.7''"
proof -
  have "dotted (0x0A000007 :: 32 word) = ''10.0.0.7''" by (simp add: dotted_def As4_def ex_Itoa)
  then show ?thesis using reply_sender [of "replicate 12 0" "replicate 6 0" "replicate 6 0" "0x0A000007" "replicate 10 0"]
    by (simp add: ex_reply_def)
qed

lemma ex_remote: "ex_parse4 ''10.9.0.1'' = Some w \<Longrightarrow> findIfaceForIP (buildIfaceInfos [ex_iface]) w = None"
  by (auto simp: ex_parse4_def findIfaceForIP_def buildIfaceInfos_def ex_iface_def same_net_def mask24_def List.map_filter_def)

lemma ex_local: "findIfaceForIP (buildIfaceInfos [ex_iface]) 0x0A000007 \<noteq> None"
  by (simp add: findIfaceForIP_def buildIfaceInfos_def ex_iface_def same_net_def List.map_filter_def)

lemma ex_sweep: "arpSweep ex_parse4 [ex_iface] True [ex_reply] [''10.0.0.7'', ''10.9.0.1''] = Some [''10.0.0.7'']"
proof -
  let ?infos = "buildIfaceInfos [ex_iface]"
  obtain i where i: "findIfaceForIP ?infos 0x0A000007 = Some i" using ex_local by blast
  have "map fst (arp_requests ex_parse4 ?infos [''10.0.0.7'', ''10.9.0.1'']) = [''10.0.0.7'']"
    using ex_remote [of "0x0A090001"] i by (simp add: arp_requests_def List.map_filter_def ex_parse4_def)
  moreover have "?infos \<noteq> []" by (simp add: buildIfaceInfos_def ex_iface_def List.map_filter_def)
  moreover have "length ex_reply = 42" by (simp add: ex_reply_def)
  then have "arp_replies [''10.0.0.7''] [ex_reply] = [''10.0.0.7'']" by (simp add: ex_sender)
  ultimately show ?thesis by (simp add: arpSweep_def)
qed

section \<open>A scan that finds one port\<close>

definition blank_page :: "unit pages" where
  "blank_page url w = (Some \<lparr>pgStatus = 200, pgHeader = (\<lambda>_. []), pgBody = []\<rparr>, w)"

definition no_names :: "string \<Rightarrow> unit \<Rightarrow> string list \<times> unit" where
  "no_names ip w = ([], w)"

definition no_icons :: "string \<Rightarrow> string \<Rightarrow> unit \<Rightarrow> string \<times> unit" where
  "no_icons page_text url w = ([], w)"

definition ex_found :: probeResult where
  "ex_found = the (fst (probeHTTP blank_page no_names no_icons ''10.0.0.9'' 80 ()))"

lemma ex_probeHTTP:
  "fst (probeHTTP blank_page no_names no_icons ''10.0.0.9'' 80 w) = Some ex_found \<and> rURL ex_found = ''http://10.0.0.9:80/''"
proof -
  have "port_scheme 80 = ''http''" "probe_url ''http'' ''10.0.0.9'' 80 = ''http://10.0.0.9:80/''" by code_simp+
  then have "\<exists>r. fst (probeHTTP blank_page no_names no_icons ''10.0.0.9'' 80 ()) = Some r \<and> rURL r = ''http://10.0.0.9:80/''"
    using probeHTTP_answer [of blank_page 80 "''10.0.0.9''" "()"] by (simp add: blank_page_def)
  then show ?thesis by (auto simp: ex_found_def)
qed

lemma ex_answers: "port_answers blank_page no_names no_icons (''10.0.0.9'', 80) a \<longleftrightarrow> a = Some ex_found"
  using ex_probeHTTP by (auto simp: port_answers_def)

lemma ex_found_addr: "rIP ex_found = ''10.0.0.9''" "rPort ex_found = 80"
  using port_answers_addr [of blank_page no_names no_icons "(''10.0.0.9'', 80)" ex_found] by (simp_all add: ex_answers result_addr_def)

lemma ex_found_offered: "offered store1 ex_found"
proof -
  have "Ignored store1 = []" by (simp add: store1_eq store0_def empty_store_def)
  then show ?thesis
    using ex_probeHTTP by (simp add: offered_def accepted_def isAssignedTarget_def ex_targets ex_found_addr JoinHostPort_def Itoa_values)
qed

lemma ex_found_fresh: "fresh_ids [(ex_found, rnd)] store1"
  by (simp add: fresh_ids_def)

lemma ports_80: "filter (\<lambda>p. p = 80) allPortsList = [80]"
proof (rule filter_only)
  show "distinct allPortsList" unfolding allPortsList_def distinct_map by (simp only: distinct_upt inj_on_def of_nat_eq_iff simp_thms ball_simps) blast
  show "80 \<in> set allPortsList" by (simp add: set_allPortsList)
qed simp

text \<open>Two hosts on 10.0.0.8/30, of which the first has an open port; no raw socket.\<close>

definition ex_surroundings :: surroundings where
  "ex_surroundings = \<lparr>suParseCIDR = (\<lambda>_. Some (Some (0x0A000008, 30))), suSubnetIfaces = [], suParse4 = (\<lambda>_. None),
     suIfaces = [], suSocket = False, suFrames = [],
     suDial = (\<lambda>ip port. if ip = ''10.0.0.9'' \<and> port = 80 then Connected else DialError ''connection refused''),
     suOrder = (\<lambda>ips. List.product ips allPortsList), suElapsed = ''1s'', suCanceled = False\<rparr>"

lemma ex_order: "dial_order (suOrder ex_surroundings ips) ips allPortsList"
  unfolding dial_order_def ex_surroundings_def surroundings.simps by (rule HOL.refl)

lemma ex_hosts: "scan_hosts [Some (0x0A000008, 30)] = Some [''10.0.0.9'', ''10.0.0.10'']"
proof -
  have "unat (fst (Masked (0x0A000008, 30))) = 167772168" by (simp add: Masked_def mask_eq_decr_exp)
  then have "generateIPs (Some (0x0A000008, 30)) = Some (map (\<lambda>k. dotted (word_of_nat k)) [167772169, 167772170])"
    using generateIPs_hosts [of 30 "0x0A000008"] by (simp add: upt_conv_Cons)
  moreover have "dotted (word_of_nat 167772169) = ''10.0.0.9''" "dotted (word_of_nat 167772170) = ''10.0.0.10''"
    by (simp_all add: dotted_def As4_def ex_Itoa)
  ultimately show ?thesis by (simp add: scan_hosts_def)
qed

lemma ex_tcp_path: "tcp_path ex_surroundings 200000000 [''10.0.0.8/30''] = Some [(''10.0.0.9'', 80)]"
proof -
  let ?d = "suDial ex_surroundings"
  have n: "scan_nets (suParseCIDR ex_surroundings) (suSubnetIfaces ex_surroundings) [''10.0.0.8/30''] = Some [Some (0x0A000008, 30)]"
    by (simp add: scan_nets_def ex_surroundings_def map_filter_simps)
  have l: "live_hosts ex_surroundings ips = ips" for ips
    by (simp add: live_hosts_def ex_surroundings_def no_answer_all arpSweep_def Let_def)
  have o: "suOrder ex_surroundings [''10.0.0.9'', ''10.0.0.10''] = map (Pair ''10.0.0.9'') allPortsList @ map (Pair ''10.0.0.10'') allPortsList"
    unfolding ex_surroundings_def surroundings.simps product.simps append_Nil2 by (rule HOL.refl)
  have d: "?d ip port = Connected \<longleftrightarrow> ip = ''10.0.0.9'' \<and> port = 80" for ip port
    by (simp add: ex_surroundings_def)
  have "filter (port_open ?d) (map (Pair ''10.0.0.9'') ps) = map (Pair ''10.0.0.9'') (filter (\<lambda>p. p = 80) ps)" for ps
    by (induction ps) (simp_all add: port_open_def d)
  moreover have "filter (port_open ?d) (map (Pair ''10.0.0.10'') ps) = []" for ps
    by (induction ps) (simp_all add: port_open_def d)
  ultimately have "filter (port_open ?d) (suOrder ex_surroundings [''10.0.0.9'', ''10.0.0.10'']) = [(''10.0.0.9'', 80)]"
    unfolding o filter_append by (simp only: ports_80 list.map append_Nil2)
  moreover have "\<not> suCanceled ex_surroundings" by (simp add: ex_surroundings_def)
  ultimately show ?thesis
    by (simp only: tcp_path_def n ex_hosts option.map option.case l Let_def tcpSweep_fst [OF list.distinct(2)] list.distinct simp_thms if_False)
qed

definition ex_scan :: net_scan where
  "ex_scan = \<lparr>waiting = [], taken = [port_key (''10.0.0.9'', 80)], probing = [], sent_results = [ex_found], cancelled = False\<rparr>"

lemma ex_scan_run:
  "net_run (port_answers blank_page no_names no_icons) 2 (scan_start [(''10.0.0.9'', 80)]) ex_scan"
proof -
  let ?p = "(''10.0.0.9'', 80)" and ?a = "port_answers blank_page no_names no_icons"
  let ?s = "scan_start [?p]"
  let ?t = "?s\<lparr>waiting := [] @ [], taken := port_key ?p # taken ?s, probing := ?p # probing ?s\<rparr>"
  have 1: "net_step ?a ?s ?t" by (rule claim) (simp_all add: scan_start_def)
  have "net_step ?a ?t (?t\<lparr>probing := [] @ [], sent_results := sent_results ?t @ [ex_found]\<rparr>)"
    by (rule result [where p = ?p]) (simp_all add: scan_start_def ex_answers)
  moreover have "?t\<lparr>probing := [] @ [], sent_results := sent_results ?t @ [ex_found]\<rparr> = ex_scan"
    by (simp add: scan_start_def ex_scan_def)
  ultimately have 2: "net_step ?a ?t ex_scan" by simp
  have "net_run ?a (Suc (Suc 0)) ?s ex_scan" by (rule net_more [OF net_more [OF net_refl 1] 2])
  then show ?thesis by (simp add: numeral_2_eq_2)
qed

section \<open>Requests to the web interface\<close>

definition ex_site :: "unit site" where
  "ex_site = \<lparr>siWeb = new_web (server store1), siHealth = Map.empty, siScanner = None, siTunnel = None, siStats = None,
     siVersion = ''dev''\<rparr>"

lemma ex_srv_of [simp]: "srv_of ex_site = server store1"
  by (simp add: ex_site_def new_web_def)

definition ex_libs :: libs where
  "ex_libs = \<lparr>sliceS = SliceStable, sliceB = SliceStable, sliceD = SliceStable, parseIP = (\<lambda>_. None)\<rparr>"

definition ex_ambient :: ambient where
  "ex_ambient = \<lparr>amRand8 = rnd, amNow = 0, amNow2 = 0, amSecret = ''s'', amIter = (\<lambda>_ m. m), amClock = (\<lambda>_. 0),
     amSha = (\<lambda>_. []), amSample = Inl ''no proc''\<rparr>"

definition ex_request :: "string \<Rightarrow> string \<Rightarrow> web_request" where
  "ex_request m p = \<lparr>wqMethod = m, wqPath = p, wqForm = req [] [], wqQuery = [], wqIDs = None, wqNoneMatch = []\<rparr>"

lemma ex_request_simps [simp]: "wqMethod (ex_request m p) = m" "wqPath (ex_request m p) = p" "wqForm (ex_request m p) = req [] []"
  by (simp_all add: ex_request_def)

lemma ex_routes: "find_route ''DELETE'' ''/api/services/s1'' = Handler DeleteServiceEP [''s1'']"
  "find_route ''GET'' ''/manage'' = Handler Manage []"
  by code_simp+

lemma ex_requests:
  "requests_admissible ex_env ex_libs [(ex_ambient, ex_request ''DELETE'' ''/api/services/s1''), (ex_ambient, ex_request ''GET'' ''/manage'')]
     ex_site"
  by (simp add: request_admissible_def ex_routes event_of_def Let_def fresh_entry_def ex_ambient_def)

section \<open>A container that stops\<close>

definition ex_watch :: "unit watch" where
  "ex_watch = \<lparr>wserver = server store1, up = {''c1''}, subscribed = True, queue = []\<rparr>"

lemma ex_watch_ok: "watch_ok ex_watch"
  by (auto simp: watch_ok_def ex_watch_def expected_def knows_def services_store1 discovered_store1 wiki_def)

definition ex_watch_end :: "unit watch" where
  "ex_watch_end = ex_watch\<lparr>up := {}, wserver := detachContainer ''c1'' (server store1)\<rparr>"

lemma ex_watch_run: "watch_run e ex_watch ex_watch_end"
proof -
  let ?w = "post (Gone ''die'' ''c1'') (ex_watch\<lparr>up := up ex_watch - {''c1''}\<rparr>)"
  have 1: "watch_step e ex_watch ?w" by (rule container_down) simp_all
  have "watch_step e ?w (?w\<lparr>queue := [], wserver := handleDockerEvent (eGet e) rnd 0 ''die'' ''c1'' None (wserver ?w)\<rparr>)"
    by (rule handle_gone) (simp add: post_def ex_watch_def)
  moreover have "?w\<lparr>queue := [], wserver := handleDockerEvent (eGet e) rnd 0 ''die'' ''c1'' None (wserver ?w)\<rparr> = ex_watch_end"
    by (simp add: post_def ex_watch_def ex_watch_end_def handleDockerEvent_def)
  ultimately have 2: "watch_step e ?w ex_watch_end" by simp
  have "watch_run e ex_watch ?w" using 1 by (rule r_into_rtranclp [where r = "watch_step e"])
  then show ?thesis using 2 by (rule rtranclp.rtrancl_into_rtrancl [where r = "watch_step e"])
qed

section \<open>A life of the program\<close>

definition ex_getenv :: "string \<Rightarrow> string" where
  "ex_getenv k = (if k = ''DOMAIN'' then ''ex.org'' else [])"

definition ex_disk :: data_dir where
  "ex_disk = ex_data_dir\<lparr>ddConfig := Inr (Some (snapshot store1))\<rparr>"

lemma ex_sound_disk: "sound_disk ex_disk"
  unfolding sound_disk_def by (rule exI [of _ "Some (snapshot store1)"], rule exI [of _ store1])
    (simp add: ex_disk_def ex_data_dir_def content_def)

lemma ex_boot_disk:
  "\<exists>m certs. boot ex_getenv (\<lambda>_. None) (ex_data_dir\<lparr>ddConfig := Inr conf\<rparr>) (eHTTP ex_env) (eLaunch ex_env) () = Inr (m, certs)"
  by (simp add: boot_def Load_def open_store_def ex_data_dir_def ex_env_def new_manager_def ex_getenv_def Let_def)

lemma ex_started:
  assumes "boot ex_getenv (\<lambda>_. None) (ex_data_dir\<lparr>ddConfig := Inr conf\<rparr>) http launch () = Inr (m, certs)"
  shows "can_save (st (srv m))" and "Domain (cfg (srv m)) = ''ex.org''"
proof -
  obtain c where c: "Load ex_getenv (\<lambda>_. None) = Inr c" "cfg (srv m) = c" "st (srv m) = New (DataDir c) (\<lambda>_. True) Map.empty conf"
    using boot_ok [OF assms] by (auto simp: ex_data_dir_def)
  obtain f sv h1 h2 h3 where "st (srv m) = (load ((empty_store (DataDir c) (\<lambda>_. True))\<lparr>files := Map.empty, saved := conf\<rparr>))
      \<lparr>files := f, saved := sv, svcHeap := h1, bmHeap := h2, discHeap := h3\<rparr>"
    unfolding c(3) New_def using migrateIcons_eq by blast
  then show "can_save (st (srv m))"
    by (simp add: can_save_def place_def load_def rebuildIndexes_eq empty_store_def split: option.split)
  show "Domain (cfg (srv m)) = ''ex.org''" using Load_ok(2) [OF c(1)] c(2) by (simp add: ex_getenv_def)
qed

text \<open>It starts with a service on disk and is killed before its certificate is there.\<close>

lemma ex_life:
  "\<exists>p. lives ex_env ex_libs ex_pki ex_parse p \<and> services (store_of p) = [wiki] \<and> Domain (hcfg (prHandler p)) = ''ex.org'' \<and>
    prPhase p = Killed \<and> prFull p = None \<and> prLight p = None"
proof -
  obtain m certs where b: "boot ex_getenv (\<lambda>_. None) ex_disk (eHTTP ex_env) (eLaunch ex_env) () = Inr (m, certs)"
    using ex_boot_disk [of "Some (snapshot store1)"] by (auto simp: ex_disk_def)
  note w = ex_started [OF b [unfolded ex_disk_def]]
  let ?p = "assemble ''dev'' m certs :: (unit, string) program"
  have l: "lives ex_env ex_libs ex_pki ex_parse ?p" by (rule born [OF ex_sound_disk b w(1)])
  have "step ex_env ex_libs ex_pki ex_parse ?p (?p\<lparr>prPhase := Killed\<rparr>)"
    by (rule in_main, rule killed) (simp add: not_ended_def)
  from moved [OF l this] have k: "lives ex_env ex_libs ex_pki ex_parse (?p\<lparr>prPhase := Killed\<rparr>)" .
  obtain dir where n: "st (srv m) = New dir (\<lambda>_. True) Map.empty (Some (snapshot store1))"
    using boot_store [OF b, of "Some (snapshot store1)"] by (auto simp: ex_disk_def ex_data_dir_def)
  have "restored store1 (st (srv m))"
    unfolding n by (rule New_restores(3)) (use w(1) n in \<open>simp_all add: content_def\<close>)
  then have "services (st (srv m)) = [wiki]"
    by (auto simp: restored_def services_store1 list_all2_Cons1 same_service_def same_icon_def HasPrefix_def)
  with k w(2) show ?thesis by (intro exI [of _ "?p\<lparr>prPhase := Killed\<rparr>"]) (simp add: new_handler_def)
qed

end
