(* ===== verification/Spec2Isabelle.thy ===== *)
theory Spec2Isabelle
  imports Render Examples
begin

text \<open>
  Lantern is the home page and reverse proxy of a home network (Go, under \<open>src/\<close>).  One process
  keeps a list of services, gives each a name under a domain, makes the DNS record or the
  tunnel route for it at Cloudflare, forwards requests for the name to the service, and finds
  new services by watching Docker and by scanning the network.  This development models the
  program's own code and proves what makes it correct; the forty theorems of this theory, C1 to
  C40, are its properties, each with an instance on concrete data where it has hypotheses.

  \<^bold>\<open>The parts, the theories and the files\<close>

  \<^item> Foundations.  \<open>Prelude\<close>: results as sums, heaps and pointers, secondary indexes, and the
    contract of what runs by steps.  \<open>GoStrings\<close>, \<open>GoPath\<close>, \<open>GoTime\<close>, \<open>Sorting\<close>, \<open>Regexp\<close>: what the
    code uses of Go's library.  \<open>Util\<close>: \<open>internal/util/util.go\<close>.
  \<^item> The store, \<open>internal/store/store.go\<close>.  \<open>StoreModel\<close> has the data and \<open>load\<close>; \<open>StoreServices\<close>,
    \<open>StoreDiscovered\<close>, \<open>StoreIgnored\<close> and \<open>StoreBookmarks\<close> have the operations on each table with
    the table's invariant; \<open>StoreInvariant\<close> joins them and treats the restart; \<open>IconStore\<close> has the
    icon files, the migration and \<open>New\<close>; \<open>Persist\<close> looks into \<open>Save\<close>.
  \<^item> Cloudflare, \<open>internal/cf\<close>: \<open>CfApi\<close> (the client), \<open>CfLaws\<close> (over a service that behaves as
    documented); \<open>DnsPlan\<close>: \<open>planDNS\<close> and \<open>reconcileDNS\<close> of \<open>internal/web/handle_services.go\<close>.
  \<^item> The web interface, \<open>internal/web\<close>.  \<open>Server\<close>: its state and \<open>srv_inv\<close>.  \<open>WebServices\<close> and
    \<open>WebServiceLaws\<close>: \<open>handle_services.go\<close>.  \<open>WebHandlers\<close> and \<open>HandlerLaws\<close>:
    \<open>handle_bookmarks.go\<close>, \<open>handle_discovery.go\<close>, \<open>handle_settings.go\<close>, with \<open>internal/ddns\<close>.
    \<open>TtlCache\<close> and \<open>Icons\<close>: \<open>ttlcache.go\<close>, \<open>static.go\<close>, \<open>WarmFavicons\<close>.  \<open>Pages\<close> and \<open>Fragments\<close>:
    \<open>templates.go\<close>, \<open>fragments.go\<close> and the listings.  \<open>Render\<close>: the buffers of the templates and
    the JSON of the responses.  \<open>HealthCheck\<close>: \<open>health.go\<close>.  \<open>Compression\<close>: the
    middleware and the static files.  \<open>Routes\<close> and \<open>Site\<close>: \<open>server.go\<close>, from the method and path
    of a request to its answer.  \<open>Sysinfo\<close>: \<open>internal/sysinfo\<close>.
  \<^item> \<open>Tunnel\<close>: \<open>internal/tunnel/manager.go\<close> and \<open>handle_tunnel.go\<close>, the state of the manager and its
    process with the watchers as a step relation.
  \<^item> Discovery, \<open>internal/discovery\<close>.  \<open>Docker\<close>, \<open>Containers\<close> and \<open>Watch\<close>: \<open>docker.go\<close>, and the
    watcher beside the daemon.  \<open>Subnets\<close>, \<open>Fingerprint\<close> and \<open>Network\<close>: \<open>network.go\<close>.  \<open>Scan\<close>:
    \<open>discovery.go\<close> and the probes.  \<open>Arp\<close>: \<open>arp_linux.go\<close>.  \<open>Multicast\<close>: \<open>ssdp.go\<close>,
    \<open>wsdiscovery.go\<close>, \<open>mdns.go\<close>.  \<open>Favicon\<close>: \<open>internal/util/favicon.go\<close>.
  \<^item> \<open>Proxy\<close> and \<open>ErrorPage\<close>: \<open>internal/proxy/proxy.go\<close>.  \<open>Certs\<close>: \<open>internal/certs/certs.go\<close>.
  \<^item> The whole.  \<open>Startup\<close>: \<open>internal/config/config.go\<close> and the start in \<open>main.go\<close>.  \<open>System\<close>: every
    change of the server as an event, and runs of events.  \<open>Durable\<close>: each of them ends with a saved
    store or unchanged data.  \<open>Loops\<close>: the goroutines.  \<open>Restart\<close>: what a start finds on disk.
    \<open>Lifecycle\<close>: \<open>main\<close>, with everything that it starts side by side.  \<open>Examples\<close>: concrete data.

  \<^bold>\<open>How state and operations correspond to the code\<close>

  The record \<open>store\<close> holds the fields of \<open>data\<close> and the index maps of \<open>Store\<close>; objects behind
  pointers live in heaps, so aliasing is that of the code (C11 is about it).  Each method runs under
  the store's mutex and is one function on the record.  The record \<open>Server\<close> adds the configuration,
  the Cloudflare client and the world outside, \<open>'w\<close>; \<open>site\<close> adds the caches, the health, the scanner and
  the tunnel's flag; \<open>Manager\<close>, \<open>Handler\<close>, \<open>CertManager\<close> and \<open>Discoverer\<close> are the structs of their
  packages; \<open>program\<close> holds them all with what runs at the moment.  A handler is a function of the
  request and the state, with all its guards and early returns; an error is a value (\<open>Inl\<close>); random
  bytes, times and the iteration order of a map are arguments; what the code starts in a goroutine is
  returned as a task.  A handler is atomic: the interleavings considered are those of handlers,
  background tasks and single results of a scan (\<open>Lifecycle\<close>), of the parts of \<open>Save\<close> (\<open>Persist\<close>),
  of the watchers of the tunnel's process (\<open>Tunnel\<close>), of the paths and workers of a scan (\<open>Network\<close>),
  of the fetches of \<open>WarmFavicons\<close> (\<open>Icons\<close>), and of Docker, its stream and the watcher (\<open>Watch\<close>).
  Integers are unbounded where the code's cannot overflow, and words where their width shows:
  addresses, the 64-bit sizes of \<open>Sysinfo\<close>, and the product of durations in \<open>Load\<close>.

  \<^bold>\<open>Interfaces\<close>

  \<open>id_table\<close> (\<open>Tables\<close>) is the contract of a table of entities and is interpreted by the services,
  the bookmarks and the discovered entries; \<open>reorderable\<close> that of drag and drop, interpreted by
  services and bookmarks; \<open>slice_sort\<close> what \<open>sort.Slice\<close> promises, interpreted by insertion sort;
  \<open>kept\<close> (\<open>Prelude\<close>) that of a component that runs by steps, interpreted by the parts of \<open>Save\<close>,
  the process of the tunnel (twice), the Docker watcher and the life of the program (twice).

  \<^bold>\<open>What the lemmas show\<close>

  For the store: every operation keeps the indexes in agreement with the tables; lookups after an
  insertion, an update or a deletion; the restart.  For the handlers: the effect of every branch,
  the errors included, and the invariant.  For Cloudflare: what is in the zone and in the tunnel's
  configuration after each operation, over any service that keeps the documented behaviour.  For
  discovery: which hosts are swept, that each open port is probed once, what a scan leaves in the
  store, and how the entries follow the containers.  For the proxy: the cached handler refines a
  routing without a cache, and no markup gets into its pages.  For the responses: a template is sent
  whole or not at all, and no message gets out of its JSON string or splits its header.  For the
  life of the program: the invariant and the agreement of memory and file through any interleaving,
  an end at any moment and any number of starts (C1, C2), the target that a request reaches (C3),
  the certificate that, once there, every later handshake gets (\<open>handshakes_served\<close>),
  and the way out after a signal (\<open>shutdown_ends\<close>).

  \<^bold>\<open>Parameters and what is assumed of them\<close>

  The replies of Cloudflare (\<open>http\<close>), of HTTP servers (\<open>get\<close>,
  \<open>fetch\<close>, \<open>page\<close>), of the resolver and of ipify; the parsers of
  \<open>net/url\<close>, \<open>net\<close>, XML, DNS, X.509 and PEM; the ACME client; the engine
  of the templates; the compressor; the start of \<open>cloudflared\<close>.  They are arguments and
  most theorems hold for any.  Where a property needs their documented behaviour it is a named
  hypothesis (\<open>serves_dns\<close>, \<open>serves_tunnel\<close>, \<open>slice_sort\<close>,
  \<open>iterates\<close> for the order of a map, \<open>undoes\<close> for the compressor and its
  inverse), and its instance shows a concrete function that satisfies it.  The hypotheses
  \<open>admissible\<close> and \<open>fresh_entry\<close> say that random IDs are new and exclude
  the two requests that the code does not guard against (C11 shows what one of them does).

  \<^bold>\<open>Bounds and fuel\<close>

  There is no fuel but in \<open>follow\<close> (\<open>Favicon\<close>), whose five requests are the limit in the code.  The loop
  over addresses may not end, and is a \<open>partial_function\<close>: \<open>None\<close> is that it does not return, and
  \<open>subnet_hosts\<close> shows that this happens for one subnet only.  The other loops are structural or have
  a measure; the concurrent ones end after at most \<open>2 * n\<close> steps for \<open>n\<close> entries (\<open>WarmFavicons\<close>) and
  \<open>2 * n + 1\<close> for \<open>n\<close> open ports (\<open>scanNetwork\<close>).  The limits of the code (64 KB of a page or a datagram,
  512 KB of an upload, 1 MB of JSON, 400 lines of log, 100 cached favicons, ten fetches at a time) are in the
  definitions.

  \<^bold>\<open>Not modelled\<close>

  \<^item> The HTML templates and what \<open>html/template\<close> makes of them: a handler gives the
    data of its template, and \<open>Render\<close> takes what the engine writes.  The page of the
    proxy and the icons, which Go code writes, are modelled as text.
  \<^item> The transport: listeners, sockets, TLS, timeouts of requests, \<open>httputil.ReverseProxy\<close> beyond
    the functions that the code gives it, the raw socket of ARP beyond its frames, the sockets of
    multicast beyond their datagrams.
  \<^item> The Docker client, lego, \<open>crypto\<close>, the kernel's counters for the CPU: libraries and the system.
  \<^item> The delivery of signals and the scheduler: any interleaving of steps is considered.
  \<^item> The text of log lines, but for those of the scan log that \<open>tcpSweep\<close> counts.
  \<^item> Letters outside ASCII in \<open>ToLower\<close>; percentages as \<open>float64\<close>.
\<close>

section \<open>The program as a whole\<close>

text \<open>
  C1. The invariant of the program.  From its first start, through any interleaving of requests
  over HTTPS, background fetches, container events, scans result by result, DDNS checks, the
  shutdown, an end at any moment and any number of new starts (each handler, background task and
  stored result being one step, with fresh IDs, no service renamed to a name in use and no entry
  assigned that another service's container has), as long as the file can be written: the
  store's indexes agree with its tables, every subdomain is a DNS label or a direct key and
  unique, no entry is both discovered and ignored; and the file holds what is in memory, but
  for the discovered entries of a scan that is running.
\<close>

theorem life_invariant:
  assumes "lives e l pk parse p"
  shows "srv_inv (store_of p) \<and> agrees_but (store_of p) \<and>
    (prFull p = None \<and> prLight p = None \<or> prPhase p = Exited \<longrightarrow> agrees (store_of p))"
  using lives_sound [OF assms] by (simp add: sound_def)

theorem life_invariant_witness:
  "\<exists>p. lives ex_env ex_libs ex_pki ex_parse p \<and> prPhase p = Killed \<and> services (store_of p) = [wiki] \<and> agrees (store_of p)"
proof -
  obtain p where p: "lives ex_env ex_libs ex_pki ex_parse p" "services (store_of p) = [wiki]" "prPhase p = Killed"
    "prFull p = None" "prLight p = None" using ex_life by blast
  then show ?thesis using life_invariant [OF p(1)] by blast
qed



text \<open>
  C3. Every service is reached at its name.  At any moment of the program's life, whatever the
  proxy has served and cached, a request for the host name of a service, other than the name of
  the web interface, goes to the target that the service has now.
\<close>

theorem service_reached_at_name:
  assumes "lives e l pk parse p" and "v \<in> set (services (store_of p))" and "sSubdomain v \<noteq> ''lantern''"
    and "parse (sTarget v) = Some u" and "strip_port (rqHost rq) = sSubdomain v @ ''.'' @ Domain (hcfg (prHandler p))"
  shows "fst (ServeHTTP parse (store_of p) rq (prHandler p)) = Proxied (buildProxy (sSubdomain v) u)"
  by (rule reached_in_life [OF assms])

theorem service_reached_at_name_witness:
  "\<exists>p. lives ex_env ex_libs ex_pki ex_parse p \<and>
    fst (ServeHTTP ex_parse (store_of p) (ex_get ''wiki.ex.org:443'') (prHandler p)) = Proxied (buildProxy ''wiki'' wiki_url)"
proof -
  obtain p where p: "lives ex_env ex_libs ex_pki ex_parse p" "services (store_of p) = [wiki]" "Domain (hcfg (prHandler p)) = ''ex.org''"
    using ex_life by blast
  from service_reached_at_name [OF p(1), of wiki wiki_url "ex_get ''wiki.ex.org:443''"] p ex_host
  show ?thesis by (auto simp: ex_cfg_def)
qed

text \<open>
  C4. Reading is safe.  No GET or HEAD request, whatever its path, changes the store, the
  configuration or the client of the server: at most it writes icon files.
\<close>

theorem get_is_safe:
  assumes "wqMethod q = ''GET'' \<or> wqMethod q = ''HEAD''"
  shows "reads_only (srv_of s) (srv_of (fst (snd (serve_request e l a q s))))"
  by (rule get_reads [OF assms])

theorem get_is_safe_witness:
  "reads_only (server store1) (srv_of (fst (snd (serve_request ex_env ex_libs ex_ambient (ex_request ''GET'' ''/api/favicon/51'') ex_site))))"
  using get_is_safe [of "ex_request ''GET'' ''/api/favicon/51''" ex_site ex_env ex_libs ex_ambient] by simp





section \<open>The services and their handlers\<close>



text \<open>
  C8. A rejected creation (a form that does not parse, a name in use, an unknown discovered
  entry, no target) leaves the server exactly as it was, starts no work and answers 400, 404
  or 409.
\<close>

theorem create_service_rejected:
  assumes "\<nexists>w. create_accepts rq (st s) w"
  shows "\<exists>resp. createService http rand8 now rq s = (resp, s, []) \<and> status resp \<in> {400, 404, 409}"
  by (rule createService_reject [OF assms])

theorem create_service_rejected_witness:
  "\<exists>resp. createService off_http rnd 0 create_again (server store1) = (resp, server store1, []) \<and>
    status resp \<in> {400, 404, 409}"
  by (rule create_service_rejected) (simp add: create_again_rejected)





text \<open>
  C11. Giving a service a subdomain that another service holds takes the other one off the
  list of services, and the subdomain leads to the renamed one, but the other is still found
  under its ID.
\<close>

theorem rename_collision:
  assumes "svc_inv s" and "idIdx s i = Some r" and "idIdx s j = Some q" and "i \<noteq> j"
    and "u \<notin> refs_of (Services s)" and "sID (svcHeap s ! u) = i"
    and "sSubdomain (svcHeap s ! u) = sSubdomain (svcHeap s ! q)"
  shows "let t = snd (UpdateService i u s) in GetServiceByID j t = Some q \<and> q \<notin> set (GetAllServices t) \<and>
    GetServiceBySubdomain (sSubdomain (svcHeap s ! q)) t = Some u"
  using UpdateService_collision [OF assms] by (simp add: Let_def)

theorem rename_collision_witness:
  "let t = snd (UpdateService ''s1'' 2 store2_clash) in GetServiceByID ''s2'' t = Some 1 \<and> 1 \<notin> set (GetAllServices t)"
  using rename_collision [OF store2_clash_inv, of "''s1''" 0 "''s2''" 1 2] by (simp add: Let_def)


section \<open>DNS and the tunnel at Cloudflare\<close>










section \<open>The proxy\<close>

text \<open>
  C18. The routing refines its specification without a cache.  Whatever requests the handler
  has served, over whatever states of the store, its answer to a request is what the store
  says now: the web interface for its own hosts, the service that has the subdomain at the
  target it has now, the error pages, or not found.
\<close>

theorem proxy_refines_routing:
  "fst (ServeHTTP parse s rq (serve_all parse past (new_handler c))) = answer parse c s (strip_port (rqHost rq))"
  by (rule serve_all_answer)

text \<open>
  C19. An error page is its own.  Whatever the host name of the request, the name of the service
  or the message of the error, the page that the proxy shows has exactly its own markup, with
  that of its message: no element or attribute can be added from outside (for a domain in the
  configuration that contains none).
\<close>

theorem error_page_markup:
  assumes "marks (Domain c) = (0, 0, 0)"
  shows "marks (error_text (ErrorHandler c s rp err)) = (30, 30, 18) \<and>
    (\<forall>pg. fst (ServeHTTP parse s rq (serve_all parse past (new_handler c))) = Failed pg \<longrightarrow>
      marks (error_text pg) \<in> {(27, 27, 18), (25, 25, 18)})"
  using unreachable_markup [OF assms] served_error_markup [OF assms] by blast

theorem error_page_markup_witness:
  "marks (error_text (ErrorHandler ex_cfg store1 (buildProxy ''wiki'' wiki_url) ''<script>alert(1)</script>'')) = (30, 30, 18)"
proof -
  have "marks (Domain ex_cfg) = (0, 0, 0)" by (simp add: marks_def ex_cfg_def)
  from error_page_markup [OF this] show ?thesis by blast
qed

section \<open>Files\<close>

text \<open>
  C20. Crash safety.  Through any interleaving of changes, saves and failed writes,
  \<open>config.json\<close> is never half written: it is missing, or it is a complete snapshot of a
  state that the store had; and at most one goroutine is writing.
\<close>

theorem config_file_complete:
  assumes "save_run (started loaded leftover d) s"
  shows "(cfgFile s = None \<or> (\<exists>v \<in> set (versions s). cfgFile s = Some (Complete v))) \<and>
    (\<forall>t u. in_save (pc s t) \<and> in_save (pc s u) \<longrightarrow> t = u)"
  using saving.always [OF assms save_inv_started] by (auto simp: save_inv_def)

theorem config_file_complete_witness:
  "\<exists>s. save_run (started False None (1::nat)) s \<and> cfgFile s = None \<and> pc s 0 = Marshalled 1"
proof -
  let ?s = "(started False None (1::nat))\<lparr>pc := (pc (started False None 1))(0 := Marshalled (mem (started False None 1)))\<rparr>"
  have "save_run (started False None 1) ?s"
    by (rule save_first [OF save_step.marshal save_none]) (simp add: started_def)
  then show ?thesis using config_file_complete [of False None "1::nat" ?s] by (auto simp: started_def)
qed

text \<open>
  C21. After an icon is written, reading it gives the bytes written, and every other ID reads
  what it read before.
\<close>

theorem icon_round_trip:
  assumes "clean_dir (iconDir s)" and "fst (WriteIcon i d s) = Inr ()"
  shows "ReadIcon j (snd (WriteIcon i d s)) = (if j = i then Inr d else ReadIcon j s)"
  by (rule ReadIcon_WriteIcon [OF assms])

theorem icon_round_trip_witness: "ReadIcon ''s1'' (snd (WriteIcon ''s1'' ''PNG'' store0)) = Inr ''PNG''"
  by (simp add: icon_round_trip [OF store0_dir write_icon_store0])

text \<open>
  C22. The path check confines icons to the icon directory.  An ID that is empty or has a
  slash, a backslash or two dots is refused; an accepted one names a file directly in the
  directory (or, for the ID \<open>.\<close>, the directory itself), and two IDs never share a file.
\<close>

theorem icon_path_confined:
  assumes "clean_dir (iconDir s)" and "safeIconPath s i = Inr p"
  shows "icon_id i \<and> p = (if i = ''.'' then iconDir s else iconDir s @ ''/'' @ i) \<and>
    (\<forall>j. safeIconPath s j = Inr p \<longrightarrow> j = i)"
proof -
  have "icon_id i" using safeIconPath_reject [of i s] assms(2) by auto
  then show ?thesis
    using safeIconPath_file [OF assms(1), of i] safeIconPath_dot [OF assms(1)] icon_files_disjoint [OF assms(1)] assms(2)
    by (cases "i = ''.''") auto
qed

theorem icon_path_confined_witness: "icon_id ''.'' \<and> safeIconPath store0 ''.'' = Inr (iconDir store0)"
  using icon_path_confined [OF store0_dir safeIconPath_dot [OF store0_dir]] safeIconPath_dot [OF store0_dir] by blast

section \<open>Discovery\<close>

text \<open>
  C23. From the network to the list, end to end.  Whatever order the dials end in and however
  the probes of the scan interleave, after a full scan that was not cancelled the network part
  of the discovered list holds each address once.  Every address on it accepted a connection
  on a host of the configured subnets, or was announced by multicast, and gave a page that is
  neither ignored nor the target of a service; and every such address whose probes can only
  give such a page is on it.  Services, ignored entries and the entries of Docker stay, and
  the invariant holds.
\<close>

theorem scan_finds:
  assumes "srv_inv s" and "tcp_path e timeout cidrs = Some tcp" and "\<And>ips. dial_order (suOrder e ips) ips allPortsList"
    and "\<not> suCanceled e"
    and "net_run (port_answers page rdns favicon) n (scan_start (found_ports True tcp mdns ssdp wsd)) d"
    and "scan_over d" and "\<not> cancelled d" and "map fst rs = sent_results d" and "fresh_ids rs s"
  shows "let t = runScan now done_at rs s;
      candidate = (\<lambda>ip port. swept e cidrs ip \<and> 1 \<le> port \<and> port \<le> 65535 \<and> suDial e ip port = Connected \<or>
        (ip, port) \<in> set (mdns @ ssdp @ wsd))
    in scan_keeps s t \<and> distinct (net_addr t) \<and>
      (\<forall>ip port. (ip, port) \<in> set (net_addr t) \<longrightarrow> candidate ip port \<and>
        (\<exists>x. port_answers page rdns favicon (ip, port) (Some x) \<and> offered s x)) \<and>
      (\<forall>ip port. candidate ip port \<longrightarrow>
        (\<forall>a. port_answers page rdns favicon (ip, port) a \<longrightarrow> (\<exists>x. a = Some x \<and> offered s x)) \<longrightarrow>
        (ip, port) \<in> set (net_addr t))"
proof -
  let ?a = "net_addr (runScan now done_at rs s)" and ?ans = "port_answers page rdns favicon"
  let ?c = "\<lambda>ip port. swept e cidrs ip \<and> 1 \<le> port \<and> port \<le> 65535 \<and> suDial e ip port = Connected \<or>
    (ip, port) \<in> set (mdns @ ssdp @ wsd)"
  note f = full_scan_found [OF assms(1,5-9), where now = now and done_at = done_at]
  have i: "(ip, port) \<in> set (found_ports True tcp mdns ssdp wsd) \<longleftrightarrow> ?c ip port" for ip port
    using tcp_path_ports [OF assms(2-4), of ip port] by (simp add: found_ports_def)
  have "scan_keeps s (runScan now done_at rs s)" by (rule runScan_effect(1) [OF assms(1,9)])
  moreover have "?c ip port \<and> (\<exists>x. ?ans (ip, port) (Some x) \<and> offered s x)" if "(ip, port) \<in> set ?a" for ip port
    using f(2) [OF that] by (simp only: i)
  moreover have "(ip, port) \<in> set ?a" if "?c ip port" and "\<forall>a. ?ans (ip, port) a \<longrightarrow> (\<exists>x. a = Some x \<and> offered s x)" for ip port
    using f(3) [of "(ip, port)"] that by (simp only: i)
  ultimately show ?thesis unfolding Let_def using f(1) by blast
qed

theorem scan_finds_witness: "(''10.0.0.9'', 80) \<in> set (net_addr (runScan 0 0 [(ex_found, rnd)] store1))"
proof -
  have r: "net_run (port_answers blank_page no_names no_icons) 2 (scan_start (found_ports True [(''10.0.0.9'', 80)] [] [] [])) ex_scan"
    using ex_scan_run by (simp add: found_ports_def)
  have e: "scan_over ex_scan" "\<not> cancelled ex_scan" "map fst [(ex_found, rnd)] = sent_results ex_scan"
    by (simp_all add: ex_scan_def scan_over_def)
  have c: "\<not> suCanceled ex_surroundings" by (simp add: ex_surroundings_def)
  have "(''10.0.0.9'', 80) \<in> set [(''10.0.0.9'', 80 :: int)]" by simp
  note o = tcp_path_ports [OF ex_tcp_path ex_order c, THEN iffD1, OF this]
  show ?thesis
    using scan_finds [OF store1_inv ex_tcp_path ex_order c r e ex_found_fresh, of 0 0] ex_answers ex_found_offered o
    unfolding Let_def by blast
qed

text \<open>
  C24. The probing of a full scan ends, and probes every port that was found exactly once,
  however often the sweep, ARP and the multicast discoveries report it: a run takes at most
  two steps for each report and one for a cancellation; until everything is done some worker
  can go on; and the channel carries the results of those probes and nothing else.
\<close>

theorem scan_probes_once:
  assumes "net_run answers n (scan_start reported) s" and "\<And>p. \<exists>r. answers p r"
  shows "n \<le> 2 * length reported + 1 \<and> (scan_over s \<or> (\<exists>t. net_step answers s t)) \<and>
    (scan_over s \<and> \<not> cancelled s \<longrightarrow> (\<exists>ps rs. distinct ps \<and> set ps = set reported \<and> list_all2 answers ps rs \<and>
      sent_results s = List.map_filter id rs))"
  using net_run_size [OF assms(1)] net_progress [of answers s, OF assms(2)] scan_outcome [OF assms(1)]
  by (auto simp: net_size_def scan_start_def)

theorem scan_probes_once_witness:
  "\<exists>ps rs. distinct ps \<and> set ps = {(''10.0.0.9'', 80)} \<and> list_all2 (port_answers blank_page no_names no_icons) ps rs \<and>
    [ex_found] = List.map_filter id rs"
  using scan_probes_once [OF ex_scan_run port_answers_total] by (simp add: ex_scan_def scan_over_def)

text \<open>
  C25. The scanning flag excludes: in every state that requests, ticks and the ends of scans
  can reach, at most one full scan runs, and it runs exactly while the flag is set; at most
  one light scan runs.
\<close>

theorem one_scan_at_a_time:
  assumes "scan_run d"
  shows "fulls d = (if scanning d then 1 else 0) \<and> lights d \<le> 1"
  by (rule one_full_scan [OF assms])

theorem one_scan_at_a_time_witness: "fulls (ScanNow (ScanNow idle)) = 1"
  using one_scan_at_a_time [OF scan_run.more [OF scan_run.more [OF scan_run.start scan_now] scan_now]]
  by (simp add: ScanNow_def idle_def)

text \<open>
  C26. For every prefix but one, \<open>generateIPs\<close> ends and lists the host addresses of the
  network in order: all but the network address and the broadcast address, none for a /31.
  For 255.255.255.255/32 it never ends: the address after the last one is the invalid address,
  which is less than every other and its own successor.
\<close>

theorem subnet_hosts:
  assumes "bits \<le> 32"
  shows "generateIPs (Some (w, bits)) = (if (w, bits) = (- 1, 32) then None else Some (map (\<lambda>k. dotted (word_of_nat k))
    [unat (fst (Masked (w, bits))) + 1..<unat (fst (Masked (w, bits))) + 2 ^ (32 - bits) - 1]))"
  using generateIPs_hosts [OF assms, of w] generateIPs_diverges by auto

theorem subnet_hosts_witness: "generateIPs (Some (0xC0A80100, 30)) = Some [''192.168.1.1'', ''192.168.1.2'']"
proof -
  have "unat (fst (Masked (0xC0A80100, 30))) = 3232235776" by (simp add: Masked_def mask_eq_decr_exp)
  then have "generateIPs (Some (0xC0A80100, 30)) = Some (map (\<lambda>k. dotted (word_of_nat k)) [3232235777, 3232235778])"
    using subnet_hosts [of 30 "0xC0A80100"] by (simp add: upt_conv_Cons)
  moreover have "dotted (word_of_nat 3232235777) = ''192.168.1.1''" "dotted (word_of_nat 3232235778) = ''192.168.1.2''"
    by (simp_all add: dotted_def As4_def Itoa_values)
  ultimately show ?thesis by simp
qed

text \<open>
  C27. The sweep by ARP reports only hosts that it asked, and it asks only those on the network
  of an interface; so as soon as one host answers, an address behind a router, which cannot
  answer, is left out of the port sweep.
\<close>

theorem routed_hosts_dropped:
  assumes "arpSweep parse4 ifaces sock frames ips = Some live" and "live \<noteq> []"
    and "\<And>w. parse4 ip = Some w \<Longrightarrow> findIfaceForIP (buildIfaceInfos ifaces) w = None"
  shows "set live \<subseteq> set ips \<and> ip \<notin> set (swept_hosts parse4 ifaces sock frames ips)"
  using arpSweep_live [OF assms(1)] remote_dropped [OF assms] by blast

theorem routed_hosts_dropped_witness:
  "''10.9.0.1'' \<notin> set (swept_hosts ex_parse4 [ex_iface] True [ex_reply] [''10.0.0.7'', ''10.9.0.1''])"
  using routed_hosts_dropped [OF ex_sweep, of "''10.9.0.1''"] ex_remote by simp





text \<open>
  C30. When a container stops, its service stays without the container's ID, the discovered
  entry of the container is gone, and no lookup by the container's ID finds anything.
\<close>

theorem container_stop:
  assumes "srv_inv (st s)" and "cid \<noteq> []"
  shows "srv_inv (st (detachContainer cid s)) \<and>
    serviceByID (st (detachContainer cid s)) = map_option (detached cid) \<circ> serviceByID (st s) \<and>
    (\<forall>i. discoveredByID (st (detachContainer cid s)) i =
      (case discoveredByID (st s) i of None \<Rightarrow> None | Some d \<Rightarrow> if dContainerID d = cid then None else Some d)) \<and>
    GetServiceByContainerID cid (st (detachContainer cid s)) = None"
  using detachContainer_effect [OF assms] by (simp add: fun_eq_iff)

theorem container_stop_witness:
  "serviceByID (st (detachContainer ''c1'' (server store1))) ''s1'' = Some (wiki\<lparr>sContainerID := []\<rparr>)"
  using container_stop [of "server store1" "''c1''"] by (simp add: detached_def)

section \<open>Pages, icons and static files\<close>



text \<open>
  C33. The page of services.  With any sorting algorithm that sorts, every service is in
  exactly one group, the one of its category; no group is empty or comes twice; the groups
  are sorted by name with the one without a name first; and within a group the services are
  sorted by their order and, where that is equal, by name.
\<close>

theorem services_page:
  assumes "slice_sort Slice"
  shows "grouping sOrder sName sCategory svcs (Groups (buildServicesGrid Slice svcs zone health searching)) \<and>
    (IsEmpty (buildServicesGrid Slice svcs zone health searching) \<longleftrightarrow> svcs = [])"
  by (rule buildServicesGrid_grouping [OF assms])

theorem services_page_witness:
  "grouping sOrder sName sCategory [wiki, blog] (Groups (buildServicesGrid SliceStable [wiki, blog] ''ex.org'' Map.empty False))"
  using services_page [OF stable.slice_sort_axioms] by blast









text \<open>
  C38. A static file, from the embedded files through the middleware to the client: for every
  \<open>Accept-Encoding\<close>, status 200, the type of its extension, and, once decoded, its bytes.
\<close>

theorem static_file_served:
  assumes "undoes inflate deflate" and "distinct (map fst embedded)" and "(file, Some data) \<in> set embedded"
    and "\<forall>p \<in> set (map fst embedded). HasPrefix p ''static/''"
  shows "let w = serve_http deflate ae (serveStaticFiles (getStaticAssets deflate embedded) (asset_url file) ae)
    in reply_code w = 200 \<and> decoded inflate w = data \<and> reply_header w ''Content-Type'' = static_type file \<and>
      reply_header w ''X-Content-Type-Options'' = ''nosniff''"
  using static_file_reply [where assets = "getStaticAssets deflate embedded" and path = "asset_url file" and ae = ae,
      OF assms(1) getStaticAssets_file [OF assms(2-4)] HOL.refl]
  by (simp add: Let_def)

theorem static_file_served_witness:
  "decoded tl (serve_http ((#) (CHR ''z'')) ''br, gzip''
     (serveStaticFiles (getStaticAssets ((#) (CHR ''z'')) [(''static/app.js'', Some ''x'')]) (asset_url ''static/app.js'')
       ''br, gzip'')) = ''x''"
  using static_file_served [OF ex_undoes, of "[(''static/app.js'', Some ''x'')]" "''static/app.js''" "''x''" "''br, gzip''"]
  by (simp add: Let_def HasPrefix_def)

section \<open>Certificates\<close>

text \<open>
  C39. A certificate that was obtained or renewed survives a restart: after a successful save,
  a program that starts while the certificate has thirty days left loads the same one, without
  asking Let's Encrypt.
\<close>

theorem certificate_survives:
  assumes "saveCert p res m = (Inr u, m')" and "DataDir (mcfg m) \<noteq> []"
    and "\<And>chain t. X509KeyPair p (resCertificate res) (resPrivateKey res) = Some chain \<Longrightarrow>
      leaf_of p chain = Some t \<Longrightarrow> now + 30 * day \<le> t"
  shows "EnsureCert p now (m'\<lparr>mcert := None\<rparr>) = (Inr (), m') \<and> mcert m' \<noteq> None"
proof -
  have "tryLoadExisting p now (m'\<lparr>mcert := None\<rparr>) = (True, m')" by (rule saved_cert_reloads [OF assms])
  then show ?thesis using saveCert_swaps [of p res m] assms(1) by (simp add: EnsureCert_def swaps_def)
qed

theorem certificate_survives_witness:
  "EnsureCert ex_pki 0 ((snd (saveCert ex_pki ex_res ex_manager))\<lparr>mcert := None\<rparr>) = (Inr (), snd (saveCert ex_pki ex_res ex_manager))"
proof -
  have "DataDir (mcfg ex_manager) \<noteq> []" by (simp add: ex_manager_def ex_cfg_def)
  from certificate_survives [OF ex_saveCert this, of 0] ex_leaf show ?thesis by fastforce
qed

text \<open>
  C40. After the fallback to a self-signed certificate, which the log announces with \<open>Let's
  Encrypt will retry\<close>, no turn of the renewal loop in the next sixty days does anything.
\<close>

theorem fallback_not_retried:
  assumes "useSelfSigned p now m = (Inr u, m')"
    and "\<And>ds t w chain w'. SelfSigned p ds t w = (Some chain, w') \<Longrightarrow> leaf_of p chain = Some t"
    and "later \<le> now + 60 * day"
  shows "renew_tick p later m' = m'"
  by (rule no_retry [OF assms])

theorem fallback_not_retried_witness:
  "let m' = snd (useSelfSigned ex_pki 0 ex_manager) in renew_tick ex_pki (60 * day) m' = m'"
  using fallback_not_retried [OF ex_selfSigned ex_self_leaf, where later = "60 * day"] by (simp add: Let_def)

end
